(* ===== verification/Prelude.thy ===== *)
theory Prelude
  imports Main "HOL-Library.Word" "HOL-Library.AList" "HOL-Library.Multiset"
begin

text \<open>
  Shared vocabulary of the development: machine integers, durations and instants, the small
  part of Rust's \<open>Option\<close>, \<open>Ordering\<close>, \<open>HashMap\<close> and slice API that several components use,
  and the generic lemmas about them.

  \<^item> Integers: \<open>u8\<close> to \<open>u128\<close> are words of that width; casts are \<open>ucast\<close>.
  \<^item> Time: an \<open>Instant\<close> is the number of nanoseconds since the origin of the monotonic clock and
    a \<open>Duration\<close> a number of nanoseconds. Subtracting below the origin is what
    \<open>checked_sub\<close> reports as \<open>None\<close>.
  \<^item> A \<open>HashMap\<close> is an association list with distinct keys (\<open>AList\<close>), so that its length and
    its iteration are defined; nothing depends on the order but where a definition takes the
    iteration order as an argument.
\<close>

section \<open>Types\<close>

type_synonym u8 = "8 word"
type_synonym u16 = "16 word"
type_synonym u32 = "32 word"
type_synonym u64 = "64 word"
type_synonym u128 = "128 word"
type_synonym bytes = "u8 list"
type_synonym instant = nat
type_synonym duration = nat
type_synonym ipv4 = u32
type_synonym ipv6 = u128

datatype ip_addr = V4 ipv4 | V6 ipv6

text \<open>Collections of rewrite rules that component proofs use together.\<close>

named_theorems opt_simps
  \<open>case analysis of the Option helpers\<close>
named_theorems ttl_simps
  \<open>what an operation does to the times to live of a message\<close>

section \<open>Durations\<close>

definition secs :: "nat \<Rightarrow> duration" where
  "secs n = n * 1000000000"

definition millis :: "nat \<Rightarrow> duration" where
  "millis n = n * 1000000"

definition as_secs :: "duration \<Rightarrow> nat" where
  "as_secs d = d div 1000000000"

definition checked_sub :: "instant \<Rightarrow> duration \<Rightarrow> instant option" where
  "checked_sub t d = (if d \<le> t then Some (t - d) else None)"

lemma as_secs_secs [simp]: "as_secs (secs n) = n"
  by (simp add: as_secs_def secs_def)

lemma secs_mono: "a \<le> b \<Longrightarrow> secs a \<le> secs b"
  by (simp add: secs_def)

lemma as_secs_mono: "a \<le> b \<Longrightarrow> as_secs a \<le> as_secs b"
  by (simp add: as_secs_def div_le_mono)

lemma secs_as_secs_le: "secs (as_secs d) \<le> d"
  by (simp add: as_secs_def secs_def)

section \<open>Option\<close>

text \<open>\<open>a.or(b)\<close> and \<open>a.or_else(|| b)\<close>: the closures of the source are pure.\<close>

definition or_else :: "'a option \<Rightarrow> 'a option \<Rightarrow> 'a option" where
  "or_else a b = (case a of None \<Rightarrow> b | Some x \<Rightarrow> Some x)"

definition unwrap_or :: "'a option \<Rightarrow> 'a \<Rightarrow> 'a" where
  "unwrap_or a d = (case a of None \<Rightarrow> d | Some x \<Rightarrow> x)"

definition opt_filter :: "('a \<Rightarrow> bool) \<Rightarrow> 'a option \<Rightarrow> 'a option" where
  "opt_filter p a = (case a of None \<Rightarrow> None | Some x \<Rightarrow> if p x then Some x else None)"

lemma or_else_simps [simp, opt_simps]:
  "or_else None b = b" "or_else (Some x) b = Some x" "or_else a None = a"
  by (simp_all add: or_else_def split: option.split)

lemma or_else_assoc: "or_else (or_else a b) c = or_else a (or_else b c)"
  by (cases a) simp_all

lemma or_else_idem [simp]: "or_else a a = a"
  by (cases a) simp_all

lemma or_else_eq_None [simp]: "or_else a b = None \<longleftrightarrow> a = None \<and> b = None"
  by (cases a) simp_all

lemma or_else_absorb [simp]: "or_else a (or_else a b) = or_else a b"
  by (cases a) simp_all

lemma unwrap_or_simps [simp, opt_simps]:
  "unwrap_or None d = d" "unwrap_or (Some x) d = x"
  by (simp_all add: unwrap_or_def)

lemma opt_filter_simps [simp, opt_simps]:
  "opt_filter p None = None"
  "opt_filter p (Some x) = (if p x then Some x else None)"
  by (simp_all add: opt_filter_def)

lemma opt_filter_Some_iff: "opt_filter p a = Some x \<longleftrightarrow> a = Some x \<and> p x"
  by (cases a) auto

text \<open>The first value of a list of alternatives, a chain of \<open>or_else\<close>.\<close>

fun first_some :: "'a option list \<Rightarrow> 'a option" where
  "first_some [] = None"
| "first_some (x # xs) = or_else x (first_some xs)"

lemma first_some_append [simp]: "first_some (xs @ ys) = or_else (first_some xs) (first_some ys)"
  by (induction xs) (simp_all add: or_else_assoc)

section \<open>Bytes\<close>

text \<open>\<open>u8::to_ascii_lowercase\<close> and \<open>slice::make_ascii_lowercase\<close>.\<close>

definition to_ascii_lowercase :: "u8 \<Rightarrow> u8" where
  "to_ascii_lowercase b = (if 65 \<le> b \<and> b \<le> 90 then b + 32 else b)"

definition lower :: "bytes \<Rightarrow> bytes" where
  "lower bs = map to_ascii_lowercase bs"

lemma length_lower [simp]: "length (lower bs) = length bs"
  by (simp add: lower_def)

lemma to_ascii_lowercase_idem [simp]:
  "to_ascii_lowercase (to_ascii_lowercase b) = to_ascii_lowercase b"
proof (cases "65 \<le> b \<and> b \<le> 90")
  case True
  then have "unat (b + 32) = unat b + 32"
    by (subst unat_word_ariths) (simp add: word_le_nat_alt)
  with True have "\<not> (b + 32 \<le> 90)"
    by (simp add: word_le_nat_alt)
  then show ?thesis
    using True by (simp add: to_ascii_lowercase_def)
qed (auto simp: to_ascii_lowercase_def)

lemma lower_idem [simp]: "lower (lower bs) = lower bs"
  by (simp add: lower_def)

text \<open>ASCII text as bytes.\<close>

definition ascii :: "string \<Rightarrow> bytes" where
  "ascii s = map (\<lambda>c. of_nat (of_char c)) s"

section \<open>Association lists as hash maps\<close>

type_synonym ('k, 'v) hmap = "('k \<times> 'v) list"

definition hmap_ok :: "('k, 'v) hmap \<Rightarrow> bool" where
  "hmap_ok m \<longleftrightarrow> distinct (map fst m)"

lemma hmap_ok_Nil [simp]: "hmap_ok []"
  by (simp add: hmap_ok_def)

lemma hmap_ok_update [simp]: "hmap_ok m \<Longrightarrow> hmap_ok (AList.update k v m)"
  by (simp add: hmap_ok_def distinct_update)

lemma hmap_ok_delete [simp]: "hmap_ok m \<Longrightarrow> hmap_ok (AList.delete k m)"
  by (simp add: hmap_ok_def distinct_delete)

lemma map_of_update [simp]: "map_of (AList.update k v m) = (map_of m)(k \<mapsto> v)"
  by (rule ext) (simp add: update_conv)

lemma map_of_delete [simp]: "map_of (AList.delete k m) = (map_of m)(k := None)"
  by (rule ext) (simp add: delete_conv)

lemma length_update:
  "hmap_ok m \<Longrightarrow> length (AList.update k v m) = (if map_of m k = None then Suc (length m) else length m)"
  by (induction m) (auto simp: hmap_ok_def)

section \<open>Stable sorting by a comparison function\<close>

datatype ordering = Less | Equal | Greater

text \<open>\<open>slice::sort_by\<close> and \<open>sort_by_key\<close> are stable; the model is the stable insertion sort.\<close>

fun insert_by :: "('a \<Rightarrow> 'a \<Rightarrow> ordering) \<Rightarrow> 'a \<Rightarrow> 'a list \<Rightarrow> 'a list" where
  "insert_by c x [] = [x]"
| "insert_by c x (y # ys) = (if c x y = Greater then y # insert_by c x ys else x # y # ys)"

definition sort_by :: "('a \<Rightarrow> 'a \<Rightarrow> ordering) \<Rightarrow> 'a list \<Rightarrow> 'a list" where
  "sort_by c xs = foldr (insert_by c) xs []"

definition cmp_of :: "'a::linorder \<Rightarrow> 'a \<Rightarrow> ordering" where
  "cmp_of a b = (if a < b then Less else if a = b then Equal else Greater)"

lemma mset_insert_by [simp]: "mset (insert_by c x xs) = add_mset x (mset xs)"
  by (induction xs) auto

lemma mset_sort_by [simp]: "mset (sort_by c xs) = mset xs"
  unfolding sort_by_def by (induction xs) auto

lemma set_sort_by [simp]: "set (sort_by c xs) = set xs"
  by (metis mset_sort_by set_mset_mset)

lemma length_sort_by [simp]: "length (sort_by c xs) = length xs"
  by (metis mset_sort_by size_mset)

lemma distinct_sort_by [simp]: "distinct (map f (sort_by c xs)) = distinct (map f xs)"
  by (metis mset_map mset_sort_by mset_eq_imp_distinct_iff)

lemma insert_by_key:
  "sorted_wrt (\<lambda>a b. k a \<le> k b) xs \<Longrightarrow>
   sorted_wrt (\<lambda>a b. k a \<le> k b) (insert_by (\<lambda>a b. cmp_of (k a) (k b)) x xs)"
proof (induction xs)
  case (Cons y ys)
  have s: "set (insert_by (\<lambda>a b. cmp_of (k a) (k b)) x ys) = insert x (set ys)"
    by (metis mset_insert_by set_mset_add_mset_insert set_mset_mset)
  have g: "cmp_of (k x) (k y) = Greater \<longleftrightarrow> k y < k x"
    by (auto simp: cmp_of_def)
  from Cons show ?case
    by (auto simp: s g)
qed simp

lemma sort_by_key_sorted: "sorted_wrt (\<lambda>a b. k a \<le> k b) (sort_by (\<lambda>a b. cmp_of (k a) (k b)) xs)"
  unfolding sort_by_def by (induction xs) (simp_all add: insert_by_key)

section \<open>Lists\<close>

text \<open>\<open>iter().min()\<close> and \<open>iter().max()\<close>.\<close>

definition list_min :: "'a::linorder list \<Rightarrow> 'a option" where
  "list_min xs = (if xs = [] then None else Some (Min (set xs)))"

definition list_max :: "'a::linorder list \<Rightarrow> 'a option" where
  "list_max xs = (if xs = [] then None else Some (Max (set xs)))"

lemma list_min_SomeD: "list_min xs = Some m \<Longrightarrow> m \<in> set xs \<and> (\<forall>x\<in>set xs. m \<le> x)"
  by (auto simp: list_min_def split: if_splits)

lemma list_min_None [simp]: "list_min xs = None \<longleftrightarrow> xs = []"
  by (simp add: list_min_def)

lemma find_SomeD: "find P xs = Some x \<Longrightarrow> x \<in> set xs \<and> P x"
  by (auto simp: find_Some_iff)

end
