(* ===== verification/Trie_Map.thy ===== *)
theory Trie_Map
  imports Prelude
begin

text \<open>
  The trie keyed by reversed label lists (\<open>src/collections.rs\<close>, \<open>mod trie\<close>): \<open>TrieMap\<close>,
  \<open>TrieNode\<close>, \<open>TrieKey\<close> and \<open>TrieSet\<close>. A node holds an optional value and a hash map of
  children. Keys are consumed from their end (\<open>Vec::pop\<close>, \<open>slice::last\<close>).

  The locale \<open>finite_map_impl\<close> states what a client of a trie relies on (a lookup after an
  insertion, the size); the interpretation proves it for \<open>TrieMap\<close>, by the refinement
  \<open>tm_abs\<close> to a partial function from non-empty keys to values.
\<close>

section \<open>Model\<close>

text \<open>The hash map of children is an association list; an iteration over \<open>values()\<close> feeds only
  sums and maxima, which do not depend on its order.\<close>

datatype ('k, 'v) trie_node = TrieNode (tn_value: "'v option") (tn_children: "('k \<times> ('k, 'v) trie_node) list")

type_synonym ('k, 'v) trie_map = "('k, ('k, 'v) trie_node) hmap"

definition tn_default :: "('k, 'v) trie_node" where
  "tn_default = TrieNode None []"

text \<open>\<open>Vec::pop\<close>: the last key and the keys before it. The recursion of \<open>TrieNode::insert\<close> is on
  the length of the key, so it is written on the reversed key.\<close>

primrec tn_insert_rev :: "'k list \<Rightarrow> 'v \<Rightarrow> ('k, 'v) trie_node \<Rightarrow> 'v option \<times> ('k, 'v) trie_node" where
  "tn_insert_rev [] v n = (tn_value n, TrieNode (Some v) (tn_children n))"
| "tn_insert_rev (k # ks) v n =
     (let (old, c) = tn_insert_rev ks v (unwrap_or (map_of (tn_children n) k) tn_default)
      in (old, TrieNode (tn_value n) (AList.update k c (tn_children n))))"

definition tn_insert :: "'k list \<Rightarrow> 'v \<Rightarrow> ('k, 'v) trie_node \<Rightarrow> 'v option \<times> ('k, 'v) trie_node" where
  "tn_insert keys v n = tn_insert_rev (rev keys) v n"

primrec tn_get_node_rev :: "'k list \<Rightarrow> ('k, 'v) trie_node \<Rightarrow> ('k, 'v) trie_node option" where
  "tn_get_node_rev [] n = Some n"
| "tn_get_node_rev (k # ks) n = Option.bind (map_of (tn_children n) k) (tn_get_node_rev ks)"

definition tn_get_node :: "'k list \<Rightarrow> ('k, 'v) trie_node \<Rightarrow> ('k, 'v) trie_node option" where
  "tn_get_node keys n = tn_get_node_rev (rev keys) n"

definition tn_get :: "'k list \<Rightarrow> ('k, 'v) trie_node \<Rightarrow> 'v option" where
  "tn_get keys n = Option.bind (tn_get_node keys n) tn_value"

definition tn_contains :: "'k list \<Rightarrow> ('k, 'v) trie_node \<Rightarrow> bool" where
  "tn_contains keys n \<longleftrightarrow> tn_get keys n \<noteq> None"

fun tn_degree :: "('k, 'v) trie_node \<Rightarrow> nat" where
  "tn_degree (TrieNode v cs) = 1 + unwrap_or (list_max (map (\<lambda>(k, c). tn_degree c) cs)) 0"

fun tn_len :: "('k, 'v) trie_node \<Rightarrow> nat" where
  "tn_len (TrieNode v cs) =
     (if v \<noteq> None then 1 else 0) + sum_list (map (\<lambda>(k, c). tn_len c) cs)"

definition tm_new :: "('k, 'v) trie_map" where
  "tm_new = []"

text \<open>An empty key stores nothing: the value comes back to the caller.\<close>

definition tm_insert :: "'k list \<Rightarrow> 'v \<Rightarrow> ('k, 'v) trie_map \<Rightarrow> 'v option \<times> ('k, 'v) trie_map" where
  "tm_insert keys v m =
     (if keys = [] then (Some v, m)
      else
        let key = last keys;
            (old, n) = tn_insert (butlast keys) v (unwrap_or (map_of m key) tn_default)
        in (old, AList.update key n m))"

definition tm_get :: "'k list \<Rightarrow> ('k, 'v) trie_map \<Rightarrow> 'v option" where
  "tm_get keys m =
     (if keys = [] then None
      else Option.bind (map_of m (last keys)) (tn_get (butlast keys)))"

definition tm_contains :: "'k list \<Rightarrow> ('k, 'v) trie_map \<Rightarrow> bool" where
  "tm_contains keys m \<longleftrightarrow> tm_get keys m \<noteq> None"

definition tm_degree :: "('k, 'v) trie_map \<Rightarrow> nat" where
  "tm_degree m = unwrap_or (list_max (map (\<lambda>(k, c). tn_degree c) m)) 0"

definition tm_len :: "('k, 'v) trie_map \<Rightarrow> nat" where
  "tm_len m = sum_list (map (\<lambda>(k, c). tn_len c) m)"

definition ts_insert :: "'k list \<Rightarrow> ('k, unit) trie_map \<Rightarrow> bool \<times> ('k, unit) trie_map" where
  "ts_insert keys m = (let (old, m') = tm_insert keys () m in (old = None, m'))"

definition ts_contains :: "'k list \<Rightarrow> ('k, unit) trie_map \<Rightarrow> bool" where
  "ts_contains keys m = tm_contains keys m"

definition ts_len :: "('k, unit) trie_map \<Rightarrow> nat" where
  "ts_len m = tm_len m"

section \<open>Contract\<close>

locale finite_map_impl =
  fixes ins :: "'key \<Rightarrow> 'v \<Rightarrow> 'm \<Rightarrow> 'v option \<times> 'm"
    and lookup :: "'key \<Rightarrow> 'm \<Rightarrow> 'v option"
    and size_of :: "'m \<Rightarrow> nat"
    and inv :: "'m \<Rightarrow> bool"
    and storable :: "'key \<Rightarrow> bool"
  assumes ins_inv: "inv m \<Longrightarrow> inv (snd (ins k v m))"
    and ins_lookup: "inv m \<Longrightarrow> storable k \<Longrightarrow>
      lookup j (snd (ins k v m)) = (if j = k then Some v else lookup j m)"
    and ins_old: "inv m \<Longrightarrow> storable k \<Longrightarrow> fst (ins k v m) = lookup k m"
    and ins_size: "inv m \<Longrightarrow> storable k \<Longrightarrow>
      size_of (snd (ins k v m)) = size_of m + (if lookup k m = None then 1 else 0)"
begin

definition build :: "('key \<times> 'v) list \<Rightarrow> 'm \<Rightarrow> 'm" where
  "build ps m = fold (\<lambda>(k, v) m. snd (ins k v m)) ps m"

lemma build_append: "build (ps @ [(k, v)]) m = snd (ins k v (build ps m))"
  by (simp add: build_def)

lemma build_inv: "inv m \<Longrightarrow> inv (build ps m)"
  by (induction ps rule: rev_induct) (auto simp: build_append build_def ins_inv)

lemma build_lookup:
  "inv m \<Longrightarrow> \<forall>k\<in>fst ` set ps. storable k \<Longrightarrow>
   lookup j (build ps m) = or_else (map_of (rev ps) j) (lookup j m)"
proof (induction ps rule: rev_induct)
  case (snoc p ps)
  then show ?case
    by (cases p) (auto simp: build_append build_inv ins_lookup)
qed (simp add: build_def)

lemma build_size:
  assumes "inv m" "\<forall>j. lookup j m = None" "\<forall>k\<in>fst ` set ps. storable k"
  shows "size_of (build ps m) = size_of m + card (fst ` set ps)"
  using assms(3)
proof (induction ps rule: rev_induct)
  case (snoc p ps)
  obtain k v where p: "p = (k, v)" by (cases p)
  have "lookup k (build ps m) = map_of (rev ps) k"
    using snoc.prems assms by (simp add: build_lookup)
  then have "lookup k (build ps m) = None \<longleftrightarrow> k \<notin> fst ` set ps"
    by (simp add: map_of_eq_None_iff)
  then show ?case
    using snoc assms p by (auto simp: build_append build_inv ins_size insert_absorb)
qed (simp add: build_def)

end

section \<open>TrieMap meets the contract\<close>

fun tn_inv :: "('k, 'v) trie_node \<Rightarrow> bool" where
  "tn_inv (TrieNode v cs) \<longleftrightarrow> hmap_ok cs \<and> (\<forall>c\<in>set (map snd cs). tn_inv c)"

definition tm_inv :: "('k, 'v) trie_map \<Rightarrow> bool" where
  "tm_inv m \<longleftrightarrow> hmap_ok m \<and> (\<forall>c\<in>set (map snd m). tn_inv c)"

lemma tn_default_simps [simp]:
  "tn_value tn_default = None" "tn_children tn_default = []" "tn_inv tn_default"
  "tn_len tn_default = 0" "tn_get_node_rev (k # ks) tn_default = None"
  by (simp_all add: tn_default_def)

lemma tm_inv_node: "tm_inv m \<Longrightarrow> tn_inv (TrieNode v m)"
  by (simp add: tm_inv_def)

lemma tn_inv_tm_inv: "tn_inv n \<longleftrightarrow> tm_inv (tn_children n)"
  by (cases n) (simp add: tm_inv_def)

lemma tm_inv_child: "tm_inv m \<Longrightarrow> tn_inv (unwrap_or (map_of m k) tn_default)"
  by (cases "map_of m k") (auto simp: tm_inv_def dest!: map_of_SomeD)

lemma tm_inv_update: "tm_inv m \<Longrightarrow> tn_inv c \<Longrightarrow> tm_inv (AList.update k c m)"
proof -
  have "set (map snd (AList.update k c m)) \<subseteq> insert c (set (map snd m))"
    by (induction m) auto
  then show "tm_inv m \<Longrightarrow> tn_inv c \<Longrightarrow> tm_inv (AList.update k c m)"
    unfolding tm_inv_def by (blast intro: hmap_ok_update)
qed

lemma tn_insert_rev_inv: "tn_inv n \<Longrightarrow> tn_inv (snd (tn_insert_rev ks v n))"
proof (induction ks arbitrary: n)
  case (Cons k ks)
  have m: "tm_inv (tn_children n)" using Cons.prems by (simp add: tn_inv_tm_inv)
  from tm_inv_update [OF m Cons.IH [OF tm_inv_child [OF m]]] show ?case
    by (simp add: split_beta Let_def tm_inv_node del: tn_inv.simps)
qed (simp add: tn_inv_tm_inv)

lemma tn_insert_rev_get:
  "Option.bind (tn_get_node_rev js (snd (tn_insert_rev ks v n))) tn_value =
     (if js = ks then Some v else Option.bind (tn_get_node_rev js n) tn_value)"
proof (induction ks arbitrary: js n)
  case Nil
  then show ?case by (cases js) auto
next
  case (Cons k ks)
  show ?case
  proof (cases js)
    case (Cons j js')
    show ?thesis
    proof (cases "map_of (tn_children n) k")
      case None
      then show ?thesis
        using Cons Cons.IH [of js' tn_default] by (cases js') (auto simp: split_beta Let_def)
    next
      case (Some c)
      then show ?thesis
        using Cons Cons.IH [of js' c] by (auto simp: split_beta Let_def)
    qed
  qed (auto simp: split_beta Let_def)
qed

lemma tn_insert_rev_old:
  "fst (tn_insert_rev ks v n) = Option.bind (tn_get_node_rev ks n) tn_value"
proof (induction ks arbitrary: n)
  case (Cons k ks)
  show ?case
  proof (cases "map_of (tn_children n) k")
    case None
    then show ?thesis
      using Cons.IH [of tn_default] by (cases ks) (auto simp: split_beta Let_def)
  qed (use Cons.IH in \<open>auto simp: split_beta Let_def\<close>)
qed simp

lemma sum_list_child:
  "hmap_ok m \<Longrightarrow>
   sum_list (map (\<lambda>(k, c). f c) (AList.update k n m)) + (case map_of m k of None \<Rightarrow> 0 | Some c \<Rightarrow> f c) =
   sum_list (map (\<lambda>(k, c). f c) m) + (f n :: nat)"
  by (induction m) (auto simp: hmap_ok_def map_of_eq_None_iff [symmetric] split: option.splits)

lemma tn_len_children: "tn_len n = (if tn_value n \<noteq> None then 1 else 0) + tm_len (tn_children n)"
  by (cases n) (simp add: tm_len_def)

lemma tn_len_node: "tn_len (TrieNode v m) = (if v \<noteq> None then 1 else 0) + tm_len m"
  by (simp add: tm_len_def)

lemma tm_len_update:
  "tm_inv m \<Longrightarrow>
   tm_len (AList.update k n m) + tn_len (unwrap_or (map_of m k) tn_default) = tm_len m + tn_len n"
  using sum_list_child [of m tn_len k n]
  by (cases "map_of m k") (auto simp: tm_len_def tm_inv_def)

lemma tn_insert_rev_len:
  "tn_inv n \<Longrightarrow> tn_len (snd (tn_insert_rev ks v n)) =
     tn_len n + (if fst (tn_insert_rev ks v n) = None then 1 else 0)"
proof (induction ks arbitrary: n)
  case (Cons k ks)
  let ?c = "unwrap_or (map_of (tn_children n) k) tn_default"
  have "tm_inv (tn_children n)" using Cons.prems by (simp add: tn_inv_tm_inv)
  then show ?case
    using Cons.IH [OF tm_inv_child, of "tn_children n" k]
      tm_len_update [of "tn_children n" k "snd (tn_insert_rev ks v ?c)"]
    by (auto simp: split_beta Let_def tn_len_node tn_len_children [of n] simp del: tn_len.simps)
qed (auto simp: tn_len_children tn_len_node simp del: tn_len.simps)

text \<open>A map is a node without a value, so its laws are those of a node.\<close>

lemma tm_insert_node:
  "keys \<noteq> [] \<Longrightarrow> tm_insert keys v m =
     map_prod id tn_children (tn_insert_rev (rev keys) v (TrieNode None m))"
  by (cases keys rule: rev_cases) (auto simp: tm_insert_def tn_insert_def Let_def split_beta)

lemma tm_get_node:
  "tm_get keys m = Option.bind (tn_get_node_rev (rev keys) (TrieNode None m)) tn_value"
  by (cases keys rule: rev_cases)
    (auto simp: tm_get_def tn_get_def [abs_def] tn_get_node_def split: option.splits)

lemma tn_get_node_rev_value:
  "Option.bind (tn_get_node_rev ks (TrieNode v m)) tn_value =
     (if ks = [] then v else Option.bind (tn_get_node_rev ks (TrieNode None m)) tn_value)"
  by (cases ks) auto

lemma tn_insert_rev_value: "ks \<noteq> [] \<Longrightarrow> tn_value (snd (tn_insert_rev ks v n)) = tn_value n"
  by (cases ks) (auto simp: split_beta Let_def)

interpretation tm: finite_map_impl tm_insert tm_get tm_len tm_inv "\<lambda>keys. keys \<noteq> []"
proof unfold_locales
  fix m :: "('k, 'v) trie_map" and k j :: "'k list" and v :: 'v
  assume inv: "tm_inv m"
  let ?n = "TrieNode None m"
  have n: "tn_inv ?n" using inv by (rule tm_inv_node)
  show "tm_inv (snd (tm_insert k v m))"
    using tn_insert_rev_inv [OF n, of "rev k" v] inv
    by (cases "k = []") (simp_all add: tm_insert_node tn_inv_tm_inv, simp add: tm_insert_def)
  assume k: "k \<noteq> []"
  let ?n' = "snd (tn_insert_rev (rev k) v ?n)"
  have n': "?n' = TrieNode None (snd (tm_insert k v m))"
    using tn_insert_rev_value [of "rev k" v ?n] k by (cases ?n') (simp add: tm_insert_node)
  show "tm_get j (snd (tm_insert k v m)) = (if j = k then Some v else tm_get j m)"
    using tn_insert_rev_get [of "rev j" "rev k" v ?n] by (simp add: tm_get_node n')
  show old: "fst (tm_insert k v m) = tm_get k m"
    using k by (simp add: tm_insert_node tm_get_node tn_insert_rev_old)
  have "fst (tm_insert k v m) = fst (tn_insert_rev (rev k) v ?n)"
    using k by (simp add: tm_insert_node)
  then show "tm_len (snd (tm_insert k v m)) = tm_len m + (if tm_get k m = None then 1 else 0)"
    using tn_insert_rev_len [OF n, of "rev k" v] old
    by (simp add: n' tn_len_node del: tn_len.simps)
qed

lemma tm_new_simps [simp]: "tm_inv tm_new" "tm_get j tm_new = None" "tm_len tm_new = 0"
  by (simp_all add: tm_new_def tm_inv_def tm_get_def tm_len_def)

text \<open>
  C7: The trie is a map from non-empty label lists to values. Building one from any series of
  insertions of non-empty keys, a lookup returns the value inserted last under exactly that key
  and nothing for another key (in particular no value for a proper suffix or an extension of a
  key), and the length is the number of different keys.
\<close>

theorem trie_refines_map:
  assumes "\<forall>k\<in>fst ` set ps. k \<noteq> []"
  shows "tm_get j (fold (\<lambda>(k, v) m. snd (tm_insert k v m)) ps tm_new) = map_of (rev ps) j \<and>
    tm_len (fold (\<lambda>(k, v) m. snd (tm_insert k v m)) ps tm_new) = card (fst ` set ps)"
  using tm.build_lookup [OF tm_new_simps(1) assms, of j] tm.build_size [OF tm_new_simps(1) _ assms]
  by (simp add: tm.build_def)

theorem trie_refines_map_witness:
  "tm_get [''www'', ''a'', ''com'']
      (fold (\<lambda>(k, v) m. snd (tm_insert k v m))
        [([''a'', ''com''], 1 :: nat), ([''www'', ''a'', ''com''], 2), ([''a'', ''com''], 3)] tm_new) = Some 2 \<and>
   tm_get [''com'']
      (fold (\<lambda>(k, v) m. snd (tm_insert k v m))
        [([''a'', ''com''], 1 :: nat), ([''www'', ''a'', ''com''], 2), ([''a'', ''com''], 3)] tm_new) = None"
proof -
  let ?ps = "[([''a'', ''com''], 1 :: nat), ([''www'', ''a'', ''com''], 2), ([''a'', ''com''], 3)]"
  have ne: "\<forall>k\<in>fst ` set ?ps. k \<noteq> []" by simp
  have "map_of (rev ?ps) [''www'', ''a'', ''com''] = Some 2" "map_of (rev ?ps) [''com''] = None"
    by code_simp+
  then show ?thesis
    using trie_refines_map [OF ne, of "[''www'', ''a'', ''com'']"] trie_refines_map [OF ne, of "[''com'']"]
    by presburger
qed

end
