(* ===== verification/Lru.thy ===== *)
theory Lru
  imports Prelude
begin

text \<open>
  The bounded map with least-recently-used eviction that the DNS cache stores its entries in.
  It comes from the \<open>lru\<close> package, so its operations are the fields of the record \<open>lru_lib\<close> and
  the locale \<open>lru_library\<close> states their documented behaviour, over the sequence of entries that
  \<open>iter\<close> yields, the most recently used first. \<open>lru_promote\<close> is the change of order that
  \<open>get_mut\<close> makes and \<open>lru_write\<close> the assignment through a reference obtained from \<open>get_mut\<close>,
  \<open>peek_mut\<close> or \<open>iter_mut\<close>. \<open>list_lru\<close> is an instance on which witnesses are evaluated.
\<close>

section \<open>Sequences of entries\<close>

definition l_find :: "('k \<Rightarrow> 'k \<Rightarrow> bool) \<Rightarrow> 'k \<Rightarrow> ('k \<times> 'v) list \<Rightarrow> ('k \<times> 'v) option" where
  "l_find e k xs = find (\<lambda>(k', _). e k' k) xs"

definition l_del :: "('k \<Rightarrow> 'k \<Rightarrow> bool) \<Rightarrow> 'k \<Rightarrow> ('k \<times> 'v) list \<Rightarrow> ('k \<times> 'v) list" where
  "l_del e k xs = filter (\<lambda>(k', _). \<not> e k' k) xs"

definition l_promote :: "('k \<Rightarrow> 'k \<Rightarrow> bool) \<Rightarrow> 'k \<Rightarrow> ('k \<times> 'v) list \<Rightarrow> ('k \<times> 'v) list" where
  "l_promote e k xs = (case l_find e k xs of None \<Rightarrow> xs | Some p \<Rightarrow> p # l_del e k xs)"

definition l_write :: "('k \<Rightarrow> 'k \<Rightarrow> bool) \<Rightarrow> 'k \<Rightarrow> 'v \<Rightarrow> ('k \<times> 'v) list \<Rightarrow> ('k \<times> 'v) list" where
  "l_write e k v xs = map (\<lambda>(k', v'). if e k' k then (k', v) else (k', v')) xs"

definition l_insert :: "nat \<Rightarrow> 'k \<Rightarrow> 'v \<Rightarrow> ('k \<times> 'v) list \<Rightarrow> ('k \<times> 'v) option \<times> ('k \<times> 'v) list" where
  "l_insert cap k v xs =
     (if length xs < cap then (None, (k, v) # xs) else (Some (last xs), (k, v) # butlast xs))"

text \<open>No two entries have equal keys.\<close>

fun keys_ok :: "('k \<Rightarrow> 'k \<Rightarrow> bool) \<Rightarrow> ('k \<times> 'v) list \<Rightarrow> bool" where
  "keys_ok e [] \<longleftrightarrow> True"
| "keys_ok e (p # xs) \<longleftrightarrow> (\<forall>q\<in>set xs. \<not> e (fst q) (fst p)) \<and> keys_ok e xs"

section \<open>The package\<close>

record ('c, 'k, 'v) lru_lib =
  lru_new :: "nat \<Rightarrow> 'c"
  lru_cap :: "'c \<Rightarrow> nat"
  lru_iter :: "'c \<Rightarrow> ('k \<times> 'v) list"
  lru_peek :: "'k \<Rightarrow> 'c \<Rightarrow> 'v option"
  lru_promote :: "'k \<Rightarrow> 'c \<Rightarrow> 'c"
  lru_write :: "'k \<Rightarrow> 'v \<Rightarrow> 'c \<Rightarrow> 'c"
  lru_push :: "'k \<Rightarrow> 'v \<Rightarrow> 'c \<Rightarrow> ('k \<times> 'v) option \<times> 'c"
  lru_put :: "'k \<Rightarrow> 'v \<Rightarrow> 'c \<Rightarrow> 'v option \<times> 'c"
  lru_pop :: "'k \<Rightarrow> 'c \<Rightarrow> 'v option \<times> 'c"
  lru_pop_lru :: "'c \<Rightarrow> ('k \<times> 'v) option \<times> 'c"
  lru_clear :: "'c \<Rightarrow> 'c"

locale key_equality =
  fixes e :: "'k \<Rightarrow> 'k \<Rightarrow> bool"
  assumes e_refl: "e k k" and e_sym: "e j k \<Longrightarrow> e k j" and e_trans: "e i j \<Longrightarrow> e j k \<Longrightarrow> e i k"
begin

lemma keys_ok_mem:
  "keys_ok e xs \<Longrightarrow> p \<in> set xs \<Longrightarrow> q \<in> set xs \<Longrightarrow> e (fst p) (fst q) \<Longrightarrow> p = q"
  by (induction xs) (auto dest: e_sym)

lemma keys_ok_filter: "keys_ok e xs \<Longrightarrow> keys_ok e (filter P xs)"
  by (induction xs) auto

lemma keys_ok_promote: "keys_ok e xs \<Longrightarrow> keys_ok e (l_promote e k xs)"
  unfolding l_promote_def l_find_def l_del_def
  by (auto split: option.split simp: keys_ok_filter dest!: find_SomeD) (metis e_trans e_sym)

lemma keys_ok_map_fst: "map fst ys = map fst xs \<Longrightarrow> keys_ok e xs \<Longrightarrow> keys_ok e ys"
proof (induction xs arbitrary: ys)
  case (Cons x xs)
  then obtain y zs where ys: "ys = y # zs" "fst y = fst x" "map fst zs = map fst xs"
    by (cases ys) auto
  then have "fst ` set zs = fst ` set xs"
    by (metis set_map)
  then have "\<forall>q\<in>set zs. \<not> e (fst q) (fst y)"
    using Cons.prems(2) ys(2) by (metis image_iff keys_ok.simps(2))
  then show ?case
    using Cons.IH [OF ys(3)] Cons.prems(2) ys(1) by simp
qed simp

lemma fst_l_write: "map fst (l_write e k v xs) = map fst xs"
  by (auto simp: l_write_def)

lemma l_find_SomeD: "l_find e k xs = Some p \<Longrightarrow> p \<in> set xs \<and> e (fst p) k"
  by (auto simp: l_find_def dest!: find_SomeD)

lemma l_find_None: "l_find e k xs = None \<longleftrightarrow> (\<forall>p\<in>set xs. \<not> e (fst p) k)"
  by (auto simp: l_find_def find_None_iff)

lemma l_del_set: "p \<in> set (l_del e k xs) \<longleftrightarrow> p \<in> set xs \<and> \<not> e (fst p) k"
  by (auto simp: l_del_def)

lemma mset_l_del:
  "keys_ok e xs \<Longrightarrow> l_find e k xs = Some p \<Longrightarrow> add_mset p (mset (l_del e k xs)) = mset xs"
proof (induction xs)
  case (Cons x xs)
  show ?case
  proof (cases "e (fst x) k")
    case True
    have "\<not> e (fst q) k" if "q \<in> set xs" for q
      using Cons.prems(1) that True by (metis e_sym e_trans keys_ok.simps(2))
    then have "l_del e k (x # xs) = xs"
      using True by (auto simp: l_del_def split_beta filter_id_conv)
    then show ?thesis
      using Cons.prems True by (auto simp: l_find_def split_beta)
  next
    case False
    then show ?thesis
      using Cons by (auto simp: l_find_def l_del_def split_beta)
  qed
qed (simp add: l_find_def)

lemma mset_l_promote: "keys_ok e xs \<Longrightarrow> mset (l_promote e k xs) = mset xs"
  by (auto simp: l_promote_def mset_l_del split: option.split)

text \<open>Writing a value changes exactly the entry found.\<close>

lemma mset_l_write:
  assumes "keys_ok e xs" "l_find e k xs = Some p"
  shows "mset (l_write e k v xs) = add_mset (fst p, v) (mset (l_del e k xs))"
  using assms
proof (induction xs)
  case (Cons x xs)
  show ?case
  proof (cases "e (fst x) k")
    case True
    have no: "\<not> e (fst q) k" if "q \<in> set xs" for q
      using Cons.prems(1) that True by (metis e_sym e_trans keys_ok.simps(2))
    then have "l_del e k (x # xs) = xs" "l_write e k v xs = xs"
      using True by (auto simp: l_del_def l_write_def split_beta filter_id_conv intro: map_idI)
    then show ?thesis
      using Cons.prems True by (auto simp: l_find_def split_beta) (auto simp: l_write_def split_beta)
  next
    case False
    then show ?thesis
      using Cons by (auto simp: l_find_def l_del_def l_write_def split_beta)
  qed
qed (simp add: l_find_def)

lemma l_promote_find: "l_find e k (l_promote e k xs) = l_find e k xs"
  by (auto simp: l_promote_def l_find_def split: option.split dest: find_SomeD)

lemma l_write_find:
  "l_find e k xs = Some p \<Longrightarrow> l_find e k (l_write e k v xs) = Some (fst p, v)"
  by (induction xs) (auto simp: l_find_def l_write_def split_beta split: if_splits)

end

locale lru_library = key_equality e for e :: "'k \<Rightarrow> 'k \<Rightarrow> bool" +
  fixes U :: "('c, 'k, 'v) lru_lib"
  assumes iter_new: "1 \<le> n \<Longrightarrow> lru_iter U (lru_new U n) = []"
    and cap_new: "1 \<le> n \<Longrightarrow> lru_cap U (lru_new U n) = n"
    and peek: "lru_peek U k c = map_option snd (l_find e k (lru_iter U c))"
    and iter_promote: "lru_iter U (lru_promote U k c) = l_promote e k (lru_iter U c)"
    and cap_promote: "lru_cap U (lru_promote U k c) = lru_cap U c"
    and iter_write: "lru_iter U (lru_write U k v c) = l_write e k v (lru_iter U c)"
    and cap_write: "lru_cap U (lru_write U k v c) = lru_cap U c"
    and push_absent: "l_find e k (lru_iter U c) = None \<Longrightarrow> 1 \<le> lru_cap U c \<Longrightarrow>
      fst (lru_push U k v c) = fst (l_insert (lru_cap U c) k v (lru_iter U c)) \<and>
      lru_iter U (snd (lru_push U k v c)) = snd (l_insert (lru_cap U c) k v (lru_iter U c))"
    and cap_push: "lru_cap U (snd (lru_push U k v c)) = lru_cap U c"
    and put: "1 \<le> lru_cap U c \<Longrightarrow>
      lru_iter U (snd (lru_put U k v c)) =
        (case l_find e k (lru_iter U c) of
           Some p \<Rightarrow> (fst p, v) # l_del e k (lru_iter U c)
         | None \<Rightarrow> snd (l_insert (lru_cap U c) k v (lru_iter U c)))"
    and cap_put: "lru_cap U (snd (lru_put U k v c)) = lru_cap U c"
    and pop: "fst (lru_pop U k c) = map_option snd (l_find e k (lru_iter U c)) \<and>
      lru_iter U (snd (lru_pop U k c)) = l_del e k (lru_iter U c)"
    and cap_pop: "lru_cap U (snd (lru_pop U k c)) = lru_cap U c"
    and pop_lru: "fst (lru_pop_lru U c) = (if lru_iter U c = [] then None else Some (last (lru_iter U c))) \<and>
      lru_iter U (snd (lru_pop_lru U c)) = butlast (lru_iter U c)"
    and cap_pop_lru: "lru_cap U (snd (lru_pop_lru U c)) = lru_cap U c"
    and iter_clear: "lru_iter U (lru_clear U c) = []"
    and cap_clear: "lru_cap U (lru_clear U c) = lru_cap U c"
begin

lemmas iter_simps = iter_promote iter_write iter_clear pop pop_lru
lemmas cap_simps = cap_promote cap_write cap_push cap_put cap_pop cap_pop_lru cap_clear

end

section \<open>An instance\<close>

definition list_lru :: "('k \<Rightarrow> 'k \<Rightarrow> bool) \<Rightarrow> (nat \<times> ('k \<times> 'v) list, 'k, 'v) lru_lib" where
  "list_lru e =
     \<lparr>lru_new = (\<lambda>n. (n, [])), lru_cap = fst, lru_iter = snd,
      lru_peek = (\<lambda>k c. map_option snd (l_find e k (snd c))),
      lru_promote = (\<lambda>k c. (fst c, l_promote e k (snd c))),
      lru_write = (\<lambda>k v c. (fst c, l_write e k v (snd c))),
      lru_push = (\<lambda>k v c. let (o', xs) = l_insert (fst c) k v (snd c) in (o', fst c, xs)),
      lru_put = (\<lambda>k v c. (map_option snd (l_find e k (snd c)), fst c,
        (case l_find e k (snd c) of
           Some p \<Rightarrow> (fst p, v) # l_del e k (snd c)
         | None \<Rightarrow> snd (l_insert (fst c) k v (snd c))))),
      lru_pop = (\<lambda>k c. (map_option snd (l_find e k (snd c)), fst c, l_del e k (snd c))),
      lru_pop_lru = (\<lambda>c. (if snd c = [] then None else Some (last (snd c)), fst c, butlast (snd c))),
      lru_clear = (\<lambda>c. (fst c, []))\<rparr>"

lemma list_lru_library: "key_equality e \<Longrightarrow> lru_library e (list_lru e)"
  unfolding lru_library_def lru_library_axioms_def
  by (auto simp: list_lru_def Let_def split_beta split: option.split)

end
