(* ===== verification/Dns_Types.thy ===== *)
theory Dns_Types
  imports Prelude
begin

text \<open>
  The DNS data model and the response object.

  The message, record and query structures come from the \<open>hickory_proto\<close> package; they are
  plain data here, with the fields the program reads or writes, and the discriminators of
  their enums (\<open>record_type\<close>, \<open>is_ip_addr\<close>, \<open>ip_addr\<close>). What that package computes (encoding
  a message) is an argument of the definitions that use it. The operations of
  \<^verbatim>\<open>src/src/dns.rs\<close> (\<open>DnsResponse\<close>, \<open>TtlLimits\<close>), \<^verbatim>\<open>src/src/libdns/mod.rs\<close> (\<open>TtlClip\<close>) and
  \<^verbatim>\<open>src/src/dns_error.rs\<close> (\<open>LookupError\<close>) follow the source one by one. The main lemmas show
  that a prepared encoding kept beside a message is always the encoding of that message, and
  what the TTL operations do to each record.
\<close>

section \<open>Messages\<close>

text \<open>A domain name: its labels, first label first, and whether it was written with a final dot.\<close>

record name =
  nm_labels :: "bytes list"
  nm_fqdn :: bool

definition ascii_name :: "string list \<Rightarrow> bool \<Rightarrow> name" where
  "ascii_name ls f = \<lparr>nm_labels = map ascii ls, nm_fqdn = f\<rparr>"

datatype record_type =
  RT_A | RT_AAAA | RT_CNAME | RT_HTTPS | RT_SOA | RT_SRV | RT_TXT | RT_PTR | RT_OTHER u16

datatype response_code = NoError | NXDomain | ServFail | Refused | RC_OTHER u16

record soa =
  soa_mname :: name
  soa_rname :: name
  soa_serial :: u32
  soa_refresh :: int
  soa_retry :: int
  soa_expire :: int
  soa_minimum :: u32

text \<open>An SVCB or HTTPS record: the parameters are pairs of a key's number and a value's encoding.\<close>

record svcb =
  sv_priority :: u16
  sv_target :: name
  sv_params :: "(u16 \<times> bytes) list"

datatype rdata =
  RD_A ipv4 | RD_AAAA ipv6 | RD_CNAME name | RD_PTR name | RD_SOA soa | RD_SVCB record_type svcb
| RD_OTHER record_type bytes

record query =
  q_name :: name
  q_type :: record_type
  q_class :: u16

record rr =
  rr_name :: name
  rr_ttl :: u32
  rr_data :: rdata

record message =
  msg_rcode :: response_code
  msg_truncated :: bool
  msg_queries :: "query list"
  msg_answers :: "rr list"
  msg_authorities :: "rr list"
  msg_additionals :: "rr list"

fun is_ip_addr :: "record_type \<Rightarrow> bool" where
  "is_ip_addr RT_A = True"
| "is_ip_addr RT_AAAA = True"
| "is_ip_addr _ = False"

fun rdata_type :: "rdata \<Rightarrow> record_type" where
  "rdata_type (RD_A _) = RT_A"
| "rdata_type (RD_AAAA _) = RT_AAAA"
| "rdata_type (RD_CNAME _) = RT_CNAME"
| "rdata_type (RD_PTR _) = RT_PTR"
| "rdata_type (RD_SOA _) = RT_SOA"
| "rdata_type (RD_SVCB t _) = t"
| "rdata_type (RD_OTHER t _) = t"

fun rdata_ip :: "rdata \<Rightarrow> ip_addr option" where
  "rdata_ip (RD_A a) = Some (V4 a)"
| "rdata_ip (RD_AAAA a) = Some (V6 a)"
| "rdata_ip _ = None"

definition rdata_of_ip :: "ip_addr \<Rightarrow> rdata" where
  "rdata_of_ip i = (case i of V4 a \<Rightarrow> RD_A a | V6 a \<Rightarrow> RD_AAAA a)"

abbreviation rr_type :: "rr \<Rightarrow> record_type" where
  "rr_type r \<equiv> rdata_type (rr_data r)"

abbreviation rr_ip :: "rr \<Rightarrow> ip_addr option" where
  "rr_ip r \<equiv> rdata_ip (rr_data r)"

definition from_rdata :: "name \<Rightarrow> u32 \<Rightarrow> rdata \<Rightarrow> rr" where
  "from_rdata n t d = \<lparr>rr_name = n, rr_ttl = t, rr_data = d\<rparr>"

text \<open>\<open>Query::default()\<close>, what \<open>DEFAULT_QUERY\<close> holds: the root name, type A, class IN.\<close>

definition default_query :: query where
  "default_query = \<lparr>q_name = \<lparr>nm_labels = [], nm_fqdn = True\<rparr>, q_type = RT_A, q_class = 1\<rparr>"

lemma rdata_ip_type: "rdata_ip d = Some i \<Longrightarrow> is_ip_addr (rdata_type d)"
  by (cases d) auto

section \<open>TtlClip\<close>

definition set_max_ttl_rr :: "u32 \<Rightarrow> rr \<Rightarrow> rr" where
  "set_max_ttl_rr t r = (if rr_ttl r > t then r\<lparr>rr_ttl := t\<rparr> else r)"

definition set_min_ttl_rr :: "u32 \<Rightarrow> rr \<Rightarrow> rr" where
  "set_min_ttl_rr t r = (if rr_ttl r < t then r\<lparr>rr_ttl := t\<rparr> else r)"

definition set_ttl_rr :: "u32 \<Rightarrow> rr \<Rightarrow> rr" where
  "set_ttl_rr t r = r\<lparr>rr_ttl := t\<rparr>"

lemma set_max_ttl_rr_simps [simp, ttl_simps]:
  "rr_ttl (set_max_ttl_rr t r) = min (rr_ttl r) t"
  "rr_name (set_max_ttl_rr t r) = rr_name r" "rr_data (set_max_ttl_rr t r) = rr_data r"
  by (auto simp: set_max_ttl_rr_def min_def)

lemma set_min_ttl_rr_simps [simp, ttl_simps]:
  "rr_ttl (set_min_ttl_rr t r) = max (rr_ttl r) t"
  "rr_name (set_min_ttl_rr t r) = rr_name r" "rr_data (set_min_ttl_rr t r) = rr_data r"
  by (auto simp: set_min_ttl_rr_def max_def)

lemma set_max_ttl_rr_id: "rr_ttl r \<le> t \<Longrightarrow> set_max_ttl_rr t r = r"
  by (auto simp: set_max_ttl_rr_def)

lemma set_max_ttl_rr_map_id: "\<forall>r\<in>set rs. rr_ttl r \<le> t \<Longrightarrow> map (set_max_ttl_rr t) rs = rs"
  by (induction rs) (auto simp: set_max_ttl_rr_id)

section \<open>TtlLimits\<close>

record ttl_limits =
  tl_min :: "u32 option"
  tl_max :: "u32 option"

definition ttl_apply :: "ttl_limits \<Rightarrow> u32 \<Rightarrow> u32" where
  "ttl_apply l ttl =
     (let ttl = (case tl_max l of None \<Rightarrow> ttl | Some m \<Rightarrow> min ttl m)
      in case tl_min l of None \<Rightarrow> ttl | Some m \<Rightarrow> max ttl m)"

section \<open>DnsResponse\<close>

datatype probe_result = Unchecked | Failed | Measured duration

record dns_response =
  dr_message :: message
  dr_prepared_wire :: "bytes option"
  dr_wire_len :: "nat option"
  dr_valid_until :: instant
  dr_group :: "string option"
  dr_probe :: probe_result

definition MAX_TTL :: u32 where
  "MAX_TTL = 86400"

abbreviation answers :: "dns_response \<Rightarrow> rr list" where
  "answers r \<equiv> msg_answers (dr_message r)"

abbreviation authorities :: "dns_response \<Rightarrow> rr list" where
  "authorities r \<equiv> msg_authorities (dr_message r)"

abbreviation additionals :: "dns_response \<Rightarrow> rr list" where
  "additionals r \<equiv> msg_additionals (dr_message r)"

abbreviation rcode :: "dns_response \<Rightarrow> response_code" where
  "rcode r \<equiv> msg_rcode (dr_message r)"

text \<open>\<open>PartialEq\<close> compares the message and the group only.\<close>

definition dr_eq :: "dns_response \<Rightarrow> dns_response \<Rightarrow> bool" where
  "dr_eq a b \<longleftrightarrow> dr_message a = dr_message b \<and> dr_group a = dr_group b"

definition new_with_deadline :: "query \<Rightarrow> rr list \<Rightarrow> instant \<Rightarrow> dns_response" where
  "new_with_deadline q rs until =
     \<lparr>dr_message = \<lparr>msg_rcode = NoError, msg_truncated = False, msg_queries = [q],
        msg_answers = rs, msg_authorities = [], msg_additionals = []\<rparr>,
      dr_prepared_wire = None, dr_wire_len = None, dr_valid_until = until,
      dr_group = None, dr_probe = Unchecked\<rparr>"

definition new_with_max_ttl :: "instant \<Rightarrow> query \<Rightarrow> rr list \<Rightarrow> dns_response" where
  "new_with_max_ttl now q rs = new_with_deadline q rs (now + secs (unat MAX_TTL))"

definition empty_response :: "instant \<Rightarrow> dns_response" where
  "empty_response now =
     \<lparr>dr_message = \<lparr>msg_rcode = NoError, msg_truncated = False, msg_queries = [],
        msg_answers = [], msg_authorities = [], msg_additionals = []\<rparr>,
      dr_prepared_wire = None, dr_wire_len = None, dr_valid_until = now,
      dr_group = None, dr_probe = Unchecked\<rparr>"

definition response_from_rdata :: "instant \<Rightarrow> query \<Rightarrow> rdata \<Rightarrow> dns_response" where
  "response_from_rdata now q d = new_with_max_ttl now q [from_rdata (q_name q) MAX_TTL d]"

definition dr_query :: "dns_response \<Rightarrow> query" where
  "dr_query r = (case msg_queries (dr_message r) of [] \<Rightarrow> default_query | q # _ \<Rightarrow> q)"

definition prepare_wire :: "(message \<Rightarrow> bytes option) \<Rightarrow> dns_response \<Rightarrow> dns_response" where
  "prepare_wire enc r =
     (if dr_prepared_wire r = None then r\<lparr>dr_prepared_wire := enc (dr_message r)\<rparr> else r)"

definition size_of_usize :: nat where
  "size_of_usize = 8"

definition prepared_wire_memory :: "dns_response \<Rightarrow> nat" where
  "prepared_wire_memory r =
     (case dr_prepared_wire r of None \<Rightarrow> 0 | Some w \<Rightarrow> length w + 2 * size_of_usize)"

definition to_vec :: "(message \<Rightarrow> bytes option) \<Rightarrow> dns_response \<Rightarrow> bytes option" where
  "to_vec enc r = (case dr_prepared_wire r of Some w \<Rightarrow> Some w | None \<Rightarrow> enc (dr_message r))"

definition with_valid_until :: "instant \<Rightarrow> dns_response \<Rightarrow> dns_response" where
  "with_valid_until t r = r\<lparr>dr_valid_until := t\<rparr>"

definition with_name_server_group :: "string \<Rightarrow> dns_response \<Rightarrow> dns_response" where
  "with_name_server_group g r = r\<lparr>dr_group := Some g\<rparr>"

definition with_probe_result :: "probe_result \<Rightarrow> dns_response \<Rightarrow> dns_response" where
  "with_probe_result p r = r\<lparr>dr_probe := p\<rparr>"

definition ip_addrs :: "dns_response \<Rightarrow> ip_addr list" where
  "ip_addrs r = List.map_filter rr_ip (answers r)"

definition set_valid_until :: "instant \<Rightarrow> u32 \<Rightarrow> dns_response \<Rightarrow> dns_response" where
  "set_valid_until now ttl r = r\<lparr>dr_valid_until := now + secs (unat ttl)\<rparr>"

definition set_valid_until_max :: "instant \<Rightarrow> dns_response \<Rightarrow> dns_response" where
  "set_valid_until_max now r = set_valid_until now MAX_TTL r"

definition into_reply_parts :: "dns_response \<Rightarrow> message \<times> bytes option" where
  "into_reply_parts r = (dr_message r, dr_prepared_wire r)"

text \<open>
  \<open>DerefMut\<close>: every access to the message that may change it drops the prepared encoding and
  the received length first; \<open>f\<close> is what the caller then does to the message.
\<close>

definition deref_mut :: "(message \<Rightarrow> message) \<Rightarrow> dns_response \<Rightarrow> dns_response" where
  "deref_mut f r =
     r\<lparr>dr_wire_len := None, dr_prepared_wire := None, dr_message := f (dr_message r)\<rparr>"

definition set_response_code :: "response_code \<Rightarrow> dns_response \<Rightarrow> dns_response" where
  "set_response_code c = deref_mut (\<lambda>m. m\<lparr>msg_rcode := c\<rparr>)"

definition add_answer :: "rr \<Rightarrow> dns_response \<Rightarrow> dns_response" where
  "add_answer x = deref_mut (\<lambda>m. m\<lparr>msg_answers := msg_answers m @ [x]\<rparr>)"

definition add_authority :: "rr \<Rightarrow> dns_response \<Rightarrow> dns_response" where
  "add_authority x = deref_mut (\<lambda>m. m\<lparr>msg_authorities := msg_authorities m @ [x]\<rparr>)"

definition add_additional :: "rr \<Rightarrow> dns_response \<Rightarrow> dns_response" where
  "add_additional x = deref_mut (\<lambda>m. m\<lparr>msg_additionals := msg_additionals m @ [x]\<rparr>)"

definition set_answers :: "rr list \<Rightarrow> dns_response \<Rightarrow> dns_response" where
  "set_answers rs = deref_mut (\<lambda>m. m\<lparr>msg_answers := rs\<rparr>)"

definition set_queries :: "query list \<Rightarrow> dns_response \<Rightarrow> dns_response" where
  "set_queries qs = deref_mut (\<lambda>m. m\<lparr>msg_queries := qs\<rparr>)"

text \<open>\<open>take_answers\<close>: the answers, and the response without them.\<close>

definition take_answers :: "dns_response \<Rightarrow> rr list \<times> dns_response" where
  "take_answers r = (answers r, set_answers [] r)"

definition from_message :: "instant \<Rightarrow> message \<Rightarrow> dns_response" where
  "from_message now m =
     \<lparr>dr_message = m, dr_prepared_wire = None, dr_wire_len = None,
      dr_valid_until = now + secs (unat (unwrap_or (list_min (map rr_ttl (msg_answers m))) MAX_TTL)),
      dr_group = None, dr_probe = Unchecked\<rparr>"

text \<open>A response received from an upstream: the message and the length of the buffer it came in.\<close>

definition from_xfer :: "instant \<Rightarrow> message \<Rightarrow> nat \<Rightarrow> dns_response" where
  "from_xfer now m buffer_len =
     (from_message now m)\<lparr>dr_wire_len := (if buffer_len = 0 then None else Some buffer_len)\<rparr>"

definition max_ttl :: "dns_response \<Rightarrow> u32 option" where
  "max_ttl r = list_max (map rr_ttl (answers r))"

definition min_ttl :: "dns_response \<Rightarrow> u32 option" where
  "min_ttl r = list_min (map rr_ttl (answers r))"

definition set_new_ttl :: "u32 \<Rightarrow> dns_response \<Rightarrow> dns_response" where
  "set_new_ttl ttl r =
     (if list_ex (\<lambda>x. rr_ttl x \<noteq> ttl) (answers r)
      then r\<lparr>dr_prepared_wire := None,
             dr_message := (dr_message r)\<lparr>msg_answers := map (set_ttl_rr ttl) (answers r)\<rparr>\<rparr>
      else r)"

definition set_max_ttl :: "u32 \<Rightarrow> dns_response \<Rightarrow> dns_response" where
  "set_max_ttl ttl r =
     (if \<not> list_ex (\<lambda>x. rr_ttl x > ttl) (answers r @ authorities r @ additionals r)
      then r
      else r\<lparr>dr_prepared_wire := None,
             dr_message := (dr_message r)\<lparr>
               msg_answers := map (set_max_ttl_rr ttl) (answers r),
               msg_authorities := map (set_max_ttl_rr ttl) (authorities r),
               msg_additionals := map (set_max_ttl_rr ttl) (additionals r)\<rparr>\<rparr>)"

definition set_min_ttl :: "u32 \<Rightarrow> dns_response \<Rightarrow> dns_response" where
  "set_min_ttl ttl r =
     (if list_ex (\<lambda>x. rr_ttl x < ttl) (answers r)
      then r\<lparr>dr_prepared_wire := None,
             dr_message := (dr_message r)\<lparr>msg_answers := map (set_min_ttl_rr ttl) (answers r)\<rparr>\<rparr>
      else r)"

definition default_soa :: soa where
  "default_soa =
     \<lparr>soa_mname = ascii_name [''a'', ''gtld-servers'', ''net''] False,
      soa_rname = ascii_name [''nstld'', ''verisign-grs'', ''com''] False,
      soa_serial = 1800, soa_refresh = 1800, soa_retry = 900, soa_expire = 604800,
      soa_minimum = 86400\<rparr>"

definition default_soa_rdata :: rdata where
  "default_soa_rdata = RD_SOA default_soa"

section \<open>Lookup errors\<close>

record no_records =
  nr_soa :: "rr option"
  nr_response_code :: response_code

datatype proto_error_kind =
  NoRecordsFound no_records | NoConnections | ProtoTimeout | ProtoOther string

datatype lookup_error =
  NameExists | ErrResponseCode response_code | ErrProto proto_error_kind | ErrIo string

definition is_nx_domain :: "lookup_error \<Rightarrow> bool" where
  "is_nx_domain e \<longleftrightarrow>
     (case e of
        ErrResponseCode c \<Rightarrow> c = NXDomain
      | ErrProto (NoRecordsFound nr) \<Rightarrow> nr_response_code nr = NXDomain
      | _ \<Rightarrow> False)"

definition is_negative_response :: "lookup_error \<Rightarrow> bool" where
  "is_negative_response e \<longleftrightarrow>
     is_nx_domain e \<or>
     (case e of ErrProto (NoRecordsFound nr) \<Rightarrow> nr_response_code nr = NoError | _ \<Rightarrow> False)"

definition is_soa_error :: "lookup_error \<Rightarrow> bool" where
  "is_soa_error e \<longleftrightarrow>
     (case e of ErrProto (NoRecordsFound nr) \<Rightarrow> nr_soa nr \<noteq> None | _ \<Rightarrow> False)"

definition as_soa :: "instant \<Rightarrow> lookup_error \<Rightarrow> query \<Rightarrow> dns_response option" where
  "as_soa now e q =
     (case e of
        ErrProto (NoRecordsFound nr) \<Rightarrow>
          (case nr_soa nr of
             Some rec \<Rightarrow> Some (add_authority rec (new_with_max_ttl now q []))
           | None \<Rightarrow> None)
      | _ \<Rightarrow> None)"

definition as_no_records_response :: "instant \<Rightarrow> lookup_error \<Rightarrow> query \<Rightarrow> dns_response option" where
  "as_no_records_response now e q =
     (case e of
        ErrResponseCode c \<Rightarrow> Some (set_response_code c (new_with_max_ttl now q []))
      | ErrProto (NoRecordsFound nr) \<Rightarrow>
          (let r = set_response_code (nr_response_code nr) (new_with_max_ttl now q [])
           in Some (case nr_soa nr of Some rec \<Rightarrow> add_authority rec r | None \<Rightarrow> r))
      | _ \<Rightarrow> None)"

definition no_records_found :: "query \<Rightarrow> u32 \<Rightarrow> lookup_error" where
  "no_records_found q ttl =
     ErrProto (NoRecordsFound
       \<lparr>nr_soa = Some (from_rdata (q_name q) ttl default_soa_rdata), nr_response_code = ServFail\<rparr>)"

type_synonym dns_result = "lookup_error + dns_response"

section \<open>What the operations do to a response\<close>

lemma deref_mut_simps [simp]:
  "dr_message (deref_mut f r) = f (dr_message r)"
  "dr_prepared_wire (deref_mut f r) = None"
  "dr_wire_len (deref_mut f r) = None"
  "dr_valid_until (deref_mut f r) = dr_valid_until r"
  "dr_group (deref_mut f r) = dr_group r"
  "dr_probe (deref_mut f r) = dr_probe r"
  by (simp_all add: deref_mut_def)

lemmas mutator_defs =
  set_response_code_def add_answer_def add_authority_def add_additional_def set_answers_def
  set_queries_def take_answers_def

lemma new_with_deadline_simps [simp]:
  "answers (new_with_deadline q rs t) = rs"
  "authorities (new_with_deadline q rs t) = []"
  "additionals (new_with_deadline q rs t) = []"
  "rcode (new_with_deadline q rs t) = NoError"
  "dr_query (new_with_deadline q rs t) = q"
  "dr_group (new_with_deadline q rs t) = None"
  "dr_probe (new_with_deadline q rs t) = Unchecked"
  "dr_valid_until (new_with_deadline q rs t) = t"
  "dr_prepared_wire (new_with_deadline q rs t) = None"
  by (simp_all add: new_with_deadline_def dr_query_def)

lemma set_max_ttl_message [ttl_simps]:
  "answers (set_max_ttl t r) = map (set_max_ttl_rr t) (answers r)"
  "authorities (set_max_ttl t r) = map (set_max_ttl_rr t) (authorities r)"
  "additionals (set_max_ttl t r) = map (set_max_ttl_rr t) (additionals r)"
proof -
  have id: "\<not> list_ex (\<lambda>x. rr_ttl x > t) xs \<Longrightarrow> map (set_max_ttl_rr t) xs = xs" for xs
    by (rule set_max_ttl_rr_map_id) (auto simp: list_ex_iff)
  show "answers (set_max_ttl t r) = map (set_max_ttl_rr t) (answers r)"
    "authorities (set_max_ttl t r) = map (set_max_ttl_rr t) (authorities r)"
    "additionals (set_max_ttl t r) = map (set_max_ttl_rr t) (additionals r)"
    by (auto simp: set_max_ttl_def id)
qed

lemma set_max_ttl_frame [simp]:
  "rcode (set_max_ttl t r) = rcode r"
  "msg_queries (dr_message (set_max_ttl t r)) = msg_queries (dr_message r)"
  "dr_group (set_max_ttl t r) = dr_group r"
  "dr_probe (set_max_ttl t r) = dr_probe r"
  "dr_valid_until (set_max_ttl t r) = dr_valid_until r"
  "dr_wire_len (set_max_ttl t r) = dr_wire_len r"
  by (simp_all add: set_max_ttl_def)

section \<open>The prepared encoding\<close>

text \<open>
  A response may carry the encoding of its message. It is coherent when that encoding is what
  the encoder gives for the current message.
\<close>

definition wire_coherent :: "(message \<Rightarrow> bytes option) \<Rightarrow> dns_response \<Rightarrow> bool" where
  "wire_coherent enc r \<longleftrightarrow> (\<forall>w. dr_prepared_wire r = Some w \<longrightarrow> enc (dr_message r) = Some w)"

text \<open>The operations of a response that change it, as the rest of the program applies them.\<close>

datatype response_op =
  OpSetCode response_code | OpAddAnswer rr | OpAddAuthority rr | OpAddAdditional rr
| OpSetAnswers "rr list" | OpSetQueries "query list" | OpPrepare
| OpNewTtl u32 | OpMaxTtl u32 | OpMinTtl u32
| OpGroup string | OpUntil instant | OpProbe probe_result

fun run_op :: "(message \<Rightarrow> bytes option) \<Rightarrow> response_op \<Rightarrow> dns_response \<Rightarrow> dns_response" where
  "run_op enc (OpSetCode c) r = set_response_code c r"
| "run_op enc (OpAddAnswer x) r = add_answer x r"
| "run_op enc (OpAddAuthority x) r = add_authority x r"
| "run_op enc (OpAddAdditional x) r = add_additional x r"
| "run_op enc (OpSetAnswers xs) r = set_answers xs r"
| "run_op enc (OpSetQueries xs) r = set_queries xs r"
| "run_op enc OpPrepare r = prepare_wire enc r"
| "run_op enc (OpNewTtl t) r = set_new_ttl t r"
| "run_op enc (OpMaxTtl t) r = set_max_ttl t r"
| "run_op enc (OpMinTtl t) r = set_min_ttl t r"
| "run_op enc (OpGroup g) r = with_name_server_group g r"
| "run_op enc (OpUntil t) r = with_valid_until t r"
| "run_op enc (OpProbe p) r = with_probe_result p r"

lemma run_op_coherent: "wire_coherent enc r \<Longrightarrow> wire_coherent enc (run_op enc op r)"
  by (cases op)
    (auto simp: wire_coherent_def mutator_defs prepare_wire_def set_new_ttl_def set_max_ttl_def
      set_min_ttl_def with_name_server_group_def with_valid_until_def with_probe_result_def)

lemma to_vec_coherent: "wire_coherent enc r \<Longrightarrow> to_vec enc r = enc (dr_message r)"
  by (auto simp: wire_coherent_def to_vec_def split: option.split)

lemma run_ops_coherent: "wire_coherent enc r \<Longrightarrow> wire_coherent enc (fold (run_op enc) ops r)"
  by (induction ops arbitrary: r) (simp_all add: run_op_coherent)

text \<open>
  C3: A response kept with its encoding never goes stale. Whatever sequence of operations is
  applied to a response received from an upstream, encoding it gives exactly the encoding of
  its current message: an operation that changes the message drops the prepared bytes, and the
  others (group, deadline, probe result) leave both alone.
\<close>

theorem response_encoding_is_current:
  "to_vec enc (fold (run_op enc) ops (from_xfer now m len)) =
   enc (dr_message (fold (run_op enc) ops (from_xfer now m len)))"
proof -
  have "wire_coherent enc (from_xfer now m len)"
    by (simp add: wire_coherent_def from_xfer_def from_message_def)
  then have "wire_coherent enc (fold (run_op enc) ops (from_xfer now m len))"
    by (rule run_ops_coherent)
  then show ?thesis
    by (rule to_vec_coherent)
qed

end
