(* ===== verification/Domain_Name.thy ===== *)
theory Domain_Name
  imports Dns_Types
begin

text \<open>
  Domain names and the patterns of the configuration (\<^verbatim>\<open>src/src/config/domain.rs\<close>).

  The program leaves name comparison to \<open>hickory_proto\<close>, the matching of one \<open>*\<close> label to the
  \<open>wildcard\<close> package, and hashing to Rust's \<open>DefaultHasher\<close>, whose algorithm is not specified.
  They are the fields of the record \<open>name_lib\<close>, an argument of every definition that uses them;
  the locale \<open>name_library\<close> states their documented behaviour, and \<open>std_lib\<close> is an instance that
  satisfies it, on which witnesses are evaluated.
\<close>

section \<open>The libraries the program calls\<close>

record name_lib =
  nl_is_wildcard :: "name \<Rightarrow> bool"
  nl_base_name :: "name \<Rightarrow> name"
  nl_is_root :: "name \<Rightarrow> bool"
  nl_zone_of :: "name \<Rightarrow> name \<Rightarrow> bool"
  nl_eq_ignore_root_case :: "name \<Rightarrow> name \<Rightarrow> bool"
  nl_eq :: "name \<Rightarrow> name \<Rightarrow> bool"
  nl_cmp :: "name \<Rightarrow> name \<Rightarrow> ordering"
  nl_display :: "name \<Rightarrow> bytes"
  nl_glob :: "bytes \<Rightarrow> bytes \<Rightarrow> bool"
  nl_glob_valid :: "bytes \<Rightarrow> bool"
  nl_hash :: "bytes \<Rightarrow> u64"

text \<open>The labels of a name as every comparison of the program sees them.\<close>

definition low_labels :: "name \<Rightarrow> bytes list" where
  "low_labels n = map lower (nm_labels n)"

locale name_library =
  fixes L :: name_lib
  assumes is_wildcard: "nl_is_wildcard L n \<longleftrightarrow> (\<exists>ls. nm_labels n = [42] # ls)"
    and base_name: "nm_labels (nl_base_name L n) = tl (nm_labels n)"
    and is_root: "nl_is_root L n \<Longrightarrow> nm_labels n = []"
    and zone_of: "nl_zone_of L a b \<longleftrightarrow> (\<exists>p. low_labels b = p @ low_labels a)"
    and eq_ignore_root_case: "nl_eq_ignore_root_case L a b \<longleftrightarrow> low_labels a = low_labels b"
    and eq_labels: "nl_eq L a b \<Longrightarrow> low_labels a = low_labels b"
    and eq_refl: "nl_eq L a a"
    and eq_sym: "nl_eq L a b \<Longrightarrow> nl_eq L b a"
    and eq_trans: "nl_eq L a b \<Longrightarrow> nl_eq L b c \<Longrightarrow> nl_eq L a c"
begin

lemma low_base_name: "low_labels (nl_base_name L n) = tl (low_labels n)"
  by (simp add: low_labels_def base_name map_tl)

end

section \<open>Wildcard\<close>

text \<open>
  One label with \<open>*\<close>. Patterns other than the empty one are built by \<open>from_str\<close>, which makes
  the matcher case-insensitive; equality and hashing look at the pattern only.
\<close>

datatype wildcard = Wildcard (pattern: bytes)

definition wildcard_is_match :: "name_lib \<Rightarrow> wildcard \<Rightarrow> bytes \<Rightarrow> bool" where
  "wildcard_is_match L w input = (if pattern w = [] then True else nl_glob L (pattern w) input)"

definition wildcard_display :: "wildcard \<Rightarrow> bytes" where
  "wildcard_display w = (if pattern w = [] then ascii ''*'' else pattern w)"

definition wildcard_default :: wildcard where
  "wildcard_default = Wildcard []"

definition wildcard_from_str :: "name_lib \<Rightarrow> bytes \<Rightarrow> wildcard option" where
  "wildcard_from_str L s = (if nl_glob_valid L s then Some (Wildcard s) else None)"

section \<open>WildcardName\<close>

datatype wildcard_name =
  WDefault name | WSuffix name | WSub wildcard name | WFull name

text \<open>\<open>Deref\<close>, \<open>DerefMut\<close> and \<open>From<WildcardName> for Name\<close>: the name a pattern is written for.\<close>

fun wn_name :: "wildcard_name \<Rightarrow> name" where
  "wn_name (WDefault n) = n"
| "wn_name (WSuffix n) = n"
| "wn_name (WSub _ n) = n"
| "wn_name (WFull n) = n"

fun wn_is_match :: "name_lib \<Rightarrow> wildcard_name \<Rightarrow> name \<Rightarrow> bool" where
  "wn_is_match L (WDefault n) name = nl_zone_of L n name"
| "wn_is_match L (WSuffix n) name = (\<not> nl_eq_ignore_root_case L n name \<and> nl_zone_of L n name)"
| "wn_is_match L (WSub w n) name =
     (nl_eq_ignore_root_case L n (nl_base_name L name) \<and>
      (case nm_labels name of [] \<Rightarrow> True | x # _ \<Rightarrow> wildcard_is_match L w x))"
| "wn_is_match L (WFull n) name = nl_eq_ignore_root_case L n name"

fun wn_is_sub :: "wildcard_name \<Rightarrow> bool" where
  "wn_is_sub (WSub _ _) = True"
| "wn_is_sub _ = False"

fun wn_ord :: "wildcard_name \<Rightarrow> nat" where
  "wn_ord (WDefault _) = 3"
| "wn_ord (WSuffix _) = 2"
| "wn_ord (WSub _ _) = 1"
| "wn_ord (WFull _) = 0"

definition wn_cmp :: "name_lib \<Rightarrow> wildcard_name \<Rightarrow> wildcard_name \<Rightarrow> ordering" where
  "wn_cmp L a b =
     (case nl_cmp L (wn_name a) (wn_name b) of
        Less \<Rightarrow> Less
      | Greater \<Rightarrow> Greater
      | Equal \<Rightarrow> cmp_of (wn_ord a) (wn_ord b))"

text \<open>The derived \<open>PartialEq\<close>: same constructor, equal wildcards, names equal for the library.\<close>

fun wn_eq :: "name_lib \<Rightarrow> wildcard_name \<Rightarrow> wildcard_name \<Rightarrow> bool" where
  "wn_eq L (WDefault a) (WDefault b) = nl_eq L a b"
| "wn_eq L (WSuffix a) (WSuffix b) = nl_eq L a b"
| "wn_eq L (WSub v a) (WSub w b) = (v = w \<and> nl_eq L a b)"
| "wn_eq L (WFull a) (WFull b) = nl_eq L a b"
| "wn_eq L _ _ = False"

fun wn_display :: "name_lib \<Rightarrow> wildcard_name \<Rightarrow> bytes" where
  "wn_display L (WDefault n) = nl_display L n"
| "wn_display L (WSuffix n) = ascii ''+.'' @ nl_display L n"
| "wn_display L (WSub w n) = wildcard_display w @ ascii ''.'' @ nl_display L n"
| "wn_display L (WFull n) = ascii ''-.'' @ nl_display L n"

definition wn_of_name :: "name_lib \<Rightarrow> name \<Rightarrow> wildcard_name" where
  "wn_of_name L n =
     (if nl_is_wildcard L n then WSub wildcard_default (nl_base_name L n) else WDefault n)"

datatype domain = DName wildcard_name | DSet string

definition domain_display :: "name_lib \<Rightarrow> domain \<Rightarrow> bytes" where
  "domain_display L d =
     (case d of DName n \<Rightarrow> wn_display L n | DSet s \<Rightarrow> ascii ''domain-set:'' @ ascii s)"

section \<open>An instance of the libraries\<close>

text \<open>
  \<open>*\<close> stands for any run of bytes and \<open>?\<close> for one byte; letters compare without case. The
  hash is polynomial, which keeps short keys apart.
\<close>

fun glob :: "bytes \<Rightarrow> bytes \<Rightarrow> bool" where
  "glob [] s = (s = [])"
| "glob (p # ps) s =
     (if p = 42 then glob ps s \<or> (case s of [] \<Rightarrow> False | _ # s' \<Rightarrow> glob (p # ps) s')
      else case s of [] \<Rightarrow> False
         | c # s' \<Rightarrow> (p = 63 \<or> to_ascii_lowercase p = to_ascii_lowercase c) \<and> glob ps s')"

fun lex_cmp :: "nat list \<Rightarrow> nat list \<Rightarrow> ordering" where
  "lex_cmp [] [] = Equal"
| "lex_cmp [] (_ # _) = Less"
| "lex_cmp (_ # _) [] = Greater"
| "lex_cmp (x # xs) (y # ys) =
     (if x < y then Less else if y < x then Greater else lex_cmp xs ys)"

fun labels_cmp :: "bytes list \<Rightarrow> bytes list \<Rightarrow> ordering" where
  "labels_cmp [] [] = Equal"
| "labels_cmp [] (_ # _) = Less"
| "labels_cmp (_ # _) [] = Greater"
| "labels_cmp (x # xs) (y # ys) =
     (case lex_cmp (map unat (lower x)) (map unat (lower y)) of
        Equal \<Rightarrow> labels_cmp xs ys | o' \<Rightarrow> o')"

definition std_hash :: "bytes \<Rightarrow> u64" where
  "std_hash bs = foldl (\<lambda>h b. h * 257 + ucast b + 1) 0 bs"

definition std_lib :: name_lib where
  "std_lib =
     \<lparr>nl_is_wildcard = (\<lambda>n. case nm_labels n of [] \<Rightarrow> False | l # _ \<Rightarrow> l = [42]),
      nl_base_name = (\<lambda>n. \<lparr>nm_labels = tl (nm_labels n), nm_fqdn = nm_fqdn n\<rparr>),
      nl_is_root = (\<lambda>n. nm_labels n = [] \<and> nm_fqdn n),
      nl_zone_of = (\<lambda>a b. drop (length (nm_labels b) - length (nm_labels a)) (low_labels b)
                          = low_labels a),
      nl_eq_ignore_root_case = (\<lambda>a b. low_labels a = low_labels b),
      nl_eq = (\<lambda>a b. low_labels a = low_labels b \<and> nm_fqdn a = nm_fqdn b),
      nl_cmp = (\<lambda>a b. if nm_fqdn a \<noteq> nm_fqdn b
                      then (if nm_fqdn b then Less else Greater)
                      else labels_cmp (rev (nm_labels a)) (rev (nm_labels b))),
      nl_display = (\<lambda>n. concat (map (\<lambda>l. l @ [46]) (nm_labels n))),
      nl_glob = glob, nl_glob_valid = (\<lambda>_. True), nl_hash = std_hash\<rparr>"

lemma drop_eq_suffix_iff:
  "drop (length b - length a) b = a \<longleftrightarrow> (\<exists>p. b = p @ a)"
proof
  assume "drop (length b - length a) b = a"
  then have "b = take (length b - length a) b @ a"
    by (metis append_take_drop_id)
  then show "\<exists>p. b = p @ a" ..
qed auto

lemma length_low_labels [simp]: "length (low_labels n) = length (nm_labels n)"
  by (simp add: low_labels_def)

interpretation std: name_library std_lib
proof unfold_locales
  fix n show "nl_is_wildcard std_lib n \<longleftrightarrow> (\<exists>ls. nm_labels n = [42] # ls)"
    by (auto simp: std_lib_def split: list.split)
next
  fix a b show "nl_zone_of std_lib a b \<longleftrightarrow> (\<exists>p. low_labels b = p @ low_labels a)"
    using drop_eq_suffix_iff [of "low_labels b" "low_labels a"] by (simp add: std_lib_def)
qed (auto simp: std_lib_def)

section \<open>What a pattern matches\<close>

text \<open>The labels a pattern accepts, by kind, as the comments of the source state it.\<close>

definition pattern_covers :: "name_lib \<Rightarrow> wildcard_name \<Rightarrow> bytes list \<Rightarrow> bool" where
  "pattern_covers L w ls \<longleftrightarrow>
     (case w of
        WDefault n \<Rightarrow> (\<exists>p. map lower ls = p @ low_labels n)
      | WSuffix n \<Rightarrow> (\<exists>p. p \<noteq> [] \<and> map lower ls = p @ low_labels n)
      | WSub v n \<Rightarrow> (\<exists>x ls'. ls = x # ls' \<and> map lower ls' = low_labels n \<and> wildcard_is_match L v x)
      | WFull n \<Rightarrow> map lower ls = low_labels n)"

context name_library begin

lemma is_match_covers:
  assumes "nm_labels n \<noteq> []"
  shows "wn_is_match L w n \<longleftrightarrow> pattern_covers L w (nm_labels n)"
proof (cases w)
  case (WSuffix m)
  then show ?thesis
    by (auto simp: pattern_covers_def zone_of eq_ignore_root_case low_labels_def)
next
  case (WSub v m)
  then show ?thesis
    using assms
    by (auto simp: pattern_covers_def eq_ignore_root_case low_labels_def base_name
        split: list.splits)
qed (auto simp: pattern_covers_def zone_of eq_ignore_root_case low_labels_def)

end

end
