(* ===== verification/Domain_Map.thy ===== *)
theory Domain_Map
  imports Domain_Name
begin

text \<open>
  The rule index (\<^verbatim>\<open>src/src/collections.rs\<close>): \<open>WireName\<close>, \<open>DomainMap\<close> and \<open>DomainSet\<close>.

  A name is flattened once into lowercase wire format; each parent's wire format is a suffix of
  it, so a lookup hashes suffixes of one buffer. The index stores 64-bit hashes of a kind byte
  and a wire name, never the names. The lemmas show that the suffix trick computes the parents'
  wire formats, that wire formats identify names up to case, and, when the keys in play have
  different hashes, that the index behaves as a map from patterns to values whose \<open>find\<close> returns
  the value of the most specific pattern matching a name.
\<close>

section \<open>WireName\<close>

text \<open>
  The buffers of the source are fixed arrays with a used length; the model keeps the used parts
  \<open>bytes[..len]\<close> and \<open>starts[..labels]\<close>.
\<close>

record wire_name =
  wn_bytes :: bytes
  wn_starts :: "u8 list"

fun wire_push :: "bytes list \<Rightarrow> wire_name \<Rightarrow> wire_name option" where
  "wire_push [] w = Some w"
| "wire_push (l # ls) w =
     (let e = length (wn_bytes w) + 1 + length l in
      if e > 255 \<or> length (wn_starts w) = 128 \<or> length l > 63 then None
      else wire_push ls
        \<lparr>wn_bytes = wn_bytes w @ of_nat (length l) # lower l,
         wn_starts = wn_starts w @ [of_nat (length (wn_bytes w))]\<rparr>)"

definition wire_new :: "bytes list \<Rightarrow> wire_name option" where
  "wire_new ls = wire_push ls \<lparr>wn_bytes = [], wn_starts = []\<rparr>"

definition parent :: "wire_name \<Rightarrow> nat \<Rightarrow> bytes" where
  "parent w level =
     (if level < length (wn_starts w) then drop (unat (wn_starts w ! level)) (wn_bytes w) else [])"

section \<open>Keys\<close>

definition FULL :: u8 where "FULL = 0"
definition DEFAULT :: u8 where "DEFAULT = 1"
definition SUFFIX :: u8 where "SUFFIX = 2"
definition SUB :: u8 where "SUB = 3"

definition key :: "name_lib \<Rightarrow> u8 \<Rightarrow> bytes \<Rightarrow> u64" where
  "key L kind wire = nl_hash L (kind # wire)"

fun kind :: "wildcard_name \<Rightarrow> u8" where
  "kind (WDefault _) = DEFAULT"
| "kind (WSuffix _) = SUFFIX"
| "kind (WSub _ _) = SUB"
| "kind (WFull _) = FULL"

section \<open>DomainMap\<close>

record 'v domain_map =
  dm_map :: "(u64, 'v) hmap"
  dm_subs :: "(u64, (wildcard \<times> 'v) list) hmap"

definition dm_empty :: "'v domain_map" where
  "dm_empty = \<lparr>dm_map = [], dm_subs = []\<rparr>"

definition dm_is_empty :: "'v domain_map \<Rightarrow> bool" where
  "dm_is_empty m \<longleftrightarrow> dm_map m = [] \<and> dm_subs m = []"

definition dm_len :: "'v domain_map \<Rightarrow> nat" where
  "dm_len m = length (dm_map m) + sum_list (map (length \<circ> snd) (dm_subs m))"

definition dm_get :: "name_lib \<Rightarrow> 'v domain_map \<Rightarrow> wire_name \<Rightarrow> u8 \<Rightarrow> nat \<Rightarrow> 'v option" where
  "dm_get L m wire k level = map_of (dm_map m) (key L k (parent wire level))"

definition dm_find_sub :: "name_lib \<Rightarrow> 'v domain_map \<Rightarrow> wire_name \<Rightarrow> bytes option \<Rightarrow> 'v option" where
  "dm_find_sub L m wire first =
     (if dm_subs m = [] then None
      else case map_of (dm_subs m) (key L SUB (parent wire 1)) of
        None \<Rightarrow> None
      | Some subs \<Rightarrow>
          (case first of
             None \<Rightarrow> None
           | Some x \<Rightarrow> map_option snd (find (\<lambda>(w, _). wildcard_is_match L w x) subs)))"

fun dm_find_levels ::
  "name_lib \<Rightarrow> 'v domain_map \<Rightarrow> wire_name \<Rightarrow> bytes option \<Rightarrow> nat list \<Rightarrow> 'v option" where
  "dm_find_levels L m wire first [] = None"
| "dm_find_levels L m wire first (level # rest) =
     (case (if level = 1 then dm_find_sub L m wire first else None) of
        Some v \<Rightarrow> Some v
      | None \<Rightarrow>
          (case or_else (dm_get L m wire SUFFIX level) (dm_get L m wire DEFAULT level) of
             Some v \<Rightarrow> Some v
           | None \<Rightarrow> dm_find_levels L m wire first rest))"

definition dm_find :: "name_lib \<Rightarrow> 'v domain_map \<Rightarrow> name \<Rightarrow> 'v option" where
  "dm_find L m n =
     (if dm_is_empty m then None
      else
        let skip = (if nl_is_wildcard L n then 1 else 0);
            ls = drop skip (nm_labels n)
        in case wire_new ls of
          None \<Rightarrow> None
        | Some wire \<Rightarrow>
            (case or_else (dm_get L m wire FULL 0) (dm_get L m wire DEFAULT 0) of
               Some v \<Rightarrow> Some v
             | None \<Rightarrow>
                 dm_find_levels L m wire (case ls of [] \<Rightarrow> None | x # _ \<Rightarrow> Some x)
                   [1..<Suc (length (wn_starts wire))]))"

definition dm_get_exact :: "name_lib \<Rightarrow> 'v domain_map \<Rightarrow> wildcard_name \<Rightarrow> 'v option" where
  "dm_get_exact L m w =
     (case wire_new (nm_labels (wn_name w)) of
        None \<Rightarrow> None
      | Some wire \<Rightarrow>
          (case w of
             WSub v _ \<Rightarrow>
               (case map_of (dm_subs m) (key L SUB (parent wire 0)) of
                  None \<Rightarrow> None
                | Some subs \<Rightarrow> map_option snd (find (\<lambda>(w', _). w' = v) subs))
           | _ \<Rightarrow> map_of (dm_map m) (key L (kind w) (parent wire 0))))"

definition dm_contains :: "name_lib \<Rightarrow> 'v domain_map \<Rightarrow> name \<Rightarrow> bool" where
  "dm_contains L m n \<longleftrightarrow> dm_find L m n \<noteq> None"

text \<open>\<open>iter_mut().find\<close> then \<open>replace\<close>, or \<open>push\<close>: the old value, if any, and the new vector.\<close>

fun subs_insert :: "wildcard \<Rightarrow> 'v \<Rightarrow> (wildcard \<times> 'v) list \<Rightarrow> 'v option \<times> (wildcard \<times> 'v) list" where
  "subs_insert w v [] = (None, [(w, v)])"
| "subs_insert w v ((w', old) # rest) =
     (if w' = w then (Some old, (w', v) # rest)
      else let (r, rest') = subs_insert w v rest in (r, (w', old) # rest'))"

definition dm_insert ::
  "name_lib \<Rightarrow> wildcard_name \<Rightarrow> 'v \<Rightarrow> 'v domain_map \<Rightarrow> 'v option \<times> 'v domain_map" where
  "dm_insert L w v m =
     (case wire_new (nm_labels (wn_name w)) of
        None \<Rightarrow> (None, m)
      | Some wire \<Rightarrow>
          (case w of
             WSub wc _ \<Rightarrow>
               (let k = key L SUB (parent wire 0);
                    (old, subs) = subs_insert wc v (unwrap_or (map_of (dm_subs m) k) [])
                in (old, m\<lparr>dm_subs := AList.update k subs (dm_subs m)\<rparr>))
           | _ \<Rightarrow>
               (let k = key L (kind w) (parent wire 0)
                in (map_of (dm_map m) k, m\<lparr>dm_map := AList.update k v (dm_map m)\<rparr>))))"

text \<open>\<open>position\<close> then \<open>Vec::remove\<close>.\<close>

fun subs_remove :: "wildcard \<Rightarrow> (wildcard \<times> 'v) list \<Rightarrow> ('v \<times> (wildcard \<times> 'v) list) option" where
  "subs_remove w [] = None"
| "subs_remove w ((w', v) # rest) =
     (if w' = w then Some (v, rest)
      else map_option (\<lambda>(r, rest'). (r, (w', v) # rest')) (subs_remove w rest))"

definition dm_remove :: "name_lib \<Rightarrow> wildcard_name \<Rightarrow> 'v domain_map \<Rightarrow> 'v option \<times> 'v domain_map" where
  "dm_remove L w m =
     (case wire_new (nm_labels (wn_name w)) of
        None \<Rightarrow> (None, m)
      | Some wire \<Rightarrow>
          (case w of
             WSub wc _ \<Rightarrow>
               (let k = key L SUB (parent wire 0) in
                case map_of (dm_subs m) k of
                  None \<Rightarrow> (None, m)
                | Some subs \<Rightarrow>
                    (case subs_remove wc subs of
                       None \<Rightarrow> (None, m)
                     | Some (v, rest) \<Rightarrow>
                         (Some v,
                          m\<lparr>dm_subs := (if rest = [] then AList.delete k (dm_subs m)
                                         else AList.update k rest (dm_subs m))\<rparr>)))
           | _ \<Rightarrow>
               (let k = key L (kind w) (parent wire 0)
                in (map_of (dm_map m) k, m\<lparr>dm_map := AList.delete k (dm_map m)\<rparr>))))"

definition dm_from_iter :: "name_lib \<Rightarrow> (wildcard_name \<times> 'v) list \<Rightarrow> 'v domain_map" where
  "dm_from_iter L ps = fold (\<lambda>(w, v) m. snd (dm_insert L w v m)) ps dm_empty"

section \<open>DomainSet\<close>

type_synonym domain_set = "unit domain_map"

definition ds_contains :: "name_lib \<Rightarrow> domain_set \<Rightarrow> name \<Rightarrow> bool" where
  "ds_contains L s n = dm_contains L s n"

definition ds_insert :: "name_lib \<Rightarrow> wildcard_name \<Rightarrow> domain_set \<Rightarrow> bool \<times> domain_set" where
  "ds_insert L w s = (let (old, s') = dm_insert L w () s in (old = None, s'))"

definition ds_remove :: "name_lib \<Rightarrow> wildcard_name \<Rightarrow> domain_set \<Rightarrow> bool \<times> domain_set" where
  "ds_remove L w s = (let (old, s') = dm_remove L w s in (old \<noteq> None, s'))"

definition ds_from_iter :: "name_lib \<Rightarrow> wildcard_name list \<Rightarrow> domain_set" where
  "ds_from_iter L ws = dm_from_iter L (map (\<lambda>w. (w, ())) ws)"

section \<open>Wire format\<close>

definition wire_label :: "bytes \<Rightarrow> bytes" where
  "wire_label l = of_nat (length l) # lower l"

definition wire_of :: "bytes list \<Rightarrow> bytes" where
  "wire_of ls = concat (map wire_label ls)"

text \<open>The names that DNS allows, as the guard of \<open>WireName::new\<close> states it.\<close>

definition fits :: "bytes list \<Rightarrow> bool" where
  "fits ls \<longleftrightarrow> length (wire_of ls) \<le> 255 \<and> length ls \<le> 128 \<and> (\<forall>l\<in>set ls. length l \<le> 63)"

lemma wire_of_simps [simp]:
  "wire_of [] = []" "wire_of (l # ls) = wire_label l @ wire_of ls"
  "wire_of (xs @ ys) = wire_of xs @ wire_of ys"
  by (simp_all add: wire_of_def)

lemma length_wire_label [simp]: "length (wire_label l) = Suc (length l)"
  by (simp add: wire_label_def)

lemma length_le_wire: "length ls \<le> length (wire_of ls)"
  by (induction ls) auto

fun offsets :: "nat \<Rightarrow> bytes list \<Rightarrow> nat list" where
  "offsets n [] = []"
| "offsets n (l # ls) = n # offsets (n + Suc (length l)) ls"

lemma length_offsets [simp]: "length (offsets n ls) = length ls"
  by (induction ls arbitrary: n) auto

lemma offsets_nth: "i < length ls \<Longrightarrow> offsets n ls ! i = n + length (wire_of (take i ls))"
  by (induction ls arbitrary: n i) (auto simp: nth_Cons' take_Cons' split: nat.splits)

lemma wire_push_eq:
  "wire_push ls w =
     (if length (wn_bytes w) + length (wire_of ls) \<le> 255 \<and> length (wn_starts w) + length ls \<le> 128
         \<and> (\<forall>l\<in>set ls. length l \<le> 63)
      then Some \<lparr>wn_bytes = wn_bytes w @ wire_of ls,
                 wn_starts = wn_starts w @ map of_nat (offsets (length (wn_bytes w)) ls)\<rparr>
      else None)"
  if "length (wn_bytes w) \<le> 255" "length (wn_starts w) \<le> 128"
  using that
proof (induction ls w rule: wire_push.induct)
  case (2 l ls w)
  show ?case
  proof (cases "length (wn_bytes w) + 1 + length l > 255 \<or> length (wn_starts w) = 128 \<or> length l > 63")
    case True
    then show ?thesis by auto
  next
    case False
    with "2.IH" [OF refl False] "2.prems" show ?thesis
      by (simp add: wire_label_def add.assoc)
  qed
qed simp

lemma wire_new_eq:
  "wire_new ls =
     (if fits ls then Some \<lparr>wn_bytes = wire_of ls, wn_starts = map of_nat (offsets 0 ls)\<rparr> else None)"
  by (simp add: wire_new_def wire_push_eq fits_def)

lemma wire_new_NoneI: "\<not> fits ls \<Longrightarrow> wire_new ls = None"
  by (simp add: wire_new_eq)

lemma parent_wire_new:
  assumes "wire_new ls = Some w"
  shows "parent w level = wire_of (drop level ls)" and "length (wn_starts w) = length ls"
proof -
  from assms have f: "fits ls"
    and w: "w = \<lparr>wn_bytes = wire_of ls, wn_starts = map of_nat (offsets 0 ls)\<rparr>"
    by (auto simp: wire_new_eq split: if_splits)
  show "length (wn_starts w) = length ls"
    by (simp add: w)
  show "parent w level = wire_of (drop level ls)"
  proof (cases "level < length ls")
    case True
    let ?n = "length (wire_of (take level ls))"
    have split: "wire_of ls = wire_of (take level ls) @ wire_of (drop level ls)"
      by (metis append_take_drop_id wire_of_simps(3))
    have "0 < length (drop level ls)"
      using True by simp
    also have "\<dots> \<le> length (wire_of (drop level ls))"
      by (rule length_le_wire)
    finally have pos: "0 < length (wire_of (drop level ls))" .
    have "?n + length (wire_of (drop level ls)) \<le> 255"
      using f split by (simp add: fits_def)
    with pos have "?n < 255" by linarith
    then show ?thesis
      using True by (simp add: w parent_def offsets_nth split unat_of_nat take_bit_nat_def)
  qed (simp add: w parent_def)
qed

text \<open>Wire formats tell names apart exactly up to case.\<close>

lemma wire_of_low: "wire_of (map lower ls) = wire_of ls"
  by (induction ls) (simp_all add: wire_label_def)

lemma wire_of_inj:
  "\<forall>l\<in>set xs. length l \<le> 63 \<Longrightarrow> \<forall>l\<in>set ys. length l \<le> 63 \<Longrightarrow>
   wire_of xs = wire_of ys \<longleftrightarrow> map lower xs = map lower ys"
proof (induction xs arbitrary: ys)
  case Nil
  then show ?case
    by (cases ys) (auto simp: wire_label_def)
next
  case (Cons x xs)
  show ?case
  proof (cases ys)
    case Nil
    then show ?thesis by (simp add: wire_label_def)
  next
    case ys: (Cons y zs)
    have len: "length x = length y"
      if "(of_nat (length x) :: u8) = of_nat (length y)"
    proof -
      from that have "unat (of_nat (length x) :: u8) = unat (of_nat (length y) :: u8)"
        by simp
      then show ?thesis
        using Cons.prems ys by (simp add: unat_of_nat take_bit_nat_def)
    qed
    have "wire_of (x # xs) = wire_of ys \<longleftrightarrow> lower x = lower y \<and> wire_of xs = wire_of zs"
      using len by (auto simp: ys wire_label_def dest!: append_eq_append_conv [THEN iffD1, rotated])
        (metis length_lower)+
    then show ?thesis
      using Cons.IH [of zs] Cons.prems ys by simp
  qed
qed

section \<open>The index without hashes\<close>

text \<open>The string a name is hashed from, and the index keyed by those strings.\<close>

definition key_string :: "wildcard_name \<Rightarrow> bytes" where
  "key_string w = kind w # wire_of (nm_labels (wn_name w))"

abbreviation wn_fits :: "wildcard_name \<Rightarrow> bool" where
  "wn_fits w \<equiv> fits (nm_labels (wn_name w))"

record 'v key_index =
  ki_map :: "bytes \<Rightarrow> 'v option"
  ki_subs :: "bytes \<Rightarrow> (wildcard \<times> 'v) list"

definition ki_empty :: "'v key_index" where
  "ki_empty = \<lparr>ki_map = (\<lambda>_. None), ki_subs = (\<lambda>_. [])\<rparr>"

definition ki_insert :: "wildcard_name \<Rightarrow> 'v \<Rightarrow> 'v key_index \<Rightarrow> 'v key_index" where
  "ki_insert w v A =
     (if \<not> wn_fits w then A
      else case w of
        WSub wc _ \<Rightarrow> A\<lparr>ki_subs := (ki_subs A)
          (key_string w := snd (subs_insert wc v (ki_subs A (key_string w))))\<rparr>
      | _ \<Rightarrow> A\<lparr>ki_map := (ki_map A)(key_string w := Some v)\<rparr>)"

definition ki_remove :: "wildcard_name \<Rightarrow> 'v key_index \<Rightarrow> 'v key_index" where
  "ki_remove w A =
     (if \<not> wn_fits w then A
      else case w of
        WSub wc _ \<Rightarrow>
          (case subs_remove wc (ki_subs A (key_string w)) of
             None \<Rightarrow> A
           | Some (_, rest) \<Rightarrow> A\<lparr>ki_subs := (ki_subs A)(key_string w := rest)\<rparr>)
      | _ \<Rightarrow> A\<lparr>ki_map := (ki_map A)(key_string w := None)\<rparr>)"

definition ki_get_exact :: "'v key_index \<Rightarrow> wildcard_name \<Rightarrow> 'v option" where
  "ki_get_exact A w =
     (if \<not> wn_fits w then None
      else case w of
        WSub wc _ \<Rightarrow> map_option snd (find (\<lambda>(w', _). w' = wc) (ki_subs A (key_string w)))
      | _ \<Rightarrow> ki_map A (key_string w))"

definition ki_sub_find :: "name_lib \<Rightarrow> 'v key_index \<Rightarrow> bytes \<Rightarrow> bytes list \<Rightarrow> 'v option" where
  "ki_sub_find L A x ls =
     map_option snd (find (\<lambda>(w, _). wildcard_is_match L w x) (ki_subs A (SUB # wire_of ls)))"

fun ki_parents :: "'v key_index \<Rightarrow> bytes list \<Rightarrow> 'v option" where
  "ki_parents A [] = None"
| "ki_parents A (x # ls) =
     first_some [ki_map A (SUFFIX # wire_of ls), ki_map A (DEFAULT # wire_of ls), ki_parents A ls]"

definition ki_find :: "name_lib \<Rightarrow> 'v key_index \<Rightarrow> bytes list \<Rightarrow> 'v option" where
  "ki_find L A ls =
     (if \<not> fits ls then None
      else first_some
        [ki_map A (FULL # wire_of ls), ki_map A (DEFAULT # wire_of ls),
         (case ls of [] \<Rightarrow> None | x # t \<Rightarrow> ki_sub_find L A x t), ki_parents A ls])"

text \<open>The strings a lookup of \<open>ls\<close> hashes.\<close>

definition probes :: "bytes list \<Rightarrow> bytes set" where
  "probes ls = {k # wire_of (drop i ls) | k i. k \<in> {FULL, DEFAULT, SUFFIX, SUB} \<and> i \<le> length ls}"

text \<open>
  A hashed index agrees with a string-keyed one on the strings \<open>K\<close>, which have different hashes.
\<close>

definition refines :: "name_lib \<Rightarrow> bytes set \<Rightarrow> 'v domain_map \<Rightarrow> 'v key_index \<Rightarrow> bool" where
  "refines L K m A \<longleftrightarrow>
     inj_on (nl_hash L) K \<and>
     (\<forall>k\<in>K. map_of (dm_map m) (nl_hash L k) = ki_map A k) \<and>
     (\<forall>k\<in>K. map_of (dm_subs m) (nl_hash L k) =
              (if ki_subs A k = [] then None else Some (ki_subs A k)))"

lemma refines_empty: "inj_on (nl_hash L) K \<Longrightarrow> refines L K dm_empty ki_empty"
  by (simp add: refines_def dm_empty_def ki_empty_def)

lemma subs_insert_ne: "snd (subs_insert w v xs) \<noteq> []"
  by (induction w v xs rule: subs_insert.induct) (auto simp: Let_def split_beta)

lemma fst_subs_insert:
  "fst (subs_insert w v xs) = map_option snd (find (\<lambda>(w', _). w' = w) xs)"
  by (induction w v xs rule: subs_insert.induct) (auto simp: Let_def split_beta)

lemma fst_subs_remove:
  "map_option fst (subs_remove w xs) = map_option snd (find (\<lambda>(w', _). w' = w) xs)"
  by (induction xs) (auto simp: option.map_comp comp_def split_beta)

lemma parent_0 [simp]: "wire_new ls = Some wire \<Longrightarrow> parent wire 0 = wire_of ls"
  by (simp add: parent_wire_new)

lemma refines_get_exact:
  assumes "refines L K m A" "key_string w \<in> K"
  shows "dm_get_exact L m w = ki_get_exact A w"
proof (cases "wire_new (nm_labels (wn_name w))")
  case None
  then show ?thesis
    by (simp add: dm_get_exact_def ki_get_exact_def wire_new_eq split: if_splits)
next
  case (Some wire)
  then have "wn_fits w" by (simp add: wire_new_eq split: if_splits)
  with Some assms show ?thesis
    by (cases w) (auto simp: dm_get_exact_def ki_get_exact_def refines_def key_def key_string_def
        split: if_splits)
qed

lemma refines_insert:
  assumes R: "refines L K m A" and K: "key_string w \<in> K"
  shows "refines L K (snd (dm_insert L w v m)) (ki_insert w v A)"
    and "fst (dm_insert L w v m) = ki_get_exact A w"
proof -
  have inj: "nl_hash L k = nl_hash L (key_string w) \<longleftrightarrow> k = key_string w" if "k \<in> K" for k
    using R K that by (auto simp: refines_def dest: inj_onD)
  consider (none) "\<not> wn_fits w"
    | (sub) wire wc n where "wire_new (nm_labels (wn_name w)) = Some wire" "wn_fits w" "w = WSub wc n"
    | (other) wire where "wire_new (nm_labels (wn_name w)) = Some wire" "wn_fits w" "\<not> wn_is_sub w"
    by (cases w; cases "wn_fits w") (auto simp: wire_new_eq)
  then show "refines L K (snd (dm_insert L w v m)) (ki_insert w v A)"
  proof cases
    case sub
    let ?h = "nl_hash L (key_string w)"
    have h: "key L SUB (parent wire 0) = ?h"
      using sub by (simp add: key_def key_string_def)
    have "unwrap_or (map_of (dm_subs m) ?h) [] = ki_subs A (key_string w)"
      using R K by (simp add: refines_def)
    then show ?thesis
      using sub R inj h
      by (auto simp: dm_insert_def ki_insert_def refines_def Let_def split_beta subs_insert_ne)
  next
    case other
    then have h: "key L (kind w) (parent wire 0) = nl_hash L (key_string w)"
      by (simp add: key_def key_string_def)
    show ?thesis
      using other R inj h
      by (cases w) (auto simp: dm_insert_def ki_insert_def refines_def Let_def)
  qed (use R in \<open>simp add: dm_insert_def ki_insert_def wire_new_NoneI\<close>)
  show "fst (dm_insert L w v m) = ki_get_exact A w"
    using R K
    by (cases w; cases "wire_new (nm_labels (wn_name w))")
      (auto simp: dm_insert_def ki_get_exact_def Let_def split_beta fst_subs_insert refines_def
        key_def key_string_def wire_new_eq split: if_splits)
qed

lemma refines_remove:
  assumes R: "refines L K m A" and K: "key_string w \<in> K"
  shows "refines L K (snd (dm_remove L w m)) (ki_remove w A)"
    and "fst (dm_remove L w m) = ki_get_exact A w"
proof -
  have inj: "nl_hash L k = nl_hash L (key_string w) \<longleftrightarrow> k = key_string w" if "k \<in> K" for k
    using R K that by (auto simp: refines_def dest: inj_onD)
  have hk: "key L (kind w) (parent wire 0) = nl_hash L (key_string w)"
    if "wire_new (nm_labels (wn_name w)) = Some wire" for wire
    using that by (simp add: key_def key_string_def)
  have m: "map_of (dm_map m) (nl_hash L (key_string w)) = ki_map A (key_string w)"
    "map_of (dm_subs m) (nl_hash L (key_string w)) =
       (if ki_subs A (key_string w) = [] then None else Some (ki_subs A (key_string w)))"
    using R K by (simp_all add: refines_def)
  show "refines L K (snd (dm_remove L w m)) (ki_remove w A)"
  proof (cases "wire_new (nm_labels (wn_name w))")
    case None
    then show ?thesis
      using R by (auto simp: dm_remove_def ki_remove_def wire_new_eq split: if_splits)
  next
    case (Some wire)
    then have f: "wn_fits w" by (simp add: wire_new_eq split: if_splits)
    show ?thesis
      using R Some f m inj hk [OF Some]
      by (cases w)
        (auto simp: dm_remove_def ki_remove_def refines_def Let_def
          split: option.splits prod.splits if_splits)
  qed
  show "fst (dm_remove L w m) = ki_get_exact A w"
  proof (cases "wire_new (nm_labels (wn_name w))")
    case None
    then show ?thesis
      by (auto simp: dm_remove_def ki_get_exact_def wire_new_eq split: if_splits)
  next
    case (Some wire)
    then have f: "wn_fits w" by (simp add: wire_new_eq split: if_splits)
    have "fst (case subs_remove wc xs of None \<Rightarrow> (None, m) | Some (v, rest) \<Rightarrow> (Some v, g rest)) =
        map_option snd (find (\<lambda>(w', _). w' = wc) xs)" for wc xs and g :: "_ \<Rightarrow> 'a domain_map"
      by (subst fst_subs_remove [symmetric]) (auto split: option.splits)
    then show ?thesis
      using Some f m hk [OF Some]
      by (cases w) (auto simp: dm_remove_def ki_get_exact_def Let_def split: if_splits)
  qed
qed

lemma probes_mem:
  "i \<le> length ls \<Longrightarrow> FULL # wire_of (drop i ls) \<in> probes ls"
  "i \<le> length ls \<Longrightarrow> DEFAULT # wire_of (drop i ls) \<in> probes ls"
  "i \<le> length ls \<Longrightarrow> SUFFIX # wire_of (drop i ls) \<in> probes ls"
  "i \<le> length ls \<Longrightarrow> SUB # wire_of (drop i ls) \<in> probes ls"
  by (auto simp: probes_def)

lemma refines_levels:
  assumes R: "refines L K m A" and K: "probes ls \<subseteq> K" and w: "wire_new ls = Some wire"
    and i: "1 < i" "i \<le> Suc (length ls)"
  shows "dm_find_levels L m wire x [i..<Suc (length ls)] = ki_parents A (drop (i - 1) ls)"
  using i
proof (induction "Suc (length ls) - i" arbitrary: i)
  case 0
  then show ?case by simp
next
  case (Suc d)
  then have i: "i < Suc (length ls)" by simp
  then have upt: "[i..<Suc (length ls)] = i # [Suc i..<Suc (length ls)]"
    by (simp add: upt_rec)
  obtain y where dr: "drop (i - 1) ls = y # drop i ls"
    using i Suc.prems by (cases i) (auto simp: Cons_nth_drop_Suc [symmetric])
  have IH: "dm_find_levels L m wire x [Suc i..<Suc (length ls)] = ki_parents A (drop i ls)"
    using Suc.hyps(1) [of "Suc i"] Suc.hyps(2) Suc.prems i by simp
  have "dm_get L m wire SUFFIX i = ki_map A (SUFFIX # wire_of (drop i ls))"
    "dm_get L m wire DEFAULT i = ki_map A (DEFAULT # wire_of (drop i ls))"
    using R K i probes_mem [of i ls]
    by (auto simp: dm_get_def key_def parent_wire_new [OF w] refines_def)
  then show ?case
    unfolding upt dr using Suc.prems IH
    by (auto simp: or_else_def simp del: upt_Suc split: option.splits)
qed

text \<open>A hashed lookup gives what the string-keyed one gives.\<close>

lemma refines_find:
  assumes R: "refines L K m A"
    and K: "probes (drop (if nl_is_wildcard L n then 1 else 0) (nm_labels n)) \<subseteq> K"
  shows "dm_find L m n = ki_find L A (drop (if nl_is_wildcard L n then 1 else 0) (nm_labels n))"
proof -
  define ls where "ls = drop (if nl_is_wildcard L n then 1 else 0) (nm_labels n)"
  have K': "probes ls \<subseteq> K" using K by (simp add: ls_def)
  have mem: "map_of (dm_map m) (nl_hash L k) = ki_map A k"
    "map_of (dm_subs m) (nl_hash L k) = (if ki_subs A k = [] then None else Some (ki_subs A k))"
    if "k \<in> probes ls" for k
    using R K' that by (auto simp: refines_def)
  show ?thesis
  proof (cases "wire_new ls")
    case None
    then show ?thesis
      by (auto simp: dm_find_def ki_find_def Let_def ls_def [symmetric] wire_new_eq split: if_splits)
  next
    case (Some wire)
    then have f: "fits ls" by (simp add: wire_new_eq split: if_splits)
    note p = parent_wire_new [OF Some]
    have g0: "dm_get L m wire FULL 0 = ki_map A (FULL # wire_of ls)"
      "dm_get L m wire DEFAULT 0 = ki_map A (DEFAULT # wire_of ls)"
      using mem probes_mem [of 0 ls] by (auto simp: dm_get_def key_def p)
    have g: "dm_get L m wire SUFFIX i = ki_map A (SUFFIX # wire_of (drop i ls))"
      "dm_get L m wire DEFAULT i = ki_map A (DEFAULT # wire_of (drop i ls))" if "i \<le> length ls" for i
      using mem probes_mem [OF that] by (auto simp: dm_get_def key_def p)
    have lv: "dm_find_levels L m wire (case ls of [] \<Rightarrow> None | x # _ \<Rightarrow> Some x)
        [1..<Suc (length (wn_starts wire))] =
      or_else (case ls of [] \<Rightarrow> None | x # t \<Rightarrow> ki_sub_find L A x t) (ki_parents A ls)"
    proof (cases ls)
      case (Cons x t)
      have sub: "dm_find_sub L m wire (Some x) = ki_sub_find L A x t"
        using mem(2) [OF probes_mem(4) [of 1 ls]] Cons
        by (auto simp: dm_find_sub_def ki_sub_find_def key_def p split: option.splits if_splits)
      have rest: "dm_find_levels L m wire (Some x) [2..<Suc (length ls)] = ki_parents A t"
        using refines_levels [OF R K' Some, of 2] Cons by (simp add: numeral_2_eq_2)
      have "[1..<Suc (length (wn_starts wire))] = 1 # [2..<Suc (length ls)]"
        using Cons by (simp add: p upt_rec numeral_2_eq_2)
      then show ?thesis
        using Cons rest sub g [of 1]
        by (auto simp: or_else_def simp del: upt_Suc split: option.splits)
    qed (simp add: p)
    have "dm_is_empty m \<Longrightarrow> ki_find L A ls = None"
    proof -
      assume e: "dm_is_empty m"
      then have no: "ki_map A k = None" "ki_subs A k = []" if "k \<in> probes ls" for k
        using mem [OF that] by (auto simp: dm_is_empty_def split: if_splits)
      have gn: "dm_get L m wire k i = None" "dm_find_sub L m wire x = None" for k i x
        using e by (auto simp: dm_get_def dm_find_sub_def dm_is_empty_def)
      have "dm_find_levels L m wire x lv = None" for x lv
        by (induction lv) (auto simp: gn)
      with lv have "(case ls of [] \<Rightarrow> None | x # t \<Rightarrow> ki_sub_find L A x t) = None \<and> ki_parents A ls = None"
        by (metis or_else_eq_None)
      then show ?thesis
        using no probes_mem [of 0 ls] f by (auto simp: ki_find_def)
    qed
    then show ?thesis
      unfolding dm_find_def Let_def ls_def [symmetric] using Some f g0 lv
      by (auto simp: ki_find_def or_else_def simp del: upt_Suc split: option.splits)
  qed
qed

section \<open>The most specific pattern wins\<close>

text \<open>How specific a pattern is: more labels first, then \<open>-\<close>, \<open>*\<close>, \<open>+\<close> and plain names.\<close>

fun priority :: "wildcard_name \<Rightarrow> nat" where
  "priority (WFull _) = 3"
| "priority (WSub _ _) = 2"
| "priority (WSuffix _) = 1"
| "priority (WDefault _) = 0"

definition rank :: "wildcard_name \<Rightarrow> nat" where
  "rank w = 4 * length (nm_labels (wn_name w)) + priority w"

text \<open>A string-keyed index holds the patterns of a list: every entry comes from it and every
  pattern that fits has an entry.\<close>

definition index_of :: "(wildcard_name \<times> 'v) list \<Rightarrow> 'v key_index \<Rightarrow> bool" where
  "index_of ps A \<longleftrightarrow>
     (\<forall>k v. ki_map A k = Some v \<longrightarrow>
        (\<exists>w. (w, v) \<in> set ps \<and> \<not> wn_is_sub w \<and> wn_fits w \<and> key_string w = k)) \<and>
     (\<forall>w v. (w, v) \<in> set ps \<and> \<not> wn_is_sub w \<and> wn_fits w \<longrightarrow> ki_map A (key_string w) \<noteq> None) \<and>
     (\<forall>k wc v. (wc, v) \<in> set (ki_subs A k) \<longrightarrow>
        (\<exists>n. (WSub wc n, v) \<in> set ps \<and> wn_fits (WSub wc n) \<and> key_string (WSub wc n) = k)) \<and>
     (\<forall>wc n v. (WSub wc n, v) \<in> set ps \<and> wn_fits (WSub wc n) \<longrightarrow>
        (\<exists>v'. (wc, v') \<in> set (ki_subs A (key_string (WSub wc n)))))"

lemma set_subs_insert:
  "set (snd (subs_insert w v xs)) \<subseteq> insert (w, v) (set xs)"
  "(w, v) \<in> set (snd (subs_insert w v xs))"
  "(w', v') \<in> set xs \<Longrightarrow> \<exists>v''. (w', v'') \<in> set (snd (subs_insert w v xs))"
  by (induction w v xs rule: subs_insert.induct) (auto simp: Let_def split_beta)

lemma index_ofD:
  assumes "index_of ps A"
  shows "ki_map A k = Some v \<Longrightarrow>
      \<exists>w. (w, v) \<in> set ps \<and> \<not> wn_is_sub w \<and> wn_fits w \<and> key_string w = k"
    and "(w, v) \<in> set ps \<Longrightarrow> \<not> wn_is_sub w \<Longrightarrow> wn_fits w \<Longrightarrow> ki_map A (key_string w) \<noteq> None"
    and "(wc, v) \<in> set (ki_subs A k) \<Longrightarrow>
      \<exists>n. (WSub wc n, v) \<in> set ps \<and> wn_fits (WSub wc n) \<and> key_string (WSub wc n) = k"
    and "(WSub wc n, v) \<in> set ps \<Longrightarrow> wn_fits (WSub wc n) \<Longrightarrow>
      \<exists>v'. (wc, v') \<in> set (ki_subs A (key_string (WSub wc n)))"
  using assms unfolding index_of_def by blast+

lemma index_of_insert_sub:
  assumes I: "index_of ps A" and f: "wn_fits (WSub wc n)"
  shows "index_of (ps @ [(WSub wc n, v)]) (ki_insert (WSub wc n) v A)"
proof -
  let ?k = "key_string (WSub wc n)"
  let ?s = "snd (subs_insert wc v (ki_subs A ?k))"
  have A': "ki_map (ki_insert (WSub wc n) v A) = ki_map A"
    "ki_subs (ki_insert (WSub wc n) v A) = (ki_subs A)(?k := ?s)"
    using f by (simp_all add: ki_insert_def)
  have 3: "\<exists>n'. (WSub wc' n', v') \<in> set (ps @ [(WSub wc n, v)]) \<and> wn_fits (WSub wc' n') \<and>
      key_string (WSub wc' n') = k"
    if "(wc', v') \<in> set (((ki_subs A)(?k := ?s)) k)" for k wc' v'
    using that set_subs_insert(1) [of wc v "ki_subs A ?k"] index_ofD(3) [OF I, of wc' v' k] f
    by (auto split: if_splits)
  have 4: "\<exists>v''. (wc', v'') \<in> set (((ki_subs A)(?k := ?s)) (key_string (WSub wc' n')))"
    if h: "(WSub wc' n', v') \<in> set (ps @ [(WSub wc n, v)])" "wn_fits (WSub wc' n')" for wc' n' v'
  proof (cases "(WSub wc' n', v') \<in> set ps")
    case True
    then obtain v'' where "(wc', v'') \<in> set (ki_subs A (key_string (WSub wc' n')))"
      using index_ofD(4) [OF I] h(2) by blast
    then show ?thesis
      using set_subs_insert(3) [of wc' v'' "ki_subs A ?k" wc v] by auto
  next
    case False
    then show ?thesis
      using h(1) set_subs_insert(2) [of wc v "ki_subs A ?k"] by auto
  qed
  have 1: "\<exists>w. (w, v') \<in> set (ps @ [(WSub wc n, v)]) \<and> \<not> wn_is_sub w \<and> wn_fits w \<and> key_string w = k"
    if "ki_map A k = Some v'" for k v'
    using index_ofD(1) [OF I that] by auto
  have 2: "ki_map A (key_string w) \<noteq> None"
    if "(w, v') \<in> set (ps @ [(WSub wc n, v)])" "\<not> wn_is_sub w" "wn_fits w" for w v'
    using index_ofD(2) [OF I, of w v'] that by auto
  show ?thesis
    unfolding index_of_def A'
    by (intro conjI allI impI) (rule 1 2 3 4, (assumption | elim conjE)+)+
qed

lemma index_of_insert:
  assumes "index_of ps A"
  shows "index_of (ps @ [(w, v)]) (ki_insert w v A)"
proof (cases "wn_fits w")
  case False
  with assms show ?thesis
    by (auto simp: index_of_def ki_insert_def) blast+
next
  case True
  show ?thesis
  proof (cases w)
    case (WSub wc n)
    then show ?thesis
      using index_of_insert_sub [OF assms] True by simp
  qed (use assms True in \<open>auto simp: index_of_def ki_insert_def\<close>)
qed

lemma index_of_fold:
  "index_of ps0 A \<Longrightarrow> index_of (ps0 @ ps) (fold (\<lambda>(w, v). ki_insert w v) ps A)"
proof (induction ps arbitrary: ps0 A)
  case (Cons p ps)
  obtain w v where p: "p = (w, v)" by (cases p)
  show ?case
    using Cons.IH [OF index_of_insert [OF Cons.prems, of w v]] by (simp add: p)
qed simp

lemma refines_fold:
  "refines L K m A \<Longrightarrow> key_string ` fst ` set ps \<subseteq> K \<Longrightarrow>
   refines L K (fold (\<lambda>(w, v) m. snd (dm_insert L w v m)) ps m) (fold (\<lambda>(w, v). ki_insert w v) ps A)"
proof (induction ps arbitrary: m A)
  case (Cons p ps)
  obtain w v where p: "p = (w, v)" by (cases p)
  have "refines L K (snd (dm_insert L w v m)) (ki_insert w v A)"
    using Cons.prems by (intro refines_insert) (auto simp: p)
  then show ?case
    using Cons.IH Cons.prems by (simp add: p)
qed simp

lemma from_iter_index:
  assumes "inj_on (nl_hash L) K" "key_string ` fst ` set ps \<subseteq> K"
  obtains A where "refines L K (dm_from_iter L ps) A" "index_of ps A"
proof
  show "refines L K (dm_from_iter L ps) (fold (\<lambda>(w, v). ki_insert w v) ps ki_empty)"
    unfolding dm_from_iter_def by (rule refines_fold [OF refines_empty [OF assms(1)] assms(2)])
  have "index_of [] ki_empty"
    by (simp add: index_of_def ki_empty_def)
  then show "index_of ps (fold (\<lambda>(w, v). ki_insert w v) ps ki_empty)"
    using index_of_fold [of "[]" ki_empty ps] by simp
qed

text \<open>The patterns that match a name through a proper parent of it.\<close>

definition below :: "wildcard_name \<Rightarrow> bytes list \<Rightarrow> bool" where
  "below w ls \<longleftrightarrow>
     (case w of
        WDefault n \<Rightarrow> \<exists>p. p \<noteq> [] \<and> map lower ls = p @ low_labels n
      | WSuffix n \<Rightarrow> \<exists>p. p \<noteq> [] \<and> map lower ls = p @ low_labels n
      | _ \<Rightarrow> False)"

text \<open>A result is the best among the patterns \<open>P\<close> of a list, or there is none.\<close>

definition best :: "(wildcard_name \<times> 'v) list \<Rightarrow> (wildcard_name \<Rightarrow> bool) \<Rightarrow> 'v option \<Rightarrow> bool" where
  "best ps P r \<longleftrightarrow>
     (case r of
        None \<Rightarrow> \<forall>(w, v)\<in>set ps. \<not> P w
      | Some v \<Rightarrow> \<exists>w. (w, v) \<in> set ps \<and> P w \<and> (\<forall>(w', v')\<in>set ps. P w' \<longrightarrow> rank w' \<le> rank w))"

lemma best_cong:
  assumes "\<And>w v. (w, v) \<in> set ps \<Longrightarrow> P w \<longleftrightarrow> Q w"
  shows "best ps P r \<longleftrightarrow> best ps Q r"
proof (cases r)
  case None
  then show ?thesis using assms by (auto simp: best_def)
next
  case (Some v)
  have "(\<forall>(w', v')\<in>set ps. P w' \<longrightarrow> rank w' \<le> rank w) \<longleftrightarrow>
      (\<forall>(w', v')\<in>set ps. Q w' \<longrightarrow> rank w' \<le> rank w)" for w
    using assms by auto
  then show ?thesis
    using Some assms by (auto simp: best_def)
qed

lemma best_or_else:
  assumes "best ps P a" "best ps Q b"
    and "\<And>w w'. P w \<Longrightarrow> Q w' \<Longrightarrow> rank w' \<le> rank w"
  shows "best ps (\<lambda>w. P w \<or> Q w) (or_else a b)"
proof (cases a)
  case None
  then have no: "\<not> P w" if "(w, v) \<in> set ps" for w v
    using assms(1) that by (auto simp: best_def)
  show ?thesis
    using assms(2) None no best_cong [of ps Q "\<lambda>w. P w \<or> Q w" b] by auto
next
  case (Some v)
  then obtain w where w: "(w, v) \<in> set ps" "P w" "\<forall>(w', v')\<in>set ps. P w' \<longrightarrow> rank w' \<le> rank w"
    using assms(1) by (auto simp: best_def)
  then have "\<forall>(w', v')\<in>set ps. P w' \<or> Q w' \<longrightarrow> rank w' \<le> rank w"
    using assms(3) [OF w(2)] by auto
  then show ?thesis
    using w(1,2) Some by (auto simp: best_def)
qed

lemma best_SomeI:
  "(w, v) \<in> set ps \<Longrightarrow> P w \<Longrightarrow> (\<And>w'. P w' \<Longrightarrow> rank w' \<le> rank w) \<Longrightarrow> best ps P (Some v)"
  by (auto simp: best_def)

lemma fits_tl: "fits (x # ls) \<Longrightarrow> fits ls"
  by (simp add: fits_def)

lemma fits_labels: "fits ls \<Longrightarrow> l \<in> set ls \<Longrightarrow> length l \<le> 63"
  by (simp add: fits_def)

lemma fits_same_wire:
  assumes "fits ls" "map lower ls = low_labels n"
  shows "fits (nm_labels n)" "wire_of (nm_labels n) = wire_of ls"
proof -
  show w: "wire_of (nm_labels n) = wire_of ls"
    using assms(2) wire_of_low [of ls] wire_of_low [of "nm_labels n"] by (simp add: low_labels_def)
  have "map length ls = map length (nm_labels n)"
    using arg_cong [OF assms(2), of "map length"] by (simp add: low_labels_def comp_def)
  then have "length ` set ls = length ` set (nm_labels n)" "length ls = length (nm_labels n)"
    by (metis list.set_map, metis length_map)
  moreover have "\<forall>k\<in>length ` set ls. k \<le> 63"
    using assms(1) by (auto simp: fits_def)
  ultimately show "fits (nm_labels n)"
    using assms(1) w by (simp add: fits_def)
qed

text \<open>The entry of one kind for one name is the best, and only, pattern of that kind and name.\<close>

lemma best_exact:
  assumes I: "index_of ps A" and f: "fits ls"
    and C: "C = WDefault \<or> C = WSuffix \<or> C = WFull"
  shows "best ps (\<lambda>w. \<exists>n. w = C n \<and> low_labels n = map lower ls) (ki_map A (kind (C undefined) # wire_of ls))"
proof -
  have ns: "\<not> wn_is_sub (C n)" "wn_name (C n) = n" "kind (C n) = kind (C undefined)" for n
    using C by auto
  have ks: "key_string (C n) = kind (C undefined) # wire_of ls" and fn: "fits (nm_labels n)"
    if "low_labels n = map lower ls" for n
    using fits_same_wire [OF f, of n] that ns [of n] by (auto simp: key_string_def)
  have inv: "\<exists>n. w = C n \<and> low_labels n = map lower ls"
    if "key_string w = kind (C undefined) # wire_of ls" "wn_fits w" "\<not> wn_is_sub w" for w
  proof -
    from that(1) have "kind w = kind (C undefined)" "wire_of (nm_labels (wn_name w)) = wire_of ls"
      by (auto simp: key_string_def)
    moreover have "low_labels (wn_name w) = map lower ls"
      using wire_of_inj [of "nm_labels (wn_name w)" ls] calculation(2) that(2) f
      by (auto simp: fits_def low_labels_def)
    ultimately show ?thesis
      using C that(3) by (cases w) (auto simp: FULL_def SUFFIX_def DEFAULT_def)
  qed
  show ?thesis
  proof (cases "ki_map A (kind (C undefined) # wire_of ls)")
    case None
    have "low_labels n \<noteq> map lower ls" if "(C n, v) \<in> set ps" for n v
      using index_ofD(2) [OF I that] ns ks fn None by auto
    then show ?thesis
      using None by (auto simp: best_def)
  next
    case (Some v)
    obtain n where n: "(C n, v) \<in> set ps" "low_labels n = map lower ls"
      using index_ofD(1) [OF I Some] inv by blast
    have "rank (C a) = rank (C b)" if "low_labels a = low_labels b" for a b
      using C arg_cong [OF that, of length] by (auto simp: rank_def)
    then show ?thesis
      unfolding Some using n by (intro best_SomeI [of "C n"]) (auto intro: order_eq_refl)
  qed
qed

lemmas best_default = best_exact [where C = WDefault, simplified]
lemmas best_suffix = best_exact [where C = WSuffix, simplified]
lemmas best_full = best_exact [where C = WFull, simplified]

lemma rank_less:
  "length (nm_labels (wn_name w')) < length (nm_labels (wn_name w)) \<Longrightarrow> rank w' \<le> rank w"
  by (cases w; cases w') (auto simp: rank_def)

lemma below_length: "below w ls \<Longrightarrow> length (nm_labels (wn_name w)) < length ls"
  by (cases w) (auto simp: below_def dest!: arg_cong [of "map lower ls" _ length])

lemma proper_suffix_Cons:
  "(\<exists>p. p \<noteq> [] \<and> x # xs = p @ ys) \<longleftrightarrow> ys = xs \<or> (\<exists>p. p \<noteq> [] \<and> xs = p @ ys)"
  by (auto simp: Cons_eq_append_conv)

lemma below_Cons:
  "below w (x # ls) \<longleftrightarrow>
     (\<exists>n. w = WSuffix n \<and> low_labels n = map lower ls) \<or>
     (\<exists>n. w = WDefault n \<and> low_labels n = map lower ls) \<or> below w ls"
  by (cases w) (auto simp: below_def proper_suffix_Cons)

lemma best_parents:
  assumes "index_of ps A"
  shows "fits ls \<Longrightarrow> best ps (\<lambda>w. below w ls) (ki_parents A ls)"
proof (induction ls)
  case Nil
  have "\<not> below w []" for w
    by (cases w) (auto simp: below_def)
  then show ?case by (simp add: best_def)
next
  case (Cons x ls)
  have f: "fits ls" using Cons.prems by (rule fits_tl)
  have len: "length (nm_labels n) = length ls" if "low_labels n = map lower ls" for n
    using arg_cong [OF that, of length] by simp
  have r: "rank w' \<le> rank w" if "below w' ls" "low_labels (wn_name w) = map lower ls" for w w'
    using below_length [OF that(1)] len [OF that(2)] by (intro rank_less) simp
  have "best ps
      (\<lambda>w. (\<exists>n. w = WSuffix n \<and> low_labels n = map lower ls) \<or>
           (\<exists>n. w = WDefault n \<and> low_labels n = map lower ls) \<or> below w ls)
      (or_else (ki_map A (SUFFIX # wire_of ls))
        (or_else (ki_map A (DEFAULT # wire_of ls)) (ki_parents A ls)))"
  proof (intro best_or_else best_suffix [OF assms f] best_default [OF assms f] Cons.IH [OF f])
    fix w w'
    assume "\<exists>n. w = WDefault n \<and> low_labels n = map lower ls" "below w' ls"
    then show "rank w' \<le> rank w" using r by auto
  next
    fix w w'
    assume "\<exists>n. w = WSuffix n \<and> low_labels n = map lower ls"
      "(\<exists>n. w' = WDefault n \<and> low_labels n = map lower ls) \<or> below w' ls"
    then show "rank w' \<le> rank w"
    proof (elim disjE exE conjE)
      fix n m assume "w = WSuffix n" "w' = WDefault m"
        "low_labels n = map lower ls" "low_labels m = map lower ls"
      then show ?thesis using len by (simp add: rank_def)
    qed (auto intro: r)
  qed
  then show ?case
    by (simp add: below_Cons)
qed

lemma best_sub:
  assumes I: "index_of ps A" and f: "fits ls"
  shows "best ps (\<lambda>w. \<exists>wc n. w = WSub wc n \<and> low_labels n = map lower ls \<and> wildcard_is_match L wc x)
    (ki_sub_find L A x ls)"
proof -
  have ks: "key_string (WSub wc n) = SUB # wire_of ls" "wn_fits (WSub wc n)"
    if "low_labels n = map lower ls" for wc n
    using fits_same_wire [OF f, of n] that by (auto simp: key_string_def)
  show ?thesis
  proof (cases "find (\<lambda>(w, _). wildcard_is_match L w x) (ki_subs A (SUB # wire_of ls))")
    case None
    have "\<not> wildcard_is_match L wc x" if "(WSub wc n, v) \<in> set ps" "low_labels n = map lower ls" for wc n v
      using index_ofD(4) [OF I that(1) ks(2) [OF that(2)]] ks(1) [OF that(2)] None
      by (auto simp: find_None_iff)
    then show ?thesis
      using None by (auto simp: best_def ki_sub_find_def)
  next
    case (Some e)
    obtain wc v where e: "e = (wc, v)" by (cases e)
    have m: "(wc, v) \<in> set (ki_subs A (SUB # wire_of ls))" "wildcard_is_match L wc x"
      using find_SomeD [OF Some] e by auto
    obtain n where n: "(WSub wc n, v) \<in> set ps" "fits (nm_labels n)" "wire_of (nm_labels n) = wire_of ls"
      using index_ofD(3) [OF I m(1)] by (auto simp: key_string_def)
    have low: "low_labels n = map lower ls"
      using wire_of_inj [of "nm_labels n" ls] n f by (auto simp: fits_def low_labels_def)
    have "rank (WSub a b) = rank (WSub c d)" if "low_labels b = low_labels d" for a b c d
      using arg_cong [OF that, of length] by (simp add: rank_def)
    then show ?thesis
      using Some e n low m(2)
      by (simp add: ki_sub_find_def) (intro best_SomeI [of "WSub wc n"], auto intro: order_eq_refl)
  qed
qed

lemma best_find:
  assumes I: "index_of ps A" and f: "fits ls"
  shows "best ps (\<lambda>w. pattern_covers L w ls) (ki_find L A ls)"
proof -
  let ?full = "\<lambda>w. \<exists>n. w = WFull n \<and> low_labels n = map lower ls"
  let ?def = "\<lambda>w. \<exists>n. w = WDefault n \<and> low_labels n = map lower ls"
  let ?sub = "\<lambda>w. case ls of [] \<Rightarrow> False
    | x # t \<Rightarrow> \<exists>wc n. w = WSub wc n \<and> low_labels n = map lower t \<and> wildcard_is_match L wc x"
  have sub: "best ps ?sub (case ls of [] \<Rightarrow> None | x # t \<Rightarrow> ki_sub_find L A x t)"
    using best_sub [OF I, of "tl ls" L] f fits_tl
    by (cases ls) (auto simp: best_def)
  have len: "length (nm_labels n) = length zs" if "low_labels n = map lower zs" for n zs
    using arg_cong [OF that, of length] by simp
  have "best ps (\<lambda>w. ?full w \<or> ?def w \<or> ?sub w \<or> below w ls)
      (or_else (ki_map A (FULL # wire_of ls)) (or_else (ki_map A (DEFAULT # wire_of ls))
        (or_else (case ls of [] \<Rightarrow> None | x # t \<Rightarrow> ki_sub_find L A x t) (ki_parents A ls))))"
  proof (intro best_or_else best_full [OF I f] best_default [OF I f] sub best_parents [OF I f])
    fix w w' assume "?sub w" "below w' ls"
    then show "rank w' \<le> rank w"
      using len below_length [of w' ls]
      by (cases w'; cases ls) (auto simp: rank_def below_def)
  next
    fix w w' assume d: "?def w" and s: "?sub w' \<or> below w' ls"
    have "length (nm_labels (wn_name w')) < length ls"
      using s len below_length [of w' ls] by (auto split: list.splits)
    moreover have "length (nm_labels (wn_name w)) = length ls"
      using d len by auto
    ultimately show "rank w' \<le> rank w"
      by (intro rank_less) simp
  next
    fix w w' assume f: "?full w" and s: "?def w' \<or> ?sub w' \<or> below w' ls"
    have w: "length (nm_labels (wn_name w)) = length ls" "priority w = 3"
      using f len by auto
    have lt: "length (nm_labels (wn_name w')) < length ls" if "\<not> ?def w'"
      using s that len below_length [of w' ls] by (auto split: list.splits)
    have eq: "length (nm_labels (wn_name w')) = length ls \<and> priority w' = 0" if "?def w'"
      using that len by auto
    show "rank w' \<le> rank w"
    proof (cases "?def w'")
      case True
      then show ?thesis
        using eq w by (simp add: rank_def)
    next
      case False
      then show ?thesis
        using lt w by (intro rank_less) simp
    qed
  qed
  moreover have "?full w \<or> ?def w \<or> ?sub w \<or> below w ls \<longleftrightarrow> pattern_covers L w ls" for w
  proof (cases w)
    case (WDefault n)
    have "(\<exists>p. map lower ls = p @ low_labels n) \<longleftrightarrow>
        low_labels n = map lower ls \<or> (\<exists>p. p \<noteq> [] \<and> map lower ls = p @ low_labels n)"
      by (metis append_Nil)
    then show ?thesis
      by (simp add: WDefault pattern_covers_def below_def split: list.split)
  next
    case (WSub v n)
    then show ?thesis
      by (cases ls) (auto simp: pattern_covers_def below_def)
  next
    case (WFull n)
    then show ?thesis
      by (cases ls) (auto simp: pattern_covers_def below_def)
  next
    case (WSuffix n)
    then show ?thesis
      by (cases ls) (simp_all add: pattern_covers_def below_def)
  qed
  ultimately show ?thesis
    using f by (simp add: ki_find_def)
qed

lemma dm_find_best:
  assumes "name_library L"
    and "inj_on (nl_hash L) (key_string ` fst ` set ps \<union> probes (nm_labels n))"
    and "fits (nm_labels n)" and "nm_labels n \<noteq> []" and "\<not> nl_is_wildcard L n"
  shows "case dm_find L (dm_from_iter L ps) n of
      None \<Rightarrow> \<forall>(w, v)\<in>set ps. \<not> wn_is_match L w n
    | Some v \<Rightarrow> \<exists>w. (w, v) \<in> set ps \<and> wn_is_match L w n \<and>
        (\<forall>(w', v')\<in>set ps. wn_is_match L w' n \<longrightarrow> rank w' \<le> rank w)"
proof -
  obtain A where A: "refines L (key_string ` fst ` set ps \<union> probes (nm_labels n)) (dm_from_iter L ps) A"
    "index_of ps A"
    using from_iter_index [OF assms(2), of ps] by auto
  have "dm_find L (dm_from_iter L ps) n = ki_find L A (nm_labels n)"
    using refines_find [OF A(1), of n] assms(5) by simp
  moreover have "best ps (\<lambda>w. pattern_covers L w (nm_labels n)) (ki_find L A (nm_labels n))"
    by (rule best_find [OF A(2) assms(3)])
  moreover have "pattern_covers L w (nm_labels n) \<longleftrightarrow> wn_is_match L w n" for w
    using name_library.is_match_covers [OF assms(1,4)] by simp
  ultimately show ?thesis
    by (simp add: best_def)
qed

text \<open>
  C2: An index built from configured patterns finds the most specific one. If the strings hashed
  for the patterns and for a query have different hashes, and the query name is one DNS allows
  and is not itself a wildcard, then \<open>find\<close> returns nothing exactly when no configured pattern
  matches the name, and otherwise the value of a matching pattern that no matching pattern
  outranks (more labels, then \<open>-\<close>, \<open>*\<close>, \<open>+\<close>, plain).
\<close>

theorem find_most_specific:
  assumes "name_library L"
    and "inj_on (nl_hash L) (key_string ` fst ` set ps \<union> probes (nm_labels n))"
    and "fits (nm_labels n)" and "nm_labels n \<noteq> []" and "\<not> nl_is_wildcard L n"
  shows "case dm_find L (dm_from_iter L ps) n of
      None \<Rightarrow> \<forall>(w, v)\<in>set ps. \<not> wn_is_match L w n
    | Some v \<Rightarrow> \<exists>w. (w, v) \<in> set ps \<and> wn_is_match L w n \<and>
        (\<forall>(w', v')\<in>set ps. wn_is_match L w' n \<longrightarrow> rank w' \<le> rank w)"
  using assms by (rule dm_find_best)

definition example_com :: name where
  "example_com = ascii_name [''example'', ''com''] False"

definition www_example_com :: name where
  "www_example_com = ascii_name [''WWW'', ''example'', ''com''] True"

lemmas names_eval =
  example_com_def www_example_com_def ascii_name_def ascii_def low_labels_def lower_def
  to_ascii_lowercase_def

text \<open>The strings in play, as a list; distinct hashes of it give the hypothesis.\<close>

definition key_list :: "(wildcard_name \<times> 'v) list \<Rightarrow> bytes list \<Rightarrow> bytes list" where
  "key_list ps ls = remdups (map (key_string \<circ> fst) ps @
     concat (map (\<lambda>i. map (\<lambda>k. k # wire_of (drop i ls)) [FULL, DEFAULT, SUFFIX, SUB]) [0..<Suc (length ls)]))"

lemma no_collision:
  assumes "distinct (map (nl_hash L) (key_list ps ls))"
  shows "inj_on (nl_hash L) (key_string ` fst ` set ps \<union> probes ls)"
proof -
  let ?f = "\<lambda>i. map (\<lambda>k. k # wire_of (drop i ls)) [FULL, DEFAULT, SUFFIX, SUB]"
  have "x \<in> set (key_list ps ls)" if mem: "x \<in> probes ls" for x
  proof -
    from mem obtain k i where k: "k \<in> {FULL, DEFAULT, SUFFIX, SUB}" "x = k # wire_of (drop i ls)"
      and i: "i \<le> length ls"
      unfolding probes_def by blast
    have "x \<in> set (?f i)"
      using k by auto
    moreover have "?f i \<in> set (map ?f [0..<Suc (length ls)])"
      unfolding set_map using i by (intro imageI) (simp del: upt_Suc)
    ultimately have "x \<in> set (concat (map ?f [0..<Suc (length ls)]))"
      unfolding set_concat by (rule UN_I [rotated])
    then show ?thesis
      by (simp only: key_list_def set_remdups set_append Un_iff simp_thms)
  qed
  then have "key_string ` fst ` set ps \<union> probes ls \<subseteq> set (key_list ps ls)"
    by (auto simp: key_list_def)
  moreover have "inj_on (nl_hash L) (set (key_list ps ls))"
    using assms by (simp add: distinct_map)
  ultimately show ?thesis
    by (rule inj_on_subset [rotated])
qed

theorem find_most_specific_witness:
  "let ps = [(WDefault example_com, 1 :: nat), (WSub wildcard_default example_com, 2)] in
   dm_find std_lib (dm_from_iter std_lib ps) www_example_com = Some 2 \<and>
   (\<exists>w. (w, 2) \<in> set ps \<and> wn_is_match std_lib w www_example_com \<and>
      (\<forall>(w', v')\<in>set ps. wn_is_match std_lib w' www_example_com \<longrightarrow> rank w' \<le> rank w))"
proof -
  let ?ps = "[(WDefault example_com, 1 :: nat), (WSub wildcard_default example_com, 2)]"
  have lib: "name_library std_lib" by (rule std.name_library_axioms)
  have inj: "inj_on (nl_hash std_lib)
      (key_string ` fst ` set ?ps \<union> probes (nm_labels www_example_com))"
    by (rule no_collision) code_simp
  have v: "fits (nm_labels www_example_com)" "nm_labels www_example_com \<noteq> []"
    "\<not> nl_is_wildcard std_lib www_example_com"
    by code_simp+
  have "dm_find std_lib (dm_from_iter std_lib ?ps) www_example_com = Some 2"
    by code_simp
  with find_most_specific [OF lib inj v] show ?thesis
    by (simp only: Let_def option.case simp_thms)
qed

end
