(* ===== verification/Domain_Map_Laws.thy ===== *)
theory Domain_Map_Laws
  imports Domain_Map
begin

text \<open>
  The rule index as a map from patterns to values: what \<open>get_exact\<close> returns after \<open>insert\<close> and
  \<open>remove\<close>, the number of entries, and the well-formedness every operation keeps. The locale
  \<open>pattern_index\<close> is the contract the rule tree relies on; \<open>DomainMap\<close> and \<open>DomainSet\<close> are its
  interpretations. No assumption on hashes is needed here: names with equal keys are one entry.
\<close>

section \<open>The contract\<close>

locale pattern_index =
  fixes put :: "'w \<Rightarrow> 'v \<Rightarrow> 'm \<Rightarrow> 'm"
    and del :: "'w \<Rightarrow> 'm \<Rightarrow> 'm"
    and get :: "'m \<Rightarrow> 'w \<Rightarrow> 'v option"
    and size_of :: "'m \<Rightarrow> nat"
    and wf :: "'m \<Rightarrow> bool"
    and ident :: "'w \<Rightarrow> 'i"
    and ok :: "'w \<Rightarrow> bool"
  assumes put_same: "wf m \<Longrightarrow> ok w \<Longrightarrow> ident w' = ident w \<Longrightarrow> get (put w v m) w' = Some v"
    and put_other: "wf m \<Longrightarrow> ident w' \<noteq> ident w \<Longrightarrow> get (put w v m) w' = get m w'"
    and put_size: "wf m \<Longrightarrow> ok w \<Longrightarrow>
      size_of (put w v m) = size_of m + (if get m w = None then 1 else 0)"
    and put_wf: "wf m \<Longrightarrow> wf (put w v m)"
    and del_same: "wf m \<Longrightarrow> ident w' = ident w \<Longrightarrow> get (del w m) w' = None"
    and del_other: "wf m \<Longrightarrow> ident w' \<noteq> ident w \<Longrightarrow> get (del w m) w' = get m w'"
    and del_wf: "wf m \<Longrightarrow> wf (del w m)"
begin

definition puts :: "('w \<times> 'v) list \<Rightarrow> 'm \<Rightarrow> 'm" where
  "puts ps m = fold (\<lambda>(w, v). put w v) ps m"

lemma puts_wf: "wf m \<Longrightarrow> wf (puts ps m)"
  unfolding puts_def by (induction ps arbitrary: m) (auto simp: put_wf)

lemma puts_other:
  "wf m \<Longrightarrow> ident w \<notin> ident ` fst ` set ps \<Longrightarrow> get (puts ps m) w = get m w"
  unfolding puts_def by (induction ps arbitrary: m) (auto simp: put_wf put_other)

text \<open>After a series of insertions of different entries, each is found with its value.\<close>

lemma puts_get:
  assumes "wf m" "distinct (map (ident \<circ> fst) ps)" "(w, v) \<in> set ps" "ok w"
  shows "get (puts ps m) w = Some v"
  using assms
proof (induction ps arbitrary: m)
  case (Cons p ps)
  obtain w' v' where p: "p = (w', v')" by (cases p)
  show ?case
  proof (cases "(w, v) = p")
    case True
    then have "ident w \<notin> ident ` fst ` set ps"
      using Cons.prems(2) by (force simp: image_iff)
    then have "get (puts ps (put w v m)) w = get (put w v m) w"
      using Cons.prems(1) by (intro puts_other) (auto simp: put_wf)
    then show ?thesis
      using True [symmetric] Cons.prems(1,4) put_same [of m w w v] by (simp add: puts_def)
  next
    case False
    have i: "(w, v) \<in> set ps"
      using Cons.prems(3) False by auto
    have d: "distinct (map (ident \<circ> fst) ps)"
      using Cons.prems(2) unfolding list.map distinct.simps(2) by (rule conjunct2)
    show ?thesis
      using Cons.IH [OF put_wf [OF Cons.prems(1), of w' v'] d i Cons.prems(4)]
      by (simp add: puts_def p)
  qed
qed simp

text \<open>The last insertion of an entry wins.\<close>

lemma puts_last:
  assumes "wf m" "ok w" "ident w \<notin> ident ` fst ` set qs"
  shows "get (puts (ps @ (w, v) # qs) m) w = Some v"
proof -
  have "puts (ps @ (w, v) # qs) m = puts qs (put w v (puts ps m))"
    by (simp add: puts_def)
  then show ?thesis
    using assms by (simp add: puts_other put_wf puts_wf put_same)
qed

end

section \<open>DomainMap as a pattern index\<close>

definition dm_wf :: "'v domain_map \<Rightarrow> bool" where
  "dm_wf m \<longleftrightarrow> hmap_ok (dm_map m) \<and> hmap_ok (dm_subs m) \<and>
     (\<forall>k subs. map_of (dm_subs m) k = Some subs \<longrightarrow> subs \<noteq> [] \<and> distinct (map fst subs))"

text \<open>What identifies an entry: whether the name is stored, its table, its key and, for \<open>*\<close>
  names, the wildcard.\<close>

definition dm_ident :: "name_lib \<Rightarrow> wildcard_name \<Rightarrow> bool \<times> u64 \<times> wildcard option" where
  "dm_ident L w =
     (wn_fits w, key L (kind w) (wire_of (nm_labels (wn_name w))),
      (case w of WSub wc _ \<Rightarrow> Some wc | _ \<Rightarrow> None))"

lemma subs_insert_distinct:
  "distinct (map fst xs) \<Longrightarrow> distinct (map fst (snd (subs_insert w v xs)))"
  "fst ` set (snd (subs_insert w v xs)) = insert w (fst ` set xs)"
  by (induction w v xs rule: subs_insert.induct) (auto simp: Let_def split_beta)

lemma find_fst_map_of: "map_option snd (find (\<lambda>(w', _). w' = u) xs) = map_of xs u"
  by (induction xs) auto

lemma subs_insert_map_of:
  "map_of (snd (subs_insert w v xs)) u = (if u = w then Some v else map_of xs u)"
  by (induction w v xs rule: subs_insert.induct) (auto simp: Let_def split_beta)

lemma subs_insert_length:
  "length (snd (subs_insert w v xs)) = length xs + (if fst (subs_insert w v xs) = None then 1 else 0)"
  by (induction w v xs rule: subs_insert.induct) (auto simp: Let_def split_beta)

lemma subs_remove_SomeD:
  assumes "subs_remove w xs = Some (v, rest)" "distinct (map fst xs)"
  shows "distinct (map fst rest)" "set rest \<subseteq> set xs" "map_of rest = (map_of xs)(w := None)"
proof -
  have "set rest \<subseteq> set xs \<and> distinct (map fst rest) \<and> map_of rest = (map_of xs)(w := None)"
    using assms
  proof (induction w xs arbitrary: v rest rule: subs_remove.induct)
    case (2 w w' v' xs)
    show ?case
    proof (cases "w' = w")
      case True
      with "2.prems" have "map_of xs w = None"
        by (simp add: map_of_eq_None_iff)
      then show ?thesis
        using True "2.prems" by (auto simp: fun_upd_idem)
    next
      case False
      with "2.prems" obtain r where r: "subs_remove w xs = Some (v, r)" "rest = (w', v') # r"
        by (auto split: prod.splits)
      with "2.IH" [OF False r(1)] "2.prems" False show ?thesis
        by (auto simp: fun_upd_twist)
    qed
  qed simp
  then show "distinct (map fst rest)" "set rest \<subseteq> set xs" "map_of rest = (map_of xs)(w := None)"
    by auto
qed

lemma subs_remove_NoneD: "subs_remove w xs = None \<Longrightarrow> map_of xs w = None"
  by (induction w xs rule: subs_remove.induct) (auto split: if_splits)

lemma wire_new_fits: "wn_fits w \<Longrightarrow> \<exists>wire. wire_new (nm_labels (wn_name w)) = Some wire \<and>
    parent wire 0 = wire_of (nm_labels (wn_name w))"
  by (simp add: wire_new_eq parent_wire_new)

lemma dm_get_exact_fits:
  "dm_get_exact L m w =
     (if \<not> wn_fits w then None
      else case w of
        WSub wc _ \<Rightarrow>
          (case map_of (dm_subs m) (key L SUB (wire_of (nm_labels (wn_name w)))) of
             None \<Rightarrow> None
           | Some subs \<Rightarrow> map_option snd (find (\<lambda>(w', _). w' = wc) subs))
      | _ \<Rightarrow> map_of (dm_map m) (key L (kind w) (wire_of (nm_labels (wn_name w)))))"
proof (cases "wn_fits w")
  case True
  from wire_new_fits [OF this] obtain wire where "wire_new (nm_labels (wn_name w)) = Some wire"
    "parent wire 0 = wire_of (nm_labels (wn_name w))" by blast
  then show ?thesis
    using True by (cases w) (simp_all add: dm_get_exact_def)
qed (simp add: dm_get_exact_def wire_new_NoneI)

lemma dm_insert_fits:
  "snd (dm_insert L w v m) =
     (if \<not> wn_fits w then m
      else case w of
        WSub wc _ \<Rightarrow>
          (let k = key L SUB (wire_of (nm_labels (wn_name w)))
           in m\<lparr>dm_subs := AList.update k
                  (snd (subs_insert wc v (unwrap_or (map_of (dm_subs m) k) []))) (dm_subs m)\<rparr>)
      | _ \<Rightarrow> m\<lparr>dm_map := AList.update (key L (kind w) (wire_of (nm_labels (wn_name w)))) v (dm_map m)\<rparr>)"
proof (cases "wn_fits w")
  case True
  from wire_new_fits [OF this] obtain wire where "wire_new (nm_labels (wn_name w)) = Some wire"
    "parent wire 0 = wire_of (nm_labels (wn_name w))" by blast
  then show ?thesis
    using True by (cases w) (simp_all add: dm_insert_def Let_def split_beta)
qed (simp add: dm_insert_def wire_new_NoneI)

lemma dm_remove_fits:
  "snd (dm_remove L w m) =
     (if \<not> wn_fits w then m
      else case w of
        WSub wc _ \<Rightarrow>
          (let k = key L SUB (wire_of (nm_labels (wn_name w))) in
           case subs_remove wc (unwrap_or (map_of (dm_subs m) k) []) of
             None \<Rightarrow> m
           | Some (v, rest) \<Rightarrow>
               m\<lparr>dm_subs := (if rest = [] then AList.delete k (dm_subs m)
                              else AList.update k rest (dm_subs m))\<rparr>)
      | _ \<Rightarrow> m\<lparr>dm_map := AList.delete (key L (kind w) (wire_of (nm_labels (wn_name w)))) (dm_map m)\<rparr>)"
proof (cases "wn_fits w")
  case True
  from wire_new_fits [OF this] obtain wire where "wire_new (nm_labels (wn_name w)) = Some wire"
    "parent wire 0 = wire_of (nm_labels (wn_name w))" by blast
  then show ?thesis
    using True by (cases w) (auto simp: dm_remove_def Let_def split: option.split)
qed (simp add: dm_remove_def wire_new_NoneI)

lemmas dm_fits = dm_get_exact_fits dm_insert_fits dm_remove_fits

lemma dm_insert_wf: "dm_wf m \<Longrightarrow> dm_wf (snd (dm_insert L w v m))"
proof (cases "w")
  case (WSub wc n)
  let ?k = "key L SUB (wire_of (nm_labels (wn_name w)))"
  assume wf: "dm_wf m"
  then have "distinct (map fst (unwrap_or (map_of (dm_subs m) ?k) []))"
    by (auto simp: dm_wf_def unwrap_or_def split: option.split)
  then show ?thesis
    using wf WSub subs_insert_distinct(1) [of "unwrap_or (map_of (dm_subs m) ?k) []" wc v]
    by (auto simp: dm_fits dm_wf_def Let_def subs_insert_ne)
qed (auto simp: dm_fits dm_wf_def)

lemma dm_remove_wf: "dm_wf m \<Longrightarrow> dm_wf (snd (dm_remove L w m))"
proof (cases "w")
  case (WSub wc n)
  let ?xs = "unwrap_or (map_of (dm_subs m) (key L SUB (wire_of (nm_labels (wn_name w))))) []"
  assume wf: "dm_wf m"
  then have d: "distinct (map fst ?xs)"
    by (auto simp: dm_wf_def unwrap_or_def split: option.split)
  show ?thesis
    using wf WSub subs_remove_SomeD(1) [of wc ?xs] d
    by (auto simp: dm_fits dm_wf_def Let_def split: option.splits if_splits)
qed (auto simp: dm_fits dm_wf_def)

lemma dm_insert_get:
  assumes "dm_wf m"
  shows "dm_get_exact L (snd (dm_insert L w v m)) w' =
    (if wn_fits w \<and> dm_ident L w' = dm_ident L w then Some v else dm_get_exact L m w')"
  by (cases w; cases w')
    (auto simp: dm_fits dm_ident_def Let_def find_fst_map_of subs_insert_map_of unwrap_or_def
      split: option.splits)

lemma dm_remove_get:
  assumes "dm_wf m"
  shows "dm_get_exact L (snd (dm_remove L w m)) w' =
    (if dm_ident L w' = dm_ident L w then None else dm_get_exact L m w')"
proof (cases w)
  case (WSub wc n)
  let ?k = "key L SUB (wire_of (nm_labels n))"
  let ?xs = "unwrap_or (map_of (dm_subs m) ?k) []"
  have d: "distinct (map fst ?xs)"
    using assms by (auto simp: dm_wf_def unwrap_or_def split: option.split)
  show ?thesis
  proof (cases "subs_remove wc ?xs")
    case None
    then show ?thesis
      using subs_remove_NoneD [OF None] WSub
      by (cases w') (auto simp: dm_fits dm_ident_def Let_def find_fst_map_of unwrap_or_def
          split: option.splits)
  next
    case (Some p)
    obtain v rest where p: "p = (v, rest)" by (cases p)
    from Some obtain xs where xs: "map_of (dm_subs m) ?k = Some xs" "?xs = xs"
      by (cases "map_of (dm_subs m) ?k") auto
    have rest: "map_of rest = (map_of xs)(wc := None)"
      using subs_remove_SomeD(3) [OF Some [unfolded p] d] xs by simp
    have no: "rest = [] \<Longrightarrow> u \<noteq> wc \<Longrightarrow> map_of xs u = None" for u
      using fun_cong [OF rest, of u] by simp
    show ?thesis
      using Some p WSub xs rest no
      by (cases w') (auto simp: dm_fits dm_ident_def Let_def find_fst_map_of split: option.splits)
  qed
qed (cases w'; auto simp: dm_fits dm_ident_def)+

lemma sum_list_update:
  "hmap_ok m \<Longrightarrow> sum_list (map (length \<circ> snd) (AList.update k xs m)) + length (unwrap_or (map_of m k) [])
     = sum_list (map (length \<circ> snd) m) + length xs"
  by (induction m) (auto simp: hmap_ok_def map_of_eq_None_iff [symmetric] unwrap_or_def split: option.splits)

lemma dm_insert_len:
  assumes "dm_wf m" "wn_fits w"
  shows "dm_len (snd (dm_insert L w v m)) = dm_len m + (if dm_get_exact L m w = None then 1 else 0)"
proof (cases w)
  case (WSub wc n)
  let ?k = "key L SUB (wire_of (nm_labels n))"
  let ?xs = "unwrap_or (map_of (dm_subs m) ?k) []"
  have g: "fst (subs_insert wc v ?xs) = dm_get_exact L m w"
    using assms(2) WSub
    by (auto simp: fst_subs_insert dm_fits unwrap_or_def split: option.split)
  have "hmap_ok (dm_subs m)" using assms(1) by (simp add: dm_wf_def)
  from sum_list_update [OF this, of ?k "snd (subs_insert wc v ?xs)"] show ?thesis
    using assms(2) WSub g
    by (simp add: dm_len_def dm_insert_fits Let_def subs_insert_length)
qed (use assms in \<open>auto simp: dm_fits dm_len_def dm_wf_def length_update\<close>)

interpretation dm: pattern_index
  "\<lambda>w v m. snd (dm_insert L w v m)" "\<lambda>w m. snd (dm_remove L w m)" "dm_get_exact L" dm_len dm_wf
  "dm_ident L" wn_fits
proof unfold_locales
  fix m :: "'v domain_map" and w w' :: wildcard_name and v :: 'v
  assume wf: "dm_wf m"
  show "wn_fits w \<Longrightarrow> dm_ident L w' = dm_ident L w \<Longrightarrow>
      dm_get_exact L (snd (dm_insert L w v m)) w' = Some v"
    by (simp add: dm_insert_get [OF wf])
  show "dm_ident L w' \<noteq> dm_ident L w \<Longrightarrow>
      dm_get_exact L (snd (dm_insert L w v m)) w' = dm_get_exact L m w'"
    by (simp add: dm_insert_get [OF wf])
  show "wn_fits w \<Longrightarrow> dm_len (snd (dm_insert L w v m)) =
      dm_len m + (if dm_get_exact L m w = None then 1 else 0)"
    by (rule dm_insert_len [OF wf])
  show "dm_ident L w' = dm_ident L w \<Longrightarrow> dm_get_exact L (snd (dm_remove L w m)) w' = None"
    by (simp add: dm_remove_get [OF wf])
  show "dm_ident L w' \<noteq> dm_ident L w \<Longrightarrow>
      dm_get_exact L (snd (dm_remove L w m)) w' = dm_get_exact L m w'"
    by (simp add: dm_remove_get [OF wf])
  show "dm_wf (snd (dm_insert L w v m))" "dm_wf (snd (dm_remove L w m))"
    by (rule dm_insert_wf [OF wf], rule dm_remove_wf [OF wf])
qed

lemma dm_empty_wf [simp]: "dm_wf dm_empty"
  by (simp add: dm_wf_def dm_empty_def)

lemma dm_from_iter_puts: "dm_from_iter L ps = dm.puts L ps dm_empty"
  by (simp add: dm_from_iter_def dm.puts_def)

lemma dm_from_iter_wf [simp]: "dm_wf (dm_from_iter L ps)"
  by (simp add: dm_from_iter_puts dm.puts_wf)

lemma dm_remove_returns:
  assumes "wire_new (nm_labels (wn_name w)) = Some wire" "parent wire 0 = wire_of (nm_labels (wn_name w))"
  shows "fst (dm_remove L w m) = dm_get_exact L m w"
proof (cases w)
  case (WSub wc n)
  show ?thesis
  proof (cases "map_of (dm_subs m) (key L SUB (parent wire 0))")
    case (Some subs)
    then show ?thesis
      using assms WSub fst_subs_remove [of wc subs]
      by (cases "subs_remove wc subs") (auto simp: dm_remove_def dm_get_exact_def Let_def)
  qed (use assms WSub in \<open>simp add: dm_remove_def dm_get_exact_def Let_def\<close>)
qed (use assms in \<open>simp_all add: dm_remove_def dm_get_exact_def Let_def\<close>)

text \<open>
  The rule index is a map from patterns to values. On an index built by any series of
  insertions, inserting a name that DNS allows makes exactly that entry readable with the new
  value, returns the value it replaces and grows the index by one when there was none; removing
  it returns its value and makes exactly that entry unreadable. Entries are told apart by their
  key, so this holds whatever the hash function is.
\<close>

theorem insert_remove_laws:
  assumes f: "wn_fits w" and m: "m = dm_from_iter L ps"
  shows "dm_get_exact L (snd (dm_insert L w v m)) w' =
      (if dm_ident L w' = dm_ident L w then Some v else dm_get_exact L m w') \<and>
    fst (dm_insert L w v m) = dm_get_exact L m w \<and>
    dm_len (snd (dm_insert L w v m)) = dm_len m + (if dm_get_exact L m w = None then 1 else 0) \<and>
    dm_get_exact L (snd (dm_remove L w m)) w' =
      (if dm_ident L w' = dm_ident L w then None else dm_get_exact L m w') \<and>
    fst (dm_remove L w m) = dm_get_exact L m w"
proof -
  have wf: "dm_wf m" by (simp add: m)
  obtain wire where wire: "wire_new (nm_labels (wn_name w)) = Some wire"
    "parent wire 0 = wire_of (nm_labels (wn_name w))"
    using wire_new_fits [OF f] by blast
  have "dm_get_exact L (snd (dm_insert L w v m)) w' =
      (if dm_ident L w' = dm_ident L w then Some v else dm_get_exact L m w')"
    using f by (simp add: dm.put_same dm.put_other wf)
  moreover have "fst (dm_insert L w v m) = dm_get_exact L m w"
    using wire by (cases w) (auto simp: dm_insert_def dm_get_exact_def Let_def split_beta
        fst_subs_insert unwrap_or_def split: option.split)
  moreover have "dm_get_exact L (snd (dm_remove L w m)) w' =
      (if dm_ident L w' = dm_ident L w then None else dm_get_exact L m w')"
    by (simp add: dm.del_same dm.del_other wf)
  moreover have "fst (dm_remove L w m) = dm_get_exact L m w"
    by (rule dm_remove_returns [OF wire])
  ultimately show ?thesis
    using dm.put_size [OF wf f] by simp
qed

theorem insert_remove_laws_witness:
  "dm_get_exact std_lib (snd (dm_insert std_lib (WFull example_com) (7 :: nat)
     (dm_from_iter std_lib [(WDefault example_com, 5)]))) (WFull example_com) = Some 7 \<and>
   dm_len (snd (dm_insert std_lib (WFull example_com) (7 :: nat)
     (dm_from_iter std_lib [(WDefault example_com, 5)]))) = 2"
proof -
  have f: "wn_fits (WFull example_com)" by code_simp
  let ?m = "dm_from_iter std_lib [(WDefault example_com, 5 :: nat)]"
  have "dm_get_exact std_lib ?m (WFull example_com) = None" "dm_len ?m = 1"
    by code_simp+
  then show ?thesis
    using insert_remove_laws [OF f refl, of std_lib "7 :: nat"
      "[(WDefault example_com, 5)]" "WFull example_com"]
    by (auto simp del: One_nat_def)
qed

end
