(* ===== verification/Domain_Rule.thy ===== *)
theory Domain_Rule
  imports Domain_Name
begin

text \<open>
  Domain rules (\<^verbatim>\<open>src/src/config/domain_rule.rs\<close>), the values they hold (\<^verbatim>\<open>src/src/config/mod.rs\<close>,
  \<^verbatim>\<open>speed_mode.rs\<close>, \<^verbatim>\<open>response_mode.rs\<close>) and the groups that collect them
  (\<^verbatim>\<open>src/src/config/rule_group.rs\<close>).

  \<open>inherit\<close> fills a rule from its parent's, \<open>add_assign\<close> merges a later configuration line into
  a rule. The locale \<open>rule_merge\<close> is what both promise (a monoid with the empty rule); it carries
  the facts about chains of rules that the rule tree uses. SRV, TXT and HTTPS record data come
  from \<open>hickory_proto\<close> and are only stored and copied by this code: they are byte strings here.
\<close>

section \<open>Values\<close>

datatype speed_check_mode =
  SpeedNone | Ping | Tcp u16 | TcpSyn u16 | Http u16 | Https u16

type_synonym speed_check_mode_list = "speed_check_mode list"

datatype ping_addr =
  PingIcmp ip_addr | PingTcp ip_addr u16 | PingTcpSyn ip_addr u16 | PingHttp ip_addr u16
  | PingHttps ip_addr u16

definition mode_is_none :: "speed_check_mode \<Rightarrow> bool" where
  "mode_is_none m \<longleftrightarrow> m = SpeedNone"

fun to_ping_addr :: "speed_check_mode \<Rightarrow> ip_addr \<Rightarrow> ping_addr option" where
  "to_ping_addr SpeedNone i = None"
| "to_ping_addr Ping i = Some (PingIcmp i)"
| "to_ping_addr (Tcp p) i = Some (PingTcp i p)"
| "to_ping_addr (TcpSyn p) i = Some (PingTcpSyn i p)"
| "to_ping_addr (Http p) i = Some (PingHttp i p)"
| "to_ping_addr (Https p) i = Some (PingHttps i p)"

definition to_ping_addrs :: "speed_check_mode \<Rightarrow> ip_addr list \<Rightarrow> ping_addr list" where
  "to_ping_addrs m ips = List.map_filter (to_ping_addr m) ips"

definition modes_push :: "speed_check_mode \<Rightarrow> speed_check_mode_list \<Rightarrow>
    speed_check_mode option \<times> speed_check_mode_list" where
  "modes_push m ms = (if list_all (\<lambda>x. x \<noteq> m) ms then (None, ms @ [m]) else (Some m, ms))"

definition modes_from_vec :: "speed_check_mode list \<Rightarrow> speed_check_mode_list" where
  "modes_from_vec v = fold (\<lambda>m ms. snd (modes_push m ms)) v []"

definition modes_default :: speed_check_mode_list where
  "modes_default = [Ping, Http 80, Https 443]"

datatype response_mode = FirstPing | FastestIp | FastestResponse

datatype address_rule_value =
  ASOA | ASOAv4 | ASOAv6 | AIGN | AIGNv4 | AIGNv6
  | AAddr (addr_v4: "ipv4 list option") (addr_v6: "ipv6 list option")

datatype 'a ignorable = Ignore | Value 'a

type_synonym cname_rule = "name ignorable"

datatype https_record_rule =
  HSOA | HIgnore | HFilter (no_ipv4_hint: bool) (no_ipv6_hint: bool) | HRecordData svcb

datatype 'a config_for_ip = CAll 'a | CV4 'a | CV6 'a | CNone | CNoneV4 | CNoneV6

record nftset_config =
  nft_family :: string
  nft_table :: string
  nft_name :: string

section \<open>DomainRule\<close>

record domain_rule =
  ru_nameserver :: "string option"
  ru_address :: "address_rule_value option"
  ru_cname :: "cname_rule option"
  ru_srv :: "bytes option"
  ru_txt :: "bytes list option"
  ru_https :: "https_record_rule option"
  ru_speed_check_mode :: "speed_check_mode_list option"
  ru_dualstack_ip_selection :: "bool option"
  ru_response_mode :: "response_mode option"
  ru_no_cache :: "bool option"
  ru_no_serve_expired :: "bool option"
  ru_nftset :: "nftset_config config_for_ip list option"
  ru_ipset :: "string config_for_ip list option"
  ru_rr_ttl :: "u64 option"
  ru_rr_ttl_min :: "u64 option"
  ru_rr_ttl_max :: "u64 option"
  ru_subnet :: "(ip_addr \<times> u8) option"
  ru_recheck_nameserver :: "string option"
  ru_recheck_ip_set :: "string option"

definition rule_default :: domain_rule where
  "rule_default =
     \<lparr>ru_nameserver = None, ru_address = None, ru_cname = None, ru_srv = None, ru_txt = None,
      ru_https = None, ru_speed_check_mode = None, ru_dualstack_ip_selection = None,
      ru_response_mode = None, ru_no_cache = None, ru_no_serve_expired = None, ru_nftset = None,
      ru_ipset = None, ru_rr_ttl = None, ru_rr_ttl_min = None, ru_rr_ttl_max = None,
      ru_subnet = None, ru_recheck_nameserver = None, ru_recheck_ip_set = None\<rparr>"

text \<open>The macro \<open>fill!\<close> sets a field that is \<open>None\<close> to the parent's: \<open>or_else\<close>.\<close>

definition inherit :: "domain_rule \<Rightarrow> domain_rule \<Rightarrow> domain_rule" where
  "inherit self parent =
     (let rule = self;
          rule = (if ru_nameserver rule = None
            then rule\<lparr>ru_recheck_nameserver := or_else (ru_recheck_nameserver rule) (ru_recheck_nameserver parent),
                      ru_recheck_ip_set := or_else (ru_recheck_ip_set rule) (ru_recheck_ip_set parent)\<rparr>
            else rule);
          rule = (if ru_rr_ttl rule = None \<and> ru_rr_ttl_min rule = None \<and> ru_rr_ttl_max rule = None
            then rule\<lparr>ru_rr_ttl := or_else (ru_rr_ttl rule) (ru_rr_ttl parent),
                      ru_rr_ttl_min := or_else (ru_rr_ttl_min rule) (ru_rr_ttl_min parent),
                      ru_rr_ttl_max := or_else (ru_rr_ttl_max rule) (ru_rr_ttl_max parent)\<rparr>
            else rule)
      in rule\<lparr>
        ru_nameserver := or_else (ru_nameserver rule) (ru_nameserver parent),
        ru_address := or_else (ru_address rule) (ru_address parent),
        ru_cname := or_else (ru_cname rule) (ru_cname parent),
        ru_srv := or_else (ru_srv rule) (ru_srv parent),
        ru_txt := or_else (ru_txt rule) (ru_txt parent),
        ru_https := or_else (ru_https rule) (ru_https parent),
        ru_speed_check_mode := or_else (ru_speed_check_mode rule) (ru_speed_check_mode parent),
        ru_dualstack_ip_selection :=
          or_else (ru_dualstack_ip_selection rule) (ru_dualstack_ip_selection parent),
        ru_response_mode := or_else (ru_response_mode rule) (ru_response_mode parent),
        ru_no_cache := or_else (ru_no_cache rule) (ru_no_cache parent),
        ru_no_serve_expired := or_else (ru_no_serve_expired rule) (ru_no_serve_expired parent),
        ru_nftset := or_else (ru_nftset rule) (ru_nftset parent),
        ru_ipset := or_else (ru_ipset rule) (ru_ipset parent),
        ru_subnet := or_else (ru_subnet rule) (ru_subnet parent)\<rparr>)"

text \<open>\<open>self.txt.get_or_insert_with(Vec::new).extend(txt)\<close>.\<close>

definition extend_txt :: "bytes list option \<Rightarrow> bytes list option \<Rightarrow> bytes list option" where
  "extend_txt a b = (case b of None \<Rightarrow> a | Some t \<Rightarrow> Some (unwrap_or a [] @ t))"

definition add_assign :: "domain_rule \<Rightarrow> domain_rule \<Rightarrow> domain_rule" where
  "add_assign self rhs = self\<lparr>
     ru_txt := extend_txt (ru_txt self) (ru_txt rhs),
     ru_nameserver := or_else (ru_nameserver rhs) (ru_nameserver self),
     ru_address := or_else (ru_address rhs) (ru_address self),
     ru_cname := or_else (ru_cname rhs) (ru_cname self),
     ru_srv := or_else (ru_srv rhs) (ru_srv self),
     ru_https := or_else (ru_https rhs) (ru_https self),
     ru_subnet := or_else (ru_subnet rhs) (ru_subnet self),
     ru_speed_check_mode := or_else (ru_speed_check_mode rhs) (ru_speed_check_mode self),
     ru_dualstack_ip_selection :=
       or_else (ru_dualstack_ip_selection rhs) (ru_dualstack_ip_selection self),
     ru_response_mode := or_else (ru_response_mode rhs) (ru_response_mode self),
     ru_no_cache := or_else (ru_no_cache rhs) (ru_no_cache self),
     ru_no_serve_expired := or_else (ru_no_serve_expired rhs) (ru_no_serve_expired self),
     ru_nftset := or_else (ru_nftset rhs) (ru_nftset self),
     ru_ipset := or_else (ru_ipset rhs) (ru_ipset self),
     ru_rr_ttl := or_else (ru_rr_ttl rhs) (ru_rr_ttl self),
     ru_rr_ttl_min := or_else (ru_rr_ttl_min rhs) (ru_rr_ttl_min self),
     ru_rr_ttl_max := or_else (ru_rr_ttl_max rhs) (ru_rr_ttl_max self),
     ru_recheck_nameserver := or_else (ru_recheck_nameserver rhs) (ru_recheck_nameserver self),
     ru_recheck_ip_set := or_else (ru_recheck_ip_set rhs) (ru_recheck_ip_set self)\<rparr>"

section \<open>RuleGroup\<close>

record 'a config_for_domain =
  cd_domain :: domain
  cd_config :: 'a

record network_set_options =
  ns_ipset_timeout :: "bool option"
  ns_nftset_timeout :: "bool option"
  ns_ipset_no_speed :: "string config_for_ip list option"
  ns_nftset_no_speed :: "nftset_config config_for_ip list option"

record rule_group =
  rg_network_sets :: network_set_options
  rg_nftsets :: "nftset_config config_for_ip list config_for_domain list"
  rg_forward_rules :: "string config_for_domain list"
  rg_address_rules :: "address_rule_value config_for_domain list"
  rg_domain_rules :: "domain_rule config_for_domain list"
  rg_cnames :: "cname_rule config_for_domain list"
  rg_srv_records :: "bytes config_for_domain list"
  rg_https_records :: "https_record_rule config_for_domain list"

definition rule_group_default :: rule_group where
  "rule_group_default =
     \<lparr>rg_network_sets = \<lparr>ns_ipset_timeout = None, ns_nftset_timeout = None,
        ns_ipset_no_speed = None, ns_nftset_no_speed = None\<rparr>,
      rg_nftsets = [], rg_forward_rules = [], rg_address_rules = [], rg_domain_rules = [],
      rg_cnames = [], rg_srv_records = [], rg_https_records = []\<rparr>"

definition rule_group_merge :: "rule_group \<Rightarrow> rule_group \<Rightarrow> rule_group" where
  "rule_group_merge self other =
     (let sets = rg_network_sets other; mine = rg_network_sets self in
      self\<lparr>
        rg_network_sets := mine\<lparr>
          ns_ipset_timeout := or_else (ns_ipset_timeout sets) (ns_ipset_timeout mine),
          ns_nftset_timeout := or_else (ns_nftset_timeout sets) (ns_nftset_timeout mine),
          ns_ipset_no_speed := or_else (ns_ipset_no_speed sets) (ns_ipset_no_speed mine),
          ns_nftset_no_speed := or_else (ns_nftset_no_speed sets) (ns_nftset_no_speed mine)\<rparr>,
        rg_forward_rules := rg_forward_rules self @ rg_forward_rules other,
        rg_address_rules := rg_address_rules self @ rg_address_rules other,
        rg_domain_rules := rg_domain_rules self @ rg_domain_rules other,
        rg_cnames := rg_cnames self @ rg_cnames other,
        rg_srv_records := rg_srv_records self @ rg_srv_records other,
        rg_https_records := rg_https_records self @ rg_https_records other,
        rg_nftsets := rg_nftsets self @ rg_nftsets other\<rparr>)"

section \<open>Merging\<close>

text \<open>What the three merges promise: an associative operation with a neutral element.\<close>

locale rule_merge =
  fixes merge :: "'r \<Rightarrow> 'r \<Rightarrow> 'r" and nothing :: 'r
  assumes merge_assoc: "merge (merge a b) c = merge a (merge b c)"
    and merge_nothing_right: "merge a nothing = a"
    and merge_nothing_left: "merge nothing a = a"
begin

definition merge_all :: "'r list \<Rightarrow> 'r" where
  "merge_all rs = foldr merge rs nothing"

lemma merge_all_simps [simp]:
  "merge_all [] = nothing" "merge_all (r # rs) = merge r (merge_all rs)"
  by (simp_all add: merge_all_def)

lemma merge_all_append: "merge_all (xs @ ys) = merge (merge_all xs) (merge_all ys)"
  by (induction xs) (simp_all add: merge_nothing_left merge_assoc)

text \<open>A loop that merges each new value into an accumulator computes the same.\<close>

lemma fold_merge: "fold (\<lambda>r acc. merge acc r) rs a = merge a (merge_all rs)"
  by (induction rs arbitrary: a) (simp_all add: merge_nothing_right merge_assoc)

end

lemma inherit_fields [simp]:
  "ru_nameserver (inherit a b) = or_else (ru_nameserver a) (ru_nameserver b)"
  "ru_address (inherit a b) = or_else (ru_address a) (ru_address b)"
  "ru_cname (inherit a b) = or_else (ru_cname a) (ru_cname b)"
  "ru_srv (inherit a b) = or_else (ru_srv a) (ru_srv b)"
  "ru_txt (inherit a b) = or_else (ru_txt a) (ru_txt b)"
  "ru_https (inherit a b) = or_else (ru_https a) (ru_https b)"
  "ru_speed_check_mode (inherit a b) = or_else (ru_speed_check_mode a) (ru_speed_check_mode b)"
  "ru_dualstack_ip_selection (inherit a b) =
     or_else (ru_dualstack_ip_selection a) (ru_dualstack_ip_selection b)"
  "ru_response_mode (inherit a b) = or_else (ru_response_mode a) (ru_response_mode b)"
  "ru_no_cache (inherit a b) = or_else (ru_no_cache a) (ru_no_cache b)"
  "ru_no_serve_expired (inherit a b) = or_else (ru_no_serve_expired a) (ru_no_serve_expired b)"
  "ru_nftset (inherit a b) = or_else (ru_nftset a) (ru_nftset b)"
  "ru_ipset (inherit a b) = or_else (ru_ipset a) (ru_ipset b)"
  "ru_subnet (inherit a b) = or_else (ru_subnet a) (ru_subnet b)"
  by (simp_all add: inherit_def Let_def)

definition ttl_of :: "domain_rule \<Rightarrow> u64 option \<times> u64 option \<times> u64 option" where
  "ttl_of r = (ru_rr_ttl r, ru_rr_ttl_min r, ru_rr_ttl_max r)"

definition recheck_of :: "domain_rule \<Rightarrow> string option \<times> string option" where
  "recheck_of r = (ru_recheck_nameserver r, ru_recheck_ip_set r)"

lemma inherit_ttl: "ttl_of (inherit a b) = (if ttl_of a = (None, None, None) then ttl_of b else ttl_of a)"
  by (cases "ru_nameserver a"; cases "ru_rr_ttl a"; cases "ru_rr_ttl_min a"; cases "ru_rr_ttl_max a")
    (simp_all add: ttl_of_def inherit_def Let_def)

lemma inherit_recheck:
  "recheck_of (inherit a b) =
     (if ru_nameserver a = None
      then (or_else (ru_recheck_nameserver a) (ru_recheck_nameserver b),
            or_else (ru_recheck_ip_set a) (ru_recheck_ip_set b))
      else recheck_of a)"
  by (cases "ru_nameserver a"; cases "ttl_of a = (None, None, None)")
    (auto simp: recheck_of_def inherit_def Let_def ttl_of_def)

text \<open>Two rules are equal when every option agrees, the grouped ones as groups.\<close>

lemma rule_eqI:
  assumes "ttl_of a = ttl_of b" "recheck_of a = recheck_of b"
    "ru_nameserver a = ru_nameserver b" "ru_address a = ru_address b" "ru_cname a = ru_cname b"
    "ru_srv a = ru_srv b" "ru_txt a = ru_txt b" "ru_https a = ru_https b"
    "ru_speed_check_mode a = ru_speed_check_mode b"
    "ru_dualstack_ip_selection a = ru_dualstack_ip_selection b"
    "ru_response_mode a = ru_response_mode b" "ru_no_cache a = ru_no_cache b"
    "ru_no_serve_expired a = ru_no_serve_expired b" "ru_nftset a = ru_nftset b"
    "ru_ipset a = ru_ipset b" "ru_subnet a = ru_subnet b"
  shows "a = b"
  using assms by (cases a; cases b) (simp add: ttl_of_def recheck_of_def)

lemma rule_default_fields [simp]:
  "ttl_of rule_default = (None, None, None)" "recheck_of rule_default = (None, None)"
  "ru_recheck_nameserver rule_default = None" "ru_recheck_ip_set rule_default = None"
  "ru_nameserver rule_default = None" "ru_address rule_default = None" "ru_cname rule_default = None"
  "ru_srv rule_default = None" "ru_txt rule_default = None" "ru_https rule_default = None"
  "ru_speed_check_mode rule_default = None" "ru_dualstack_ip_selection rule_default = None"
  "ru_response_mode rule_default = None" "ru_no_cache rule_default = None"
  "ru_no_serve_expired rule_default = None" "ru_nftset rule_default = None"
  "ru_ipset rule_default = None" "ru_subnet rule_default = None"
  by (simp_all add: rule_default_def ttl_of_def recheck_of_def)

lemma recheck_fields:
  "ru_recheck_nameserver r = fst (recheck_of r)" "ru_recheck_ip_set r = snd (recheck_of r)"
  by (simp_all add: recheck_of_def)

interpretation inh: rule_merge inherit rule_default
proof unfold_locales
  fix a b c :: domain_rule
  show "inherit (inherit a b) c = inherit a (inherit b c)"
    by (rule rule_eqI)
      (auto simp: inherit_ttl inherit_recheck recheck_fields [of "inherit _ _"] or_else_assoc
        simp flip: recheck_fields)
  show "inherit a rule_default = a" "inherit rule_default a = a"
    by (rule rule_eqI; simp add: inherit_ttl inherit_recheck; simp add: recheck_of_def)+
qed

lemma extend_txt_simps [simp]: "extend_txt a None = a" "extend_txt None b = b"
  by (simp_all add: extend_txt_def split: option.split)

lemma extend_txt_assoc: "extend_txt (extend_txt a b) c = extend_txt a (extend_txt b c)"
  by (cases a; cases b; cases c) (simp_all add: extend_txt_def)

interpretation add: rule_merge add_assign rule_default
  by unfold_locales
    (simp_all add: add_assign_def rule_default_def or_else_assoc extend_txt_assoc)

interpretation group: rule_merge rule_group_merge rule_group_default
  by unfold_locales
    (simp_all add: rule_group_merge_def rule_group_default_def Let_def or_else_assoc)

text \<open>
  Inheritance takes every option from the most specific rule that sets it. Along a chain of
  rules, the most specific first, the rule obtained by inheriting step by step from the top has
  for each independent option the first value set on the chain; the three TTL limits come
  together from the first rule that sets any of them.
\<close>

theorem inherit_chain:
  "ru_nameserver (foldr inherit rs rule_default) = first_some (map ru_nameserver rs) \<and>
   ru_address (foldr inherit rs rule_default) = first_some (map ru_address rs) \<and>
   ru_no_cache (foldr inherit rs rule_default) = first_some (map ru_no_cache rs) \<and>
   ru_speed_check_mode (foldr inherit rs rule_default) = first_some (map ru_speed_check_mode rs) \<and>
   ttl_of (foldr inherit rs rule_default) =
     (case find (\<lambda>r. ttl_of r \<noteq> (None, None, None)) rs of
        None \<Rightarrow> (None, None, None) | Some r \<Rightarrow> ttl_of r) \<and>
   foldr inherit rs rule_default = foldl inherit rule_default rs"
proof -
  have "ttl_of (foldr inherit rs rule_default) =
     (case find (\<lambda>r. ttl_of r \<noteq> (None, None, None)) rs of
        None \<Rightarrow> (None, None, None) | Some r \<Rightarrow> ttl_of r)"
    by (induction rs) (auto simp: inherit_ttl)
  moreover have "foldl inherit rule_default rs = foldr inherit rs rule_default"
    using inh.fold_merge [of rs rule_default]
    by (simp add: foldl_conv_fold inh.merge_all_def inh.merge_nothing_left)
  moreover have "ru_nameserver (foldr inherit rs rule_default) = first_some (map ru_nameserver rs)"
    "ru_address (foldr inherit rs rule_default) = first_some (map ru_address rs)"
    "ru_no_cache (foldr inherit rs rule_default) = first_some (map ru_no_cache rs)"
    "ru_speed_check_mode (foldr inherit rs rule_default) = first_some (map ru_speed_check_mode rs)"
    by (induction rs) simp_all
  ultimately show ?thesis by simp
qed

lemma modes_push_distinct: "distinct ms \<Longrightarrow> distinct (snd (modes_push m ms))"
  by (auto simp: modes_push_def list_all_iff)

lemma modes_push_set: "set (snd (modes_push m ms)) = insert m (set ms)"
  by (auto simp: modes_push_def list_all_iff)

lemma modes_fold:
  "distinct acc \<Longrightarrow> distinct (fold (\<lambda>m ms. snd (modes_push m ms)) v acc) \<and>
     set (fold (\<lambda>m ms. snd (modes_push m ms)) v acc) = set acc \<union> set v"
  by (induction v arbitrary: acc) (auto simp: modes_push_distinct modes_push_set)

lemma modes_from_vec_distinct: "distinct (modes_from_vec v)" "set (modes_from_vec v) = set v"
  using modes_fold [of "[]" v] by (simp_all add: modes_from_vec_def)

end
