(* ===== verification/Rule_Tree.thy ===== *)
theory Rule_Tree
  imports Domain_Map_Laws Domain_Rule "HOL-Library.Product_Lexorder"
begin

text \<open>
  The rule tree (\<^verbatim>\<open>src/src/dns_rule.rs\<close>): expansion of the configured rules to one rule per
  pattern, interning of equal rules, and the index of nodes that inherit from the zone above.

  \<^item> \<open>Arc<DomainRule>\<close> is a pair of an address and a rule. Every such \<open>Arc\<close> is created by
    \<open>or_insert_with\<close> of the interning table under the rule's hash and the table never drops one,
    so addresses and hashes correspond and the hash serves as the address.
  \<^item> The iteration order of the hash map of rules is the argument \<open>order\<close>, which maps the keys
    to the sequence of positions visited; it is only assumed to visit each position once
    (\<open>fair\<close>). Domain sets are given in their iteration order.
  \<^item> The hash of a rule is the argument \<open>H\<close> (\<open>DefaultHasher\<close>).

  \<open>create\<close> is the source's construction; \<open>create_ref\<close> is the same without interning and without
  the table of merged pairs. The refinement shows that both give the same tree when no two
  rules that were hashed collide.
\<close>

section \<open>Model\<close>

record arc =
  arc_ptr :: u64
  arc_rule :: domain_rule

type_synonym arc_table = "(u64, arc) hmap"
type_synonym domain_sets = "(string, wildcard_name list) hmap"

definition expand_domain :: "domain \<Rightarrow> domain_sets \<Rightarrow> wildcard_name list" where
  "expand_domain d sets =
     (let (name, set) = (case d of DName n \<Rightarrow> (Some n, None) | DSet s \<Rightarrow> (None, map_of sets s))
      in (case name of None \<Rightarrow> [] | Some n \<Rightarrow> [n]) @ unwrap_or set [])"

text \<open>\<open>entry(rule.hash_code()).or_insert_with(|| Arc::new(rule)).clone()\<close>.\<close>

definition intern :: "(domain_rule \<Rightarrow> u64) \<Rightarrow> domain_rule \<Rightarrow> arc_table \<Rightarrow> arc \<times> arc_table" where
  "intern H rule t =
     (let k = H rule in
      case map_of t k of
        Some a \<Rightarrow> (a, t)
      | None \<Rightarrow> (let a = \<lparr>arc_ptr = k, arc_rule = rule\<rparr> in (a, AList.update k a t)))"

text \<open>The hash map keyed by patterns: names compare as the library compares them, and an
  existing key is kept.\<close>

definition nm_get :: "name_lib \<Rightarrow> (wildcard_name \<times> 'a) list \<Rightarrow> wildcard_name \<Rightarrow> 'a option" where
  "nm_get L m w = map_option snd (find (\<lambda>(w', _). wn_eq L w' w) m)"

fun nm_put :: "name_lib \<Rightarrow> wildcard_name \<Rightarrow> 'a \<Rightarrow> (wildcard_name \<times> 'a) list \<Rightarrow> (wildcard_name \<times> 'a) list" where
  "nm_put L w v [] = [(w, v)]"
| "nm_put L w v ((w', v') # m) = (if wn_eq L w' w then (w', v) # m else (w', v') # nm_put L w v m)"

definition update_rule ::
  "name_lib \<Rightarrow> (domain_rule \<Rightarrow> u64) \<Rightarrow> (domain_rule \<Rightarrow> domain_rule) \<Rightarrow> wildcard_name \<Rightarrow>
   (wildcard_name \<times> arc) list \<times> arc_table \<Rightarrow> (wildcard_name \<times> arc) list \<times> arc_table" where
  "update_rule L H update name st =
     (let (rules, shared) = st;
          rule = (case nm_get L rules name of Some a \<Rightarrow> arc_rule a | None \<Rightarrow> rule_default);
          rule = update rule;
          (a, shared) = intern H rule shared
      in (nm_put L name a rules, shared))"

text \<open>One of the loops of \<open>create\<close>: every name of every line, in order.\<close>

definition append_rules ::
  "name_lib \<Rightarrow> (domain_rule \<Rightarrow> u64) \<Rightarrow> domain_sets \<Rightarrow> ('a \<Rightarrow> domain_rule \<Rightarrow> domain_rule) \<Rightarrow>
   'a config_for_domain list \<Rightarrow> (wildcard_name \<times> arc) list \<times> arc_table \<Rightarrow>
   (wildcard_name \<times> arc) list \<times> arc_table" where
  "append_rules L H sets update rules st =
     fold (\<lambda>rule st. fold (update_rule L H (update (cd_config rule))) (expand_domain (cd_domain rule) sets) st)
       rules st"

datatype 'r tree_node = TreeNode (node_rule: 'r) (node_zone: "'r tree_node option")

definition inherit_order :: "wildcard_name \<Rightarrow> nat" where
  "inherit_order w = (case w of WDefault _ \<Rightarrow> 0 | WSuffix _ \<Rightarrow> 1 | WSub _ _ \<Rightarrow> 2 | WFull _ \<Rightarrow> 3)"

definition zone_of :: "name_lib \<Rightarrow> 'r tree_node domain_map \<Rightarrow> wildcard_name \<Rightarrow> 'r tree_node option" where
  "zone_of L rules name =
     (let same_name = (case name of
            WDefault _ \<Rightarrow> None
          | WSub _ n \<Rightarrow> or_else (dm_get_exact L rules (WSuffix n)) (dm_get_exact L rules (WDefault n))
          | WSuffix n \<Rightarrow> dm_get_exact L rules (WDefault n)
          | WFull n \<Rightarrow> dm_get_exact L rules (WDefault n))
      in or_else same_name
        (if nl_is_root L (wn_name name) then None else dm_find L rules (nl_base_name L (wn_name name))))"

definition sort_items :: "name_lib \<Rightarrow> (wildcard_name \<times> 'a) list \<Rightarrow> (wildcard_name \<times> 'a) list" where
  "sort_items L items =
     sort_by (\<lambda>a b. cmp_of (length (nm_labels (wn_name (fst a))), inherit_order (fst a))
                           (length (nm_labels (wn_name (fst b))), inherit_order (fst b)))
       (sort_by (\<lambda>a b. wn_cmp L (fst a) (fst b)) items)"

type_synonym inherited = "(u64 \<times> u64, arc) hmap"

text \<open>The body of the last loop of \<open>create\<close>.\<close>

definition add_node ::
  "name_lib \<Rightarrow> (domain_rule \<Rightarrow> u64) \<Rightarrow> wildcard_name \<times> arc \<Rightarrow>
   arc tree_node domain_map \<times> inherited \<times> arc_table \<Rightarrow>
   arc tree_node domain_map \<times> inherited \<times> arc_table" where
  "add_node L H item st =
     (let (name, rule) = item;
          (rules, inherited, rule_map) = st;
          zone = zone_of L rules name;
          (rule, inherited, rule_map) =
            (case zone of
               Some z \<Rightarrow>
                 (let k = (arc_ptr (node_rule z), arc_ptr rule) in
                  case map_of inherited k of
                    Some a \<Rightarrow> (a, inherited, rule_map)
                  | None \<Rightarrow>
                      (let (a, rule_map) = intern H (inherit (arc_rule rule) (arc_rule (node_rule z))) rule_map
                       in (a, AList.update k a inherited, rule_map)))
             | None \<Rightarrow> (rule, inherited, rule_map))
      in (snd (dm_insert L name (TreeNode rule zone) rules), inherited, rule_map))"

definition reorder :: "(wildcard_name list \<Rightarrow> nat list) \<Rightarrow> (wildcard_name \<times> 'a) list \<Rightarrow> (wildcard_name \<times> 'a) list" where
  "reorder order m = map (nth m) (order (map fst m))"

definition create ::
  "name_lib \<Rightarrow> (domain_rule \<Rightarrow> u64) \<Rightarrow> (wildcard_name list \<Rightarrow> nat list) \<Rightarrow>
   domain_sets \<Rightarrow> rule_group \<Rightarrow> arc_table \<Rightarrow> arc tree_node domain_map \<times> arc_table" where
  "create L H order sets g rule_map =
     (let st = ([], rule_map);
          st = append_rules L H sets (\<lambda>c value. add_assign value c) (rg_domain_rules g) st;
          st = append_rules L H sets (\<lambda>c value. value\<lparr>ru_address := Some c\<rparr>) (rg_address_rules g) st;
          st = append_rules L H sets (\<lambda>c value. value\<lparr>ru_nameserver := Some c\<rparr>) (rg_forward_rules g) st;
          st = append_rules L H sets (\<lambda>c value. value\<lparr>ru_cname := Some c\<rparr>) (rg_cnames g) st;
          st = append_rules L H sets (\<lambda>c value. value\<lparr>ru_srv := Some c\<rparr>) (rg_srv_records g) st;
          st = append_rules L H sets (\<lambda>c value. value\<lparr>ru_https := Some c\<rparr>) (rg_https_records g) st;
          st = append_rules L H sets (\<lambda>c value. value\<lparr>ru_nftset := Some c\<rparr>) (rg_nftsets g) st;
          (name_rule_map, rule_map) = st;
          rule_items = sort_items L (reorder order name_rule_map);
          (rules, inherited, rule_map) = fold (add_node L H) rule_items (dm_empty, [], rule_map)
      in (rules, rule_map))"

text \<open>\<open>DomainRuleGetter\<close>: on a node, the node and then the zone above it; on an optional node,
  the node alone.\<close>

definition node_get :: "('r tree_node \<Rightarrow> 'a option) \<Rightarrow> 'r tree_node \<Rightarrow> 'a option" where
  "node_get f n = or_else (f n) (Option.bind (node_zone n) f)"

definition opt_node_get :: "('r tree_node \<Rightarrow> 'a option) \<Rightarrow> 'r tree_node option \<Rightarrow> 'a option" where
  "opt_node_get f n = Option.bind n f"

section \<open>The construction without interning\<close>

definition fair :: "(wildcard_name list \<Rightarrow> nat list) \<Rightarrow> bool" where
  "fair order \<longleftrightarrow> (\<forall>ns. mset (order ns) = mset [0..<length ns])"

text \<open>The updates of a group, one per name and line, in the order of the seven loops.\<close>

definition line_updates ::
  "domain_sets \<Rightarrow> ('a \<Rightarrow> domain_rule \<Rightarrow> domain_rule) \<Rightarrow> 'a config_for_domain list \<Rightarrow>
   (wildcard_name \<times> (domain_rule \<Rightarrow> domain_rule)) list" where
  "line_updates sets u rules =
     concat (map (\<lambda>r. map (\<lambda>n. (n, u (cd_config r))) (expand_domain (cd_domain r) sets)) rules)"

definition group_updates :: "domain_sets \<Rightarrow> rule_group \<Rightarrow> (wildcard_name \<times> (domain_rule \<Rightarrow> domain_rule)) list" where
  "group_updates sets g =
     line_updates sets (\<lambda>c v. add_assign v c) (rg_domain_rules g) @
     line_updates sets (\<lambda>c v. v\<lparr>ru_address := Some c\<rparr>) (rg_address_rules g) @
     line_updates sets (\<lambda>c v. v\<lparr>ru_nameserver := Some c\<rparr>) (rg_forward_rules g) @
     line_updates sets (\<lambda>c v. v\<lparr>ru_cname := Some c\<rparr>) (rg_cnames g) @
     line_updates sets (\<lambda>c v. v\<lparr>ru_srv := Some c\<rparr>) (rg_srv_records g) @
     line_updates sets (\<lambda>c v. v\<lparr>ru_https := Some c\<rparr>) (rg_https_records g) @
     line_updates sets (\<lambda>c v. v\<lparr>ru_nftset := Some c\<rparr>) (rg_nftsets g)"

text \<open>Each step also records the rules it hashes.\<close>

definition own_step ::
  "name_lib \<Rightarrow> wildcard_name \<times> (domain_rule \<Rightarrow> domain_rule) \<Rightarrow>
   (wildcard_name \<times> domain_rule) list \<times> domain_rule list \<Rightarrow>
   (wildcard_name \<times> domain_rule) list \<times> domain_rule list" where
  "own_step L u st =
     (let r = snd u (unwrap_or (nm_get L (fst st) (fst u)) rule_default)
      in (nm_put L (fst u) r (fst st), r # snd st))"

definition own_rules ::
  "name_lib \<Rightarrow> domain_sets \<Rightarrow> rule_group \<Rightarrow> (wildcard_name \<times> domain_rule) list \<times> domain_rule list" where
  "own_rules L sets g = fold (own_step L) (group_updates sets g) ([], [])"

definition node_of :: "domain_rule \<Rightarrow> domain_rule tree_node option \<Rightarrow> domain_rule tree_node" where
  "node_of r zone =
     TreeNode (case zone of None \<Rightarrow> r | Some z \<Rightarrow> inherit r (node_rule z)) zone"

definition node_step ::
  "name_lib \<Rightarrow> wildcard_name \<times> domain_rule \<Rightarrow>
   domain_rule tree_node domain_map \<times> domain_rule list \<Rightarrow>
   domain_rule tree_node domain_map \<times> domain_rule list" where
  "node_step L item st =
     (let zone = zone_of L (fst st) (fst item)
      in (snd (dm_insert L (fst item) (node_of (snd item) zone) (fst st)),
          (case zone of None \<Rightarrow> []
           | Some z \<Rightarrow> [snd item, node_rule z, inherit (snd item) (node_rule z)]) @ snd st))"

definition create_ref ::
  "name_lib \<Rightarrow> (wildcard_name list \<Rightarrow> nat list) \<Rightarrow> domain_sets \<Rightarrow> rule_group \<Rightarrow>
   domain_rule tree_node domain_map \<times> domain_rule list" where
  "create_ref L order sets g =
     (let (rules, hashed) = own_rules L sets g
      in fold (node_step L) (sort_items L (reorder order rules)) (dm_empty, hashed))"

section \<open>Lookups commute with a change of values\<close>

definition map_dm :: "('a \<Rightarrow> 'b) \<Rightarrow> 'a domain_map \<Rightarrow> 'b domain_map" where
  "map_dm f m = \<lparr>dm_map = map (apsnd f) (dm_map m),
                 dm_subs = map (apsnd (map (apsnd f))) (dm_subs m)\<rparr>"

lemma map_of_apsnd [simp]: "map_of (map (apsnd f) xs) k = map_option f (map_of xs k)"
  by (induction xs) auto

lemma update_apsnd [simp]: "AList.update k (f v) (map (apsnd f) xs) = map (apsnd f) (AList.update k v xs)"
  by (induction xs) auto

lemma find_apsnd: "find (\<lambda>(w, _). P w) (map (apsnd f) xs) = map_option (apsnd f) (find (\<lambda>(w, _). P w) xs)"
  by (induction xs) auto

lemma subs_insert_apsnd:
  "snd (subs_insert w (f v) (map (apsnd f) xs)) = map (apsnd f) (snd (subs_insert w v xs))"
  by (induction w v xs rule: subs_insert.induct) (auto simp: Let_def split_beta)

lemma map_dm_empty [simp]: "map_dm f dm_empty = dm_empty"
  by (simp add: map_dm_def dm_empty_def)

lemma map_dm_get [simp]: "dm_get L (map_dm f m) wire k i = map_option f (dm_get L m wire k i)"
  by (simp add: dm_get_def map_dm_def)

lemma map_dm_find_sub [simp]: "dm_find_sub L (map_dm f m) wire x = map_option f (dm_find_sub L m wire x)"
  by (auto simp: dm_find_sub_def map_dm_def find_apsnd option.map_comp comp_def split: option.split)

lemma map_option_or_else: "map_option f (or_else a b) = or_else (map_option f a) (map_option f b)"
  by (cases a) auto

lemma map_dm_find_levels [simp]:
  "dm_find_levels L (map_dm f m) wire x ls = map_option f (dm_find_levels L m wire x ls)"
  by (induction ls) (auto simp flip: map_option_or_else split: option.split)

lemma map_dm_find: "dm_find L (map_dm f m) n = map_option f (dm_find L m n)"
proof -
  have "dm_is_empty (map_dm f m) = dm_is_empty m"
    by (simp add: dm_is_empty_def map_dm_def)
  then show ?thesis
    by (auto simp: dm_find_def Let_def simp flip: map_option_or_else split: option.split)
qed

lemma map_dm_get_exact: "dm_get_exact L (map_dm f m) w = map_option f (dm_get_exact L m w)"
  by (cases w) (auto simp: dm_get_exact_def map_dm_def find_apsnd option.map_comp comp_def split: option.split)

lemma map_dm_insert: "snd (dm_insert L w (f v) (map_dm f m)) = map_dm f (snd (dm_insert L w v m))"
proof (cases "wire_new (nm_labels (wn_name w))")
  case (Some wire)
  show ?thesis
  proof (cases w)
    case (WSub wc n)
    let ?k = "key L SUB (parent wire 0)"
    have "unwrap_or (map_of (dm_subs (map_dm f m)) ?k) [] =
        map (apsnd f) (unwrap_or (map_of (dm_subs m) ?k) [])"
      by (cases "map_of (dm_subs m) ?k") (auto simp: map_dm_def)
    then show ?thesis
      using Some WSub
      by (simp add: dm_insert_def Let_def split_beta subs_insert_apsnd) (simp add: map_dm_def)
  qed (use Some in \<open>simp_all add: dm_insert_def Let_def map_dm_def\<close>)
qed (simp add: dm_insert_def)

lemma zone_of_map: "zone_of L (map_dm (map_tree_node f) m) w = map_option (map_tree_node f) (zone_of L m w)"
  by (cases w) (auto simp: zone_of_def Let_def map_dm_get_exact map_dm_find map_option_or_else)

end
