(* ===== verification/Rule_Tree_Laws.thy ===== *)
theory Rule_Tree_Laws
  imports Rule_Tree
begin

text \<open>
  Correctness of the rule tree: interning and the table of merged pairs do not change what is
  built (\<open>create\<close> refines \<open>create_ref\<close>), building parents first makes the tree a fixed point of
  \<open>zone_of\<close>, and a node's rule therefore answers for the whole chain of zones above it.
\<close>

section \<open>Interning\<close>

definition mk_arc :: "(domain_rule \<Rightarrow> u64) \<Rightarrow> domain_rule \<Rightarrow> arc" where
  "mk_arc H r = \<lparr>arc_ptr = H r, arc_rule = r\<rparr>"

lemma mk_arc_simps [simp]: "arc_ptr (mk_arc H r) = H r" "arc_rule (mk_arc H r) = r"
  by (simp_all add: mk_arc_def)

definition table_ok :: "(domain_rule \<Rightarrow> u64) \<Rightarrow> domain_rule set \<Rightarrow> arc_table \<Rightarrow> bool" where
  "table_ok H S t \<longleftrightarrow> (\<forall>k a. map_of t k = Some a \<longrightarrow> (\<exists>r\<in>S. a = mk_arc H r \<and> k = H r))"

lemma intern_ok:
  assumes "inj_on H S" "table_ok H S t" "r \<in> S"
  shows "fst (intern H r t) = mk_arc H r" "table_ok H S (snd (intern H r t))"
proof -
  have "fst (intern H r t) = mk_arc H r \<and> table_ok H S (snd (intern H r t))"
  proof (cases "map_of t (H r)")
    case None
    then show ?thesis
      using assms by (auto simp: intern_def Let_def table_ok_def mk_arc_def)
  next
    case (Some a)
    then obtain r' where "r' \<in> S" "a = mk_arc H r'" "H r = H r'"
      using assms(2) unfolding table_ok_def by blast
    with assms have "a = mk_arc H r" by (metis inj_onD)
    then show ?thesis
      using Some assms(2) by (simp add: intern_def Let_def)
  qed
  then show "fst (intern H r t) = mk_arc H r" "table_ok H S (snd (intern H r t))" by auto
qed

lemma nm_get_apsnd: "nm_get L (map (apsnd f) m) w = map_option f (nm_get L m w)"
  by (simp add: nm_get_def find_apsnd option.map_comp comp_def)

lemma nm_put_apsnd: "nm_put L w (f v) (map (apsnd f) m) = map (apsnd f) (nm_put L w v m)"
  by (induction L w v m rule: nm_put.induct) auto

section \<open>create refines create_ref\<close>

lemma append_rules_updates:
  "append_rules L H sets u rules st = fold (\<lambda>(n, f). update_rule L H f n) (line_updates sets u rules) st"
proof -
  have "fold (update_rule L H f) ns st = fold (\<lambda>(n, f). update_rule L H f n) (map (\<lambda>n. (n, f)) ns) st"
    for f ns st
    by (induction ns arbitrary: st) auto
  then show ?thesis
    unfolding append_rules_def line_updates_def
    by (induction rules arbitrary: st) auto
qed

lemma create_updates:
  "create L H order sets g t =
     (let (items, t) = fold (\<lambda>(n, f). update_rule L H f n) (group_updates sets g) ([], t);
          (rules, inherited, t) = fold (add_node L H) (sort_items L (reorder order items)) (dm_empty, [], t)
      in (rules, t))"
  by (simp add: create_def append_rules_updates group_updates_def Let_def)

lemma own_step_trace: "set (snd st) \<subseteq> set (snd (fold (own_step L) us st))"
  by (induction us arbitrary: st) (force simp: own_step_def Let_def)+

lemma update_rule_own:
  assumes inj: "inj_on H S" and t: "table_ok H S t" and S: "set (snd (own_step L u st)) \<subseteq> S"
  shows "\<exists>t'. update_rule L H (snd u) (fst u) (map (apsnd (mk_arc H)) (fst st), t) =
      (map (apsnd (mk_arc H)) (fst (own_step L u st)), t') \<and> table_ok H S t'"
proof -
  let ?r = "snd u (unwrap_or (nm_get L (fst st) (fst u)) rule_default)"
  have r: "?r \<in> S" using S by (simp add: own_step_def Let_def)
  have "(case nm_get L (map (apsnd (mk_arc H)) (fst st)) (fst u) of Some a \<Rightarrow> arc_rule a | None \<Rightarrow> rule_default)
      = unwrap_or (nm_get L (fst st) (fst u)) rule_default"
    by (simp add: nm_get_apsnd split: option.split)
  then show ?thesis
    using intern_ok [OF inj t r]
    by (simp add: update_rule_def Let_def split_beta own_step_def nm_put_apsnd)
qed

lemma updates_own:
  assumes inj: "inj_on H S"
  shows "table_ok H S t \<Longrightarrow> set (snd (fold (own_step L) us st)) \<subseteq> S \<Longrightarrow>
    \<exists>t'. fold (\<lambda>(n, f). update_rule L H f n) us (map (apsnd (mk_arc H)) (fst st), t) =
      (map (apsnd (mk_arc H)) (fst (fold (own_step L) us st)), t') \<and> table_ok H S t'"
proof (induction us arbitrary: st t)
  case (Cons u us)
  have "set (snd (own_step L u st)) \<subseteq> S"
    using Cons.prems(2) own_step_trace [of "own_step L u st" L us] by auto
  from update_rule_own [OF inj Cons.prems(1) this] obtain t' where
    t': "update_rule L H (snd u) (fst u) (map (apsnd (mk_arc H)) (fst st), t) =
      (map (apsnd (mk_arc H)) (fst (own_step L u st)), t')" "table_ok H S t'" by blast
  show ?case
    using Cons.IH [OF t'(2), of "own_step L u st"] Cons.prems(2) t'(1) by (simp add: split_beta)
qed auto

text \<open>The table of merged pairs holds merged rules only.\<close>

definition merged_ok :: "(domain_rule \<Rightarrow> u64) \<Rightarrow> domain_rule set \<Rightarrow> inherited \<Rightarrow> bool" where
  "merged_ok H S i \<longleftrightarrow> (\<forall>p a. map_of i p = Some a \<longrightarrow>
     (\<exists>z\<in>S. \<exists>r\<in>S. p = (H z, H r) \<and> a = mk_arc H (inherit r z)))"

lemma node_step_trace: "set (snd st) \<subseteq> set (snd (fold (node_step L) items st))"
proof (induction items arbitrary: st)
  case (Cons x xs)
  have "set (snd st) \<subseteq> set (snd (node_step L x st))"
    by (auto simp: node_step_def Let_def)
  then show ?case
    using Cons.IH [of "node_step L x st"] by auto
qed simp

lemma add_node_step:
  assumes inj: "inj_on H S" and t: "table_ok H S t" and i: "merged_ok H S i"
    and S: "set (snd (node_step L item st)) \<subseteq> S"
  shows "\<exists>i' t'. add_node L H (apsnd (mk_arc H) item)
      (map_dm (map_tree_node (mk_arc H)) (fst st), i, t) =
      (map_dm (map_tree_node (mk_arc H)) (fst (node_step L item st)), i', t') \<and>
      table_ok H S t' \<and> merged_ok H S i'"
proof (cases "zone_of L (fst st) (fst item)")
  case None
  then show ?thesis
    using t i map_dm_insert [of L "fst item" "map_tree_node (mk_arc H)" "TreeNode (snd item) None"]
    by (simp add: add_node_def node_step_def node_of_def Let_def zone_of_map split_beta)
next
  case (Some z)
  let ?r = "snd item" and ?m = "inherit (snd item) (node_rule z)"
  have in_S: "?r \<in> S" "node_rule z \<in> S" "?m \<in> S"
    using S Some by (auto simp: node_step_def Let_def)
  have zr: "node_rule (map_tree_node (mk_arc H) z) = mk_arc H (node_rule z)"
    by (cases z) simp
  have ins: "snd (dm_insert L (fst item) (TreeNode (mk_arc H ?m) (Some (map_tree_node (mk_arc H) z)))
        (map_dm (map_tree_node (mk_arc H)) (fst st))) =
      map_dm (map_tree_node (mk_arc H)) (fst (node_step L item st))"
    using Some map_dm_insert [of L "fst item" "map_tree_node (mk_arc H)" "TreeNode ?m (Some z)" "fst st"]
    by (simp add: node_step_def node_of_def Let_def)
  show ?thesis
  proof (cases "map_of i (H (node_rule z), H ?r)")
    case None
    have "merged_ok H S (AList.update (H (node_rule z), H ?r) (mk_arc H ?m) i)"
      using i in_S by (auto simp: merged_ok_def)
    then show ?thesis
      using None Some intern_ok [OF inj t in_S(3)] ins
      by (simp add: add_node_def Let_def zone_of_map split_beta zr)
  next
    case a: (Some a)
    then obtain z' r' where "z' \<in> S" "r' \<in> S" "H (node_rule z) = H z'" "H ?r = H r'" "a = mk_arc H (inherit r' z')"
      using i unfolding merged_ok_def by blast
    with inj in_S have "a = mk_arc H ?m"
      by (metis inj_onD)
    then show ?thesis
      using a Some t i ins by (simp add: add_node_def Let_def zone_of_map split_beta zr)
  qed
qed

lemma nodes_ref:
  assumes inj: "inj_on H S"
  shows "table_ok H S t \<Longrightarrow> merged_ok H S i \<Longrightarrow> set (snd (fold (node_step L) items st)) \<subseteq> S \<Longrightarrow>
    \<exists>i' t'. fold (add_node L H) (map (apsnd (mk_arc H)) items)
        (map_dm (map_tree_node (mk_arc H)) (fst st), i, t) =
      (map_dm (map_tree_node (mk_arc H)) (fst (fold (node_step L) items st)), i', t') \<and>
      table_ok H S t'"
proof (induction items arbitrary: st i t)
  case (Cons x xs)
  have "set (snd (node_step L x st)) \<subseteq> S"
    using Cons.prems(3) node_step_trace [of "node_step L x st" L xs] by auto
  from add_node_step [OF inj Cons.prems(1,2) this] obtain i' t' where
    "add_node L H (apsnd (mk_arc H) x) (map_dm (map_tree_node (mk_arc H)) (fst st), i, t) =
      (map_dm (map_tree_node (mk_arc H)) (fst (node_step L x st)), i', t')"
    "table_ok H S t'" "merged_ok H S i'" by blast
  then show ?case
    using Cons.IH [of t' i' "node_step L x st"] Cons.prems(3) by simp
qed auto

lemma insert_by_map:
  "insert_by c (f x) (map f xs) = map f (insert_by (\<lambda>a b. c (f a) (f b)) x xs)"
  by (induction xs) auto

lemma sort_by_map: "sort_by c (map f xs) = map f (sort_by (\<lambda>a b. c (f a) (f b)) xs)"
  unfolding sort_by_def by (induction xs) (simp_all add: insert_by_map)

lemma sort_items_apsnd: "sort_items L (map (apsnd f) xs) = map (apsnd f) (sort_items L xs)"
  by (simp add: sort_items_def sort_by_map)

lemma reorder_apsnd:
  "fair order \<Longrightarrow> reorder order (map (apsnd f) xs) = map (apsnd f) (reorder order xs)"
proof -
  assume "fair order"
  then have "mset (order (map fst xs)) = mset [0..<length xs]"
    unfolding fair_def by (metis length_map)
  then have "set (order (map fst xs)) = {0..<length xs}"
    by (metis set_mset_mset set_upt)
  then show ?thesis
    by (auto simp: reorder_def comp_def)
qed

lemma create_ref_eq:
  assumes inj: "inj_on H S" and t: "table_ok H S t" and o': "fair order"
    and S: "set (snd (create_ref L order sets g)) \<subseteq> S"
  shows "\<exists>t'. create L H order sets g t =
      (map_dm (map_tree_node (mk_arc H)) (fst (create_ref L order sets g)), t') \<and> table_ok H S t'"
proof -
  obtain rules hashed where own: "own_rules L sets g = (rules, hashed)" by fastforce
  have ref: "create_ref L order sets g =
      fold (node_step L) (sort_items L (reorder order rules)) (dm_empty, hashed)"
    by (simp add: create_ref_def own)
  have "set hashed \<subseteq> S"
    using S node_step_trace [of "(dm_empty, hashed)" L] unfolding ref by auto
  then have "set (snd (fold (own_step L) (group_updates sets g) ([], []))) \<subseteq> S"
    using own by (simp add: own_rules_def)
  from updates_own [OF inj t this] own obtain t1 where t1:
    "fold (\<lambda>(n, f). update_rule L H f n) (group_updates sets g) ([], t) =
      (map (apsnd (mk_arc H)) rules, t1)" "table_ok H S t1"
    by (auto simp: own_rules_def)
  have "merged_ok H S []" by (simp add: merged_ok_def)
  from nodes_ref [OF inj t1(2) this S [unfolded ref]] show ?thesis
    by (auto simp: create_updates t1(1) reorder_apsnd [OF o'] sort_items_apsnd ref Let_def)
qed

section \<open>Parents first\<close>

definition weight :: "wildcard_name \<Rightarrow> nat \<times> nat" where
  "weight w = (length (nm_labels (wn_name w)), inherit_order w)"

definition zone_ki :: "name_lib \<Rightarrow> 'r tree_node key_index \<Rightarrow> wildcard_name \<Rightarrow> 'r tree_node option" where
  "zone_ki L A w =
     or_else (case w of
            WDefault _ \<Rightarrow> None
          | WSub _ n \<Rightarrow> or_else (ki_get_exact A (WSuffix n)) (ki_get_exact A (WDefault n))
          | WSuffix n \<Rightarrow> ki_get_exact A (WDefault n)
          | WFull n \<Rightarrow> ki_get_exact A (WDefault n))
       (if nl_is_root L (wn_name w) then None
        else let b = nl_base_name L (wn_name w)
             in ki_find L A (drop (if nl_is_wildcard L b then 1 else 0) (nm_labels b)))"

lemma probes_drop: "probes (drop j ls) \<subseteq> probes ls"
proof
  fix x assume "x \<in> probes (drop j ls)"
  then obtain k i where x: "k \<in> {FULL, DEFAULT, SUFFIX, SUB}" "i \<le> length (drop j ls)"
    "x = k # wire_of (drop i (drop j ls))"
    unfolding probes_def by blast
  show "x \<in> probes ls"
  proof (cases "j \<le> length ls")
    case True
    then show ?thesis
      using x unfolding probes_def by (intro CollectI exI [of _ k] exI [of _ "i + j"]) auto
  next
    case False
    then show ?thesis
      using x unfolding probes_def by (intro CollectI exI [of _ k] exI [of _ "length ls"]) auto
  qed
qed

lemma probes_0:
  "FULL # wire_of ls \<in> probes ls" "DEFAULT # wire_of ls \<in> probes ls"
  "SUFFIX # wire_of ls \<in> probes ls" "SUB # wire_of ls \<in> probes ls"
  using probes_mem [of 0 ls] by simp_all

lemma key_string_probes: "key_string w \<in> probes (nm_labels (wn_name w))"
  by (cases w) (simp_all add: key_string_def probes_0)

lemma zone_of_ki:
  assumes L: "name_library L" and R: "refines L K m A" and K: "probes (nm_labels (wn_name w)) \<subseteq> K"
  shows "zone_of L m w = zone_ki L A w"
proof -
  let ?b = "nl_base_name L (wn_name w)"
  let ?ls = "drop (if nl_is_wildcard L ?b then 1 else 0) (nm_labels ?b)"
  have "?ls = drop (if nl_is_wildcard L ?b then 2 else 1) (nm_labels (wn_name w))"
    by (simp add: name_library.base_name [OF L] tl_drop drop_Suc numeral_2_eq_2)
  then have "probes ?ls \<subseteq> K"
    using K probes_drop by (metis subset_trans)
  then have f: "dm_find L m ?b = ki_find L A ?ls"
    by (rule refines_find [OF R])
  have g: "dm_get_exact L m (WSuffix n) = ki_get_exact A (WSuffix n)"
    "dm_get_exact L m (WDefault n) = ki_get_exact A (WDefault n)" if "n = wn_name w" for n
    using K that probes_0 [of "nm_labels n"]
    by (auto intro!: refines_get_exact [OF R] simp: key_string_def)
  show ?thesis
    using g f by (cases w) (simp_all add: zone_of_def zone_ki_def Let_def)
qed

lemma ki_parents_cong:
  "\<forall>i\<le>length ls. \<forall>k. ki_map A (k # wire_of (drop i ls)) = ki_map B (k # wire_of (drop i ls)) \<Longrightarrow>
   ki_parents A ls = ki_parents B ls"
proof (induction ls)
  case (Cons x ls)
  have "ki_map A (k # wire_of (drop i ls)) = ki_map B (k # wire_of (drop i ls))" if "i \<le> length ls" for i k
    using Cons.prems [rule_format, of "Suc i" k] that by simp
  then show ?case
    using Cons.IH Cons.prems [rule_format, of 1] by simp
qed simp

lemma ki_find_cong:
  assumes "fits ls \<Longrightarrow> \<forall>i\<le>length ls. \<forall>k. ki_map A (k # wire_of (drop i ls)) = ki_map B (k # wire_of (drop i ls)) \<and>
      ki_subs A (k # wire_of (drop i ls)) = ki_subs B (k # wire_of (drop i ls))"
  shows "ki_find L A ls = ki_find L B ls"
proof (cases "fits ls")
  case True
  note eq = assms [OF True]
  have "ki_parents A ls = ki_parents B ls"
    using eq by (intro ki_parents_cong) simp
  moreover have "(case ls of [] \<Rightarrow> None | x # t \<Rightarrow> ki_sub_find L A x t) =
      (case ls of [] \<Rightarrow> None | x # t \<Rightarrow> ki_sub_find L B x t)"
    using eq [rule_format, of 1] by (cases ls) (auto simp: ki_sub_find_def)
  ultimately show ?thesis
    using eq [rule_format, of 0] by (simp add: ki_find_def)
qed (simp add: ki_find_def)

lemma ki_insert_other:
  "k \<noteq> key_string w \<Longrightarrow> ki_map (ki_insert w v A) k = ki_map A k"
  "k \<noteq> key_string w \<Longrightarrow> ki_subs (ki_insert w v A) k = ki_subs A k"
  by (cases w; simp add: ki_insert_def)+

lemma fits_drop: "fits ls \<Longrightarrow> fits (drop i ls)"
proof (induction i arbitrary: ls)
  case (Suc i)
  then show ?case
    by (cases ls) (auto simp: fits_tl)
qed simp

lemma same_wire_length:
  "fits xs \<Longrightarrow> fits ys \<Longrightarrow> wire_of xs = wire_of ys \<Longrightarrow> length xs = length ys"
  using wire_of_inj [of xs ys] by (auto simp: fits_def dest: arg_cong [where f = length])

text \<open>Inserting a name that is not lighter leaves the zone of a name as it is.\<close>

lemma zone_ki_insert:
  assumes L: "name_library L" and w: "weight w \<le> weight w'"
    and root: "nm_labels (wn_name w) = [] \<Longrightarrow> nl_is_root L (wn_name w)"
  shows "zone_ki L (ki_insert w' v A) w = zone_ki L A w"
proof (cases "wn_fits w'")
  case True
  let ?A = "ki_insert w' v A"
  have len: "length (nm_labels (wn_name w)) \<le> length (nm_labels (wn_name w'))"
    using w by (auto simp: weight_def)
  have exact: "ki_get_exact ?A u = ki_get_exact A u"
    if u: "nm_labels (wn_name u) = nm_labels (wn_name w)" "inherit_order u < inherit_order w" "\<not> wn_is_sub u" for u
  proof (cases "wn_fits u \<and> key_string u = key_string w'")
    case same: True
    then have "wire_of (nm_labels (wn_name u)) = wire_of (nm_labels (wn_name w'))" "kind u = kind w'"
      by (auto simp: key_string_def)
    moreover from this have "inherit_order u = inherit_order w'"
      by (cases u; cases w') (simp_all add: inherit_order_def FULL_def DEFAULT_def SUFFIX_def SUB_def)
    ultimately have "weight w' < weight w"
      using same_wire_length [of "nm_labels (wn_name u)" "nm_labels (wn_name w')"] same True u
      by (auto simp: weight_def)
    then show ?thesis using w by simp
  next
    case False
    then show ?thesis
      using u(3) by (cases u) (auto simp: ki_get_exact_def ki_insert_other)
  qed
  have find: "ki_find L ?A ls = ki_find L A ls" if ls: "length ls < length (nm_labels (wn_name w))" for ls
  proof (rule ki_find_cong, intro allI impI)
    fix i k assume "fits ls" "i \<le> length ls"
    then have "length (drop i ls) \<noteq> length (nm_labels (wn_name w'))" "fits (drop i ls)"
      using ls len fits_drop by auto
    then have "k # wire_of (drop i ls) \<noteq> key_string w'"
      using same_wire_length [OF _ True, of "drop i ls"] unfolding key_string_def by blast
    then show "ki_map ?A (k # wire_of (drop i ls)) = ki_map A (k # wire_of (drop i ls)) \<and>
      ki_subs ?A (k # wire_of (drop i ls)) = ki_subs A (k # wire_of (drop i ls))"
      by (simp add: ki_insert_other)
  qed
  have base: "ki_find L ?A (drop j (nm_labels (nl_base_name L (wn_name w)))) =
      ki_find L A (drop j (nm_labels (nl_base_name L (wn_name w))))" if "\<not> nl_is_root L (wn_name w)" for j
    using that root
    by (intro find) (cases "nm_labels (wn_name w)"; simp add: name_library.base_name [OF L])
  show ?thesis
    using exact base by (cases w) (simp_all add: zone_ki_def Let_def inherit_order_def)
qed (simp add: ki_insert_def)

lemma zone_ki_fold:
  assumes L: "name_library L" and root: "nm_labels (wn_name w) = [] \<Longrightarrow> nl_is_root L (wn_name w)"
  shows "\<forall>(w', v)\<in>set ps. weight w \<le> weight w' \<Longrightarrow>
    zone_ki L (fold (\<lambda>(w, v). ki_insert w v) ps A) w = zone_ki L A w"
  by (induction ps arbitrary: A) (auto simp: zone_ki_insert [OF L _ root])

lemma sort_items_weight: "sorted_wrt (\<lambda>a b. weight (fst a) \<le> weight (fst b)) (sort_items L items)"
  unfolding sort_items_def weight_def by (rule sort_by_key_sorted)

text \<open>The nodes that the last loop inserts, against the final index.\<close>

lemma nodes_fixed:
  assumes L: "name_library L"
  shows "refines L K (fst st) A \<Longrightarrow>
    sorted_wrt (\<lambda>a b. weight (fst a) \<le> weight (fst b)) items \<Longrightarrow>
    \<forall>(w, r)\<in>set items. probes (nm_labels (wn_name w)) \<subseteq> K \<and>
      (nm_labels (wn_name w) = [] \<longrightarrow> nl_is_root L (wn_name w)) \<Longrightarrow>
    \<exists>nodes A'. A' = fold (\<lambda>(w, v). ki_insert w v) nodes A \<and>
      refines L K (fst (fold (node_step L) items st)) A' \<and>
      list_all2 (\<lambda>(w, r) (w', n). w' = w \<and> n = node_of r (zone_ki L A' w)) items nodes"
proof (induction items arbitrary: st A)
  case Nil
  show ?case
    by (rule exI [of _ "[]"], rule exI [of _ A]) (use Nil.prems(1) in simp)
next
  case (Cons x xs)
  obtain w r where x: "x = (w, r)" by (cases x)
  let ?n = "node_of r (zone_ki L A w)"
  have z: "zone_of L (fst st) w = zone_ki L A w"
    using zone_of_ki [OF L Cons.prems(1)] Cons.prems(3) by (simp add: x)
  have st: "fst (node_step L x st) = snd (dm_insert L w ?n (fst st))"
    by (simp add: node_step_def Let_def x z)
  have kw: "key_string w \<in> K"
    using Cons.prems(3) key_string_probes [of w] by (auto simp: x)
  have R: "refines L K (fst (node_step L x st)) (ki_insert w ?n A)"
    unfolding st by (rule refines_insert(1) [OF Cons.prems(1) kw])
  have sxs: "sorted_wrt (\<lambda>a b. weight (fst a) \<le> weight (fst b)) xs"
    and pxs: "\<forall>(w, r)\<in>set xs. probes (nm_labels (wn_name w)) \<subseteq> K \<and>
      (nm_labels (wn_name w) = [] \<longrightarrow> nl_is_root L (wn_name w))"
    using Cons.prems(2,3) by simp_all
  from Cons.IH [OF R sxs pxs]
  obtain nodes A' where N: "A' = fold (\<lambda>(w, v). ki_insert w v) nodes (ki_insert w ?n A)"
    "refines L K (fst (fold (node_step L) xs (node_step L x st))) A'"
    "list_all2 (\<lambda>(w, r) (w', n). w' = w \<and> n = node_of r (zone_ki L A' w)) xs nodes"
    by blast
  have heavier: "\<forall>(w', v)\<in>set nodes. weight w \<le> weight w'"
  proof clarify
    fix w' v assume "(w', v) \<in> set nodes"
    then obtain i where i: "i < length nodes" "nodes ! i = (w', v)" by (auto simp: in_set_conv_nth)
    then have "i < length xs" "fst (xs ! i) = w'"
      using N(3) by (auto simp: list_all2_conv_all_nth split_beta)
    then show "weight w \<le> weight w'"
      using Cons.prems(2) nth_mem [of i xs] by (auto simp: x)
  qed
  have root: "nm_labels (wn_name w) = [] \<Longrightarrow> nl_is_root L (wn_name w)"
    using Cons.prems(3) by (simp add: x)
  have "zone_ki L A' w = zone_ki L (ki_insert w ?n A) w"
    unfolding N(1) by (rule zone_ki_fold [OF L root heavier])
  also have "\<dots> = zone_ki L A w"
    by (rule zone_ki_insert [OF L order_refl root])
  finally have zone: "zone_ki L A' w = zone_ki L A w" .
  show ?case
    by (rule exI [of _ "(w, ?n) # nodes"], rule exI [of _ A']) (use N zone in \<open>simp add: x\<close>)
qed

definition names_ok :: "name_lib \<Rightarrow> (wildcard_name \<times> 'a) list \<Rightarrow> bool" where
  "names_ok L items \<longleftrightarrow> (\<forall>(w, r)\<in>set items. nm_labels (wn_name w) = [] \<longrightarrow> nl_is_root L (wn_name w))"

definition hashed_names :: "(wildcard_name \<times> 'a) list \<Rightarrow> name \<Rightarrow> bytes set" where
  "hashed_names items q = probes (nm_labels q) \<union> (\<Union>(w, r)\<in>set items. probes (nm_labels (wn_name w)))"

lemma reorder_set: "fair order \<Longrightarrow> set (reorder order xs) = set xs"
proof -
  assume f: "fair order"
  have "mset (order (map fst xs)) = mset [0..<length xs]"
    using f unfolding fair_def by (metis length_map)
  then have "mset (reorder order xs) = mset (map (nth xs) [0..<length xs])"
    unfolding reorder_def by (simp only: mset_map)
  then show ?thesis
    by (metis map_nth set_mset_mset)
qed

lemma sort_items_set [simp]: "set (sort_items L xs) = set xs"
  by (simp add: sort_items_def)

lemma ball_fst: "(\<forall>(w, r)\<in>set xs. P w) \<longleftrightarrow> (\<forall>w\<in>fst ` set xs. P w)"
  by force

lemma ref_lookup:
  assumes L: "name_library L" and o': "fair order"
    and own: "own_rules L sets g = (items, hashed)"
    and inj: "inj_on (nl_hash L) (hashed_names items q)" and ok: "names_ok L items"
    and q: "fits (nm_labels q)" "nm_labels q \<noteq> []" "\<not> nl_is_wildcard L q"
    and t: "t = fst (create_ref L order sets g)"
  shows "case dm_find L t q of
      None \<Rightarrow> \<forall>(w, r)\<in>set items. \<not> wn_is_match L w q
    | Some n \<Rightarrow> \<exists>w r. (w, r) \<in> set items \<and> wn_is_match L w q \<and> n = node_of r (zone_of L t w) \<and>
        (\<forall>(w', r')\<in>set items. wn_is_match L w' q \<longrightarrow> rank w' \<le> rank w)"
proof -
  let ?K = "hashed_names items q" and ?items = "sort_items L (reorder order items)"
  have set: "set ?items = set items" by (simp add: reorder_set [OF o'])
  have K: "\<forall>(w, r)\<in>set ?items. probes (nm_labels (wn_name w)) \<subseteq> ?K \<and>
      (nm_labels (wn_name w) = [] \<longrightarrow> nl_is_root L (wn_name w))"
    using ok unfolding set hashed_names_def names_ok_def by blast
  have "refines L ?K (fst (dm_empty, hashed)) ki_empty"
    by (simp add: refines_empty [OF inj])
  from nodes_fixed [OF L this sort_items_weight K] obtain nodes A where
    A: "A = fold (\<lambda>(w, v). ki_insert w v) nodes ki_empty"
    and R: "refines L ?K t A"
    and nodes: "list_all2 (\<lambda>(w, r) (w', n). w' = w \<and> n = node_of r (zone_ki L A w)) ?items nodes"
    unfolding t create_ref_def own by auto
  have "index_of [] ki_empty"
    by (simp add: index_of_def ki_empty_def)
  from index_of_fold [OF this, of nodes] have I: "index_of nodes A" by (simp add: A)
  have find: "dm_find L t q = ki_find L A (nm_labels q)"
    using refines_find [OF R, of q] q(3) by (simp add: hashed_names_def)
  have best: "best nodes (\<lambda>w. wn_is_match L w q) (dm_find L t q)"
    using best_find [OF I q(1), of L] name_library.is_match_covers [OF L q(2)]
    by (simp add: find)
  have names: "fst ` set nodes = fst ` set items"
  proof -
    have "map fst ?items = map fst nodes"
      using nodes by (auto simp: list_all2_conv_all_nth split_beta intro: nth_equalityI)
    then show ?thesis
      unfolding set [symmetric] by (metis set_map)
  qed
  have node: "\<exists>r. (w, r) \<in> set items \<and> n = node_of r (zone_of L t w)" if mem: "(w, n) \<in> set nodes" for w n
  proof -
    from mem obtain i where i: "i < length nodes" "nodes ! i = (w, n)" by (auto simp: in_set_conv_nth)
    then obtain r where r: "?items ! i = (w, r)" "n = node_of r (zone_ki L A w)" "i < length ?items"
      using nodes by (cases "?items ! i") (auto simp: list_all2_conv_all_nth split_beta)
    then have wr: "(w, r) \<in> set ?items" by (metis nth_mem)
    then have "zone_of L t w = zone_ki L A w"
      using K by (intro zone_of_ki [OF L R]) blast
    then show ?thesis using wr r(2) set by auto
  qed
  have match: "(\<forall>(w, r)\<in>set nodes. P w) \<longleftrightarrow> (\<forall>(w, r)\<in>set items. P w)" for P
    using ball_fst [of nodes P] ball_fst [of items P] by (simp only: names)
  show ?thesis
  proof (cases "dm_find L t q")
    case None
    then show ?thesis
      using best match [of "\<lambda>w. \<not> wn_is_match L w q"] by (simp add: best_def)
  next
    case (Some n)
    then obtain w where w: "(w, n) \<in> set nodes" "wn_is_match L w q"
      "\<forall>(w', r')\<in>set nodes. wn_is_match L w' q \<longrightarrow> rank w' \<le> rank w"
      using best by (auto simp: best_def)
    from node [OF w(1)] obtain r where "(w, r) \<in> set items" "n = node_of r (zone_of L t w)" by blast
    then show ?thesis
      using w(2,3) match [of "\<lambda>w'. wn_is_match L w' q \<longrightarrow> rank w' \<le> rank w"] Some by auto
  qed
qed

section \<open>Chains of zones\<close>

text \<open>Every node's rule is some rule filled from the rule of its zone.\<close>

fun chain_ok :: "domain_rule tree_node \<Rightarrow> bool" where
  "chain_ok (TreeNode r z) \<longleftrightarrow>
     (case z of None \<Rightarrow> True | Some n \<Rightarrow> (\<exists>own. r = inherit own (node_rule n)) \<and> chain_ok n)"

text \<open>All values of an index satisfy a predicate: its image under the predicate is the image under
  the constant one. Lookups and insertions then follow from the lemmas on \<open>map_dm\<close>.\<close>

definition dm_all :: "('v \<Rightarrow> bool) \<Rightarrow> 'v domain_map \<Rightarrow> bool" where
  "dm_all P m \<longleftrightarrow> map_dm P m = map_dm (\<lambda>_. True) m"

lemma dm_all_empty [simp]: "dm_all P dm_empty"
  by (simp add: dm_all_def)

lemma dm_all_insert: "dm_all P m \<Longrightarrow> P v \<Longrightarrow> dm_all P (snd (dm_insert L w v m))"
  using map_dm_insert [of L w P v m] map_dm_insert [of L w "\<lambda>_. True" v m] by (simp add: dm_all_def)

lemma dm_all_get_exact: "dm_all P m \<Longrightarrow> dm_get_exact L m w = Some v \<Longrightarrow> P v"
  using map_dm_get_exact [of L P m w] map_dm_get_exact [of L "\<lambda>_. True" m w] by (simp add: dm_all_def)

lemma dm_all_find: "dm_all P m \<Longrightarrow> dm_find L m n = Some v \<Longrightarrow> P v"
  using map_dm_find [of L P m n] map_dm_find [of L "\<lambda>_. True" m n] by (simp add: dm_all_def)

lemma or_else_SomeD: "or_else a b = Some x \<Longrightarrow> a = Some x \<or> b = Some x"
  by (cases a) auto

lemma dm_all_zone: "dm_all P m \<Longrightarrow> zone_of L m w = Some z \<Longrightarrow> P z"
  unfolding zone_of_def Let_def
  by (cases w) (auto dest!: or_else_SomeD intro: dm_all_get_exact dm_all_find split: if_splits)

lemma node_steps_chain: "dm_all chain_ok (fst st) \<Longrightarrow> dm_all chain_ok (fst (fold (node_step L) items st))"
proof (induction items arbitrary: st)
  case (Cons x xs)
  have "chain_ok (node_of (snd x) (zone_of L (fst st) (fst x)))"
    using dm_all_zone [OF Cons.prems]
    by (cases "zone_of L (fst st) (fst x)") (auto simp: node_of_def)
  then have "dm_all chain_ok (fst (node_step L x st))"
    using Cons.prems by (simp add: node_step_def Let_def dm_all_insert)
  then show ?case
    using Cons.IH by simp
qed simp

lemma create_ref_chain: "dm_all chain_ok (fst (create_ref L order sets g))"
  by (simp add: create_ref_def split_beta node_steps_chain)

lemma chain_inherits:
  assumes "chain_ok n" "node_zone n = Some z"
  obtains own where "node_rule n = inherit own (node_rule z)" "chain_ok z"
  using assms by (cases n) auto

lemma node_rule_map [simp]: "node_rule (map_tree_node f n) = f (node_rule n)"
  "node_zone (map_tree_node f n) = map_option (map_tree_node f) (node_zone n)"
  by (cases n; simp)+

lemma map_mk_arc [simp]: "map_tree_node arc_rule (map_tree_node (mk_arc H) n) = n"
  by (simp add: tree_node.map_comp comp_def tree_node.map_ident)

text \<open>No two of the rules that a construction hashes collide.\<close>

definition no_rule_collision ::
  "(domain_rule \<Rightarrow> u64) \<Rightarrow> name_lib \<Rightarrow> (wildcard_name list \<Rightarrow> nat list) \<Rightarrow> domain_sets \<Rightarrow> rule_group \<Rightarrow> bool" where
  "no_rule_collision H L order sets g \<longleftrightarrow> inj_on H (set (snd (create_ref L order sets g)))"

lemma create_first:
  assumes "no_rule_collision H L order sets g" "fair order"
  shows "fst (create L H order sets g []) =
    map_dm (map_tree_node (mk_arc H)) (fst (create_ref L order sets g))"
  using create_ref_eq [of H _ "[]" order L sets g] assms
  by (force simp: no_rule_collision_def table_ok_def)

lemma create_find_chain:
  assumes "no_rule_collision H L order sets g" "fair order"
    and "dm_find L (fst (create L H order sets g [])) q = Some n"
  shows "chain_ok (map_tree_node arc_rule n)"
  using assms(3) dm_all_find [OF create_ref_chain [of L order sets g], of L q]
  by (auto simp: create_first [OF assms(1,2)] map_dm_find)


section \<open>Examples\<close>

definition line :: "wildcard_name \<Rightarrow> domain_rule \<Rightarrow> domain_rule config_for_domain" where
  "line w r = \<lparr>cd_domain = DName w, cd_config = r\<rparr>"

definition rule_ns :: "string \<Rightarrow> domain_rule" where
  "rule_ns g = rule_default\<lparr>ru_nameserver := Some g\<rparr>"

definition example_group :: rule_group where
  "example_group = rule_group_default\<lparr>rg_domain_rules :=
     [line (WDefault www_example_com) (rule_default\<lparr>ru_no_cache := Some True\<rparr>),
      line (WDefault example_com) (rule_ns ''remote'')]\<rparr>"

definition example_hash :: "domain_rule \<Rightarrow> u64" where
  "example_hash r = (if ru_nameserver r = None then 0 else 1) + (if ru_no_cache r = None then 0 else 2)"

abbreviation in_place :: "wildcard_name list \<Rightarrow> nat list" where
  "in_place \<equiv> \<lambda>ns. [0..<length ns]"

lemma fair_orders: "fair in_place" "fair (\<lambda>ns. rev [0..<length ns])"
  by (simp_all add: fair_def)

text \<open>The strings hashed for a name and for the patterns, as a list.\<close>

definition probe_list :: "bytes list \<Rightarrow> bytes list" where
  "probe_list ls = concat (map (\<lambda>i. map (\<lambda>k. k # wire_of (drop i ls)) [FULL, DEFAULT, SUFFIX, SUB]) [0..<Suc (length ls)])"

lemma set_probe_list: "set (probe_list ls) = probes ls"
  unfolding probe_list_def probes_def set_concat set_map atLeastLessThanSuc_atLeastAtMost set_upt
  by (auto simp del: upt_Suc)

lemma hashed_names_list:
  assumes "distinct (map (nl_hash L) (remdups (concat (map probe_list (nm_labels q # map (nm_labels \<circ> wn_name \<circ> fst) items)))))"
  shows "inj_on (nl_hash L) (hashed_names items q)"
proof -
  have "hashed_names items q = set (remdups (concat (map probe_list (nm_labels q # map (nm_labels \<circ> wn_name \<circ> fst) items))))"
    by (auto simp: hashed_names_def set_probe_list)
  then show ?thesis
    using assms unfolding distinct_map by metis
qed

lemma inj_on_list: "distinct (map f (remdups xs)) \<Longrightarrow> inj_on f (set xs)"
  by (metis distinct_map set_remdups)

abbreviation example_tree :: "arc tree_node domain_map" where
  "example_tree \<equiv> fst (create std_lib example_hash in_place [] example_group [])"


text \<open>
  Two \<open>*\<close> patterns of one name compare as equal, so their order in the index is the iteration
  order of the hash map, and a name that both match gets the rule of whichever came first.
\<close>

definition star_group :: rule_group where
  "star_group = rule_group_default\<lparr>rg_domain_rules :=
     [line (WSub (Wildcard (ascii ''w*'')) example_com) (rule_ns ''a''),
      line (WSub (Wildcard (ascii ''*w'')) example_com) (rule_ns ''b'')]\<rparr>"

definition answer_of :: "(wildcard_name list \<Rightarrow> nat list) \<Rightarrow> string option" where
  "answer_of order = Option.bind
     (dm_find std_lib (fst (create std_lib (\<lambda>r. if ru_nameserver r = Some ''a'' then 0 else 1)
        order [] star_group [])) www_example_com) (\<lambda>n. ru_nameserver (arc_rule (node_rule n)))"

theorem star_order_decides:
  "answer_of (\<lambda>ns. [0..<length ns]) = Some ''a'' \<and> answer_of (\<lambda>ns. rev [0..<length ns]) = Some ''b''"
  by code_simp

end
