(* ===== verification/Dns_Url.thy ===== *)
theory Dns_Url
  imports Prelude "HOL-Library.Char_ord" "HOL-Library.List_Lexorder"
begin

text \<open>
  The URL of an upstream server (\<^verbatim>\<open>src/src/dns_url.rs\<close>): protocols, parameters, the parser and the
  printer.

  The \<open>url\<close> package, which splits a URL and encodes parameters, and the text form of IP addresses are
  the argument \<open>L\<close> (\<open>url_lib\<close>). Text is ASCII.
\<close>

section \<open>Parameters\<close>

text \<open>A \<open>BTreeMap\<close>: an association list in the order of the keys.\<close>

type_synonym params = "(string \<times> string) list"

fun bt_insert :: "('k :: linorder) \<Rightarrow> 'v \<Rightarrow> ('k \<times> 'v) list \<Rightarrow> ('k \<times> 'v) list" where
  "bt_insert k v [] = [(k, v)]"
| "bt_insert k v ((k', v') # m) =
     (if k < k' then (k, v) # (k', v') # m
      else if k = k' then (k, v) # m
      else (k', v') # bt_insert k v m)"

definition bt_remove :: "'k \<Rightarrow> ('k \<times> 'v) list \<Rightarrow> ('k \<times> 'v) list" where
  "bt_remove k m = filter (\<lambda>(k', _). k' \<noteq> k) m"

datatype url_host = HDomain string | HIpv4 ipv4 | HIpv6 ipv6

record url_parts =
  u_scheme :: string
  u_host :: "url_host option"
  u_port :: "u16 option"
  u_path :: string
  u_query :: "string option"
  u_fragment :: "string option"

record url_lib =
  ul_parse :: "string \<Rightarrow> string + url_parts"
  ul_form_parse :: "string \<Rightarrow> (string \<times> string) list"
  ul_form_serialize :: "(string \<times> string option) list \<Rightarrow> string"
  ul_host_to_string :: "url_host \<Rightarrow> string"
  ul_ip_from_str :: "string \<Rightarrow> ip_addr option"
  ul_ip_to_string :: "ip_addr \<Rightarrow> string"
  ul_port_to_string :: "u16 \<Rightarrow> string"

definition bool_from_str :: "string \<Rightarrow> bool option" where
  "bool_from_str s = (if s = ''true'' then Some True else if s = ''false'' then Some False else None)"

definition bool_to_string :: "bool \<Rightarrow> string" where
  "bool_to_string b = (if b then ''true'' else ''false'')"

definition get_param :: "(string \<Rightarrow> 'a option) \<Rightarrow> string \<Rightarrow> params \<Rightarrow> 'a option" where
  "get_param from_str n ps = Option.bind (map_of ps n) from_str"

definition set_param :: "string \<Rightarrow> string \<Rightarrow> params \<Rightarrow> params" where
  "set_param n v ps = bt_insert n v ps"

definition del_param :: "(string \<Rightarrow> 'a option) \<Rightarrow> string \<Rightarrow> params \<Rightarrow> 'a option \<times> params" where
  "del_param from_str n ps = (get_param from_str n ps, bt_remove n ps)"

definition is_set :: "string \<Rightarrow> params \<Rightarrow> bool" where
  "is_set n ps = (map_of ps n \<noteq> None)"

definition set_sni_on :: "bool \<Rightarrow> params \<Rightarrow> params" where
  "set_sni_on value ps = set_param ''sni'' (bool_to_string value) ps"

definition set_sni_off :: "bool \<Rightarrow> params \<Rightarrow> params" where
  "set_sni_off value ps = set_param ''sni'' (bool_to_string (\<not> value)) ps"

definition sni_off :: "params \<Rightarrow> bool" where
  "sni_off ps =
     unwrap_or (or_else (map_option Not (get_param bool_from_str ''sni'' ps))
                        (map_option Not (get_param bool_from_str ''enable_sni'' ps))) False"

definition sni_on :: "params \<Rightarrow> bool" where
  "sni_on ps = (\<not> sni_off ps)"

definition ssl_verify :: "params \<Rightarrow> bool" where
  "ssl_verify ps = unwrap_or (get_param bool_from_str ''ssl_verify'' ps) True"

definition set_ssl_verify :: "bool \<Rightarrow> params \<Rightarrow> params" where
  "set_ssl_verify verify ps = set_param ''ssl_verify'' (bool_to_string verify) ps"

definition params_from :: "url_lib \<Rightarrow> string \<Rightarrow> params" where
  "params_from L value = fold (\<lambda>(k, v) m. bt_insert k v m) (ul_form_parse L value) []"

definition params_display :: "url_lib \<Rightarrow> params \<Rightarrow> string" where
  "params_display L ps =
     (if ps = [] then []
      else ul_form_serialize L (map (\<lambda>(k, v). (k, if v = [] then None else Some v)) ps))"

section \<open>Protocols\<close>

datatype protocol = Udp | Tcp | Tls | Https | Quic | H3

datatype https_prefer = PreferAuto | PreferH2 | PreferH3

datatype protocol_config =
  PcUdp | PcTcp | PcTls | PcHttps string https_prefer | PcQuic | PcH3 string bool | PcSystem | PcDhcp "string option"

definition protocol_default_port :: "protocol \<Rightarrow> u16" where
  "protocol_default_port p =
     (case p of Udp \<Rightarrow> 53 | Tcp \<Rightarrow> 53 | Tls \<Rightarrow> 853 | Https \<Rightarrow> 443 | H3 \<Rightarrow> 443 | Quic \<Rightarrow> 853)"

definition to_protocol :: "protocol_config \<Rightarrow> protocol option" where
  "to_protocol p =
     (case p of
        PcUdp \<Rightarrow> Some Udp | PcTcp \<Rightarrow> Some Tcp | PcTls \<Rightarrow> Some Tls | PcHttps _ _ \<Rightarrow> Some Https
      | PcQuic \<Rightarrow> Some Quic | PcH3 _ _ \<Rightarrow> Some H3 | PcSystem \<Rightarrow> None | PcDhcp _ \<Rightarrow> None)"

definition default_port :: "protocol_config \<Rightarrow> u16" where
  "default_port p = (case to_protocol p of Some q \<Rightarrow> protocol_default_port q | None \<Rightarrow> 0)"

definition to_h3 :: "protocol_config \<Rightarrow> protocol_config option" where
  "to_h3 p = (case p of PcHttps path _ \<Rightarrow> Some (PcH3 path False) | _ \<Rightarrow> None)"

definition proto_to_str :: "protocol_config \<Rightarrow> string" where
  "proto_to_str p =
     (case p of
        PcUdp \<Rightarrow> ''udp'' | PcTcp \<Rightarrow> ''tcp'' | PcTls \<Rightarrow> ''tls'' | PcHttps _ _ \<Rightarrow> ''https'' | PcQuic \<Rightarrow> ''quic''
      | PcH3 _ _ \<Rightarrow> ''h3'' | PcSystem \<Rightarrow> ''system'' | PcDhcp _ \<Rightarrow> ''dhcp'')"

definition prefer_display :: "https_prefer \<Rightarrow> string" where
  "prefer_display p = (case p of PreferAuto \<Rightarrow> ''auto'' | PreferH2 \<Rightarrow> ''h2'' | PreferH3 \<Rightarrow> ''h3'')"

definition DEFAULT_DNS_QUERY_PATH :: string where
  "DEFAULT_DNS_QUERY_PATH = ''/dns-query''"

definition config_of_protocol :: "protocol \<Rightarrow> protocol_config" where
  "config_of_protocol p =
     (case p of
        Udp \<Rightarrow> PcUdp | Tcp \<Rightarrow> PcTcp | Tls \<Rightarrow> PcTls | Quic \<Rightarrow> PcQuic
      | Https \<Rightarrow> PcHttps DEFAULT_DNS_QUERY_PATH PreferAuto | H3 \<Rightarrow> PcH3 DEFAULT_DNS_QUERY_PATH False)"

section \<open>DnsUrl\<close>

record dns_url =
  du_name :: string
  du_proto :: protocol_config
  du_host :: url_host
  du_port_opt :: "u16 option"
  du_params :: params
  du_options :: params

definition url_default :: dns_url where
  "url_default =
     \<lparr>du_name = [], du_proto = PcUdp, du_host = HIpv4 0, du_port_opt = None, du_params = [], du_options = []\<rparr>"

definition url_port :: "dns_url \<Rightarrow> u16" where
  "url_port u = (case du_port_opt u of Some p \<Rightarrow> p | None \<Rightarrow> default_port (du_proto u))"

definition url_path :: "dns_url \<Rightarrow> string option" where
  "url_path u = (case du_proto u of PcHttps path _ \<Rightarrow> Some path | PcH3 path _ \<Rightarrow> Some path | _ \<Rightarrow> None)"

definition url_ip :: "url_lib \<Rightarrow> dns_url \<Rightarrow> ip_addr option" where
  "url_ip L u =
     or_else (case du_host u of HDomain _ \<Rightarrow> None | HIpv4 a \<Rightarrow> Some (V4 a) | HIpv6 a \<Rightarrow> Some (V6 a))
       (get_param (ul_ip_from_str L) ''ip'' (du_params u))"

definition has_ip :: "url_lib \<Rightarrow> dns_url \<Rightarrow> bool" where
  "has_ip L u = ((case du_proto u of PcSystem \<Rightarrow> True | PcDhcp _ \<Rightarrow> True | _ \<Rightarrow> False) \<or> url_ip L u \<noteq> None)"

definition set_ip :: "url_lib \<Rightarrow> ip_addr \<Rightarrow> dns_url \<Rightarrow> dns_url" where
  "set_ip L ip u = u\<lparr>du_params := set_param ''ip'' (ul_ip_to_string L ip) (du_params u)\<rparr>"

definition set_port :: "u16 \<Rightarrow> dns_url \<Rightarrow> dns_url" where
  "set_port p u = u\<lparr>du_port_opt := Some p\<rparr>"

definition set_host :: "url_lib \<Rightarrow> string \<Rightarrow> dns_url \<Rightarrow> dns_url" where
  "set_host L host u =
     (let u = (case du_host u of HIpv4 a \<Rightarrow> set_ip L (V4 a) u | HIpv6 a \<Rightarrow> set_ip L (V6 a) u | HDomain _ \<Rightarrow> u)
      in u\<lparr>du_host := HDomain host, du_name := host\<rparr>)"

section \<open>Parsing\<close>

datatype url_parse_err = ParseError string | ProtocolNotSupport string | HostUnspecified

definition to_lowercase :: "string \<Rightarrow> string" where
  "to_lowercase s = map (\<lambda>c. if CHR ''A'' \<le> c \<and> c \<le> CHR ''Z'' then char_of (of_char c + 32 :: nat) else c) s"

fun contains_str :: "string \<Rightarrow> string \<Rightarrow> bool" where
  "contains_str [] p = (p = [])"
| "contains_str (c # cs) p = (take (length p) (c # cs) = p \<or> contains_str cs p)"

definition refine_host :: "url_lib \<Rightarrow> url_host \<Rightarrow> url_host" where
  "refine_host L h =
     (case h of
        HDomain d \<Rightarrow> (case ul_ip_from_str L d of Some (V4 a) \<Rightarrow> HIpv4 a | Some (V6 a) \<Rightarrow> HIpv6 a | None \<Rightarrow> h)
      | _ \<Rightarrow> h)"

definition scheme_protocol :: "string \<Rightarrow> protocol option" where
  "scheme_protocol s =
     map_of [(''udp'', Udp), (''tcp'', Tcp), (''tls'', Tls), (''https'', Https), (''quic'', Quic), (''h3'', H3)] s"

definition url_from_str :: "url_lib \<Rightarrow> string \<Rightarrow> url_parse_err + dns_url" where
  "url_from_str L s =
     (let url = to_lowercase s
      in if url = ''system''
         then Inr (url_default\<lparr>du_name := url, du_proto := PcSystem, du_host := HDomain url\<rparr>)
         else if url = ''dhcp''
         then Inr (url_default\<lparr>du_name := url, du_proto := PcDhcp None, du_host := HDomain url\<rparr>)
         else
           let url = (if contains_str url ''://'' then url else ''udp://'' @ url);
               is_endwith_slash = (url \<noteq> [] \<and> last url = CHR ''/'')
           in case ul_parse L url of
                Inl e \<Rightarrow> Inl (ParseError e)
              | Inr url \<Rightarrow>
                  (let host = map_option (refine_host L) (u_host url)
                   in if u_scheme url = ''dhcp''
                      then Inr (url_default\<lparr>du_name := ''dhcp'',
                             du_proto := PcDhcp (map_option (ul_host_to_string L) host), du_host := HDomain ''dhcp''\<rparr>)
                      else
                        case scheme_protocol (u_scheme url) of
                          None \<Rightarrow> Inl (ProtocolNotSupport (u_scheme url))
                        | Some proto \<Rightarrow>
                            (case host of
                               None \<Rightarrow> Inl HostUnspecified
                             | Some host \<Rightarrow>
                                 (let params = params_from L (unwrap_or (u_query url) []);
                                      options = params_from L (unwrap_or (u_fragment url) []);
                                      server_name =
                                        unwrap_or (case host of HDomain d \<Rightarrow> Some d | _ \<Rightarrow> map_of params ''host'')
                                          (ul_host_to_string L host);
                                      path = (if u_path url = [] \<or> (u_path url = ''/'' \<and> \<not> is_endwith_slash) then None
                                              else Some (u_path url));
                                      (domain, params) = del_param Some ''host'' params;
                                      (host, params) =
                                        (case domain of
                                           None \<Rightarrow> (host, params)
                                         | Some d \<Rightarrow>
                                             (HDomain d,
                                              (case host of
                                                 HIpv4 a \<Rightarrow> set_param ''ip'' (ul_ip_to_string L (V4 a)) params
                                               | HIpv6 a \<Rightarrow> set_param ''ip'' (ul_ip_to_string L (V6 a)) params
                                               | HDomain _ \<Rightarrow> params)))
                                  in Inr \<lparr>du_name = server_name,
                                          du_proto =
                                            (case proto of
                                               Udp \<Rightarrow> PcUdp | Tcp \<Rightarrow> PcTcp | Tls \<Rightarrow> PcTls
                                             | Https \<Rightarrow>
                                                 PcHttps (unwrap_or path DEFAULT_DNS_QUERY_PATH)
                                                   (if is_set ''h2'' options then PreferH2
                                                    else if is_set ''h3'' options then PreferH3 else PreferAuto)
                                             | Quic \<Rightarrow> PcQuic
                                             | H3 \<Rightarrow>
                                                 PcH3 (unwrap_or path DEFAULT_DNS_QUERY_PATH)
                                                   (is_set ''disable_grease'' options)),
                                          du_host = host, du_port_opt = u_port url, du_params = params,
                                          du_options = options\<rparr>))))"

section \<open>Printing\<close>

definition url_display :: "url_lib \<Rightarrow> dns_url \<Rightarrow> string" where
  "url_display L u =
     proto_to_str (du_proto u) @
     (case du_proto u of
        PcSystem \<Rightarrow> []
      | PcDhcp interface \<Rightarrow> (case interface of Some i \<Rightarrow> ''://'' @ i | None \<Rightarrow> [])
      | _ \<Rightarrow>
          ''://'' @ ul_host_to_string L (du_host u) @
          (case du_port_opt u of
             Some p \<Rightarrow> if p \<noteq> default_port (du_proto u) then '':'' @ ul_port_to_string L (url_port u) else []
           | None \<Rightarrow> []) @
          (case du_proto u of PcHttps path _ \<Rightarrow> path | PcH3 path _ \<Rightarrow> path | _ \<Rightarrow> []) @
          (if du_params u \<noteq> [] then ''?'' @ params_display L (du_params u) else []) @
          (if du_options u \<noteq> [] then ''#'' @ params_display L (du_options u) else []))"

definition url_of_ip :: "url_lib \<Rightarrow> ip_addr \<Rightarrow> (url_parse_err + dns_url)" where
  "url_of_ip L ip =
     (case ip of
        V4 _ \<Rightarrow> url_from_str L (ul_ip_to_string L ip)
      | V6 _ \<Rightarrow> url_from_str L (''['' @ ul_ip_to_string L ip @ '']''))"

definition url_of_socket :: "url_lib \<Rightarrow> ip_addr \<Rightarrow> u16 \<Rightarrow> (url_parse_err + dns_url)" where
  "url_of_socket L ip p = map_sum id (set_port p) (url_of_ip L ip)"

section \<open>Parameters as a map\<close>

definition bt_ok :: "('k :: linorder \<times> 'v) list \<Rightarrow> bool" where
  "bt_ok m = sorted_wrt (<) (map fst m)"

lemma bt_keys_insert: "fst ` set (bt_insert k v m) = insert k (fst ` set m)"
  by (induction m rule: bt_insert.induct) auto

lemma bt_ok_insert: "bt_ok m \<Longrightarrow> bt_ok (bt_insert k v m)"
proof (induction k v m rule: bt_insert.induct)
  case (2 k v k' v' m)
  then show ?case using bt_keys_insert [of k v m] by (auto simp: bt_ok_def)
qed (simp add: bt_ok_def)

lemma map_of_bt_insert: "bt_ok m \<Longrightarrow> map_of (bt_insert k v m) = (map_of m)(k \<mapsto> v)"
proof (induction k v m rule: bt_insert.induct)
  case (2 k v k' v' m)
  then show ?case by (auto simp: bt_ok_def fun_eq_iff)
qed (simp add: fun_eq_iff)

lemma bt_ok_remove: "bt_ok m \<Longrightarrow> bt_ok (bt_remove k m)"
  by (induction m) (auto simp: bt_ok_def bt_remove_def)

lemma map_of_bt_remove: "map_of (bt_remove k m) = (map_of m)(k := None)"
  by (induction m) (auto simp: bt_remove_def fun_eq_iff)

lemma bt_ok_fold: "bt_ok m \<Longrightarrow> bt_ok (fold (\<lambda>(k, v) m. bt_insert k v m) kvs m)"
  by (induction kvs arbitrary: m) (auto intro: bt_ok_insert)

lemma bt_ok_params: "bt_ok (params_from L s)"
  by (auto simp: params_from_def bt_ok_def intro: bt_ok_fold [unfolded bt_ok_def])

text \<open>Inserting the pairs of a map in their order rebuilds it.\<close>

lemma bt_insert_last: "\<forall>k'\<in>fst ` set m. k' < k \<Longrightarrow> bt_insert k v m = m @ [(k, v)]"
  by (induction k v m rule: bt_insert.induct) auto

lemma bt_rebuild_append:
  "bt_ok (acc @ m) \<Longrightarrow> fold (\<lambda>(k, v) m. bt_insert k v m) m acc = acc @ m"
proof (induction m arbitrary: acc)
  case (Cons kv m)
  obtain k v where kv: "kv = (k, v)" by fastforce
  have "bt_insert k v acc = acc @ [(k, v)]"
    using Cons.prems by (intro bt_insert_last) (auto simp: kv bt_ok_def sorted_wrt_append)
  then show ?case using Cons.IH [of "acc @ [(k, v)]"] Cons.prems by (simp add: kv)
qed simp

lemma params_from_pairs: "ul_form_parse L s = m \<Longrightarrow> bt_ok m \<Longrightarrow> params_from L s = m"
  using bt_rebuild_append [of "[]" m] by (simp add: params_from_def)

section \<open>Properties\<close>

text \<open>The text given to the \<open>url\<close> package.\<close>

definition url_text :: "string \<Rightarrow> string" where
  "url_text s = (let url = to_lowercase s in if contains_str url ''://'' then url else ''udp://'' @ url)"

text \<open>
  A server given by a literal address is reached at that address. A \<open>host=\<close> parameter only
  gives the name for the handshake: it becomes host and name of the URL, the address moves to the
  \<open>ip\<close> parameter, and no \<open>host\<close> parameter is left.
\<close>

theorem url_keeps_address:
  assumes "\<And>ip. ul_ip_from_str L (ul_ip_to_string L ip) = Some ip"
    and "to_lowercase s \<notin> {''system'', ''dhcp''}"
    and "ul_parse L (url_text s) = Inr p" "scheme_protocol (u_scheme p) \<noteq> None"
    and "u_host p = Some h" "refine_host L h = (case ip of V4 a \<Rightarrow> HIpv4 a | V6 a \<Rightarrow> HIpv6 a)"
  shows "\<exists>u. url_from_str L s = Inr u \<and> url_ip L u = Some ip \<and> has_ip L u \<and> map_of (du_params u) ''host'' = None \<and>
    (case map_of (params_from L (unwrap_or (u_query p) [])) ''host'' of
       Some d \<Rightarrow> du_host u = HDomain d \<and> du_name u = d
     | None \<Rightarrow> du_host u = refine_host L h)"
proof -
  let ?ps = "params_from L (unwrap_or (u_query p) [])"
  obtain proto where proto: "scheme_protocol (u_scheme p) = Some proto" using assms(4) by blast
  then have dhcp: "u_scheme p \<noteq> ''dhcp''" by (auto simp: scheme_protocol_def)
  show ?thesis
    using assms(2,3,5,6) proto dhcp
    by (cases ip; cases "map_of ?ps ''host''")
      (simp_all add: url_from_str_def url_text_def Let_def url_ip_def has_ip_def get_param_def set_param_def del_param_def
        map_of_bt_remove map_of_bt_insert [OF bt_ok_remove [OF bt_ok_params]] assms(1))
qed

definition small_ip_from_str :: "string \<Rightarrow> ip_addr option" where
  "small_ip_from_str s =
     (case s of
        c # r \<Rightarrow> (if c = CHR ''4'' then Some (V4 (of_nat (length r)))
                 else if c = CHR ''6'' then Some (V6 (of_nat (length r))) else None)
      | [] \<Rightarrow> None)"

definition small_ip_to_string :: "ip_addr \<Rightarrow> string" where
  "small_ip_to_string ip =
     (case ip of
        V4 a \<Rightarrow> CHR ''4'' # replicate (unat a) CHR ''1''
      | V6 a \<Rightarrow> CHR ''6'' # replicate (unat a) CHR ''1'')"

definition small_lib :: url_lib where
  "small_lib =
     \<lparr>ul_parse = (\<lambda>s.
         if s = ''https://one:8443/q?ip=41'' then
           Inr \<lparr>u_scheme = ''https'', u_host = Some (HDomain ''one''), u_port = Some 8443, u_path = ''/q'',
                u_query = Some ''ip=41'', u_fragment = None\<rparr>
         else if s = ''tls://41?host=one'' then
           Inr \<lparr>u_scheme = ''tls'', u_host = Some (HDomain ''41''), u_port = None, u_path = [],
                u_query = Some ''host=one'', u_fragment = None\<rparr>
         else Inl ''relative URL without a base''),
      ul_form_parse = (\<lambda>s. if s = ''ip=41'' then [(''ip'', ''41'')] else if s = ''host=one'' then [(''host'', ''one'')] else []),
      ul_form_serialize = (\<lambda>ps. if ps = [(''ip'', Some ''41'')] then ''ip=41'' else []),
      ul_host_to_string = (\<lambda>h. case h of HDomain d \<Rightarrow> d | HIpv4 a \<Rightarrow> small_ip_to_string (V4 a) | HIpv6 a \<Rightarrow> small_ip_to_string (V6 a)),
      ul_ip_from_str = small_ip_from_str, ul_ip_to_string = small_ip_to_string,
      ul_port_to_string = (\<lambda>p. if p = 8443 then ''8443'' else [])\<rparr>"

lemma small_ip_text: "ul_ip_from_str small_lib (ul_ip_to_string small_lib ip) = Some ip"
  by (cases ip) (simp_all add: small_lib_def small_ip_from_str_def small_ip_to_string_def)

theorem url_keeps_address_witness:
  "\<exists>u. url_from_str small_lib ''TLS://41?host=one'' = Inr u \<and> url_ip small_lib u = Some (V4 1) \<and> du_name u = ''one''"
proof -
  have "to_lowercase ''TLS://41?host=one'' = ''tls://41?host=one''" by code_simp
  moreover have "contains_str ''tls://41?host=one'' ''://''" by code_simp
  ultimately have "ul_parse small_lib (url_text ''TLS://41?host=one'') =
      Inr \<lparr>u_scheme = ''tls'', u_host = Some (HDomain ''41''), u_port = None, u_path = [], u_query = Some ''host=one'',
           u_fragment = None\<rparr>"
    by (simp add: url_text_def small_lib_def)
  moreover have "to_lowercase ''TLS://41?host=one'' \<notin> {''system'', ''dhcp''}"
    using \<open>to_lowercase ''TLS://41?host=one'' = _\<close> by simp
  moreover have "refine_host small_lib (HDomain ''41'') = (case V4 1 of V4 a \<Rightarrow> HIpv4 a | V6 a \<Rightarrow> HIpv6 a)"
    by (simp add: refine_host_def small_lib_def small_ip_from_str_def)
  moreover have "map_of (params_from small_lib ''host=one'') ''host'' = Some ''one''"
    by (simp add: params_from_def small_lib_def)
  ultimately show ?thesis
    using url_keeps_address [of small_lib "''TLS://41?host=one''" _ "HDomain ''41''" "V4 1", OF small_ip_text]
    by (fastforce simp: scheme_protocol_def)
qed

text \<open>What the printed form determines: every URL that the parser builds for a server, but for a path
  \<open>/\<close> before parameters, which the parser takes for no path.\<close>

definition url_ok :: "url_lib \<Rightarrow> dns_url \<Rightarrow> bool" where
  "url_ok L u \<longleftrightarrow>
     to_protocol (du_proto u) \<noteq> None \<and> bt_ok (du_params u) \<and> bt_ok (du_options u) \<and>
     map_of (du_params u) ''host'' = None \<and> refine_host L (du_host u) = du_host u \<and>
     du_name u = (case du_host u of HDomain d \<Rightarrow> d | h \<Rightarrow> ul_host_to_string L h) \<and>
     (case url_path u of
        None \<Rightarrow> True
      | Some path \<Rightarrow> path \<noteq> [] \<and> (path = ''/'' \<longrightarrow> du_params u = [] \<and> du_options u = [])) \<and>
     (case du_proto u of
        PcHttps _ prefer \<Rightarrow>
          prefer = (if is_set ''h2'' (du_options u) then PreferH2
                    else if is_set ''h3'' (du_options u) then PreferH3 else PreferAuto)
      | PcH3 _ disable_grease \<Rightarrow> disable_grease = is_set ''disable_grease'' (du_options u)
      | _ \<Rightarrow> True)"

definition written_port :: "dns_url \<Rightarrow> u16 option" where
  "written_port u = opt_filter (\<lambda>p. p \<noteq> default_port (du_proto u)) (du_port_opt u)"

text \<open>The package reads the parts back, from text that is in lower case.\<close>

definition reads_url :: "url_lib \<Rightarrow> dns_url \<Rightarrow> bool" where
  "reads_url L u \<longleftrightarrow>
     to_lowercase (url_display L u) = url_display L u \<and>
     ul_parse L (url_display L u) =
       Inr \<lparr>u_scheme = proto_to_str (du_proto u), u_host = Some (du_host u), u_port = written_port u,
            u_path = unwrap_or (url_path u) [],
            u_query = (if du_params u = [] then None else Some (params_display L (du_params u))),
            u_fragment = (if du_options u = [] then None else Some (params_display L (du_options u)))\<rparr> \<and>
     ul_form_parse L [] = [] \<and>
     (du_params u \<noteq> [] \<longrightarrow> ul_form_parse L (params_display L (du_params u)) = du_params u) \<and>
     (du_options u \<noteq> [] \<longrightarrow> ul_form_parse L (params_display L (du_options u)) = du_options u)"

lemma contains_str_middle: "contains_str (xs @ p @ ys) p"
proof (induction xs)
  case Nil
  show ?case by (cases "p @ ys") (use append_eq_conv_conj [of p ys "p @ ys"] in auto)
qed simp


definition example_url :: dns_url where
  "example_url =
     \<lparr>du_name = ''one'', du_proto = PcHttps ''/q'' PreferAuto, du_host = HDomain ''one'', du_port_opt = Some 8443,
      du_params = [(''ip'', ''41'')], du_options = []\<rparr>"


lemma to_lowercase_idem: "to_lowercase (to_lowercase s) = to_lowercase s"
proof -
  have upper: "(CHR ''A'' \<le> c \<and> c \<le> CHR ''Z'') = (65 \<le> (of_char c :: nat) \<and> (of_char c :: nat) \<le> 90)" for c
    by (simp add: less_eq_char_def)
  show ?thesis unfolding to_lowercase_def upper by (auto simp: of_char_of)
qed

text \<open>The whole URL is read without regard to case, its path included, though servers tell paths
  apart by case.\<close>

lemma url_case_ignored: "url_from_str L (to_lowercase s) = url_from_str L s"
  unfolding url_from_str_def by (simp add: to_lowercase_idem)

end
