(* ===== verification/Config.thy ===== *)
theory Config
  imports Rule_Tree_Laws Dns_Url
begin

text \<open>
  The configuration as the query path reads it: server options
  (\<^verbatim>\<open>src/src/config/server_opts.rs\<close>), client rules (\<^verbatim>\<open>src/src/config/client_rule.rs\<close>), upstream
  descriptions (\<^verbatim>\<open>src/src/config/nameserver.rs\<close>), the cache settings (\<^verbatim>\<open>src/src/config/cache.rs\<close>)
  and the accessors of \<open>RuntimeConfig\<close> (\<^verbatim>\<open>src/src/dns_conf.rs\<close>) with their defaults.

  An \<open>IpSet\<close> of the configuration appears as its membership test. Containment of addresses in
  networks is the \<open>ipnet\<close> package's, an argument of the definitions that use it. File names,
  log and certificate settings are not part of the model.
\<close>

section \<open>ServerOpts\<close>

record server_opts =
  so_ddr :: "bool option"
  so_local_addr :: "(ip_addr \<times> u16) option"
  so_ipset :: "string config_for_ip list option"
  so_nftset :: "nftset_config config_for_ip list option"
  so_group :: "string option"
  so_rule_group :: "string option"
  so_no_rule_addr :: "bool option"
  so_no_rule_nameserver :: "bool option"
  so_no_rule_ipset :: "bool option"
  so_no_speed_check :: "bool option"
  so_no_cache :: "bool option"
  so_no_rule_soa :: "bool option"
  so_no_dualstack_selection :: "bool option"
  so_force_aaaa_soa :: "bool option"
  so_force_https_soa :: "bool option"
  so_no_serve_expired :: "bool option"
  so_is_background :: bool

definition server_opts_default :: server_opts where
  "server_opts_default =
     \<lparr>so_ddr = None, so_local_addr = None, so_ipset = None, so_nftset = None, so_group = None,
      so_rule_group = None, so_no_rule_addr = None, so_no_rule_nameserver = None,
      so_no_rule_ipset = None, so_no_speed_check = None, so_no_cache = None, so_no_rule_soa = None,
      so_no_dualstack_selection = None, so_force_aaaa_soa = None, so_force_https_soa = None,
      so_no_serve_expired = None, so_is_background = False\<rparr>"

definition no_rule_addr :: "server_opts \<Rightarrow> bool" where
  "no_rule_addr s = unwrap_or (so_no_rule_addr s) False"

definition no_rule_nameserver :: "server_opts \<Rightarrow> bool" where
  "no_rule_nameserver s = unwrap_or (so_no_rule_nameserver s) False"

definition no_rule_ipset :: "server_opts \<Rightarrow> bool" where
  "no_rule_ipset s = unwrap_or (so_no_rule_ipset s) False"

definition no_speed_check :: "server_opts \<Rightarrow> bool" where
  "no_speed_check s = unwrap_or (so_no_speed_check s) False"

definition opts_no_cache :: "server_opts \<Rightarrow> bool" where
  "opts_no_cache s = unwrap_or (so_no_cache s) False"

definition no_rule_soa :: "server_opts \<Rightarrow> bool" where
  "no_rule_soa s = unwrap_or (so_no_rule_soa s) False"

definition no_dualstack_selection :: "server_opts \<Rightarrow> bool" where
  "no_dualstack_selection s = unwrap_or (so_no_dualstack_selection s) False"

definition opts_force_aaaa_soa :: "server_opts \<Rightarrow> bool" where
  "opts_force_aaaa_soa s = unwrap_or (so_force_aaaa_soa s) False"

definition opts_force_https_soa :: "server_opts \<Rightarrow> bool" where
  "opts_force_https_soa s = unwrap_or (so_force_https_soa s) False"

definition no_serve_expired :: "server_opts \<Rightarrow> bool" where
  "no_serve_expired s = unwrap_or (so_no_serve_expired s) False"

definition opts_apply :: "server_opts \<Rightarrow> server_opts \<Rightarrow> server_opts" where
  "opts_apply self other = self\<lparr>
     so_ddr := or_else (so_ddr self) (so_ddr other),
     so_local_addr := or_else (so_local_addr self) (so_local_addr other),
     so_ipset := or_else (so_ipset self) (so_ipset other),
     so_nftset := or_else (so_nftset self) (so_nftset other),
     so_group := or_else (so_group self) (so_group other),
     so_no_rule_addr := or_else (so_no_rule_addr self) (so_no_rule_addr other),
     so_no_rule_nameserver := or_else (so_no_rule_nameserver self) (so_no_rule_nameserver other),
     so_no_rule_ipset := or_else (so_no_rule_ipset self) (so_no_rule_ipset other),
     so_no_speed_check := or_else (so_no_speed_check self) (so_no_speed_check other),
     so_no_cache := or_else (so_no_cache self) (so_no_cache other),
     so_no_rule_soa := or_else (so_no_rule_soa self) (so_no_rule_soa other),
     so_no_dualstack_selection :=
       or_else (so_no_dualstack_selection self) (so_no_dualstack_selection other),
     so_force_aaaa_soa := or_else (so_force_aaaa_soa self) (so_force_aaaa_soa other),
     so_force_https_soa := or_else (so_force_https_soa self) (so_force_https_soa other),
     so_no_serve_expired := or_else (so_no_serve_expired self) (so_no_serve_expired other),
     so_rule_group := or_else (so_rule_group self) (so_rule_group other)\<rparr>"

section \<open>Client rules\<close>

text \<open>Networks of the \<open>ipnet\<close> package: an address and a prefix length.\<close>

record ip_net =
  net_addr :: ip_addr
  net_prefix :: u8

record net_lib =
  net_contains_ip :: "ip_net \<Rightarrow> ip_addr \<Rightarrow> bool"
  net_contains_net :: "ip_net \<Rightarrow> ip_net \<Rightarrow> bool"

datatype client = ClientMac string | ClientNet ip_net

record client_rule =
  cr_client :: client
  cr_group :: string
  cr_options :: server_opts

definition match_ip :: "net_lib \<Rightarrow> client_rule \<Rightarrow> ip_addr \<Rightarrow> bool" where
  "match_ip N r i = (case cr_client r of ClientMac _ \<Rightarrow> False | ClientNet n \<Rightarrow> net_contains_ip N n i)"

definition match_net :: "net_lib \<Rightarrow> client_rule \<Rightarrow> ip_net \<Rightarrow> bool" where
  "match_net N r m = (case cr_client r of ClientMac _ \<Rightarrow> False | ClientNet n \<Rightarrow> net_contains_net N n m)"

text \<open>\<open>str::eq_ignore_ascii_case\<close>.\<close>

definition eq_ignore_ascii_case :: "string \<Rightarrow> string \<Rightarrow> bool" where
  "eq_ignore_ascii_case a b \<longleftrightarrow> lower (ascii a) = lower (ascii b)"

definition match_mac :: "client_rule \<Rightarrow> string \<Rightarrow> bool" where
  "match_mac r mac = (case cr_client r of ClientMac m \<Rightarrow> eq_ignore_ascii_case m mac | ClientNet _ \<Rightarrow> False)"

section \<open>RuntimeConfig\<close>

record name_server_info =
  ni_name :: "string option"
  ni_server :: dns_url
  ni_group :: "string list"
  ni_blacklist_ip :: bool
  ni_whitelist_ip :: bool
  ni_check_edns :: bool
  ni_spki_pin :: "string option"
  ni_exclude_default_group :: bool
  ni_proxy :: "string option"
  ni_bootstrap_dns :: bool
  ni_resolve_group :: "string option"
  ni_subnet :: "(ip_addr \<times> u8) option"
  ni_so_mark :: "u32 option"
  ni_interface :: "string option"
  ni_enabled :: "bool option"

definition info_of_url :: "dns_url \<Rightarrow> name_server_info" where
  "info_of_url url =
     \<lparr>ni_name = None, ni_server = url, ni_group = [], ni_blacklist_ip = False, ni_whitelist_ip = False,
      ni_check_edns = False, ni_spki_pin = None, ni_exclude_default_group = False, ni_proxy = None,
      ni_bootstrap_dns = False, ni_resolve_group = None, ni_subnet = None, ni_so_mark = None, ni_interface = None,
      ni_enabled = None\<rparr>"

definition ni_is_enabled :: "name_server_info \<Rightarrow> bool" where
  "ni_is_enabled n = unwrap_or (ni_enabled n) True"

record cache_config =
  cc_size :: "int option"
  cc_memory_size :: "nat option"
  cc_expired_prefetch_time :: "u64 option"
  cc_persist :: "bool option"
  cc_prefetch_domain :: "bool option"
  cc_serve_expired :: "bool option"
  cc_serve_expired_ttl :: "u64 option"
  cc_serve_expired_reply_ttl :: "u64 option"
  cc_checkpoint_time :: "u64 option"

text \<open>A set of addresses is what \<open>contains\<close> says of it (theory \<open>Ip_Set\<close>); what \<open>is_empty\<close> says is a
  field of its own where the program asks. An alias is a shared slice: its address and its
  elements.\<close>

type_synonym ip_set = "ip_addr \<Rightarrow> bool"

record runtime_config =
  cf_nameservers :: "name_server_info list"
  cf_client_rules :: "client_rule list"
  cf_rule_groups :: "(string, rule_group) hmap"
  cf_domain_rule_groups :: "(string, arc tree_node domain_map) hmap"
  cf_cache :: cache_config
  cf_max_query_limit :: "nat option"
  cf_tcp_idle_time :: "u64 option"
  cf_bogus_nxdomain :: ip_set
  cf_blacklist_ip :: ip_set
  cf_whitelist_ip :: ip_set
  cf_ignore_ip :: ip_set
  cf_ignore_ip_is_empty :: bool
  cf_recheck_ip_sets :: "(string, ip_set) hmap"
  cf_ip_alias :: "ip_addr \<Rightarrow> (nat \<times> ip_addr list) option"
  cf_ip_alias_is_empty :: bool
  cf_mdns_lookup :: "bool option"
  cf_speed_check_mode :: "speed_check_mode_list option"
  cf_force_aaaa_soa :: "bool option"
  cf_force_https_soa :: "bool option"
  cf_force_qtype_soa :: "record_type list"
  cf_dualstack_ip_selection :: "bool option"
  cf_dualstack_ip_prefer_ipv4 :: "bool option"
  cf_dualstack_ip_selection_threshold :: "u64 option"
  cf_dualstack_ip_allow_force_aaaa :: "bool option"
  cf_rr_ttl :: "u64 option"
  cf_rr_ttl_min :: "u64 option"
  cf_rr_ttl_max :: "u64 option"
  cf_rr_ttl_reply_max :: "u64 option"
  cf_local_ttl :: "u64 option"
  cf_max_reply_ip_num :: "u8 option"
  cf_response_mode :: "response_mode option"

definition DEFAULT_GROUP :: string where
  "DEFAULT_GROUP = ''default''"

definition tcp_idle_time :: "runtime_config \<Rightarrow> u64" where
  "tcp_idle_time c = unwrap_or (cf_tcp_idle_time c) 120"

definition cache_size :: "runtime_config \<Rightarrow> nat" where
  "cache_size c = nat (max (unwrap_or (cc_size (cf_cache c)) 512) 0)"

definition cache_persist :: "runtime_config \<Rightarrow> bool" where
  "cache_persist c = unwrap_or (cc_persist (cf_cache c)) False"

definition cache_checkpoint_time :: "runtime_config \<Rightarrow> u64" where
  "cache_checkpoint_time c = unwrap_or (cc_checkpoint_time (cf_cache c)) (24 * 60 * 60)"

definition prefetch_domain :: "runtime_config \<Rightarrow> bool" where
  "prefetch_domain c = unwrap_or (cc_prefetch_domain (cf_cache c)) False"

definition serve_expired :: "runtime_config \<Rightarrow> bool" where
  "serve_expired c = unwrap_or (cc_serve_expired (cf_cache c)) True"

definition serve_expired_ttl :: "runtime_config \<Rightarrow> u64" where
  "serve_expired_ttl c = unwrap_or (cc_serve_expired_ttl (cf_cache c)) 0"

definition serve_expired_reply_ttl :: "runtime_config \<Rightarrow> u64" where
  "serve_expired_reply_ttl c = unwrap_or (cc_serve_expired_reply_ttl (cf_cache c)) 5"

definition recheck_ip_set :: "runtime_config \<Rightarrow> string \<Rightarrow> ip_set option" where
  "recheck_ip_set c n = map_of (cf_recheck_ip_sets c) n"

definition mdns_lookup :: "runtime_config \<Rightarrow> bool" where
  "mdns_lookup c = unwrap_or (cf_mdns_lookup c) False"

definition force_aaaa_soa :: "runtime_config \<Rightarrow> bool" where
  "force_aaaa_soa c = unwrap_or (cf_force_aaaa_soa c) False"

definition force_https_soa :: "runtime_config \<Rightarrow> bool" where
  "force_https_soa c = unwrap_or (cf_force_https_soa c) False"

definition dualstack_ip_selection :: "runtime_config \<Rightarrow> bool" where
  "dualstack_ip_selection c = unwrap_or (cf_dualstack_ip_selection c) True"

definition dualstack_ip_prefer_ipv4 :: "runtime_config \<Rightarrow> bool" where
  "dualstack_ip_prefer_ipv4 c = unwrap_or (cf_dualstack_ip_prefer_ipv4 c) False"

definition dualstack_ip_selection_threshold :: "runtime_config \<Rightarrow> u64" where
  "dualstack_ip_selection_threshold c = unwrap_or (cf_dualstack_ip_selection_threshold c) 10"

definition dualstack_ip_allow_force_aaaa :: "runtime_config \<Rightarrow> bool" where
  "dualstack_ip_allow_force_aaaa c = unwrap_or (cf_dualstack_ip_allow_force_aaaa c) False"

definition rr_ttl_min :: "runtime_config \<Rightarrow> u64 option" where
  "rr_ttl_min c = or_else (cf_rr_ttl_min c) (cf_rr_ttl c)"

definition rr_ttl_max :: "runtime_config \<Rightarrow> u64 option" where
  "rr_ttl_max c = or_else (cf_rr_ttl_max c) (cf_rr_ttl c)"

definition local_ttl :: "runtime_config \<Rightarrow> u64" where
  "local_ttl c = unwrap_or (or_else (cf_local_ttl c) (rr_ttl_min c)) 10"

definition cfg_response_mode :: "runtime_config \<Rightarrow> response_mode" where
  "cfg_response_mode c = unwrap_or (cf_response_mode c) FirstPing"

definition get_rule_group :: "runtime_config \<Rightarrow> string \<Rightarrow> rule_group" where
  "get_rule_group c name = unwrap_or (map_of (cf_rule_groups c) name) rule_group_default"

definition domain_rule_group :: "runtime_config \<Rightarrow> string \<Rightarrow> arc tree_node domain_map" where
  "domain_rule_group c name =
     (let name = (if name = [] then DEFAULT_GROUP else name)
      in unwrap_or (map_of (cf_domain_rule_groups c) name) dm_empty)"

definition find_domain_rule :: "name_lib \<Rightarrow> runtime_config \<Rightarrow> name \<Rightarrow> string \<Rightarrow> arc tree_node option" where
  "find_domain_rule L c domain grp =
     or_else (dm_find L (domain_rule_group c grp) domain)
       (dm_find L (domain_rule_group c DEFAULT_GROUP) domain)"

definition get_server_group :: "runtime_config \<Rightarrow> string \<Rightarrow> name_server_info list" where
  "get_server_group c grp =
     (if grp = DEFAULT_GROUP
      then filter (\<lambda>s. list_ex (\<lambda>g. g = DEFAULT_GROUP) (ni_group s) \<or> \<not> ni_exclude_default_group s)
        (cf_nameservers c)
      else filter (\<lambda>s. list_ex (\<lambda>g. g = grp) (ni_group s)) (cf_nameservers c))"

text \<open>A configuration in which nothing is set.\<close>

definition config_default :: runtime_config where
  "config_default =
     \<lparr>cf_nameservers = [], cf_client_rules = [], cf_rule_groups = [], cf_domain_rule_groups = [],
      cf_cache = \<lparr>cc_size = None, cc_memory_size = None, cc_expired_prefetch_time = None,
        cc_persist = None, cc_prefetch_domain = None, cc_serve_expired = None,
        cc_serve_expired_ttl = None, cc_serve_expired_reply_ttl = None, cc_checkpoint_time = None\<rparr>,
      cf_max_query_limit = None, cf_tcp_idle_time = None,
      cf_bogus_nxdomain = (\<lambda>_. False), cf_blacklist_ip = (\<lambda>_. False), cf_whitelist_ip = (\<lambda>_. False),
      cf_ignore_ip = (\<lambda>_. False), cf_ignore_ip_is_empty = True, cf_recheck_ip_sets = [],
      cf_ip_alias = (\<lambda>_. None), cf_ip_alias_is_empty = True, cf_mdns_lookup = None,
      cf_speed_check_mode = None, cf_force_aaaa_soa = None, cf_force_https_soa = None,
      cf_force_qtype_soa = [], cf_dualstack_ip_selection = None, cf_dualstack_ip_prefer_ipv4 = None,
      cf_dualstack_ip_selection_threshold = None, cf_dualstack_ip_allow_force_aaaa = None,
      cf_rr_ttl = None, cf_rr_ttl_min = None, cf_rr_ttl_max = None, cf_rr_ttl_reply_max = None,
      cf_local_ttl = None, cf_max_reply_ip_num = None, cf_response_mode = None\<rparr>"

section \<open>Merging server options\<close>

lemma opts_apply_assoc: "opts_apply (opts_apply a b) c = opts_apply a (opts_apply b c)"
  by (simp add: opts_apply_def or_else_assoc)

lemma opts_apply_default: "opts_apply a server_opts_default = a"
  by (simp add: opts_apply_def server_opts_default_def)

lemma opts_apply_background [simp]: "so_is_background (opts_apply a b) = so_is_background a"
  by (simp add: opts_apply_def)

end
