(* ===== verification/Context.thy ===== *)
theory Context
  imports Config
begin

text \<open>
  The context of a query (\<^verbatim>\<open>src/src/dns.rs\<close>: \<open>DnsContext\<close>, \<open>LookupFrom\<close>, \<open>DnsRequest\<close>) and the
  middleware chain (\<^verbatim>\<open>src/src/infra/middleware.rs\<close>) with its entry point
  (\<^verbatim>\<open>src/src/dns_mw.rs\<close>).

  An asynchronous handler is a function from the context and the request to a result and the
  context it leaves; awaiting is sequencing. A deferred lookup (\<open>PendingSpeedCheck\<close>) is the
  result it will resolve to. The clock is an argument.
\<close>

section \<open>DnsContext\<close>

datatype lookup_from = FromNone | FromCache | FromStatic | FromZone string | FromServer string

type_synonym dns_result = "lookup_error + dns_response"

record dns_context =
  cx_cfg :: runtime_config
  cx_server_opts :: server_opts
  cx_domain_rule :: "arc tree_node option"
  cx_fastest_speed :: duration
  cx_source :: lookup_from
  cx_no_cache :: bool
  cx_is_dualstack :: bool
  cx_pending_speed_check :: "dns_result option"

definition rule_of :: "arc tree_node \<Rightarrow> domain_rule" where
  "rule_of n = arc_rule (node_rule n)"

definition context_new :: "name_lib \<Rightarrow> name \<Rightarrow> runtime_config \<Rightarrow> server_opts \<Rightarrow> dns_context" where
  "context_new L n cfg opts =
     (let group_name = unwrap_or (so_rule_group opts) [];
          domain_rule = find_domain_rule L cfg n group_name;
          no_cache = unwrap_or (opt_node_get (\<lambda>n. ru_no_cache (rule_of n)) domain_rule) False
      in \<lparr>cx_cfg = cfg, cx_server_opts = opts, cx_domain_rule = domain_rule, cx_fastest_speed = 0,
          cx_source = FromNone, cx_no_cache = no_cache, cx_is_dualstack = False,
          cx_pending_speed_check = None\<rparr>)"

text \<open>\<open>PendingSpeedCheck\<close> is not cloned.\<close>

definition context_clone :: "dns_context \<Rightarrow> dns_context" where
  "context_clone c = c\<lparr>cx_pending_speed_check := None\<rparr>"

definition pending_set :: "dns_result \<Rightarrow> dns_context \<Rightarrow> dns_context" where
  "pending_set r c = c\<lparr>cx_pending_speed_check := Some r\<rparr>"

definition pending_take :: "dns_context \<Rightarrow> dns_result option \<times> dns_context" where
  "pending_take c = (cx_pending_speed_check c, c\<lparr>cx_pending_speed_check := None\<rparr>)"

text \<open>The loop of \<open>server_group_name\<close>: up the zones to the first with a nameserver.\<close>

fun nameserver_up :: "arc tree_node \<Rightarrow> string option" where
  "nameserver_up (TreeNode a z) =
     (case ru_nameserver (arc_rule a) of
        Some n \<Rightarrow> Some n
      | None \<Rightarrow> (case z of None \<Rightarrow> None | Some n \<Rightarrow> nameserver_up n))"

definition server_group_name :: "dns_context \<Rightarrow> string" where
  "server_group_name c =
     (case so_group (cx_server_opts c) of
        Some n \<Rightarrow> n
      | None \<Rightarrow> unwrap_or (Option.bind (cx_domain_rule c) nameserver_up) ''default'')"

definition set_ttl :: "u64 option \<Rightarrow> u32 option" where
  "set_ttl t = map_option (\<lambda>t. if unat t < 2 ^ 32 then ucast t else - 1) (opt_filter (\<lambda>t. t > 0) t)"

definition rr_ttl_limits :: "dns_context \<Rightarrow> ttl_limits" where
  "rr_ttl_limits c =
     (let rule = (\<lambda>f. opt_node_get (\<lambda>n. f (rule_of n)) (cx_domain_rule c));
          fixed = or_else (set_ttl (rule ru_rr_ttl)) (set_ttl (cf_rr_ttl (cx_cfg c)))
      in case fixed of
        Some ttl \<Rightarrow> \<lparr>tl_min = Some ttl, tl_max = Some ttl\<rparr>
      | None \<Rightarrow>
          (let rule_min = set_ttl (rule ru_rr_ttl_min);
               rule_max = set_ttl (rule ru_rr_ttl_max);
               global_min = set_ttl (rr_ttl_min (cx_cfg c));
               global_max = set_ttl (rr_ttl_max (cx_cfg c));
               limits = \<lparr>tl_min = global_min, tl_max = global_max\<rparr>;
               limits = (case rule_min of
                   None \<Rightarrow> limits
                 | Some lo \<Rightarrow>
                     (let limits = limits\<lparr>tl_min := Some lo\<rparr>
                      in if (case global_max of None \<Rightarrow> False | Some hi \<Rightarrow> hi \<le> lo)
                         then limits\<lparr>tl_max := Some lo\<rparr> else limits));
               limits = (case rule_max of
                   None \<Rightarrow> limits
                 | Some hi \<Rightarrow>
                     (let limits = limits\<lparr>tl_max := Some hi\<rparr>
                      in if rule_min = None \<and> (case global_min of None \<Rightarrow> False | Some lo \<Rightarrow> lo \<ge> hi)
                         then limits\<lparr>tl_min := Some hi\<rparr> else limits))
           in case (tl_min limits, tl_max limits) of
                (Some lo, Some hi) \<Rightarrow> if hi < lo then limits\<lparr>tl_max := Some lo\<rparr> else limits
              | _ \<Rightarrow> limits))"

section \<open>DnsRequest\<close>

text \<open>\<open>rq_edns\<close> is what the program reads of the EDNS extension of the message: the address and
  source prefix of the client-subnet option, if any, and the DNSSEC-OK flag. \<open>rq_query\<close> is the
  \<open>LowerQuery\<close>, with the query as it was written.\<close>

record edns =
  ed_subnet :: "(ip_addr \<times> u8) option"
  ed_dnssec_ok :: bool

record dns_request =
  rq_id :: u16
  rq_query :: query
  rq_message :: message
  rq_src :: ip_addr
  rq_edns :: "edns option"

definition request_new :: "u16 \<Rightarrow> message \<Rightarrow> ip_addr \<Rightarrow> edns option \<Rightarrow> dns_request" where
  "request_new i m src e =
     \<lparr>rq_id = i, rq_query = (case msg_queries m of [] \<Rightarrow> default_query | q # _ \<Rightarrow> q),
      rq_message = m, rq_src = src, rq_edns = e\<rparr>"

text \<open>\<open>RecordType::is_dnssec\<close> is the package's.\<close>

definition is_dnssec :: "(record_type \<Rightarrow> bool) \<Rightarrow> dns_request \<Rightarrow> bool" where
  "is_dnssec type_is_dnssec r =
     (case rq_edns r of Some e \<Rightarrow> ed_dnssec_ok e | None \<Rightarrow> type_is_dnssec (q_type (rq_query r)))"

definition with_cname :: "name \<Rightarrow> dns_request \<Rightarrow> dns_request" where
  "with_cname n r = r\<lparr>rq_query := \<lparr>q_name = n, q_type = q_type (rq_query r), q_class = 1\<rparr>\<rparr>"

definition set_query_type :: "record_type \<Rightarrow> dns_request \<Rightarrow> dns_request" where
  "set_query_type t r = r\<lparr>rq_query := (rq_query r)\<lparr>q_type := t\<rparr>\<rparr>"

section \<open>Middleware\<close>

type_synonym 's handler = "dns_context \<Rightarrow> dns_request \<Rightarrow> 's \<Rightarrow> dns_result \<times> dns_context \<times> 's"
type_synonym 's middleware = "dns_context \<Rightarrow> dns_request \<Rightarrow> 's handler \<Rightarrow> 's \<Rightarrow> dns_result \<times> dns_context \<times> 's"

text \<open>\<open>Next::run\<close>: \<open>'s\<close> is the state that the middlewares share outside the context (the cache,
  upstreams).\<close>

fun next_run :: "'s handler \<Rightarrow> 's middleware list \<Rightarrow> 's handler" where
  "next_run dflt [] ctx req = dflt ctx req"
| "next_run dflt (current # rest) ctx req = current ctx req (next_run dflt rest)"

definition mw_default :: "'s middleware" where
  "mw_default ctx req nxt = nxt ctx req"

record 's middleware_host =
  mh_default :: "'s handler"
  mh_stack :: "'s middleware list"

definition builder_new :: "'s handler \<Rightarrow> 's middleware_host" where
  "builder_new d = \<lparr>mh_default = d, mh_stack = []\<rparr>"

definition builder_with :: "'s middleware \<Rightarrow> 's middleware_host \<Rightarrow> 's middleware_host" where
  "builder_with m b = b\<lparr>mh_stack := mh_stack b @ [m]\<rparr>"

definition execute :: "'s middleware_host \<Rightarrow> 's handler" where
  "execute h = next_run (mh_default h) (mh_stack h)"

text \<open>\<open>DnsDefaultHandler\<close>.\<close>

definition default_handle :: "'s handler" where
  "default_handle ctx req s =
     (Inl (no_records_found (rq_query req) (ucast (unwrap_or (cf_rr_ttl (cx_cfg ctx)) 0))), ctx, s)"

section \<open>DnsMiddlewareHandler::search\<close>

text \<open>\<open>Ipv6Addr::to_ipv4_mapped\<close>: \<open>::ffff:a.b.c.d\<close>.\<close>

definition to_ipv4_mapped :: "ipv6 \<Rightarrow> ipv4 option" where
  "to_ipv4_mapped a = (if drop_bit 32 a = 0xffff then Some (ucast a) else None)"

definition unmap_ip :: "ip_addr \<Rightarrow> ip_addr" where
  "unmap_ip i =
     (case i of V4 a \<Rightarrow> V4 a
      | V6 a \<Rightarrow> (case to_ipv4_mapped a of Some b \<Rightarrow> V4 b | None \<Rightarrow> V6 a))"

text \<open>
  \<open>Ipv4Net::new(..).unwrap()\<close> panics when the prefix is longer than the address; the model then
  has no result.
\<close>

definition subnet_of :: "ip_addr \<times> u8 \<Rightarrow> ip_net option" where
  "subnet_of s =
     (let i = unmap_ip (fst s)
      in if snd s \<le> (case i of V4 _ \<Rightarrow> 32 | V6 _ \<Rightarrow> 128)
         then Some \<lparr>net_addr = i, net_prefix = snd s\<rparr> else None)"

definition pick_client_rule ::
  "net_lib \<Rightarrow> client_rule list \<Rightarrow> string option \<Rightarrow> ip_net option \<Rightarrow> ip_addr \<Rightarrow> client_rule option" where
  "pick_client_rule N rules mac subnet src =
     or_else (Option.bind mac (\<lambda>m. find (\<lambda>r. match_mac r m) rules))
       (case subnet of
          Some n \<Rightarrow> find (\<lambda>r. match_net N r n) rules
        | None \<Rightarrow> find (\<lambda>r. match_ip N r (unmap_ip src)) rules)"

definition client_opts :: "client_rule option \<Rightarrow> server_opts \<Rightarrow> server_opts" where
  "client_opts rule opts =
     (case rule of
        None \<Rightarrow> opts
      | Some r \<Rightarrow>
          (let o' = (cr_options r)\<lparr>so_is_background := so_is_background opts\<rparr>;
               o' = opts_apply o' opts
           in if cr_group r \<noteq> [] then o'\<lparr>so_rule_group := Some (cr_group r)\<rparr> else o'))"

text \<open>
  \<open>permits\<close> is what is left of the query limit, \<open>mac\<close> the address that the neighbour table
  gives for the client (asked for when a client rule names one), \<open>None\<close> a panic.
\<close>

definition search ::
  "name_lib \<Rightarrow> net_lib \<Rightarrow> runtime_config \<Rightarrow> nat option \<Rightarrow> (ip_addr \<Rightarrow> string option) \<Rightarrow> bool \<Rightarrow>
   's middleware_host \<Rightarrow> dns_request \<Rightarrow> server_opts \<Rightarrow> 's \<Rightarrow> (dns_result \<times> 's) option" where
  "search L N cfg permits mac wants_mac host req opts s =
     (if \<not> so_is_background opts \<and> permits = Some 0
      then Some (Inl (ErrResponseCode Refused), s)
      else
        case (case Option.bind (rq_edns req) ed_subnet of
                None \<Rightarrow> Some None | Some e \<Rightarrow> map_option Some (subnet_of e)) of
          None \<Rightarrow> None
        | Some subnet \<Rightarrow>
            (let rules = cf_client_rules cfg;
                 m = (if list_ex (\<lambda>r. case cr_client r of ClientMac _ \<Rightarrow> True | _ \<Rightarrow> False) rules \<or> wants_mac
                      then mac (rq_src req) else None);
                 rule = pick_client_rule N rules m subnet (rq_src req);
                 ctx = context_new L (q_name (rq_query req)) cfg (client_opts rule opts);
                 (r, _, s) = execute host ctx req s
             in Some (r, s)))"

section \<open>Properties of the context\<close>

lemma nameserver_up_chain:
  "chain_ok (map_tree_node arc_rule n) \<Longrightarrow> nameserver_up n = ru_nameserver (rule_of n)"
proof (induction n rule: nameserver_up.induct)
  case (1 a z)
  show ?case
  proof (cases z)
    case (Some m)
    from "1.prems" Some obtain own where
      own: "arc_rule a = inherit own (arc_rule (node_rule m))" and m: "chain_ok (map_tree_node arc_rule m)"
      by auto
    show ?thesis
    proof (cases "ru_nameserver (arc_rule a)")
      case None
      then have "ru_nameserver (rule_of m) = None"
        by (simp add: own rule_of_def)
      then show ?thesis
        using "1.IH" [OF None Some m] None Some by (simp add: rule_of_def)
    qed (simp add: rule_of_def)
  qed (simp add: rule_of_def split: option.split)
qed

lemma set_ttl_pos: "set_ttl t = Some x \<Longrightarrow> 0 < x"
proof -
  assume "set_ttl t = Some x"
  then obtain v where v: "t = Some v" "v > 0" "x = (if unat v < 2 ^ 32 then ucast v else - 1)"
    by (auto simp: set_ttl_def opt_filter_Some_iff)
  show "0 < x"
  proof (cases "unat v < 2 ^ 32")
    case True
    then have "unat (ucast v :: u32) = unat v"
      by (simp add: unsigned_ucast_eq unsigned_take_bit_eq take_bit_nat_eq_self)
    then show ?thesis
      using v True by (simp add: word_less_nat_alt)
  next
    case False
    have "(0 :: u32) < - 1" by (simp add: word_gt_0)
    then show ?thesis using v False by simp
  qed
qed

text \<open>Limits that agree: neither is zero and the minimum is at most the maximum.\<close>

definition limits_ok :: "ttl_limits \<Rightarrow> bool" where
  "limits_ok l \<longleftrightarrow>
     (case tl_min l of None \<Rightarrow> True | Some lo \<Rightarrow> 0 < lo) \<and>
     (case tl_max l of None \<Rightarrow> True | Some hi \<Rightarrow> 0 < hi) \<and>
     (case (tl_min l, tl_max l) of (Some lo, Some hi) \<Rightarrow> lo \<le> hi | _ \<Rightarrow> True)"

lemma rr_ttl_limits_ok: "limits_ok (rr_ttl_limits c)"
proof -
  let ?rule = "\<lambda>f. set_ttl (opt_node_get (\<lambda>n. f (rule_of n)) (cx_domain_rule c))"
  note pos = set_ttl_pos
  show ?thesis
    unfolding rr_ttl_limits_def Let_def
    by (cases "?rule ru_rr_ttl"; cases "set_ttl (cf_rr_ttl (cx_cfg c))"; cases "?rule ru_rr_ttl_min";
        cases "?rule ru_rr_ttl_max"; cases "set_ttl (rr_ttl_min (cx_cfg c))";
        cases "set_ttl (rr_ttl_max (cx_cfg c))")
      (auto simp: limits_ok_def dest: pos)
qed

lemma ttl_apply_bounds:
  assumes "limits_ok l"
  shows "(case tl_min l of None \<Rightarrow> ttl_apply l t \<le> t | Some lo \<Rightarrow> lo \<le> ttl_apply l t)"
    and "(case tl_max l of None \<Rightarrow> t \<le> ttl_apply l t | Some hi \<Rightarrow> ttl_apply l t \<le> hi)"
  using assms by (cases "tl_min l"; cases "tl_max l"; auto simp: limits_ok_def ttl_apply_def min_def max_def)+

text \<open>
  The TTL limits of a query are consistent: no limit is zero, the minimum never exceeds the
  maximum, a TTL clamped to them lies between them (and is only ever lowered when there is no
  minimum, only raised when there is no maximum).
\<close>

theorem rr_ttl_limits_consistent:
  "limits_ok (rr_ttl_limits c) \<and>
   (case tl_min (rr_ttl_limits c) of
      None \<Rightarrow> ttl_apply (rr_ttl_limits c) t \<le> t | Some lo \<Rightarrow> lo \<le> ttl_apply (rr_ttl_limits c) t) \<and>
   (case tl_max (rr_ttl_limits c) of
      None \<Rightarrow> t \<le> ttl_apply (rr_ttl_limits c) t | Some hi \<Rightarrow> ttl_apply (rr_ttl_limits c) t \<le> hi)"
  using rr_ttl_limits_ok [of c] ttl_apply_bounds [OF rr_ttl_limits_ok [of c], of t] by blast

lemma next_run_append: "next_run d (ms @ ns) = next_run (next_run d ns) ms"
proof (induction ms)
  case (Cons m ms)
  then show ?case by (intro ext) simp
qed (intro ext, simp)

lemma execute_builder:
  "execute (fold builder_with ms (builder_new d)) = next_run d ms"
proof -
  have "mh_stack (fold builder_with ms b) = mh_stack b @ ms \<and> mh_default (fold builder_with ms b) = mh_default b" for b
    by (induction ms arbitrary: b) (simp_all add: builder_with_def)
  then show ?thesis
    by (simp add: execute_def builder_new_def)
qed

text \<open>A middleware that does not act leaves the chain as it is.\<close>

lemma next_run_passthrough: "next_run d (ms @ mw_default # ns) = next_run d (ms @ ns)"
proof -
  have "next_run d (mw_default # ns) = next_run d ns"
    by (intro ext) (simp add: mw_default_def)
  then show ?thesis
    by (simp add: next_run_append)
qed

section \<open>The trees of a configuration\<close>

text \<open>The loop of \<open>RuntimeConfigBuilder::build\<close> over the rule groups; they share one interning
  table.\<close>

definition build_rule_trees ::
  "name_lib \<Rightarrow> (domain_rule \<Rightarrow> u64) \<Rightarrow> (wildcard_name list \<Rightarrow> nat list) \<Rightarrow> domain_sets \<Rightarrow>
   (string, rule_group) hmap \<Rightarrow> (string, arc tree_node domain_map) hmap \<times> arc_table" where
  "build_rule_trees L H order sets groups =
     fold (\<lambda>(name, g) (trees, t).
         let (m, t) = create L H order sets g t in (AList.update name m trees, t))
       groups ([], [])"

definition hashed_rules ::
  "name_lib \<Rightarrow> (wildcard_name list \<Rightarrow> nat list) \<Rightarrow> domain_sets \<Rightarrow> (string, rule_group) hmap \<Rightarrow> domain_rule set" where
  "hashed_rules L order sets groups = (\<Union>(name, g)\<in>set groups. set (snd (create_ref L order sets g)))"

definition tree_ok :: "arc tree_node domain_map \<Rightarrow> bool" where
  "tree_ok m \<longleftrightarrow> dm_all (\<lambda>n. chain_ok (map_tree_node arc_rule n)) m"

lemma create_tree_ok:
  assumes "inj_on H S" "table_ok H S t" "fair order" "set (snd (create_ref L order sets g)) \<subseteq> S"
  shows "tree_ok (fst (create L H order sets g t)) \<and> table_ok H S (snd (create L H order sets g t))"
proof -
  from create_ref_eq [OF assms] obtain t' where t': "create L H order sets g t =
      (map_dm (map_tree_node (mk_arc H)) (fst (create_ref L order sets g)), t')" "table_ok H S t'" by blast
  have comp: "map_dm f (map_dm h m) = map_dm (f \<circ> h) m" for f h and m :: "domain_rule tree_node domain_map"
    by (simp add: map_dm_def comp_def apsnd_compose [unfolded comp_def])
  show ?thesis
    using t' create_ref_chain [of L order sets g]
    by (simp add: tree_ok_def dm_all_def comp comp_def)
qed

lemma build_rule_trees_ok:
  assumes inj: "inj_on H (hashed_rules L order sets groups)" and o': "fair order"
    and m: "map_of (fst (build_rule_trees L H order sets groups)) name = Some m"
  shows "tree_ok m"
proof -
  let ?S = "hashed_rules L order sets groups"
  let ?step = "\<lambda>(name, g) (trees, t).
      let (m, t) = create L H order sets g t in (AList.update name m trees, t)"
  have "(\<forall>m\<in>ran (map_of (fst (fold ?step gs st))). tree_ok m)"
    if "set gs \<subseteq> set groups" "table_ok H ?S (snd st)" "\<forall>m\<in>ran (map_of (fst st)). tree_ok m" for gs st
    using that
  proof (induction gs arbitrary: st)
    case (Cons p gs)
    obtain name g where p: "p = (name, g)" by (cases p)
    have "set (snd (create_ref L order sets g)) \<subseteq> ?S"
      using Cons.prems(1) unfolding hashed_rules_def p by (auto intro!: UN_I [of "(name, g)"])
    note ok = create_tree_ok [OF inj Cons.prems(2) o' this]
    have "\<forall>m\<in>ran (map_of (fst (?step p st))). tree_ok m"
      using ok Cons.prems(3)
      by (auto simp: p split_beta Let_def ran_def split: if_splits)
    moreover have "table_ok H ?S (snd (?step p st))"
      using ok by (simp add: p split_beta Let_def)
    ultimately show ?case
      using Cons.IH [of "?step p st"] Cons.prems(1) by simp
  qed simp
  from this [of groups "([], [])"] show ?thesis
    using m by (auto simp: build_rule_trees_def table_ok_def ran_def)
qed

lemma find_domain_rule_chain:
  assumes "\<forall>name m. map_of (cf_domain_rule_groups cfg) name = Some m \<longrightarrow> tree_ok m"
    and "find_domain_rule L cfg n g = Some node"
  shows "chain_ok (map_tree_node arc_rule node)"
proof -
  have "tree_ok (domain_rule_group cfg g)" for g
    using assms(1) by (auto simp: domain_rule_group_def Let_def tree_ok_def unwrap_or_def split: option.split)
  then show ?thesis
    using assms(2) dm_all_find [where P = "\<lambda>n. chain_ok (map_tree_node arc_rule n)"]
    unfolding find_domain_rule_def tree_ok_def by (blast dest: or_else_SomeD)
qed

text \<open>
  A query goes to the server group of the most specific rule that names one. For a
  configuration whose trees were built from its groups without hash collisions, the group is the
  listener's or client's option if set; otherwise the nameserver of the rule found for the name
  (inheritance has already put the nearest zone's there, so the walk up the zones adds nothing);
  otherwise the default group.
\<close>

theorem server_group_from_rule:
  assumes inj: "inj_on H (hashed_rules L order sets groups)" and o': "fair order"
    and cfg: "cf_domain_rule_groups cfg = fst (build_rule_trees L H order sets groups)"
  shows "server_group_name (context_new L n cfg opts) =
    unwrap_or
      (first_some [so_group opts,
         Option.bind (find_domain_rule L cfg n (unwrap_or (so_rule_group opts) []))
           (\<lambda>node. ru_nameserver (rule_of node))]) ''default''"
proof -
  have ok: "\<forall>name m. map_of (cf_domain_rule_groups cfg) name = Some m \<longrightarrow> tree_ok m"
    using build_rule_trees_ok [OF inj o'] by (simp add: cfg)
  show ?thesis
    using find_domain_rule_chain [OF ok] nameserver_up_chain
    by (cases "so_group opts"; cases "find_domain_rule L cfg n (unwrap_or (so_rule_group opts) [])")
      (auto simp: server_group_name_def context_new_def Let_def)
qed

definition example_cfg :: runtime_config where
  "example_cfg = config_default\<lparr>cf_domain_rule_groups :=
     fst (build_rule_trees std_lib example_hash in_place [] [(''default'', example_group)])\<rparr>"

theorem server_group_from_rule_witness:
  "server_group_name (context_new std_lib www_example_com example_cfg server_opts_default) = ''remote''"
proof -
  have inj: "inj_on example_hash (hashed_rules std_lib in_place [] [(''default'', example_group)])"
    unfolding hashed_rules_def by (simp, rule inj_on_list) code_simp
  have "map_option (\<lambda>n. ru_nameserver (rule_of n)) (find_domain_rule std_lib example_cfg www_example_com [])
      = Some (Some ''remote'')"
    by code_simp
  then obtain node where node: "find_domain_rule std_lib example_cfg www_example_com [] = Some node"
    "ru_nameserver (rule_of node) = Some ''remote''" by auto
  have cfg: "cf_domain_rule_groups example_cfg =
      fst (build_rule_trees std_lib example_hash in_place [] [(''default'', example_group)])"
    by (simp add: example_cfg_def)
  show ?thesis
    using server_group_from_rule [OF inj fair_orders(1) cfg, of www_example_com server_opts_default] node
    by (simp add: server_opts_default_def)
qed

text \<open>
  A client-subnet option with an IPv4-mapped address is converted to IPv4 with the prefix length
  of the option, which is then out of range: the handler panics.
\<close>

theorem mapped_subnet_panics:
  "Option.bind (rq_edns req) ed_subnet = Some (V6 0xffffc0000201, 128) \<Longrightarrow>
   search L N cfg None mac wants_mac host req opts s = None"
proof -
  have "to_ipv4_mapped 0xffffc0000201 = Some 0xc0000201"
    by code_simp
  then have "subnet_of (V6 0xffffc0000201, 128) = None"
    by (simp add: subnet_of_def unmap_ip_def Let_def)
  then show "Option.bind (rq_edns req) ed_subnet = Some (V6 0xffffc0000201, 128) \<Longrightarrow> ?thesis"
    by (simp add: search_def)
qed

end
