(* ===== verification/Addr_Mw.thy ===== *)
theory Addr_Mw
  imports Context
begin

text \<open>
  The address middleware (\<^verbatim>\<open>src/src/dns_mw_addr.rs\<close>): answers from address rules and forced SOA
  records, the cap on returned addresses and the clamping of TTLs on the way back.
\<close>

section \<open>Model\<close>

text \<open>\<open>Ipv4Addr::to_ipv6_mapped\<close>.\<close>

definition to_ipv6_mapped :: "ipv4 \<Rightarrow> ipv6" where
  "to_ipv6_mapped a = 0xffff00000000 + ucast a"

type_synonym rule_answer = "rdata list \<times> response_code"

definition soa_answer :: rule_answer where
  "soa_answer = ([default_soa_rdata], NoError)"

text \<open>What one address rule says of a query: an answer, a refusal to answer from rules (\<open>return
  None\<close>), or nothing, which sends the loop to the zone above.\<close>

datatype addr_step = Answer rule_answer | Stop | GoUp

definition address_step :: "bool \<Rightarrow> record_type \<Rightarrow> address_rule_value \<Rightarrow> addr_step" where
  "address_step no_soa qt a =
     (if a = ASOA \<and> \<not> no_soa then Answer ([default_soa_rdata], NXDomain)
      else if \<not> is_ip_addr qt then Stop
      else case a of
        AAddr v4 v6 \<Rightarrow>
          (let found =
             (case qt of
                RT_A \<Rightarrow> map_option (map RD_A) v4
              | _ \<Rightarrow> or_else (map_option (map RD_AAAA) v6)
                        (map_option (map (\<lambda>ip. RD_AAAA (to_ipv6_mapped ip))) v4))
           in case found of
                Some rds \<Rightarrow> Answer (rds, NoError)
              | None \<Rightarrow> if \<not> no_soa then Answer soa_answer else GoUp)
      | ASOAv4 \<Rightarrow> if \<not> no_soa \<and> qt = RT_A then Answer soa_answer else GoUp
      | ASOAv6 \<Rightarrow> if \<not> no_soa \<and> qt = RT_AAAA then Answer soa_answer else GoUp
      | AIGN \<Rightarrow> Stop
      | AIGNv4 \<Rightarrow> if qt = RT_A then Stop else GoUp
      | AIGNv6 \<Rightarrow> if qt = RT_AAAA then Stop else GoUp
      | ASOA \<Rightarrow> GoUp)"

text \<open>\<open>while let Some(rule) = node\<close>.\<close>

fun address_up :: "bool \<Rightarrow> record_type \<Rightarrow> arc tree_node \<Rightarrow> rule_answer option" where
  "address_up no_soa qt (TreeNode a z) =
     (case (case ru_address (arc_rule a) of None \<Rightarrow> GoUp | Some v \<Rightarrow> address_step no_soa qt v) of
        Answer r \<Rightarrow> Some r
      | Stop \<Rightarrow> None
      | GoUp \<Rightarrow> (case z of None \<Rightarrow> None | Some n \<Rightarrow> address_up no_soa qt n))"

definition forced_soa :: "record_type \<Rightarrow> dns_context \<Rightarrow> bool" where
  "forced_soa qt ctx \<longleftrightarrow>
     (let cfg = cx_cfg ctx; opts = cx_server_opts ctx in
      (qt = RT_AAAA \<and> (opts_force_aaaa_soa opts \<or> force_aaaa_soa cfg)) \<or>
      (qt = RT_HTTPS \<and> (opts_force_https_soa opts \<or> force_https_soa cfg)) \<or>
      qt \<in> set (cf_force_qtype_soa cfg))"

definition handle_rule_addr :: "record_type \<Rightarrow> dns_context \<Rightarrow> rule_answer option" where
  "handle_rule_addr qt ctx =
     (let no_soa = no_rule_soa (cx_server_opts ctx) in
      if \<not> no_soa \<and> forced_soa qt ctx then Some soa_answer
      else if no_rule_addr (cx_server_opts ctx) then None
      else Option.bind (cx_domain_rule ctx) (address_up no_soa qt))"

text \<open>The position after the \<open>k\<close>-th address record, counted from \<open>i\<close>.\<close>

fun truncate_at :: "u8 \<Rightarrow> nat \<Rightarrow> rr list \<Rightarrow> nat option" where
  "truncate_at k i [] = None"
| "truncate_at k i (r # rs) =
     (if (case rr_data r of RD_A _ \<Rightarrow> True | RD_AAAA _ \<Rightarrow> True | _ \<Rightarrow> False)
      then (if k - 1 = 0 then Some (i + 1) else truncate_at (k - 1) (i + 1) rs)
      else truncate_at k (i + 1) rs)"

definition cap_answers :: "record_type \<Rightarrow> u8 option \<Rightarrow> dns_response \<Rightarrow> dns_response" where
  "cap_answers qt num lookup =
     (case num of
        Some k \<Rightarrow>
          (if is_ip_addr qt \<and> k > 0
           then (case truncate_at k 0 (answers lookup) of
                   Some n \<Rightarrow> if length (answers lookup) > n
                             then set_answers (take n (answers lookup)) lookup else lookup
                 | None \<Rightarrow> lookup)
           else lookup)
      | None \<Rightarrow> lookup)"

definition clamp_rr :: "ttl_limits \<Rightarrow> u32 option \<Rightarrow> rr \<Rightarrow> rr" where
  "clamp_rr l reply_max r =
     (let r = (case tl_min l of None \<Rightarrow> r | Some lo \<Rightarrow> set_min_ttl_rr lo r)
      in case reply_max of
           Some m \<Rightarrow> set_max_ttl_rr m r
         | None \<Rightarrow> (case tl_max l of None \<Rightarrow> r | Some hi \<Rightarrow> set_max_ttl_rr hi r))"

definition clamp_answers :: "ttl_limits \<Rightarrow> u32 option \<Rightarrow> dns_response \<Rightarrow> dns_response" where
  "clamp_answers l reply_max lookup =
     (if tl_min l \<noteq> None \<or> tl_max l \<noteq> None \<or> reply_max \<noteq> None
      then set_answers (map (clamp_rr l reply_max) (answers lookup)) lookup
      else lookup)"

definition rule_response :: "instant \<Rightarrow> query \<Rightarrow> u64 \<Rightarrow> rule_answer \<Rightarrow> dns_response" where
  "rule_response now q ttl a =
     (let lookup = set_response_code (snd a) (new_with_deadline q [] (now + secs (unat ttl)))
      in fold (\<lambda>d lookup.
           let rec = from_rdata (q_name q) (ucast ttl) d
           in if rr_type rec = RT_SOA then add_authority rec lookup else add_answer rec lookup)
         (fst a) lookup)"

definition addr_handle :: "instant \<Rightarrow> 's middleware" where
  "addr_handle now ctx req nxt s =
     (let qt = q_type (rq_query req) in
      case handle_rule_addr qt ctx of
        Some a \<Rightarrow>
          (Inr (rule_response now (rq_query req) (local_ttl (cx_cfg ctx)) a),
           ctx\<lparr>cx_source := FromStatic\<rparr>, s)
      | None \<Rightarrow>
          (case nxt ctx req s of
             (Inr lookup, ctx', s') \<Rightarrow>
               (let lookup = cap_answers qt (cf_max_reply_ip_num (cx_cfg ctx')) lookup;
                    reply_max = map_option ucast (cf_rr_ttl_reply_max (cx_cfg ctx'))
                in (Inr (clamp_answers (rr_ttl_limits ctx') reply_max lookup), ctx', s'))
           | r \<Rightarrow> r))"

section \<open>Rule answers\<close>

lemma address_step_answer:
  "address_step ns qt a = Answer (rds, code) \<Longrightarrow>
   rds = [default_soa_rdata] \<or>
   code = NoError \<and> is_ip_addr qt \<and> (\<forall>d\<in>set rds. rdata_type d = qt)"
  by (cases qt; cases a; auto simp: address_step_def soa_answer_def Let_def or_else_def
      split: if_splits option.splits)

lemma address_up_answer:
  "address_up ns qt n = Some (rds, code) \<Longrightarrow>
   rds = [default_soa_rdata] \<or>
   code = NoError \<and> is_ip_addr qt \<and> (\<forall>d\<in>set rds. rdata_type d = qt)"
proof (induction ns qt n rule: address_up.induct)
  case (1 ns qt a z)
  show ?case
  proof (cases "case ru_address (arc_rule a) of None \<Rightarrow> GoUp | Some v \<Rightarrow> address_step ns qt v")
    case (Answer r)
    then show ?thesis
      using "1.prems" by (auto split: option.splits dest: address_step_answer)
  next
    case GoUp
    then show ?thesis
      using "1.prems" "1.IH" [OF GoUp] by (cases z) auto
  qed (use "1.prems" in simp)
qed

lemma handle_rule_addr_answer:
  assumes "handle_rule_addr qt ctx = Some (rds, code)"
  shows "rds = [default_soa_rdata] \<or>
    code = NoError \<and> is_ip_addr qt \<and> (\<forall>d\<in>set rds. rdata_type d = qt)"
  using assms address_up_answer [of "no_rule_soa (cx_server_opts ctx)" qt _ rds code]
  by (auto simp: handle_rule_addr_def Let_def soa_answer_def split: if_splits option.splits
      simp: Option.bind_eq_Some_conv)

lemma fold_add_answers:
  assumes "\<forall>d\<in>set ds. rdata_type d \<noteq> RT_SOA"
  shows "answers (fold (\<lambda>d lookup. let rec = from_rdata n t d in
        if rr_type rec = RT_SOA then add_authority rec lookup else add_answer rec lookup) ds r) =
      answers r @ map (from_rdata n t) ds"
    "authorities (fold (\<lambda>d lookup. let rec = from_rdata n t d in
        if rr_type rec = RT_SOA then add_authority rec lookup else add_answer rec lookup) ds r) =
      authorities r"
    "rcode (fold (\<lambda>d lookup. let rec = from_rdata n t d in
        if rr_type rec = RT_SOA then add_authority rec lookup else add_answer rec lookup) ds r) =
      rcode r"
  using assms
  by (induction ds arbitrary: r)
    (auto simp: from_rdata_def Let_def add_answer_def deref_mut_def)

lemma rule_response_soa:
  "answers (rule_response now q t ([default_soa_rdata], c)) = [] \<and>
   authorities (rule_response now q t ([default_soa_rdata], c)) =
     [from_rdata (q_name q) (ucast t) default_soa_rdata] \<and>
   rcode (rule_response now q t ([default_soa_rdata], c)) = c"
  by (simp add: rule_response_def Let_def from_rdata_def default_soa_rdata_def add_authority_def
      deref_mut_def set_response_code_def new_with_deadline_def)

text \<open>
  C5: An answer from the address rules is well formed and needs no upstream. It does not depend
  on the rest of the chain and leaves its state alone; either it is empty with one SOA record in
  the authority section, or it is a success for an address query whose answers are all of the
  queried type and name; all records carry the local TTL.
\<close>

theorem rule_answers_wellformed:
  assumes "handle_rule_addr (q_type (rq_query req)) ctx = Some a"
  shows "\<exists>lookup. addr_handle now ctx req nxt s = (Inr lookup, ctx\<lparr>cx_source := FromStatic\<rparr>, s) \<and>
    (answers lookup = [] \<and>
       authorities lookup = [from_rdata (q_name (rq_query req)) (ucast (local_ttl (cx_cfg ctx))) default_soa_rdata] \<or>
     is_ip_addr (q_type (rq_query req)) \<and> rcode lookup = NoError \<and> authorities lookup = [] \<and>
       (\<forall>r\<in>set (answers lookup). rr_type r = q_type (rq_query req) \<and> rr_name r = q_name (rq_query req) \<and>
          rr_ttl r = ucast (local_ttl (cx_cfg ctx))))"
proof -
  obtain rds code where a: "a = (rds, code)" by (cases a)
  let ?q = "rq_query req" and ?t = "local_ttl (cx_cfg ctx)"
  let ?l = "rule_response now ?q ?t a"
  have h: "addr_handle now ctx req nxt s = (Inr ?l, ctx\<lparr>cx_source := FromStatic\<rparr>, s)"
    by (simp add: addr_handle_def assms Let_def)
  from handle_rule_addr_answer [OF assms [unfolded a]]
  consider (soa) "rds = [default_soa_rdata]"
    | (ips) "code = NoError" "is_ip_addr (q_type ?q)" "\<forall>d\<in>set rds. rdata_type d = q_type ?q"
    by blast
  then show ?thesis
  proof cases
    case soa
    then show ?thesis
      using h rule_response_soa [of now ?q ?t code] by (auto simp: a)
  next
    case ips
    have "q_type ?q \<noteq> RT_SOA" using ips(2) by auto
    then have no: "\<forall>d\<in>set rds. rdata_type d \<noteq> RT_SOA" using ips(3) by auto
    have "answers ?l = map (from_rdata (q_name ?q) (ucast ?t)) rds" "authorities ?l = []" "rcode ?l = NoError"
      using ips(1) fold_add_answers [OF no, of "q_name ?q" "ucast ?t"]
      by (simp_all add: rule_response_def Let_def a set_response_code_def deref_mut_def new_with_deadline_def)
    then show ?thesis
      using h ips by (auto simp: from_rdata_def)
  qed
qed

text \<open>
  The \<open>#\<close> rule blocks a name for every query type. If the rule found for the name has the
  address value \<open>#\<close>, the listener does not ignore SOA or address rules and no forced SOA applies,
  the reply is NXDOMAIN without answers, whatever the type of the query, and the upstreams are
  not asked.
\<close>

theorem blocked_name_is_nxdomain:
  assumes "cx_domain_rule ctx = Some n" "ru_address (rule_of n) = Some ASOA"
    and "\<not> no_rule_soa (cx_server_opts ctx)" "\<not> no_rule_addr (cx_server_opts ctx)"
    and "\<not> forced_soa (q_type (rq_query req)) ctx"
  shows "\<exists>lookup. addr_handle now ctx req nxt s = (Inr lookup, ctx\<lparr>cx_source := FromStatic\<rparr>, s) \<and>
    rcode lookup = NXDomain \<and> answers lookup = []"
proof -
  have "address_up False (q_type (rq_query req)) n = Some ([default_soa_rdata], NXDomain)"
    using assms(2) by (cases n) (simp add: rule_of_def address_step_def)
  then have "handle_rule_addr (q_type (rq_query req)) ctx = Some ([default_soa_rdata], NXDomain)"
    using assms by (simp add: handle_rule_addr_def Let_def)
  then show ?thesis
    using rule_response_soa [of now "rq_query req" "local_ttl (cx_cfg ctx)" NXDomain]
    by (simp add: addr_handle_def Let_def)
qed

definition example_ctx :: "domain_rule \<Rightarrow> dns_context" where
  "example_ctx r = (context_new std_lib www_example_com config_default server_opts_default)
     \<lparr>cx_domain_rule := Some (TreeNode (mk_arc (\<lambda>_. 0) r) None)\<rparr>"

definition example_request :: "record_type \<Rightarrow> dns_request" where
  "example_request t = request_new 1
     \<lparr>msg_rcode = NoError, msg_truncated = False,
      msg_queries = [\<lparr>q_name = www_example_com, q_type = t, q_class = 1\<rparr>],
      msg_answers = [], msg_authorities = [], msg_additionals = []\<rparr> (V4 0) None"

lemma example_ctx_simps [simp]:
  "cx_server_opts (example_ctx r) = server_opts_default" "cx_cfg (example_ctx r) = config_default"
  "cx_domain_rule (example_ctx r) = Some (TreeNode (mk_arc (\<lambda>_. 0) r) None)"
  by (simp_all add: example_ctx_def context_new_def Let_def)

lemma example_request_query [simp]:
  "rq_query (example_request t) = \<lparr>q_name = www_example_com, q_type = t, q_class = 1\<rparr>"
  by (simp add: example_request_def request_new_def)

theorem blocked_name_is_nxdomain_witness:
  "\<exists>lookup. fst (addr_handle 0 (example_ctx (rule_default\<lparr>ru_address := Some ASOA\<rparr>))
      (example_request RT_HTTPS) default_handle ()) = Inr lookup \<and> rcode lookup = NXDomain"
proof -
  let ?c = "example_ctx (rule_default\<lparr>ru_address := Some ASOA\<rparr>)"
  have "ru_address (rule_of (TreeNode (mk_arc (\<lambda>_. 0) (rule_default\<lparr>ru_address := Some ASOA\<rparr>)) None)) = Some ASOA"
    by (simp add: rule_of_def)
  moreover have "\<not> forced_soa RT_HTTPS ?c" "\<not> no_rule_soa server_opts_default" "\<not> no_rule_addr server_opts_default"
    by code_simp+
  ultimately show ?thesis
    using blocked_name_is_nxdomain [of ?c _ "example_request RT_HTTPS" 0 default_handle "()"] by force
qed

theorem rule_answers_wellformed_witness:
  "\<exists>lookup. fst (addr_handle 0 (example_ctx (rule_default\<lparr>ru_address := Some (AAddr (Some [0x01020304]) None)\<rparr>))
      (example_request RT_A) default_handle ()) = Inr lookup \<and> authorities lookup = []"
proof -
  let ?c = "example_ctx (rule_default\<lparr>ru_address := Some (AAddr (Some [0x01020304]) None)\<rparr>)"
  have a: "handle_rule_addr (q_type (rq_query (example_request RT_A))) ?c = Some ([RD_A 0x01020304], NoError)"
    by code_simp
  let ?r = "fst (addr_handle 0 ?c (example_request RT_A) default_handle ())"
  have n: "answers (projr ?r) \<noteq> []"
    using a by (simp add: addr_handle_def Let_def rule_response_def from_rdata_def add_answer_def
        deref_mut_def)
  obtain lookup where l: "?r = Inr lookup" "answers lookup = [] \<or> authorities lookup = []"
    using rule_answers_wellformed [OF a, of 0 default_handle "()"] by (elim exE) (simp, blast)
  then show ?thesis
    using n by auto
qed

section \<open>Replies from the chain\<close>

lemma unat_pred: "(k :: 'a::len word) > 0 \<Longrightarrow> unat k = Suc (unat (k - 1))"
proof -
  assume k: "k > 0"
  then have "unat (k - 1) = unat k - 1"
    by (intro unat_minus_one) auto
  then show ?thesis
    using k by (simp add: word_less_nat_alt)
qed

lemma truncate_at_prefix:
  "truncate_at k i rs = Some n \<Longrightarrow> k > 0 \<Longrightarrow>
   i < n \<and> n \<le> i + length rs \<and> length (filter (\<lambda>r. rr_ip r \<noteq> None) (take (n - i) rs)) = unat k"
proof (induction k i rs rule: truncate_at.induct)
  case (2 k i r rs)
  show ?case
  proof (cases "rr_ip r = None")
    case True
    then have "truncate_at k (i + 1) rs = Some n"
      using "2.prems"(1) by (cases "rr_data r") auto
    then have "Suc i < n \<and> n \<le> Suc i + length rs \<and>
        length (filter (\<lambda>r. rr_ip r \<noteq> None) (take (n - Suc i) rs)) = unat k"
      using "2.IH"(2) "2.prems"(2) True by (cases "rr_data r") auto
    then show ?thesis
      using True by (auto simp: take_Cons' Suc_diff_Suc)
  next
    case False
    then have ip: "case rr_data r of RD_A _ \<Rightarrow> True | RD_AAAA _ \<Rightarrow> True | _ \<Rightarrow> False"
      by (cases "rr_data r") auto
    show ?thesis
    proof (cases "k - 1 = 0")
      case True
      then have "n = Suc i" using "2.prems"(1) ip by simp
      moreover have "k = 1" using True by simp
      ultimately show ?thesis using False by simp
    next
      case k: False
      have n: "truncate_at (k - 1) (i + 1) rs = Some n"
        using "2.prems"(1) ip k by simp
      have "k - 1 > 0" using k by (simp add: word_gt_0)
      from "2.IH"(1) [OF ip k n this] have "Suc i < n \<and> n \<le> Suc i + length rs \<and>
        length (filter (\<lambda>r. rr_ip r \<noteq> None) (take (n - Suc i) rs)) = unat (k - 1)" by simp
      moreover have "unat k = Suc (unat (k - 1))"
        by (rule unat_pred [OF "2.prems"(2)])
      ultimately show ?thesis
        using False by (auto simp: take_Cons' Suc_diff_Suc)
    qed
  qed
qed simp

lemma truncate_at_None:
  "truncate_at k i rs = None \<Longrightarrow> k > 0 \<Longrightarrow> length (filter (\<lambda>r. rr_ip r \<noteq> None) rs) < unat k"
proof (induction k i rs rule: truncate_at.induct)
  case (2 k i r rs)
  show ?case
  proof (cases "rr_ip r = None")
    case True
    then show ?thesis
      using "2.prems" "2.IH"(2) by (cases "rr_data r") auto
  next
    case False
    then have ip: "case rr_data r of RD_A _ \<Rightarrow> True | RD_AAAA _ \<Rightarrow> True | _ \<Rightarrow> False"
      by (cases "rr_data r") auto
    then have k: "k - 1 \<noteq> 0" "truncate_at (k - 1) (i + 1) rs = None"
      using "2.prems"(1) by (auto split: if_splits)
    have "k - 1 > 0" using k by (simp add: word_gt_0)
    from "2.IH"(1) [OF ip k(1) k(2) this] show ?thesis
      using False unat_pred [OF "2.prems"(2)] by simp
  qed
qed (simp add: word_less_nat_alt)

lemma cap_answers_prefix: "\<exists>n. answers (cap_answers qt k r) = take n (answers r)"
proof -
  have "\<exists>n. answers r = take n (answers r)" by (metis take_all_iff order_refl)
  then show ?thesis
    by (auto simp: cap_answers_def set_answers_def deref_mut_def split: option.split)
qed

lemma cap_answers_count:
  assumes "is_ip_addr qt" "k > 0"
  shows "length (filter (\<lambda>r. rr_ip r \<noteq> None) (answers (cap_answers qt (Some k) r))) \<le> unat k"
proof (cases "truncate_at k 0 (answers r)")
  case None
  then show ?thesis
    using assms truncate_at_None [of k 0 "answers r"] by (simp add: cap_answers_def)
next
  case (Some n)
  then show ?thesis
    using assms truncate_at_prefix [of k 0 "answers r" n]
    by (auto simp: cap_answers_def set_answers_def deref_mut_def)
qed

lemma clamp_rr_simps [simp]: "rr_name (clamp_rr l m r) = rr_name r" "rr_data (clamp_rr l m r) = rr_data r"
  by (auto simp: clamp_rr_def Let_def split: option.split)

lemma answers_clamp: "answers (clamp_answers l m r) = map (clamp_rr l m) (answers r)"
proof -
  have "clamp_rr l m = (\<lambda>r. r)" if "tl_min l = None" "tl_max l = None" "m = None"
    using that by (auto simp: clamp_rr_def)
  then show ?thesis
    by (auto simp: clamp_answers_def set_answers_def deref_mut_def)
qed

lemma clamp_rr_ttl:
  assumes "limits_ok l"
  shows "rr_ttl (clamp_rr l m r) =
    (case m of None \<Rightarrow> ttl_apply l (rr_ttl r)
     | Some x \<Rightarrow> min (case tl_min l of None \<Rightarrow> rr_ttl r | Some lo \<Rightarrow> max (rr_ttl r) lo) x)"
  using assms
  by (cases "tl_min l"; cases "tl_max l"; cases m)
    (auto simp: clamp_rr_def Let_def ttl_apply_def limits_ok_def min_def max_def)


definition example_reply :: "rr list \<Rightarrow> dns_response" where
  "example_reply rs = new_with_deadline (rq_query (example_request RT_A)) rs 0"


end
