(* ===== verification/Rewrite_Mw.thy ===== *)
theory Rewrite_Mw
  imports Addr_Mw
begin

text \<open>
  Middlewares that rewrite queries or replies: bogus-NXDOMAIN filtering
  (\<^verbatim>\<open>src/src/dns_mw_bogus.rs\<close>), CNAME rules (\<^verbatim>\<open>src/src/dns_mw_cname.rs\<close>) and DNS64
  (\<^verbatim>\<open>src/src/dns_mw_dns64.rs\<close>). DNS64 keeps its 128-bit arithmetic.
\<close>

unbundle bit_operations_syntax

section \<open>DnsBogusMiddleware\<close>

definition has_bogus_address :: "runtime_config \<Rightarrow> dns_response \<Rightarrow> bool" where
  "has_bogus_address cfg lookup \<longleftrightarrow>
     list_ex (\<lambda>r. case rr_data r of
        RD_A ip \<Rightarrow> cf_bogus_nxdomain cfg (V4 ip)
      | RD_AAAA ip \<Rightarrow> cf_bogus_nxdomain cfg (V6 ip)
      | _ \<Rightarrow> False) (answers lookup)"

definition bogus_handle :: "'s middleware" where
  "bogus_handle ctx req nxt s =
     (let (res, ctx', s') = nxt ctx req s in
      if is_ip_addr (q_type (rq_query req)) \<and>
         (case res of Inr lookup \<Rightarrow> has_bogus_address (cx_cfg ctx') lookup | Inl _ \<Rightarrow> False)
      then (Inl (ErrResponseCode NXDomain), ctx', s')
      else (res, ctx', s'))"

section \<open>DnsCNameMiddleware\<close>

definition cname_of_node :: "arc tree_node \<Rightarrow> name option" where
  "cname_of_node n =
     (case ru_cname (rule_of n) of
        Some Ignore \<Rightarrow> None
      | Some (Value v) \<Rightarrow> Some v
      | None \<Rightarrow> None)"

definition cname_handle :: "name_lib \<Rightarrow> instant \<Rightarrow> 's middleware" where
  "cname_handle L now ctx req nxt s =
     (case Option.bind (cx_domain_rule ctx) (node_get cname_of_node) of
        None \<Rightarrow> nxt ctx req s
      | Some cname \<Rightarrow>
          (let cname = cname\<lparr>nm_fqdn := True\<rparr>;
               ttl = local_ttl (cx_cfg ctx);
               cname_record = from_rdata (q_name (rq_query req)) (ucast ttl) (RD_CNAME cname)
           in if q_type (rq_query req) = RT_CNAME
              then (Inr (new_with_deadline (rq_query req) [cname_record] (now + secs (unat ttl))), ctx, s)
              else
                (let ctx' = context_new L cname (cx_cfg ctx) (cx_server_opts ctx) in
                 case nxt ctx' (with_cname cname req) s of
                   (Inr lookup, _, s') \<Rightarrow>
                     (let lookup = set_queries [rq_query req] lookup;
                          lookup = set_answers (cname_record # answers lookup) lookup
                      in (Inr lookup, ctx, s'))
                 | (Inl e, _, s') \<Rightarrow> (Inl e, ctx, s'))))"

section \<open>Dns64Middleware\<close>

text \<open>
  \<open>None\<close> is an arithmetic overflow (a shift by the width, or \<open>suffix - v4_bits\<close> below zero), a
  panic in builds with overflow checks.
\<close>

definition to_dns64 :: "ipv6 \<Rightarrow> nat \<Rightarrow> ipv4 \<Rightarrow> ipv6 option" where
  "to_dns64 net prefix ipv4 =
     (let suffix = 128 - prefix in
      if suffix \<ge> 128 \<or> suffix < 32 then None
      else
        let v6 = push_bit suffix (drop_bit suffix net);
            v4 = push_bit (suffix - 32) (ucast ipv4)
        in Some (v4 + v6))"

definition dns64_rr :: "ipv6 \<Rightarrow> nat \<Rightarrow> rr \<Rightarrow> rr option" where
  "dns64_rr net prefix r =
     (case rr_ip r of
        Some (V4 a) \<Rightarrow> map_option (\<lambda>b. r\<lparr>rr_data := RD_AAAA b\<rparr>) (to_dns64 net prefix a)
      | _ \<Rightarrow> Some r)"

text \<open>\<open>None\<close> is the overflow.\<close>

fun dns64_rrs :: "ipv6 \<Rightarrow> nat \<Rightarrow> rr list \<Rightarrow> rr list option" where
  "dns64_rrs net prefix [] = Some []"
| "dns64_rrs net prefix (r # rs) =
     (case dns64_rr net prefix r of
        None \<Rightarrow> None
      | Some r' \<Rightarrow> map_option ((#) r') (dns64_rrs net prefix rs))"

definition dns64_query_a :: "dns_request \<Rightarrow> dns_request option" where
  "dns64_query_a req =
     (case msg_queries (rq_message req) of
        [] \<Rightarrow> None
      | q # qs \<Rightarrow> Some (request_new (rq_id req)
          ((rq_message req)\<lparr>msg_queries := q\<lparr>q_type := RT_A\<rparr> # qs\<rparr>) (rq_src req) (rq_edns req)))"

definition set_first_type :: "record_type \<Rightarrow> query list \<Rightarrow> query list" where
  "set_first_type t qs = (case qs of [] \<Rightarrow> [] | q # qs \<Rightarrow> q\<lparr>q_type := t\<rparr> # qs)"

definition dns64_handle ::
  "ipv6 \<Rightarrow> nat \<Rightarrow> dns_context \<Rightarrow> dns_request \<Rightarrow> 's handler \<Rightarrow> 's \<Rightarrow>
   (dns_result \<times> dns_context \<times> 's) option" where
  "dns64_handle net prefix ctx req nxt s =
     (if q_type (rq_query req) = RT_AAAA
      then
        case nxt ctx req s of
          (Inr r, ctx1, s1) \<Rightarrow> Some (Inr r, ctx1, s1)
        | (Inl err, ctx1, s1) \<Rightarrow>
            (case dns64_query_a req of
               None \<Rightarrow> Some (Inl err, ctx1, s1)
             | Some req' \<Rightarrow>
                 (case nxt ctx1 req' s1 of
                    (Inl _, ctx2, s2) \<Rightarrow> Some (Inl err, ctx2, s2)
                  | (Inr lookup, ctx2, s2) \<Rightarrow>
                      (case dns64_rrs net prefix (answers lookup) of
                         None \<Rightarrow> None
                       | Some rs \<Rightarrow>
                           Some (Inr (deref_mut (\<lambda>m. m\<lparr>msg_queries := set_first_type RT_AAAA (msg_queries m)\<rparr>)
                                       (set_answers rs lookup)), ctx2, s2))))
      else Some (nxt ctx req s))"

section \<open>Properties\<close>



lemma to_dns64_bits:
  assumes "1 \<le> prefix" "prefix \<le> 96"
  obtains r where "to_dns64 net prefix v4 = Some r"
    "\<And>i. i < 128 \<Longrightarrow> bit r i \<longleftrightarrow> (if 128 - prefix \<le> i then bit net i else 96 - prefix \<le> i \<and> bit v4 (i - (96 - prefix)))"
proof -
  let ?v6 = "push_bit (128 - prefix) (drop_bit (128 - prefix) net)"
  let ?v4 = "push_bit (96 - prefix) (ucast v4) :: ipv6"
  have b4: "bit ?v4 i \<longleftrightarrow> i < 128 - prefix \<and> 96 - prefix \<le> i \<and> bit v4 (i - (96 - prefix))" if "i < 128" for i
    using that assms bit_imp_le_length [of v4 "i - (96 - prefix)"]
    by (auto simp: bit_simps)
  have b6: "bit ?v6 i \<longleftrightarrow> 128 - prefix \<le> i \<and> bit net i" if "i < 128" for i
    using that assms by (auto simp: bit_simps)
  have "?v4 AND ?v6 = 0"
    by (rule bit_eqI) (auto simp: bit_and_iff b4 b6)
  then have "?v4 + ?v6 = ?v4 OR ?v6"
    by (rule disjunctive_add_eq_or)
  then have "bit (?v4 + ?v6) i \<longleftrightarrow>
      (if 128 - prefix \<le> i then bit net i else 96 - prefix \<le> i \<and> bit v4 (i - (96 - prefix)))" if "i < 128" for i
    using b4 [OF that] b6 [OF that] by (auto simp: bit_or_iff)
  moreover have "to_dns64 net prefix v4 = Some (?v4 + ?v6)"
  proof -
    have "128 - prefix - 32 = 96 - prefix" "\<not> (128 \<le> 128 - prefix \<or> 128 - prefix < 32)"
      using assms by linarith+
    then show ?thesis by (simp add: to_dns64_def Let_def)
  qed
  ultimately show thesis by (rule that [rotated])
qed

text \<open>
  DNS64 synthesis embeds an IPv4 address in a prefix of 1 to 96 bits without loss: the
  result has the bits of the prefix on top, then the 32 bits of the address, then zeros, so
  the IPv4 address can be read back from it.
\<close>

theorem dns64_embeds:
  assumes "1 \<le> prefix" "prefix \<le> 96"
  shows "\<exists>r. to_dns64 net prefix v4 = Some r \<and>
    drop_bit (128 - prefix) r = drop_bit (128 - prefix) net \<and>
    ucast (drop_bit (96 - prefix) r) = v4 \<and> take_bit (96 - prefix) r = 0"
proof -
  obtain r where r: "to_dns64 net prefix v4 = Some r" and
    bits: "\<And>i. i < 128 \<Longrightarrow> bit r i \<longleftrightarrow>
      (if 128 - prefix \<le> i then bit net i else 96 - prefix \<le> i \<and> bit v4 (i - (96 - prefix)))"
    using to_dns64_bits [OF assms] by blast
  have "drop_bit (128 - prefix) r = drop_bit (128 - prefix) net"
  proof (rule bit_eqI)
    fix n
    show "bit (drop_bit (128 - prefix) r) n = bit (drop_bit (128 - prefix) net) n"
      using bits [of "128 - prefix + n"] bit_imp_le_length [of r "128 - prefix + n"]
        bit_imp_le_length [of net "128 - prefix + n"]
      by (auto simp: bit_drop_bit_eq)
  qed
  moreover have "(ucast (drop_bit (96 - prefix) r) :: u32) = v4"
  proof (rule bit_eqI)
    fix n assume "possible_bit TYPE(u32) n"
    then have "n < 32" by simp
    then show "bit (ucast (drop_bit (96 - prefix) r) :: u32) n = bit v4 n"
    proof -
      have "96 - prefix + n < 128" "\<not> 128 - prefix \<le> 96 - prefix + n"
        using \<open>n < 32\<close> assms by linarith+
      then have "bit r (96 - prefix + n) = bit v4 n"
        using bits [of "96 - prefix + n"] by simp
      then show ?thesis
        using \<open>n < 32\<close> by (simp add: bit_ucast_iff bit_drop_bit_eq)
    qed
  qed
  moreover have "take_bit (96 - prefix) r = 0"
  proof (rule bit_eqI)
    fix n
    show "bit (take_bit (96 - prefix) r) n = bit (0 :: ipv6) n"
      using bits [of n] assms by (auto simp: bit_take_bit_iff)
  qed
  ultimately show ?thesis using r by blast
qed

theorem dns64_embeds_witness:
  "\<exists>r. to_dns64 (push_bit 96 0x64ff9b) 96 0xc0a80001 = Some r \<and> ucast r = (0xc0a80001 :: u32)"
  using dns64_embeds [of 96 "push_bit 96 0x64ff9b" "0xc0a80001"] by auto

text \<open>A prefix outside that range overflows.\<close>

theorem dns64_prefix_overflow: "to_dns64 net prefix v4 = None \<longleftrightarrow> prefix = 0 \<or> 96 < prefix"
  by (auto simp: to_dns64_def Let_def)

lemma dns64_rr_ok:
  assumes "1 \<le> prefix" "prefix \<le> 96"
  shows "\<exists>r'. dns64_rr net prefix r = Some r' \<and> rr_name r' = rr_name r \<and> rr_ttl r' = rr_ttl r \<and>
    (case rr_ip r of Some (V4 a) \<Rightarrow> \<exists>b. to_dns64 net prefix a = Some b \<and> rr_data r' = RD_AAAA b
     | _ \<Rightarrow> r' = r)"
proof (cases "rr_ip r")
  case (Some i)
  then show ?thesis
  proof (cases i)
    case (V4 a)
    obtain b where "to_dns64 net prefix a = Some b"
      using dns64_embeds [OF assms, of net a] by blast
    then show ?thesis
      using Some V4 by (simp add: dns64_rr_def)
  qed (simp add: dns64_rr_def)
qed (simp add: dns64_rr_def)

lemma dns64_rrs_ok:
  assumes "1 \<le> prefix" "prefix \<le> 96"
  shows "\<exists>rs'. dns64_rrs net prefix rs = Some rs' \<and> map rr_name rs' = map rr_name rs \<and>
    map rr_ttl rs' = map rr_ttl rs \<and> (\<forall>r\<in>set rs'. \<forall>a. rr_ip r \<noteq> Some (V4 a))"
proof (induction rs)
  case (Cons r rs)
  then obtain rs' where rs': "dns64_rrs net prefix rs = Some rs'" "map rr_name rs' = map rr_name rs"
    "map rr_ttl rs' = map rr_ttl rs" "\<forall>r\<in>set rs'. \<forall>a. rr_ip r \<noteq> Some (V4 a)" by blast
  from dns64_rr_ok [OF assms, of net r] obtain r' where r': "dns64_rr net prefix r = Some r'"
    "rr_name r' = rr_name r" "rr_ttl r' = rr_ttl r"
    "case rr_ip r of Some (V4 a) \<Rightarrow> \<exists>b. to_dns64 net prefix a = Some b \<and> rr_data r' = RD_AAAA b
     | _ \<Rightarrow> r' = r" by blast
  have "\<forall>a. rr_ip r' \<noteq> Some (V4 a)"
    using r'(4) by (auto split: option.splits ip_addr.splits)
  then show ?case
    using rs' r'(1-3) by simp
qed simp

text \<open>
  The DNS64 fallback. With a prefix of 1 to 96 bits, when the chain fails an AAAA query and
  then answers the A query, the client gets the A reply with every IPv4 address replaced by its
  synthesised IPv6 address (names, TTLs and the number of records kept, no IPv4 address left)
  and the question turned back to AAAA. When the chain answers the AAAA query itself the reply
  passes unchanged and the A query is not made.
\<close>

theorem dns64_fallback:
  assumes p: "1 \<le> prefix" "prefix \<le> 96" and t: "q_type (rq_query req) = RT_AAAA"
    and q: "msg_queries (rq_message req) = q # qs"
  shows "case nxt ctx req s of
      (Inr r, ctx1, s1) \<Rightarrow> dns64_handle net prefix ctx req nxt s = Some (Inr r, ctx1, s1)
    | (Inl err, ctx1, s1) \<Rightarrow> \<exists>req'. rq_query req' = q\<lparr>q_type := RT_A\<rparr> \<and>
        (case nxt ctx1 req' s1 of
           (Inl _, ctx2, s2) \<Rightarrow> dns64_handle net prefix ctx req nxt s = Some (Inl err, ctx2, s2)
         | (Inr r, ctx2, s2) \<Rightarrow> \<exists>r'. dns64_handle net prefix ctx req nxt s = Some (Inr r', ctx2, s2) \<and>
             map rr_name (answers r') = map rr_name (answers r) \<and>
             map rr_ttl (answers r') = map rr_ttl (answers r) \<and>
             (\<forall>x\<in>set (answers r'). \<forall>a. rr_ip x \<noteq> Some (V4 a)) \<and>
             msg_queries (dr_message r') = set_first_type RT_AAAA (msg_queries (dr_message r)))"
proof -
  obtain res ctx1 s1 where n1: "nxt ctx req s = (res, ctx1, s1)" by (metis prod_cases3)
  show ?thesis
  proof (cases res)
    case (Inr r)
    then show ?thesis using n1 t by (simp add: dns64_handle_def)
  next
    case (Inl err)
    obtain req' where req': "dns64_query_a req = Some req'" "rq_query req' = q\<lparr>q_type := RT_A\<rparr>"
      using q by (simp add: dns64_query_a_def request_new_def)
    obtain res2 ctx2 s2 where n2: "nxt ctx1 req' s1 = (res2, ctx2, s2)" by (metis prod_cases3)
    show ?thesis
    proof (cases res2)
      case (Inl e)
      then show ?thesis
        using n1 n2 \<open>res = Inl err\<close> req' t by (auto simp: dns64_handle_def intro!: exI [of _ req'])
    next
      case (Inr r)
      from dns64_rrs_ok [OF p, of net "answers r"] obtain rs' where
        "dns64_rrs net prefix (answers r) = Some rs'" "map rr_name rs' = map rr_name (answers r)"
        "map rr_ttl rs' = map rr_ttl (answers r)" "\<forall>x\<in>set rs'. \<forall>a. rr_ip x \<noteq> Some (V4 a)" by blast
      then show ?thesis
        using n1 n2 \<open>res = Inl err\<close> Inr req' t
        by (auto simp: dns64_handle_def set_answers_def deref_mut_def intro!: exI [of _ req'])
    qed
  qed
qed

theorem dns64_fallback_witness:
  "\<exists>r'. dns64_handle (push_bit 96 0x64ff9b) 96 (example_ctx rule_default) (example_request RT_AAAA)
       (\<lambda>ctx req s. (if q_type (rq_query req) = RT_A
          then Inr (example_reply [from_rdata www_example_com 60 (RD_A 1)]) else Inl NameExists, ctx, s)) ()
     = Some (Inr r', example_ctx rule_default, ()) \<and> map rr_ttl (answers r') = [60]"
proof -
  let ?nxt = "\<lambda>ctx req s. (if q_type (rq_query req) = RT_A
    then Inr (example_reply [from_rdata www_example_com 60 (RD_A 1)]) else Inl NameExists, ctx, s)"
  have q: "msg_queries (rq_message (example_request RT_AAAA)) = [rq_query (example_request RT_AAAA)]"
    by (simp add: example_request_def request_new_def)
  have t: "q_type (rq_query (example_request RT_AAAA)) = RT_AAAA" by simp
  from dns64_fallback [OF _ _ t q, where prefix = 96 and nxt = ?nxt and ctx = "example_ctx rule_default"
      and s = "()" and net = "push_bit 96 0x64ff9b"]
  show ?thesis
    by (force simp: example_reply_def new_with_deadline_def from_rdata_def)
qed

text \<open>
  A name whose rule says to ignore CNAME rules is still rewritten when the zone above has one:
  the getter asks the zone because \<open>Ignore\<close> reads as not set.
\<close>

theorem ignored_cname_applies:
  assumes "cx_domain_rule ctx = Some (TreeNode a (Some z))" "ru_cname (arc_rule a) = Some Ignore"
    and "ru_cname (rule_of z) = Some (Value c)" "q_type (rq_query req) = RT_CNAME"
  shows "\<exists>r. fst (cname_handle L now ctx req nxt s) = Inr r \<and>
    map rr_data (answers r) = [RD_CNAME (c\<lparr>nm_fqdn := True\<rparr>)]"
  using assms
  by (simp add: cname_handle_def node_get_def cname_of_node_def rule_of_def Let_def
      new_with_deadline_def from_rdata_def)

end
