(* ===== verification/Cache.thy ===== *)
theory Cache
  imports Lru Rewrite_Mw
begin

text \<open>
  The DNS cache (\<^verbatim>\<open>src/src/dns_mw_cache.rs\<close>): \<open>DnsCache\<close>, its entries and the cache middleware.

  The entries live in an LRU map of the \<open>lru\<close> package (theory \<open>Lru\<close>). The mutex makes every
  operation atomic, so an interleaving of queries and background tasks is a sequence of
  operations. Counters of bytes (\<open>usize\<close>) are integers, so that a subtraction below zero would
  show; sizes of types, the encoder of messages and the length of names are parameters
  (\<open>cache_env\<close>). The clock (\<open>Instant::now\<close>) and the wall clock are arguments.
\<close>

section \<open>Entries\<close>

record cache_entry =
  en_data :: dns_response
  en_memory_usage :: int
  en_valid_until :: instant
  en_is_in_prefetching :: bool
  en_retry_prefetch_at :: "instant option"
  en_inserted_at :: nat
  en_hits :: nat
  en_last_access :: nat
  en_reply_ttl :: "u32 option"
  en_ttl_reply :: "(dns_response \<times> int) option"

record 'c cache_env =
  ce_lru :: "('c, query, cache_entry) lru_lib"
  ce_lib :: name_lib
  ce_encode :: "message \<Rightarrow> bytes option"
  ce_name_len :: "name \<Rightarrow> nat"
  ce_size_entry :: nat
  ce_size_query :: nat
  ce_size_record :: nat
  ce_size_message :: nat
  ce_size_ttl_reply :: nat

text \<open>Equality of queries: the names as the library compares them.\<close>

definition q_eq :: "name_lib \<Rightarrow> query \<Rightarrow> query \<Rightarrow> bool" where
  "q_eq L a b \<longleftrightarrow> nl_eq L (q_name a) (q_name b) \<and> q_type a = q_type b \<and> q_class a = q_class b"

definition negative_response_ttl :: "dns_response \<Rightarrow> u32 option" where
  "negative_response_ttl r =
     (if \<not> (rcode r = NoError \<or> rcode r = NXDomain) \<or>
         (rcode r = NoError \<and> list_ex (\<lambda>x. rr_type x = q_type (dr_query r)) (answers r))
      then None
      else
        case list_min (List.map_filter (\<lambda>x. case rr_data x of
               RD_SOA s \<Rightarrow> Some (min (rr_ttl x) (soa_minimum s)) | _ \<Rightarrow> None) (authorities r)) of
          None \<Rightarrow> None
        | Some soa_ttl \<Rightarrow>
            Some (fold (\<lambda>x ttl. min ttl (rr_ttl x))
              (filter (\<lambda>x. rr_type x = RT_CNAME) (answers r)) soa_ttl))"

definition response_memory :: "'c cache_env \<Rightarrow> dns_response \<Rightarrow> int" where
  "response_memory E data =
     (let records = length (answers data) + length (authorities data) + length (additionals data) in
      int (unwrap_or (dr_wire_len data)
             (case to_vec (ce_encode E) data of Some w \<Rightarrow> length w | None \<Rightarrow> 0)
           + records * ce_size_record E + ce_size_message E + 2 * size_of_usize
           + length (msg_queries (dr_message data)) * ce_size_query E
           + (case dr_group data of Some g \<Rightarrow> length g | None \<Rightarrow> 0)
           + prepared_wire_memory data))"

definition measure_memory :: "'c cache_env \<Rightarrow> dns_response \<Rightarrow> int" where
  "measure_memory E data =
     response_memory E data + int (ce_size_entry E + ce_size_query E + ce_name_len E (q_name (dr_query data)))"

definition entry_new :: "'c cache_env \<Rightarrow> nat \<Rightarrow> dns_response \<Rightarrow> instant \<Rightarrow> cache_entry" where
  "entry_new E wall data valid_until =
     \<lparr>en_data = data, en_memory_usage = measure_memory E data, en_valid_until = valid_until,
      en_is_in_prefetching = False, en_retry_prefetch_at = None,
      en_inserted_at = wall, en_hits = 0, en_last_access = wall,
      en_reply_ttl = None, en_ttl_reply = None\<rparr>"

definition is_current :: "instant \<Rightarrow> cache_entry \<Rightarrow> bool" where
  "is_current now en \<longleftrightarrow> now \<le> en_valid_until en"

text \<open>\<open>saturating_duration_since\<close>.\<close>

definition entry_ttl :: "instant \<Rightarrow> cache_entry \<Rightarrow> duration" where
  "entry_ttl now en = en_valid_until en - now"

definition stats_hit :: "nat \<Rightarrow> cache_entry \<Rightarrow> cache_entry" where
  "stats_hit wall en = en\<lparr>en_hits := en_hits en + 1, en_last_access := wall\<rparr>"

section \<open>DnsCache\<close>

record 'c dns_cache =
  dc_cache :: 'c
  dc_serve_expired :: bool
  dc_expired_ttl :: u64
  dc_expired_reply_ttl :: u64
  dc_memory_limit :: int
  dc_memory_usage :: int
  dc_prefetch_time :: u64

datatype cache_status = Valid | Expired

definition cache_new :: "'c cache_env \<Rightarrow> nat \<Rightarrow> bool \<Rightarrow> u64 \<Rightarrow> u64 \<Rightarrow> 'c dns_cache" where
  "cache_new E sz serve expired_ttl expired_reply_ttl =
     \<lparr>dc_cache = lru_new (ce_lru E) sz, dc_serve_expired = serve,
      dc_expired_ttl = expired_ttl, dc_expired_reply_ttl = expired_reply_ttl,
      dc_memory_limit = 0, dc_memory_usage = 0, dc_prefetch_time = 0\<rparr>"

definition saturating_sub :: "int \<Rightarrow> int \<Rightarrow> int" where
  "saturating_sub a b = max 0 (a - b)"

text \<open>\<open>while limit > 0 && usage > limit\<close>, popping the least recently used entry; each turn shortens
  the sequence of entries, so the length is enough fuel.\<close>

fun evict :: "('c, query, cache_entry) lru_lib \<Rightarrow> nat \<Rightarrow> int \<Rightarrow> int \<Rightarrow> 'c \<Rightarrow> int \<times> 'c" where
  "evict U 0 limit usage c = (usage, c)"
| "evict U (Suc n) limit usage c =
     (if limit > 0 \<and> usage > limit
      then (case lru_pop_lru U c of
              (Some (_, en), c') \<Rightarrow> evict U n limit (saturating_sub usage (en_memory_usage en)) c'
            | (None, c') \<Rightarrow> (usage, c'))
      else (usage, c))"

definition evict_all :: "('c, query, cache_entry) lru_lib \<Rightarrow> int \<Rightarrow> int \<Rightarrow> 'c \<Rightarrow> int \<times> 'c" where
  "evict_all U limit usage c = evict U (Suc (length (lru_iter U c))) limit usage c"

definition insert_response ::
  "'c cache_env \<Rightarrow> nat \<Rightarrow> dns_response \<Rightarrow> instant \<Rightarrow> u32 \<Rightarrow> string \<Rightarrow> 'c dns_cache \<Rightarrow> 'c dns_cache" where
  "insert_response E wall response now ttl grp d =
     (let U = ce_lru E;
          valid_until = now + secs (unat ttl);
          lookup = with_valid_until valid_until response;
          lookup = (if dr_group lookup \<noteq> Some grp then with_name_server_group grp lookup else lookup);
          query = dr_query lookup;
          entry = entry_new E wall lookup valid_until;
          usage = dc_memory_usage d;
          (usage, c) =
            (case lru_peek U query (dc_cache d) of
               Some previous \<Rightarrow>
                 (let usage = saturating_sub usage (en_memory_usage previous);
                      entry = entry\<lparr>en_hits := en_hits previous + 1\<rparr>
                  in (usage + en_memory_usage entry,
                      lru_write U query entry (lru_promote U query (dc_cache d))))
             | None \<Rightarrow>
                 (case lru_push U query entry (dc_cache d) of
                    (Some (_, evicted), c) \<Rightarrow>
                      (saturating_sub (usage + en_memory_usage entry) (en_memory_usage evicted), c)
                  | (None, c) \<Rightarrow> (usage + en_memory_usage entry, c)));
          (usage, c) = evict_all U (dc_memory_limit d) usage c
      in d\<lparr>dc_cache := c, dc_memory_usage := usage\<rparr>)"

text \<open>The reply to a hit: names rewritten when only addresses of another name are stored, TTLs
  capped.\<close>

definition adjust_reply :: "name_lib \<Rightarrow> query \<Rightarrow> u32 \<Rightarrow> dns_response \<Rightarrow> dns_response" where
  "adjust_reply L q ttl data =
     (let has_cname = list_ex (\<lambda>r. rr_type r = RT_CNAME) (answers data);
          all_ip_records = answers data \<noteq> [] \<and> list_all (\<lambda>r. is_ip_addr (rr_type r)) (answers data);
          res = (if \<not> has_cname \<and> all_ip_records \<and>
                    list_ex (\<lambda>r. \<not> nl_eq L (rr_name r) (q_name q)) (answers data)
                 then set_answers (map (\<lambda>r. r\<lparr>rr_name := q_name q\<rparr>) (answers data)) data
                 else data)
      in set_max_ttl ttl res)"

definition cache_get ::
  "'c cache_env \<Rightarrow> nat \<Rightarrow> query \<Rightarrow> instant \<Rightarrow> 'c dns_cache \<Rightarrow>
   (dns_response \<times> cache_status) option \<times> 'c dns_cache" where
  "cache_get E wall query now d =
     (let U = ce_lru E in
      case lru_peek U query (dc_cache d) of
        None \<Rightarrow> (None, d)
      | Some value \<Rightarrow>
          (let c = lru_promote U query (dc_cache d) in
           if \<not> is_current now value \<and>
              (negative_response_ttl (en_data value) \<noteq> None \<or> \<not> dc_serve_expired d \<or>
               (dc_expired_ttl d > 0 \<and> now - en_valid_until value > secs (unat (dc_expired_ttl d))))
           then
             (case lru_pop U query c of
                (Some removed, c) \<Rightarrow>
                  (None, d\<lparr>dc_cache := c, dc_memory_usage := dc_memory_usage d - en_memory_usage removed\<rparr>)
              | (None, c) \<Rightarrow> (None, d\<lparr>dc_cache := c\<rparr>))
           else
             (let value = stats_hit wall value;
                  (ttl, status) =
                    (if is_current now value
                     then (of_nat (as_secs (entry_ttl now value)) :: u32, Valid)
                     else (ucast (dc_expired_reply_ttl d), Expired));
                  repeated_ttl = (en_reply_ttl value = Some ttl);
                  value = value\<lparr>en_reply_ttl := Some ttl\<rparr>
              in case (if repeated_ttl then en_ttl_reply value else None) of
                Some (reply, _) \<Rightarrow>
                  (Some (reply, status), d\<lparr>dc_cache := lru_write U query value c\<rparr>)
              | None \<Rightarrow>
                  (let res = adjust_reply (ce_lib E) query ttl (en_data value);
                       previous = (case en_ttl_reply value of None \<Rightarrow> 0 | Some (_, m) \<Rightarrow> m);
                       total = dc_memory_usage d - previous;
                       value = value\<lparr>en_memory_usage := en_memory_usage value - previous, en_ttl_reply := None\<rparr>
                   in if repeated_ttl
                      then
                        (let res = prepare_wire (ce_encode E) res;
                             memory_usage = response_memory E res + int (ce_size_ttl_reply E)
                         in if dc_memory_limit d = 0 \<or> total + memory_usage \<le> dc_memory_limit d
                            then
                              (let value = value\<lparr>en_memory_usage := en_memory_usage value + memory_usage,
                                                 en_ttl_reply := Some (res, memory_usage)\<rparr>
                               in (Some (res, status),
                                   d\<lparr>dc_cache := lru_write U query value c,
                                     dc_memory_usage := total + memory_usage\<rparr>))
                            else (Some (res, status),
                                  d\<lparr>dc_cache := lru_write U query value c, dc_memory_usage := total\<rparr>))
                      else (Some (res, status),
                            d\<lparr>dc_cache := lru_write U query value c, dc_memory_usage := total\<rparr>)))))"

definition finish_prefetch :: "'c cache_env \<Rightarrow> query \<Rightarrow> instant \<Rightarrow> 'c dns_cache \<Rightarrow> 'c dns_cache" where
  "finish_prefetch E query now d =
     (case lru_peek (ce_lru E) query (dc_cache d) of
        Some en \<Rightarrow>
          (if en_is_in_prefetching en
           then d\<lparr>dc_cache := lru_write (ce_lru E) query
                    (en\<lparr>en_is_in_prefetching := False,
                        en_retry_prefetch_at := Some (now + secs (unat (max (dc_prefetch_time d) 1)))\<rparr>)
                    (dc_cache d)\<rparr>
           else d)
      | None \<Rightarrow> d)"

definition begin_refresh :: "'c cache_env \<Rightarrow> query \<Rightarrow> 'c dns_cache \<Rightarrow> bool \<times> 'c dns_cache" where
  "begin_refresh E query d =
     (case lru_peek (ce_lru E) query (dc_cache d) of
        Some en \<Rightarrow>
          (if \<not> en_is_in_prefetching en
           then (True, d\<lparr>dc_cache := lru_write (ce_lru E) query
                          (en\<lparr>en_is_in_prefetching := True\<rparr>) (dc_cache d)\<rparr>)
           else (False, d))
      | None \<Rightarrow> (False, d))"

definition end_refresh :: "'c cache_env \<Rightarrow> query \<Rightarrow> 'c dns_cache \<Rightarrow> 'c dns_cache" where
  "end_refresh E query d =
     (case lru_peek (ce_lru E) query (dc_cache d) of
        Some en \<Rightarrow> d\<lparr>dc_cache := lru_write (ce_lru E) query
                       (en\<lparr>en_is_in_prefetching := False\<rparr>) (dc_cache d)\<rparr>
      | None \<Rightarrow> d)"

text \<open>The body of the loop of \<open>get_expired\<close>: whether an entry is due, and otherwise the bound it
  puts on the time to the next check.\<close>

datatype prefetch_verdict = Due | Skip | Later duration

definition prefetch_step :: "instant \<Rightarrow> instant \<Rightarrow> query \<Rightarrow> cache_entry \<Rightarrow> prefetch_verdict" where
  "prefetch_step now check_time query en =
     (if negative_response_ttl (en_data en) \<noteq> None then Skip
      else if en_is_in_prefetching en then Skip
      else if (case en_retry_prefetch_at en of None \<Rightarrow> False | Some t \<Rightarrow> t > now)
        then Later (the (en_retry_prefetch_at en) - now)
      else if \<not> is_ip_addr (q_type query) then Skip
      else if is_current check_time en then Later (entry_ttl check_time en)
      else Due)"

fun prefetch_scan ::
  "instant \<Rightarrow> instant \<Rightarrow> (query \<times> cache_entry) list \<Rightarrow> duration \<Rightarrow>
   (query \<times> nat \<times> string option) list \<times> duration" where
  "prefetch_scan now check_time [] most_recent = ([], most_recent)"
| "prefetch_scan now check_time ((q, en) # rest) most_recent =
     (case prefetch_step now check_time q en of
        Skip \<Rightarrow> prefetch_scan now check_time rest most_recent
      | Later t \<Rightarrow> prefetch_scan now check_time rest (min most_recent t)
      | Due \<Rightarrow>
          (let (ex, m) = prefetch_scan now check_time rest most_recent
           in ((q, en_hits en, dr_group (en_data en)) # ex, m)))"

definition mark_prefetching :: "('c, query, cache_entry) lru_lib \<Rightarrow> instant \<Rightarrow> instant \<Rightarrow> 'c \<Rightarrow> 'c" where
  "mark_prefetching U now check_time c =
     fold (\<lambda>(q, en) c. if prefetch_step now check_time q en = Due
              then lru_write U q (en\<lparr>en_is_in_prefetching := True\<rparr>) c else c)
       (lru_iter U c) c"

definition check_time :: "'c dns_cache \<Rightarrow> instant \<Rightarrow> u64 option \<Rightarrow> instant" where
  "check_time d now seconds_ahead =
     (let delay = (if dc_serve_expired d then dc_prefetch_time d else 0)
      in (if delay > 0 then unwrap_or (checked_sub now (secs (unat delay))) now else now)
         + secs (unat (unwrap_or seconds_ahead 5)))"

definition get_expired ::
  "'c cache_env \<Rightarrow> instant \<Rightarrow> u64 option \<Rightarrow> 'c dns_cache \<Rightarrow>
   ((query \<times> string option) list \<times> duration) \<times> 'c dns_cache" where
  "get_expired E now seconds_ahead d =
     (let U = ce_lru E; entries = lru_iter U (dc_cache d); most_recent = secs (unat MAX_TTL) in
      if entries \<noteq> []
      then
        (let t = check_time d now seconds_ahead;
             (expired, most_recent) = prefetch_scan now t entries most_recent;
             expired = sort_by (\<lambda>(_, a, _) (_, b, _). cmp_of b a) expired
         in ((map (\<lambda>(q, _, g). (q, g)) expired, most_recent),
             d\<lparr>dc_cache := mark_prefetching U now t (dc_cache d)\<rparr>))
      else (([], most_recent), d))"

text \<open>\<open>flush\<close>: what it writes to the file is \<open>persist\<close> of the emptied cache.\<close>

definition flush :: "'c cache_env \<Rightarrow> 'c dns_cache \<Rightarrow> 'c dns_cache" where
  "flush E d = d\<lparr>dc_cache := lru_clear (ce_lru E) (dc_cache d), dc_memory_usage := 0\<rparr>"

definition cache_len :: "'c cache_env \<Rightarrow> 'c dns_cache \<Rightarrow> nat" where
  "cache_len E d = length (lru_iter (ce_lru E) (dc_cache d))"

record cached_query_record =
  cq_name :: name
  cq_hits :: nat
  cq_last_access :: nat
  cq_query_type :: record_type
  cq_query_class :: u16
  cq_records :: "rr list"

definition cached_records :: "'c cache_env \<Rightarrow> 'c dns_cache \<Rightarrow> cached_query_record list" where
  "cached_records E d =
     map (\<lambda>(query, entry).
         \<lparr>cq_name = q_name query, cq_hits = en_hits entry, cq_last_access = en_last_access entry,
          cq_query_type = q_type query, cq_query_class = q_class query,
          cq_records = answers (en_data entry)\<rparr>)
       (lru_iter (ce_lru E) (dc_cache d))"

text \<open>The task of \<open>DnsCacheMiddleware::new\<close> that fills the cache from a file: the entries read,
  then eviction down to the memory limit.\<close>

definition load_entries :: "('c, query, cache_entry) lru_lib \<Rightarrow> cache_entry list \<Rightarrow> 'c \<Rightarrow> 'c" where
  "load_entries U es c = fold (\<lambda>en c. snd (lru_put U (dr_query (en_data en)) en c)) es c"

definition startup_load :: "'c cache_env \<Rightarrow> cache_entry list \<Rightarrow> 'c dns_cache \<Rightarrow> 'c dns_cache" where
  "startup_load E es d =
     (let U = ce_lru E;
          c = load_entries U es (dc_cache d);
          usage = sum_list (map (\<lambda>(_, en). en_memory_usage en) (lru_iter U c));
          (usage, c) = evict_all U (dc_memory_limit d) usage c
      in d\<lparr>dc_cache := c, dc_memory_usage := usage\<rparr>)"

definition prefetch_interval :: "runtime_config \<Rightarrow> u64" where
  "prefetch_interval cfg =
     (let t = unwrap_or (cc_expired_prefetch_time (cf_cache cfg)) 0 in
      if t = 0
      then (let i = serve_expired_ttl cfg div 2 in if i = 0 then 8 * 3600 else min i (8 * 3600))
      else t)"

section \<open>The prefetch task\<close>

text \<open>\<open>DomainPrefetchingNotify\<close>: the state is \<open>tick\<close>, the instant of the next wake-up; the result
  says whether the task is woken at once, later or not by this call.\<close>

datatype wakeup = NotifyOne | WakeAfter duration

definition notify_after :: "instant \<Rightarrow> duration \<Rightarrow> instant \<Rightarrow> wakeup option \<times> instant" where
  "notify_after now duration tick =
     (if duration = 0 then (Some NotifyOne, tick)
      else let next_tick = now + duration in
        if tick > now \<and> next_tick > tick then (None, tick)
        else (Some (WakeAfter duration), next_tick))"

definition MAX_PREFETCH_CONCURRENCY :: nat where
  "MAX_PREFETCH_CONCURRENCY = 16"

fun chunks :: "nat \<Rightarrow> 'a list \<Rightarrow> 'a list list" where
  "chunks n [] = []"
| "chunks n (x # xs) = take (max n 1) (x # xs) # chunks n (drop (max n 1) (x # xs))"

text \<open>\<open>prefetch_domains\<close>: the queries sent, in batches that run one after another, one batch a
  second; every query ends with \<open>finish_prefetch\<close>.\<close>

definition prefetch_domains :: "(query \<times> string option) list \<Rightarrow> (query \<times> server_opts) list list" where
  "prefetch_domains domains =
     chunks MAX_PREFETCH_CONCURRENCY
       (map (\<lambda>(query, grp). (query, server_opts_default\<lparr>so_is_background := True, so_rule_group := grp\<rparr>)) domains)"

text \<open>One turn of the loop of \<open>start_prefetching\<close>: the batches to send, the delay asked for the next
  turn and the time of the last check.\<close>

definition prefetch_turn ::
  "'c cache_env \<Rightarrow> duration \<Rightarrow> instant \<Rightarrow> instant \<Rightarrow> 'c dns_cache \<Rightarrow>
   (query \<times> server_opts) list list \<times> duration \<times> instant \<times> 'c dns_cache" where
  "prefetch_turn E min_interval now last_check d =
     (if now - last_check > min_interval
      then (let ((expired, most_recent), d) = get_expired E now (Some 5) d
            in (prefetch_domains expired, max most_recent min_interval, now, d))
      else ([], max 0 min_interval, last_check, d))"

text \<open>The cache that the middleware starts with; \<open>usize\<close> has 64 bits.\<close>

definition middleware_cache :: "'c cache_env \<Rightarrow> runtime_config \<Rightarrow> 'c dns_cache" where
  "middleware_cache E cfg =
     (cache_new E (cache_size cfg) (serve_expired cfg) (serve_expired_ttl cfg) (serve_expired_reply_ttl cfg))
       \<lparr>dc_memory_limit := int (unwrap_or (cc_memory_size (cf_cache cfg)) 0),
        dc_prefetch_time := prefetch_interval cfg\<rparr>"

section \<open>The cache middleware\<close>

text \<open>What a query leaves to background tasks.\<close>

datatype background =
  BgQuery query server_opts
| BgSpeedCheck query ttl_limits runtime_config string dns_result
| BgNotify duration

record 'c cache_state =
  cs_cache :: "'c dns_cache"
  cs_checks :: nat
  cs_hits :: nat
  cs_spawned :: "background list"

definition spawn :: "background \<Rightarrow> 'c cache_state \<Rightarrow> 'c cache_state" where
  "spawn b s = s\<lparr>cs_spawned := cs_spawned s @ [b]\<rparr>"

definition finish_speed_check ::
  "'c cache_env \<Rightarrow> dns_context \<Rightarrow> query \<Rightarrow> dns_result \<Rightarrow> 'c cache_state \<Rightarrow> 'c cache_state" where
  "finish_speed_check E ctx query lookup s =
     (case begin_refresh E query (cs_cache s) of
        (False, _) \<Rightarrow> s
      | (True, d) \<Rightarrow>
          spawn (BgSpeedCheck query (rr_ttl_limits ctx) (cx_cfg ctx) (server_group_name ctx) lookup)
            (s\<lparr>cs_cache := d\<rparr>))"

text \<open>The body of the task that \<open>finish_speed_check\<close> spawns.\<close>

definition run_speed_check ::
  "'c cache_env \<Rightarrow> nat \<Rightarrow> instant \<Rightarrow> query \<Rightarrow> ttl_limits \<Rightarrow> runtime_config \<Rightarrow> string \<Rightarrow> dns_result \<Rightarrow>
   'c cache_state \<Rightarrow> 'c cache_state" where
  "run_speed_check E wall now query limits cfg grp lookup s =
     (let s = (case lookup of
            Inr r \<Rightarrow>
              (if list_ex (\<lambda>x. rr_type x = q_type query) (answers r) \<and> \<not> has_bogus_address cfg r
               then
                 (let ttl = ttl_apply limits (unwrap_or (min_ttl r) 0);
                      s = s\<lparr>cs_cache := insert_response E wall r now ttl grp (cs_cache s)\<rparr>
                  in if prefetch_domain cfg then spawn (BgNotify (secs (unat ttl))) s else s)
               else s)
          | Inl _ \<Rightarrow> s)
      in s\<lparr>cs_cache := end_refresh E query (cs_cache s)\<rparr>)"

text \<open>The answer to a query from the cache, if there is one to give.\<close>

definition cached_reply ::
  "'c cache_env \<Rightarrow> nat \<Rightarrow> instant \<Rightarrow> dns_context \<Rightarrow> query \<Rightarrow> 'c cache_state \<Rightarrow>
   dns_response option \<times> 'c cache_state" where
  "cached_reply E wall now ctx query s =
     (let s = s\<lparr>cs_checks := cs_checks s + 1\<rparr>;
          no_serve = no_serve_expired (cx_server_opts ctx) \<or>
            unwrap_or (opt_node_get (\<lambda>n. ru_no_serve_expired (rule_of n)) (cx_domain_rule ctx)) False;
          (cached, d) = cache_get E wall query now (cs_cache s);
          s = s\<lparr>cs_cache := d\<rparr>
      in case cached of
        Some (res, status) \<Rightarrow>
          (if dr_group res = Some (server_group_name ctx)
           then
             (case status of
                Valid \<Rightarrow> (Some res, s\<lparr>cs_hits := cs_hits s + 1\<rparr>)
              | Expired \<Rightarrow>
                  (if serve_expired (cx_cfg ctx) \<and> \<not> no_serve
                   then (Some res,
                         (spawn (BgQuery query ((cx_server_opts ctx)\<lparr>so_is_background := True\<rparr>)) s)
                           \<lparr>cs_hits := cs_hits s + 1\<rparr>)
                   else (None, s)))
           else (None, s))
      | None \<Rightarrow> (None, s))"

text \<open>What is done with a reply of the rest of the chain.\<close>

definition store_reply ::
  "'c cache_env \<Rightarrow> nat \<Rightarrow> instant \<Rightarrow> dns_context \<Rightarrow> query \<Rightarrow> dns_result option \<Rightarrow> dns_response \<Rightarrow>
   'c cache_state \<Rightarrow> 'c cache_state" where
  "store_reply E wall now ctx query speed_check lookup s =
     (case negative_response_ttl lookup of
        Some ttl \<Rightarrow>
          (let ttl = ttl_apply (rr_ttl_limits ctx) ttl in
           if ttl > 0 \<and> \<not> cx_no_cache ctx
           then s\<lparr>cs_cache := insert_response E wall lookup now ttl (server_group_name ctx) (cs_cache s)\<rparr>
           else s)
      | None \<Rightarrow>
          (if list_all (\<lambda>x. rr_type x \<noteq> q_type query) (answers lookup) then s
           else if \<not> cx_no_cache ctx
           then
             (let ttl = map_option (ttl_apply (rr_ttl_limits ctx)) (min_ttl lookup);
                  s = s\<lparr>cs_cache := insert_response E wall lookup now (unwrap_or ttl 0)
                         (server_group_name ctx) (cs_cache s)\<rparr>;
                  s = (case speed_check of
                         None \<Rightarrow> s | Some sc \<Rightarrow> finish_speed_check E ctx query sc s)
              in case ttl of
                   Some t \<Rightarrow> if prefetch_domain (cx_cfg ctx) then spawn (BgNotify (secs (unat t))) s else s
                 | None \<Rightarrow> s)
           else s))"

text \<open>\<open>wall\<close>, \<open>now\<close> and \<open>now'\<close>: the wall clock and the instants of the lookup and of the reply.\<close>

definition cache_handle ::
  "'c cache_env \<Rightarrow> (record_type \<Rightarrow> bool) \<Rightarrow> nat \<Rightarrow> instant \<Rightarrow> instant \<Rightarrow> ('c cache_state \<times> 't) middleware" where
  "cache_handle E type_is_dnssec wall now now' ctx req nxt st =
     (if opts_no_cache (cx_server_opts ctx) \<or> cx_no_cache ctx \<or> is_dnssec type_is_dnssec req
      then nxt ctx req st
      else
        let query = rq_query req;
            (hit, s) = (if \<not> so_is_background (cx_server_opts ctx)
                        then cached_reply E wall now ctx query (fst st) else (None, fst st))
        in case hit of
          Some res \<Rightarrow> (Inr res, ctx\<lparr>cx_source := FromCache\<rparr>, (s, snd st))
        | None \<Rightarrow>
            (let (res, ctx, s, rest) = nxt ctx req (s, snd st);
                 (speed_check, ctx) = pending_take ctx;
                 res = (case res of
                     Inl e \<Rightarrow>
                       (if is_negative_response e
                        then (case as_no_records_response now' e query of Some r \<Rightarrow> Inr r | None \<Rightarrow> Inl e)
                        else Inl e)
                   | Inr r \<Rightarrow> Inr r)
             in case res of
                  Inl e \<Rightarrow> (Inl e, ctx, (s, rest))
                | Inr lookup \<Rightarrow>
                    (Inr lookup, ctx, (store_reply E wall now' ctx query speed_check lookup s, rest))))"

end
