(* ===== verification/Cache_Laws.thy ===== *)
theory Cache_Laws
  imports Cache
begin

text \<open>
  Invariants of the DNS cache: the byte counter is the sum of what the entries were charged, it
  stays within the budget, the number of entries stays within the capacity, keys are unique and
  a memorised reply is the one a fresh computation would give. They hold after every sequence of
  operations, in whatever order queries and background tasks take the lock. The locale
  \<open>cache_store\<close> is the interface to the LRU map; \<open>std_env\<close> is an instance.
\<close>

section \<open>The interface\<close>

locale cache_store =
  fixes E :: "'c cache_env"
  assumes lru_ok: "lru_library (q_eq (ce_lib E)) (ce_lru E)"

sublocale cache_store \<subseteq> lru_library "q_eq (ce_lib E)" "ce_lru E"
  by (rule lru_ok)

context name_library begin

lemma q_eq_key: "key_equality (q_eq L)"
  by unfold_locales (auto simp: q_eq_def eq_refl dest: eq_sym intro: eq_trans)

end

section \<open>The invariant\<close>

definition entry_inv :: "'c cache_env \<Rightarrow> query \<Rightarrow> cache_entry \<Rightarrow> bool" where
  "entry_inv E q en \<longleftrightarrow>
     en_memory_usage en = measure_memory E (en_data en) +
       (case en_ttl_reply en of None \<Rightarrow> 0 | Some (_, m) \<Rightarrow> m) \<and>
     q_eq (ce_lib E) q (dr_query (en_data en)) \<and>
     (case en_ttl_reply en of
        None \<Rightarrow> True
      | Some (r, m) \<Rightarrow>
          (\<exists>q' t. q_eq (ce_lib E) q' q \<and> en_reply_ttl en = Some t \<and>
             r = prepare_wire (ce_encode E) (adjust_reply (ce_lib E) q' t (en_data en)) \<and>
             m = response_memory E r + int (ce_size_ttl_reply E)))"

abbreviation mem :: "(query \<times> cache_entry) list \<Rightarrow> int" where
  "mem es \<equiv> sum_list (map (\<lambda>(_, en). en_memory_usage en) es)"

definition cache_inv :: "'c cache_env \<Rightarrow> 'c dns_cache \<Rightarrow> bool" where
  "cache_inv E d \<longleftrightarrow>
     (let es = lru_iter (ce_lru E) (dc_cache d) in
      keys_ok (q_eq (ce_lib E)) es \<and>
      1 \<le> lru_cap (ce_lru E) (dc_cache d) \<and> length es \<le> lru_cap (ce_lru E) (dc_cache d) \<and>
      (\<forall>(q, en)\<in>set es. entry_inv E q en) \<and>
      dc_memory_usage d = mem es \<and>
      0 \<le> dc_memory_limit d \<and> (0 < dc_memory_limit d \<longrightarrow> dc_memory_usage d \<le> dc_memory_limit d))"

lemma measure_nonneg: "0 \<le> response_memory E r" "0 \<le> measure_memory E r"
  by (simp_all add: response_memory_def measure_memory_def Let_def)

lemma entry_mem_nonneg: "entry_inv E q en \<Longrightarrow> 0 \<le> en_memory_usage en"
  using measure_nonneg [of E]
  by (fastforce simp: entry_inv_def split: option.splits)

lemma mem_nonneg: "\<forall>(q, en)\<in>set es. entry_inv E q en \<Longrightarrow> 0 \<le> mem es"
  by (induction es) (auto dest: entry_mem_nonneg)

lemma keys_ok_take: "keys_ok e xs \<Longrightarrow> keys_ok e (take k xs)"
  by (induction xs arbitrary: k) (auto simp: take_Cons' dest: in_set_takeD)

lemma mem_mset: "mset xs = mset ys \<Longrightarrow> mem xs = mem ys"
  by (metis mset_map sum_mset_sum_list)

lemma mem_add_mset: "mset xs = add_mset (q, en) (mset ys) \<Longrightarrow> mem xs = en_memory_usage en + mem ys"
  using mem_mset [of xs "(q, en) # ys"] by simp

lemma set_mset_eq: "mset xs = mset ys \<Longrightarrow> set xs = set ys"
  by (metis set_mset_mset)

text \<open>The TTL and status of a hit, and when an entry may be served.\<close>

definition hit_reply :: "'c dns_cache \<Rightarrow> instant \<Rightarrow> cache_entry \<Rightarrow> u32 \<times> cache_status" where
  "hit_reply d now en =
     (if is_current now en then (of_nat (as_secs (entry_ttl now en)), Valid)
      else (ucast (dc_expired_reply_ttl d), Expired))"

definition servable :: "'c dns_cache \<Rightarrow> instant \<Rightarrow> cache_entry \<Rightarrow> bool" where
  "servable d now en \<longleftrightarrow> is_current now en \<or>
     (negative_response_ttl (en_data en) = None \<and> dc_serve_expired d \<and>
      (dc_expired_ttl d > 0 \<longrightarrow> now - en_valid_until en \<le> secs (unat (dc_expired_ttl d))))"

text \<open>What a hit gives: the reply is what an equal query gets when it is computed afresh, the entry
  only changes its bookkeeping, and the counter follows it within the budget.\<close>

definition hit_outcome ::
  "'c cache_env \<Rightarrow> 'c dns_cache \<Rightarrow> instant \<Rightarrow> query \<Rightarrow> query \<Rightarrow> cache_entry \<Rightarrow>
   dns_response \<Rightarrow> cache_entry \<Rightarrow> int \<Rightarrow> bool" where
  "hit_outcome E d now q k en res en' usage \<longleftrightarrow>
     entry_inv E k en' \<and> en_data en' = en_data en \<and> en_valid_until en' = en_valid_until en \<and>
     en_hits en' = en_hits en + 1 \<and>
     (\<exists>q'. q_eq (ce_lib E) q' q \<and>
        (res = adjust_reply (ce_lib E) q' (fst (hit_reply d now en)) (en_data en) \<or>
         res = prepare_wire (ce_encode E) (adjust_reply (ce_lib E) q' (fst (hit_reply d now en)) (en_data en)))) \<and>
     usage = dc_memory_usage d - en_memory_usage en + en_memory_usage en' \<and>
     (0 < dc_memory_limit d \<longrightarrow> usage \<le> dc_memory_limit d)"

text \<open>A response as the cache keeps it.\<close>

definition stored :: "dns_response \<Rightarrow> instant \<Rightarrow> u32 \<Rightarrow> string \<Rightarrow> dns_response" where
  "stored r now ttl g =
     (let l = with_valid_until (now + secs (unat ttl)) r
      in if dr_group l \<noteq> Some g then with_name_server_group g l else l)"

lemma insert_response_eq:
  assumes "q = dr_query (stored r now ttl g)" "en = entry_new E wall (stored r now ttl g) (now + secs (unat ttl))"
  shows "insert_response E wall r now ttl g d =
    (let U = ce_lru E;
         (usage, c) = (case lru_peek U q (dc_cache d) of
         Some previous \<Rightarrow> (saturating_sub (dc_memory_usage d) (en_memory_usage previous) + en_memory_usage en,
             lru_write U q (en\<lparr>en_hits := en_hits previous + 1\<rparr>) (lru_promote U q (dc_cache d)))
       | None \<Rightarrow> (case lru_push U q en (dc_cache d) of
             (Some (_, evicted), c) \<Rightarrow>
               (saturating_sub (dc_memory_usage d + en_memory_usage en) (en_memory_usage evicted), c)
           | (None, c) \<Rightarrow> (dc_memory_usage d + en_memory_usage en, c)));
         (usage, c) = evict_all U (dc_memory_limit d) usage c
     in d\<lparr>dc_cache := c, dc_memory_usage := usage\<rparr>)"
  by (simp add: insert_response_def Let_def stored_def assms cong: option.case_cong)

text \<open>What \<open>get_expired\<close> does to an entry.\<close>

definition mark_due :: "instant \<Rightarrow> instant \<Rightarrow> query \<times> cache_entry \<Rightarrow> query \<times> cache_entry" where
  "mark_due now t = (\<lambda>(q, en). (q, if prefetch_step now t q en = Due then en\<lparr>en_is_in_prefetching := True\<rparr> else en))"

lemma keys_ok_append:
  "keys_ok e (xs @ ys) \<longleftrightarrow>
     keys_ok e xs \<and> keys_ok e ys \<and> (\<forall>x\<in>set xs. \<forall>y\<in>set ys. \<not> e (fst y) (fst x))"
  by (induction xs) auto

context cache_store begin

abbreviation "U \<equiv> ce_lru E"
abbreviation "eq \<equiv> q_eq (ce_lib E)"
abbreviation "entries d \<equiv> lru_iter U (dc_cache d)"

text \<open>Replacing the entry of a query, in place or after a promotion.\<close>

lemma write_inv:
  assumes inv: "cache_inv E d" and f: "l_find eq q (entries d) = Some (k, en)"
    and c: "c = dc_cache d \<or> c = lru_promote U q (dc_cache d)"
    and en': "entry_inv E k en'"
    and usage: "usage = dc_memory_usage d - en_memory_usage en + en_memory_usage en'"
    and limit: "0 < dc_memory_limit d \<Longrightarrow> usage \<le> dc_memory_limit d"
  shows "cache_inv E (d\<lparr>dc_cache := lru_write U q en' c, dc_memory_usage := usage\<rparr>)"
proof -
  have ok: "keys_ok eq (entries d)" using inv by (simp add: cache_inv_def Let_def)
  have c': "mset (lru_iter U c) = mset (entries d)" "keys_ok eq (lru_iter U c)"
    "l_find eq q (lru_iter U c) = Some (k, en)" "lru_cap U c = lru_cap U (dc_cache d)"
    using c ok f
    by (auto simp: iter_promote cap_promote mset_l_promote keys_ok_promote l_promote_find)
  have old: "mset (entries d) = add_mset (k, en) (mset (l_del eq q (lru_iter U c)))"
    using mset_l_del [OF c'(2,3)] c'(1) by simp
  have new: "mset (lru_iter U (lru_write U q en' c)) = add_mset (k, en') (mset (l_del eq q (lru_iter U c)))"
    using mset_l_write [OF c'(2,3)] by (simp add: iter_write)
  have "mem (lru_iter U (lru_write U q en' c)) = usage"
    using mem_add_mset [OF old] mem_add_mset [OF new] inv usage by (simp add: cache_inv_def Let_def)
  moreover have "\<forall>(q, en)\<in>set (lru_iter U (lru_write U q en' c)). entry_inv E q en"
  proof -
    have "set (lru_iter U (lru_write U q en' c)) \<subseteq> insert (k, en') (set (entries d))"
      using arg_cong [OF old, of set_mset] arg_cong [OF new, of set_mset] by auto
    then show ?thesis
      using inv en' by (auto simp: cache_inv_def Let_def)
  qed
  moreover have "keys_ok eq (lru_iter U (lru_write U q en' c))"
    unfolding iter_write by (rule keys_ok_map_fst [OF fst_l_write c'(2)])
  moreover have "length (lru_iter U (lru_write U q en' c)) = length (entries d)"
    using arg_cong [OF c'(1), of size] by (simp add: iter_write l_write_def)
  ultimately show ?thesis
    using inv limit c'(4) by (simp add: cache_inv_def Let_def cap_write)
qed

text \<open>Changing a flag of an entry leaves the counter alone.\<close>

lemma flag_inv:
  assumes "cache_inv E d" "lru_peek U q (dc_cache d) = Some en"
    and "\<And>k. entry_inv E k en \<Longrightarrow> entry_inv E k en'" "en_memory_usage en' = en_memory_usage en"
  shows "cache_inv E (d\<lparr>dc_cache := lru_write U q en' (dc_cache d)\<rparr>)"
proof -
  obtain k where k: "l_find eq q (entries d) = Some (k, en)"
    using assms(2) by (auto simp: peek)
  have "entry_inv E k en"
    using l_find_SomeD [OF k] assms(1) by (auto simp: cache_inv_def Let_def)
  then have "cache_inv E (d\<lparr>dc_cache := lru_write U q en' (dc_cache d), dc_memory_usage := dc_memory_usage d\<rparr>)"
    using assms by (intro write_inv [OF assms(1) k]) (auto simp: cache_inv_def Let_def)
  then show ?thesis by simp
qed

lemma end_refresh_inv: "cache_inv E d \<Longrightarrow> cache_inv E (end_refresh E q d)"
  by (auto simp: end_refresh_def entry_inv_def intro!: flag_inv split: option.split)

lemma begin_refresh_inv: "cache_inv E d \<Longrightarrow> cache_inv E (snd (begin_refresh E q d))"
  by (auto simp: begin_refresh_def entry_inv_def intro!: flag_inv split: option.split)

lemma finish_prefetch_inv: "cache_inv E d \<Longrightarrow> cache_inv E (finish_prefetch E q now d)"
  by (auto simp: finish_prefetch_def entry_inv_def intro!: flag_inv split: option.split)

lemma flush_inv: "cache_inv E d \<Longrightarrow> cache_inv E (flush E d)"
  by (simp add: flush_def cache_inv_def Let_def iter_clear cap_clear)

section \<open>Eviction\<close>

lemma evict_spec:
  assumes "\<forall>(q, en)\<in>set (lru_iter U c). entry_inv E q en" "length (lru_iter U c) < n" "0 \<le> limit"
  shows "\<exists>k. lru_iter U (snd (evict U n limit (mem (lru_iter U c)) c)) = take k (lru_iter U c) \<and>
    fst (evict U n limit (mem (lru_iter U c)) c) = mem (take k (lru_iter U c)) \<and>
    lru_cap U (snd (evict U n limit (mem (lru_iter U c)) c)) = lru_cap U c \<and>
    (0 < limit \<longrightarrow> mem (take k (lru_iter U c)) \<le> limit) \<and>
    (k < length (lru_iter U c) \<longrightarrow> 0 < limit \<and> limit < mem (take (Suc k) (lru_iter U c)))"
  using assms
proof (induction n arbitrary: c)
  case (Suc n)
  let ?es = "lru_iter U c"
  show ?case
  proof (cases "limit > 0 \<and> mem ?es > limit")
    case False
    then show ?thesis
      by (intro exI [of _ "length ?es"]) auto
  next
    case True
    then have ne: "?es \<noteq> []" by auto
    then obtain q en where last: "last ?es = (q, en)" by fastforce
    obtain c' where c': "lru_pop_lru U c = (Some (q, en), c')" "lru_iter U c' = butlast ?es"
      "lru_cap U c' = lru_cap U c"
      using pop_lru [of c] cap_pop_lru [of c] ne last by (cases "lru_pop_lru U c") auto
    have split: "?es = butlast ?es @ [(q, en)]"
      using ne last by (metis append_butlast_last_id)
    have "mem ?es = mem (butlast ?es) + en_memory_usage en"
      by (subst split) simp
    moreover have b: "\<forall>(q, en)\<in>set (lru_iter U c'). entry_inv E q en"
      using Suc.prems(1) c'(2) in_set_butlastD by fastforce
    ultimately have "saturating_sub (mem ?es) (en_memory_usage en) = mem (lru_iter U c')"
      using mem_nonneg [OF b] c'(2) by (simp add: saturating_sub_def)
    then have ev: "evict U (Suc n) limit (mem ?es) c = evict U n limit (mem (lru_iter U c')) c'"
      using True c'(1) by simp
    have "length (lru_iter U c') < n" using Suc.prems(2) ne c'(2) by (simp add: less_diff_conv2 Suc_le_eq)
    from Suc.IH [OF b this Suc.prems(3)] obtain k where k:
      "lru_iter U (snd (evict U n limit (mem (lru_iter U c')) c')) = take k (butlast ?es)"
      "fst (evict U n limit (mem (lru_iter U c')) c') = mem (take k (butlast ?es))"
      "lru_cap U (snd (evict U n limit (mem (lru_iter U c')) c')) = lru_cap U c'"
      "0 < limit \<longrightarrow> mem (take k (butlast ?es)) \<le> limit"
      "k < length (butlast ?es) \<longrightarrow> 0 < limit \<and> limit < mem (take (Suc k) (butlast ?es))"
      unfolding c'(2) by blast
    define j where "j = min k (length ?es - 1)"
    have take_j: "take k (butlast ?es) = take j ?es"
      by (simp add: j_def butlast_conv_take min.commute)
    have "limit < mem (take (Suc j) ?es)" if "j < length ?es"
    proof (cases "k < length (butlast ?es)")
      case True
      then have "take (Suc k) (butlast ?es) = take (Suc j) ?es"
        by (simp add: j_def butlast_conv_take)
      then show ?thesis using k(5) True by simp
    next
      case False
      then have "Suc j = length ?es" using ne by (simp add: j_def)
      then show ?thesis using \<open>limit > 0 \<and> mem ?es > limit\<close> by simp
    qed
    then show ?thesis
      unfolding ev using k take_j c'(3) True by (intro exI [of _ j]) auto
  qed
qed simp

text \<open>Evicting from a cache whose counter is right restores the budget and drops only the least
  recently used entries.\<close>

lemma evict_all_inv:
  assumes ok: "keys_ok eq (lru_iter U c)" "1 \<le> lru_cap U c" "length (lru_iter U c) \<le> lru_cap U c"
    and en: "\<forall>(q, en)\<in>set (lru_iter U c). entry_inv E q en" and l: "0 \<le> dc_memory_limit d"
    and ev: "evict_all U (dc_memory_limit d) (mem (lru_iter U c)) c = (usage, c')"
  shows "cache_inv E (d\<lparr>dc_cache := c', dc_memory_usage := usage\<rparr>)"
proof -
  from evict_spec [OF en _ l, of "Suc (length (lru_iter U c))"] ev obtain k where
    k: "lru_iter U c' = take k (lru_iter U c)" "usage = mem (take k (lru_iter U c))"
    "lru_cap U c' = lru_cap U c" "0 < dc_memory_limit d \<longrightarrow> usage \<le> dc_memory_limit d"
    unfolding evict_all_def by auto
  have "keys_ok eq (take k (lru_iter U c))"
    by (rule keys_ok_take [OF ok(1)])
  then show ?thesis
    using k ok en l by (auto simp: cache_inv_def Let_def dest: in_set_takeD)
qed

lemma entry_new_inv: "entry_inv E (dr_query r) (entry_new E wall r t)"
  using e_refl by (simp add: entry_inv_def entry_new_def)

lemma push_inv:
  assumes inv: "cache_inv E d" and f: "l_find eq q (entries d) = None" and en: "entry_inv E q en"
    and p: "lru_push U q en (dc_cache d) = (out, c)"
  shows "keys_ok eq (lru_iter U c) \<and> lru_cap U c = lru_cap U (dc_cache d) \<and>
    length (lru_iter U c) \<le> lru_cap U c \<and> (\<forall>(q, en)\<in>set (lru_iter U c). entry_inv E q en) \<and>
    mem (lru_iter U c) = (case out of
        None \<Rightarrow> dc_memory_usage d + en_memory_usage en
      | Some (_, ev) \<Rightarrow> saturating_sub (dc_memory_usage d + en_memory_usage en) (en_memory_usage ev))"
proof -
  let ?es = "entries d" and ?cap = "lru_cap U (dc_cache d)"
  have es: "keys_ok eq ?es" "1 \<le> ?cap" "length ?es \<le> ?cap" "\<forall>(q, en)\<in>set ?es. entry_inv E q en"
    "dc_memory_usage d = mem ?es"
    using inv by (simp_all add: cache_inv_def Let_def)
  have cap: "lru_cap U c = ?cap" using cap_push [of q en "dc_cache d"] p by simp
  have no: "\<forall>x\<in>set ?es. \<not> eq (fst x) q" using f by (simp add: l_find_None)
  show ?thesis
  proof (cases "length ?es < ?cap")
    case True
    then have "lru_iter U c = (q, en) # ?es" "out = None"
      using push_absent [OF f es(2), of en] p by (simp_all add: l_insert_def)
    then show ?thesis
      using True es no en cap by simp
  next
    case False
    then have ne: "?es \<noteq> []" using es(2) by auto
    then obtain q' ev where last: "last ?es = (q', ev)" by fastforce
    have c: "lru_iter U c = (q, en) # butlast ?es" "out = Some (q', ev)"
      using False push_absent [OF f es(2), of en] p last by (simp_all add: l_insert_def)
    have split: "?es = butlast ?es @ [(q', ev)]"
      using ne last by (metis append_butlast_last_id)
    have "mem ?es = mem (butlast ?es) + en_memory_usage ev"
      by (subst split) simp
    moreover have b: "\<forall>(q, en)\<in>set (butlast ?es). entry_inv E q en"
      using es(4) in_set_butlastD by fastforce
    moreover have "keys_ok eq (butlast ?es)"
      using keys_ok_take [OF es(1)] by (simp add: butlast_conv_take)
    moreover have "\<forall>x\<in>set (butlast ?es). \<not> eq (fst x) q"
      using no in_set_butlastD by fastforce
    ultimately show ?thesis
      using c es(3,5) en cap ne mem_nonneg [OF b] entry_mem_nonneg [OF en]
      by (auto simp: saturating_sub_def Suc_le_eq)
  qed
qed

text \<open>The map before eviction: the new entry comes first and the counter is right.\<close>

definition inserted :: "query \<Rightarrow> dns_response \<Rightarrow> instant \<Rightarrow> 'c \<Rightarrow> bool" where
  "inserted q r t c \<longleftrightarrow>
     keys_ok eq (lru_iter U c) \<and> 1 \<le> lru_cap U c \<and> length (lru_iter U c) \<le> lru_cap U c \<and>
     (\<forall>(q, en)\<in>set (lru_iter U c). entry_inv E q en) \<and>
     (\<exists>k en es. lru_iter U c = (k, en) # es \<and> eq k q \<and> en_data en = r \<and> en_valid_until en = t \<and>
        en_ttl_reply en = None)"

lemma insert_new:
  assumes inv: "cache_inv E d" and f: "l_find eq q (entries d) = None"
    and q: "q = dr_query r" and en: "en = entry_new E wall r t"
    and p: "lru_push U q en (dc_cache d) = (out, c)"
  shows "inserted q r t c"
proof -
  have cap: "1 \<le> lru_cap U (dc_cache d)" using inv by (simp add: cache_inv_def Let_def)
  have "\<exists>es. lru_iter U c = (q, en) # es"
    using push_absent [OF f cap, of en] p by (simp add: l_insert_def split: if_splits)
  moreover have "entry_inv E q en" by (simp add: q en entry_new_inv)
  ultimately show ?thesis
    using push_inv [OF inv f _ p] cap e_refl [of q] by (auto simp: inserted_def en entry_new_def)
qed

lemma insert_replace:
  assumes inv: "cache_inv E d" and k: "l_find eq q (entries d) = Some (k, prev)"
    and q: "q = dr_query r" and en: "en = (entry_new E wall r t)\<lparr>en_hits := h\<rparr>"
    and c: "c = lru_write U q en (lru_promote U q (dc_cache d))"
  shows "inserted q r t c \<and>
    saturating_sub (dc_memory_usage d) (en_memory_usage prev) + en_memory_usage en = mem (lru_iter U c)"
proof -
  have kq: "eq k q" using l_find_SomeD [OF k] by simp
  have en': "entry_inv E k en"
    using entry_new_inv [of r wall t] e_trans [OF kq] by (auto simp: en q entry_inv_def entry_new_def)
  \<comment> \<open>without a budget, to read off the counter before eviction\<close>
  let ?d = "d\<lparr>dc_memory_limit := 0\<rparr>"
  have "cache_inv E ?d" using inv by (simp add: cache_inv_def Let_def)
  from write_inv [OF this, of q k prev _ en "dc_memory_usage d - en_memory_usage prev + en_memory_usage en"]
  have w: "cache_inv E (?d\<lparr>dc_cache := c,
      dc_memory_usage := dc_memory_usage d - en_memory_usage prev + en_memory_usage en\<rparr>)"
    using k en' c by simp
  have m: "mset (entries d) = add_mset (k, prev) (mset (l_del eq q (entries d)))"
    using mset_l_del [OF _ k] inv by (simp add: cache_inv_def Let_def)
  moreover have "0 \<le> mem (l_del eq q (entries d))"
    using inv by (intro mem_nonneg) (auto simp: cache_inv_def Let_def l_del_def)
  ultimately have "en_memory_usage prev \<le> dc_memory_usage d"
    using mem_add_mset inv by (fastforce simp: cache_inv_def Let_def)
  moreover have "lru_iter U c = (k, en) # l_write eq q en (l_del eq q (entries d))"
    using k kq by (simp add: c iter_write iter_promote l_promote_def) (simp add: l_write_def)
  ultimately show ?thesis
    using w kq by (auto simp: inserted_def cache_inv_def Let_def saturating_sub_def en entry_new_def)
qed

lemma insert_spec:
  assumes inv: "cache_inv E d"
  obtains c usage c' where "inserted (dr_query r) (stored r now ttl g) (now + secs (unat ttl)) c"
    "evict_all U (dc_memory_limit d) (mem (lru_iter U c)) c = (usage, c')"
    "insert_response E wall r now ttl g d = d\<lparr>dc_cache := c', dc_memory_usage := usage\<rparr>"
proof -
  define q where "q = dr_query (stored r now ttl g)"
  define en where "en = entry_new E wall (stored r now ttl g) (now + secs (unat ttl))"
  have q': "dr_query r = q"
    by (simp add: q_def stored_def Let_def dr_query_def with_valid_until_def with_name_server_group_def)
  note ir = insert_response_eq [OF q_def en_def, of d]
  show ?thesis
  proof (cases "lru_peek U q (dc_cache d)")
    case None
    obtain out c where p: "lru_push U q en (dc_cache d) = (out, c)" by fastforce
    have f: "l_find eq q (entries d) = None" using None by (simp add: peek)
    note pi = push_inv [OF inv f _ p]
    have "entry_inv E q en" by (simp add: q_def en_def entry_new_inv)
    obtain usage c' where ev: "evict_all U (dc_memory_limit d) (mem (lru_iter U c)) c = (usage, c')" by fastforce
    have "insert_response E wall r now ttl g d = d\<lparr>dc_cache := c', dc_memory_usage := usage\<rparr>"
      using pi [OF \<open>entry_inv E q en\<close>] ev None p by (cases out) (auto simp: ir Let_def split_beta)
    then show ?thesis
      using that [OF _ ev] insert_new [OF inv f q_def en_def p] by (simp add: q')
  next
    case (Some prev)
    then obtain k where k: "l_find eq q (entries d) = Some (k, prev)" by (auto simp: peek)
    let ?en = "en\<lparr>en_hits := en_hits prev + 1\<rparr>"
    let ?c = "lru_write U q ?en (lru_promote U q (dc_cache d))"
    have r: "inserted q (stored r now ttl g) (now + secs (unat ttl)) ?c"
      "saturating_sub (dc_memory_usage d) (en_memory_usage prev) + en_memory_usage ?en = mem (lru_iter U ?c)"
      using insert_replace [OF inv k q_def _ refl] by (simp_all add: en_def)
    obtain u c' where ev: "evict_all U (dc_memory_limit d) (mem (lru_iter U ?c)) ?c = (u, c')" by fastforce
    have "insert_response E wall r now ttl g d = d\<lparr>dc_cache := c', dc_memory_usage := u\<rparr>"
      using Some r(2) ev by (simp add: ir)
    then show ?thesis
      using that [OF _ ev] r(1) by (simp add: q')
  qed
qed

lemma insert_response_inv:
  assumes inv: "cache_inv E d"
  shows "cache_inv E (insert_response E wall r now ttl g d)"
proof -
  have "0 \<le> dc_memory_limit d" using inv by (simp add: cache_inv_def Let_def)
  with insert_spec [OF inv, of r now ttl g wall] show ?thesis
    using evict_all_inv by (metis inserted_def)
qed

text \<open>An entry that fits the budget on its own is there after it was inserted.\<close>

lemma insert_front:
  assumes inv: "cache_inv E d"
    and fits: "dc_memory_limit d = 0 \<or> measure_memory E (stored r now ttl g) \<le> dc_memory_limit d"
  shows "\<exists>k en es. entries (insert_response E wall r now ttl g d) = (k, en) # es \<and> eq k (dr_query r) \<and>
    en_data en = stored r now ttl g \<and> en_valid_until en = now + secs (unat ttl)"
proof -
  obtain c usage c' where c: "inserted (dr_query r) (stored r now ttl g) (now + secs (unat ttl)) c"
    "evict_all U (dc_memory_limit d) (mem (lru_iter U c)) c = (usage, c')"
    "insert_response E wall r now ttl g d = d\<lparr>dc_cache := c', dc_memory_usage := usage\<rparr>"
    by (rule insert_spec [OF inv, of r now ttl g wall])
  then obtain k en es where it: "lru_iter U c = (k, en) # es" "eq k (dr_query r)"
    "en_data en = stored r now ttl g" "en_valid_until en = now + secs (unat ttl)" "en_ttl_reply en = None"
    and inv': "\<forall>(q, en)\<in>set (lru_iter U c). entry_inv E q en"
    unfolding inserted_def by blast
  have "0 \<le> dc_memory_limit d" using inv by (simp add: cache_inv_def Let_def)
  from evict_spec [OF inv' _ this, of "Suc (length (lru_iter U c))"] c(2)
  obtain j where j: "lru_iter U c' = take j (lru_iter U c)"
    "j < length (lru_iter U c) \<longrightarrow> 0 < dc_memory_limit d \<and> dc_memory_limit d < mem (take (Suc j) (lru_iter U c))"
    unfolding evict_all_def by auto
  have "en_memory_usage en = measure_memory E (stored r now ttl g)"
    using inv' it by (simp add: entry_inv_def)
  then have "j \<noteq> 0" using j(2) fits it(1) by (cases j) auto
  then show ?thesis
    using it j(1) by (cases j) (auto simp: c(3))
qed

section \<open>Lookups\<close>

lemma pop_inv:
  assumes inv: "cache_inv E d" and f: "l_find eq q (entries d) = Some (k, en)"
  shows "lru_pop U q (lru_promote U q (dc_cache d)) =
      (Some en, snd (lru_pop U q (lru_promote U q (dc_cache d)))) \<and>
    cache_inv E (d\<lparr>dc_cache := snd (lru_pop U q (lru_promote U q (dc_cache d))),
      dc_memory_usage := dc_memory_usage d - en_memory_usage en\<rparr>)"
proof -
  let ?p = "l_promote eq q (entries d)"
  have ok: "keys_ok eq (entries d)" using inv by (simp add: cache_inv_def Let_def)
  have f': "l_find eq q ?p = Some (k, en)" using f by (simp add: l_promote_find)
  have m: "mset (entries d) = add_mset (k, en) (mset (l_del eq q ?p))"
    using mset_l_del [OF keys_ok_promote [OF ok] f'] mset_l_promote [OF ok, of q] by simp
  let ?c = "snd (lru_pop U q (lru_promote U q (dc_cache d)))"
  have it: "lru_iter U ?c = l_del eq q ?p" "lru_cap U ?c = lru_cap U (dc_cache d)"
    using pop [of q "lru_promote U q (dc_cache d)"] by (simp_all add: iter_promote cap_pop cap_promote)
  have sub: "set (l_del eq q ?p) \<subseteq> set (entries d)"
    using arg_cong [OF m, of set_mset] by auto
  have "length (l_del eq q ?p) \<le> length (entries d)"
    using arg_cong [OF m, of size] by simp
  moreover have "keys_ok eq (l_del eq q ?p)"
    unfolding l_del_def by (rule keys_ok_filter [OF keys_ok_promote [OF ok]])
  moreover have "mem (entries d) = en_memory_usage en + mem (l_del eq q ?p)"
    by (rule mem_add_mset [OF m])
  moreover have "0 \<le> en_memory_usage en"
    using arg_cong [OF m, of set_mset] inv by (intro entry_mem_nonneg [of E k]) (auto simp: cache_inv_def Let_def)
  moreover have "fst (lru_pop U q (lru_promote U q (dc_cache d))) = Some en"
    using pop [of q "lru_promote U q (dc_cache d)"] f' by (simp add: iter_promote)
  ultimately show ?thesis
    using inv sub it by (auto simp: cache_inv_def Let_def prod_eq_iff)
qed

lemma cache_get_hit:
  fixes d :: "'c dns_cache" and q :: query and en :: cache_entry and ttl :: u32 and wall :: nat
  assumes "lru_peek U q (dc_cache d) = Some en" "servable d now en" "hit_reply d now en = (ttl, status)"
  defines "value \<equiv> (stats_hit wall en)\<lparr>en_reply_ttl := Some ttl\<rparr>"
    and "c \<equiv> lru_promote U q (dc_cache d)"
    and "previous \<equiv> (case en_ttl_reply en of None \<Rightarrow> 0 | Some (_, m) \<Rightarrow> m)"
    and "res \<equiv> adjust_reply (ce_lib E) q ttl (en_data en)"
  defines "value' \<equiv> value\<lparr>en_memory_usage := en_memory_usage en - previous, en_ttl_reply := None\<rparr>"
    and "res' \<equiv> prepare_wire (ce_encode E) res"
  defines "m \<equiv> response_memory E res' + int (ce_size_ttl_reply E)"
  shows "cache_get E wall q now d =
    (case (if en_reply_ttl en = Some ttl then en_ttl_reply en else None) of
       Some (reply, _) \<Rightarrow> (Some (reply, status), d\<lparr>dc_cache := lru_write U q value c\<rparr>)
     | None \<Rightarrow>
         if en_reply_ttl en = Some ttl
         then if dc_memory_limit d = 0 \<or> dc_memory_usage d - previous + m \<le> dc_memory_limit d
              then (Some (res', status),
                d\<lparr>dc_cache := lru_write U q (value'\<lparr>en_memory_usage := en_memory_usage en - previous + m,
                    en_ttl_reply := Some (res', m)\<rparr>) c,
                  dc_memory_usage := dc_memory_usage d - previous + m\<rparr>)
              else (Some (res', status),
                d\<lparr>dc_cache := lru_write U q value' c, dc_memory_usage := dc_memory_usage d - previous\<rparr>)
         else (Some (res, status),
           d\<lparr>dc_cache := lru_write U q value' c, dc_memory_usage := dc_memory_usage d - previous\<rparr>))"
proof -
  have "is_current now (stats_hit wall en) = is_current now en" "entry_ttl now (stats_hit wall en) = entry_ttl now en"
    by (simp_all add: is_current_def entry_ttl_def stats_hit_def)
  then have h: "(if is_current now (stats_hit wall en)
        then (of_nat (as_secs (entry_ttl now (stats_hit wall en))), Valid)
        else (ucast (dc_expired_reply_ttl d), Expired)) = (ttl, status)"
    using assms(3) by (auto simp: hit_reply_def split: if_splits)
  have guard: "\<not> (\<not> is_current now en \<and> (negative_response_ttl (en_data en) \<noteq> None \<or> \<not> dc_serve_expired d \<or>
      dc_expired_ttl d > 0 \<and> now - en_valid_until en > secs (unat (dc_expired_ttl d))))"
    using assms(2) by (auto simp: servable_def)
  have same: "en_reply_ttl (stats_hit wall en) = en_reply_ttl en" "en_ttl_reply (stats_hit wall en) = en_ttl_reply en"
    "en_data (stats_hit wall en) = en_data en" "en_memory_usage (stats_hit wall en) = en_memory_usage en"
    by (simp_all add: stats_hit_def)
  show ?thesis
    unfolding cache_get_def Let_def assms(1) option.case if_not_P [OF guard] h prod.case same
      value_def c_def previous_def res_def value'_def res'_def m_def
    by (simp add: same cong: if_cong option.case_cong)
qed

lemma usage_le_limit: "cache_inv E d \<Longrightarrow> 0 < dc_memory_limit d \<Longrightarrow> dc_memory_usage d \<le> dc_memory_limit d"
  by (simp add: cache_inv_def Let_def)

lemma cache_get_memo:
  assumes "cache_inv E d" and f: "l_find eq q (entries d) = Some (k, en)" and en: "entry_inv E k en" "eq k q"
    and s: "servable d now en" and h: "hit_reply d now en = (ttl, status)"
    and memo: "en_reply_ttl en = Some ttl" "en_ttl_reply en = Some (r, m)"
  shows "\<exists>res en' usage. hit_outcome E d now q k en res en' usage \<and>
    cache_get E wall q now d = (Some (res, status),
      d\<lparr>dc_cache := lru_write U q en' (lru_promote U q (dc_cache d)), dc_memory_usage := usage\<rparr>)"
proof -
  let ?hit = "(stats_hit wall en)\<lparr>en_reply_ttl := Some ttl\<rparr>"
  have "lru_peek U q (dc_cache d) = Some en" using f by (simp add: peek)
  note get = cache_get_hit [OF this s h, of wall]
  obtain q' where q': "eq q' k" "r = prepare_wire (ce_encode E) (adjust_reply (ce_lib E) q' ttl (en_data en))"
    using en(1) memo by (auto simp: entry_inv_def)
  have "eq q' q" using q'(1) en(2) e_trans by blast
  moreover have "entry_inv E k ?hit"
    using en(1) memo by (auto simp: entry_inv_def stats_hit_def)
  ultimately have "hit_outcome E d now q k en r ?hit (dc_memory_usage d)"
    using q'(2) h usage_le_limit [OF assms(1)] by (auto simp: hit_outcome_def stats_hit_def)
  moreover have "cache_get E wall q now d = (Some (r, status),
      d\<lparr>dc_cache := lru_write U q ?hit (lru_promote U q (dc_cache d)), dc_memory_usage := dc_memory_usage d\<rparr>)"
    using memo by (simp add: get)
  ultimately show ?thesis by blast
qed

lemma cache_get_fresh:
  assumes inv: "cache_inv E d" and f: "l_find eq q (entries d) = Some (k, en)" and en: "entry_inv E k en" "eq k q"
    and s: "servable d now en" and h: "hit_reply d now en = (ttl, status)"
    and fresh: "en_reply_ttl en \<noteq> Some ttl \<or> en_ttl_reply en = None"
  shows "\<exists>res en' usage. hit_outcome E d now q k en res en' usage \<and>
    cache_get E wall q now d = (Some (res, status),
      d\<lparr>dc_cache := lru_write U q en' (lru_promote U q (dc_cache d)), dc_memory_usage := usage\<rparr>)"
proof -
  let ?hit = "(stats_hit wall en)\<lparr>en_reply_ttl := Some ttl\<rparr>"
  let ?reply = "adjust_reply (ce_lib E) q ttl (en_data en)"
  let ?res = "prepare_wire (ce_encode E) ?reply"
  let ?m = "response_memory E ?res + int (ce_size_ttl_reply E)"
  obtain previous where prev: "(case en_ttl_reply en of None \<Rightarrow> 0 | Some (_, m) \<Rightarrow> m) = previous"
    "0 \<le> previous" "en_memory_usage en = measure_memory E (en_data en) + previous"
    using en(1) measure_nonneg [of E] by (fastforce simp: entry_inv_def split: option.splits)
  let ?dropped = "?hit\<lparr>en_memory_usage := en_memory_usage en - previous, en_ttl_reply := None\<rparr>"
  let ?memo = "?hit\<lparr>en_memory_usage := en_memory_usage en - previous + ?m, en_ttl_reply := Some (?res, ?m)\<rparr>"
  have "lru_peek U q (dc_cache d) = Some en" using f by (simp add: peek)
  note get = cache_get_hit [OF this s h, of wall, unfolded prev(1)]
  have dropped: "hit_outcome E d now q k en res ?dropped (dc_memory_usage d - previous)"
    if "res = ?reply \<or> res = ?res" for res
    using that en(1) prev h usage_le_limit [OF inv] e_refl [of q]
    by (force simp: hit_outcome_def entry_inv_def stats_hit_def)
  show ?thesis
  proof (cases "en_reply_ttl en = Some ttl")
    case False
    then show ?thesis using dropped [of ?reply] by (auto simp: get)
  next
    case again: True
    then have none: "en_ttl_reply en = None" using fresh by blast
    have memo: "hit_outcome E d now q k en ?res ?memo (dc_memory_usage d - previous + ?m)"
      if "dc_memory_limit d = 0 \<or> dc_memory_usage d - previous + ?m \<le> dc_memory_limit d"
      using that en prev none h e_sym [OF en(2)] e_refl [of q]
      by (auto simp: hit_outcome_def entry_inv_def stats_hit_def)
    show ?thesis
      using again none memo dropped [of ?res] by (auto simp: get)
  qed
qed

lemma cache_get_cases:
  assumes inv: "cache_inv E d"
  shows "(l_find eq q (entries d) = None \<and> cache_get E wall q now d = (None, d)) \<or>
    (\<exists>k en. l_find eq q (entries d) = Some (k, en) \<and> entry_inv E k en \<and> eq k q \<and>
       (if servable d now en
        then \<exists>res en' usage. hit_outcome E d now q k en res en' usage \<and>
          cache_get E wall q now d = (Some (res, snd (hit_reply d now en)),
            d\<lparr>dc_cache := lru_write U q en' (lru_promote U q (dc_cache d)), dc_memory_usage := usage\<rparr>)
        else cache_get E wall q now d =
          (None, d\<lparr>dc_cache := snd (lru_pop U q (lru_promote U q (dc_cache d))),
             dc_memory_usage := dc_memory_usage d - en_memory_usage en\<rparr>)))"
proof (cases "l_find eq q (entries d)")
  case None
  then show ?thesis by (simp add: cache_get_def Let_def peek)
next
  case (Some p)
  obtain k en where p: "p = (k, en)" by (cases p)
  have f: "l_find eq q (entries d) = Some (k, en)" using Some p by simp
  have en: "entry_inv E k en" "eq k q"
    using l_find_SomeD [OF f] inv by (auto simp: cache_inv_def Let_def)
  have pk: "lru_peek U q (dc_cache d) = Some en" using f by (simp add: peek)
  show ?thesis
  proof (cases "servable d now en")
    case False
    then have "cache_get E wall q now d =
        (case lru_pop U q (lru_promote U q (dc_cache d)) of
           (Some removed, c) \<Rightarrow>
             (None, d\<lparr>dc_cache := c, dc_memory_usage := dc_memory_usage d - en_memory_usage removed\<rparr>)
         | (None, c) \<Rightarrow> (None, d\<lparr>dc_cache := c\<rparr>))"
      using pk by (auto simp: cache_get_def Let_def servable_def not_le)
    then show ?thesis
      using f en False conjunct1 [OF pop_inv [OF inv f]]
      by (cases "lru_pop U q (lru_promote U q (dc_cache d))") simp
  next
    case True
    obtain ttl status where h: "hit_reply d now en = (ttl, status)" by fastforce
    have "\<exists>res en' usage. hit_outcome E d now q k en res en' usage \<and>
      cache_get E wall q now d = (Some (res, status),
        d\<lparr>dc_cache := lru_write U q en' (lru_promote U q (dc_cache d)), dc_memory_usage := usage\<rparr>)"
      using cache_get_memo [OF inv f en True h] cache_get_fresh [OF inv f en True h]
      by (cases "en_ttl_reply en") fastforce+
    then show ?thesis
      using f en True h by auto
  qed
qed

lemma cache_get_inv:
  assumes inv: "cache_inv E d"
  shows "cache_inv E (snd (cache_get E wall q now d))"
  using cache_get_cases [OF inv, of q wall now]
proof (elim disjE exE conjE)
  fix k en
  assume f: "l_find eq q (entries d) = Some (k, en)"
    and r: "if servable d now en
        then \<exists>res en' usage. hit_outcome E d now q k en res en' usage \<and>
          cache_get E wall q now d = (Some (res, snd (hit_reply d now en)),
            d\<lparr>dc_cache := lru_write U q en' (lru_promote U q (dc_cache d)), dc_memory_usage := usage\<rparr>)
        else cache_get E wall q now d =
          (None, d\<lparr>dc_cache := snd (lru_pop U q (lru_promote U q (dc_cache d))),
             dc_memory_usage := dc_memory_usage d - en_memory_usage en\<rparr>)"
  show ?thesis
  proof (cases "servable d now en")
    case True
    with r obtain res en' usage where o: "hit_outcome E d now q k en res en' usage"
      "snd (cache_get E wall q now d) =
         d\<lparr>dc_cache := lru_write U q en' (lru_promote U q (dc_cache d)), dc_memory_usage := usage\<rparr>"
      by auto
    show ?thesis
      unfolding o(2) using o(1) by (intro write_inv [OF inv f]) (auto simp: hit_outcome_def)
  next
    case False
    then show ?thesis using r pop_inv [OF inv f] by simp
  qed
qed (use inv in simp)

section \<open>Prefetching\<close>

text \<open>\<open>get_expired\<close> marks exactly the entries that it returns.\<close>

lemma mark_fold:
  assumes "keys_ok eq (xs @ ys)" "lru_iter U c = map (mark_due now t) xs @ ys"
  shows "lru_iter U (fold (\<lambda>(q, en) c. if prefetch_step now t q en = Due
        then lru_write U q (en\<lparr>en_is_in_prefetching := True\<rparr>) c else c) ys c) = map (mark_due now t) (xs @ ys) \<and>
    lru_cap U (fold (\<lambda>(q, en) c. if prefetch_step now t q en = Due
        then lru_write U q (en\<lparr>en_is_in_prefetching := True\<rparr>) c else c) ys c) = lru_cap U c"
  using assms
proof (induction ys arbitrary: xs c)
  case (Cons y ys)
  obtain q en where y: "y = (q, en)" by (cases y)
  let ?c = "if prefetch_step now t q en = Due then lru_write U q (en\<lparr>en_is_in_prefetching := True\<rparr>) c else c"
  have ne: "\<not> eq (fst z) q" if "z \<in> set xs \<union> set ys" for z
    using Cons.prems(1) that by (auto simp: y keys_ok_append dest: e_sym)
  have "map (\<lambda>(k, v). if eq k q then (k, w) else (k, v)) (map (mark_due now t) xs) = map (mark_due now t) xs"
    "map (\<lambda>(k, v). if eq k q then (k, w) else (k, v)) ys = ys" for w
    using ne by (auto simp: mark_due_def split_beta intro!: map_idI) blast+
  then have "lru_iter U ?c = map (mark_due now t) (xs @ [y]) @ ys"
    using Cons.prems(2) e_refl by (simp add: y mark_due_def iter_write l_write_def)
  then show ?case
    using Cons.IH [of "xs @ [y]" ?c] Cons.prems(1) by (simp add: y cap_write)
qed simp

lemma iter_mark:
  "keys_ok eq (lru_iter U c) \<Longrightarrow>
   lru_iter U (mark_prefetching U now t c) = map (mark_due now t) (lru_iter U c) \<and>
   lru_cap U (mark_prefetching U now t c) = lru_cap U c"
  using mark_fold [of "[]" "lru_iter U c" c now t] by (simp add: mark_prefetching_def)

lemma entry_inv_mark: "entry_inv E q (en\<lparr>en_is_in_prefetching := b\<rparr>) = entry_inv E q en"
  by (cases "en_ttl_reply en") (simp_all add: entry_inv_def)

lemma get_expired_inv:
  assumes inv: "cache_inv E d"
  shows "cache_inv E (snd (get_expired E now ahead d))"
proof (cases "entries d = []")
  case False
  let ?t = "check_time d now ahead"
  have ok: "keys_ok eq (entries d)" using inv by (simp add: cache_inv_def Let_def)
  note it = iter_mark [OF ok, of now ?t]
  have "keys_ok eq (map (mark_due now ?t) (entries d))"
    by (rule keys_ok_map_fst [OF _ ok]) (simp add: mark_due_def split_beta)
  moreover have "mem (map (mark_due now ?t) (entries d)) = mem (entries d)"
    by (rule arg_cong [of _ _ sum_list]) (simp add: mark_due_def split_beta)
  moreover have "\<forall>(q, en)\<in>set (map (mark_due now ?t) (entries d)). entry_inv E q en"
    using inv by (auto simp: cache_inv_def Let_def mark_due_def split_beta entry_inv_mark)
  ultimately show ?thesis
    using False inv it by (auto simp: get_expired_def Let_def split_beta cache_inv_def)
qed (use inv in \<open>simp add: get_expired_def Let_def\<close>)

section \<open>Loading a file\<close>

lemma entry_inv_key:
  assumes "eq k q" "entry_inv E q en"
  shows "entry_inv E k en"
proof -
  have "eq k x" if "eq q x" for x by (rule e_trans [OF assms(1) that])
  moreover have "eq x k" if "eq x q" for x by (rule e_trans [OF that e_sym [OF assms(1)]])
  ultimately show ?thesis
    using assms(2) by (cases "en_ttl_reply en"; force simp: entry_inv_def)
qed

lemma put_inv:
  assumes "keys_ok eq (lru_iter U c)" "1 \<le> lru_cap U c" "length (lru_iter U c) \<le> lru_cap U c"
    and "\<forall>(q, en)\<in>set (lru_iter U c). entry_inv E q en" and en: "entry_inv E q en"
  shows "keys_ok eq (lru_iter U (snd (lru_put U q en c))) \<and>
    length (lru_iter U (snd (lru_put U q en c))) \<le> lru_cap U c \<and>
    (\<forall>(q, en)\<in>set (lru_iter U (snd (lru_put U q en c))). entry_inv E q en)"
proof (cases "l_find eq q (lru_iter U c)")
  case (Some p)
  have p: "p \<in> set (lru_iter U c)" "eq (fst p) q" using l_find_SomeD [OF Some] by auto
  have "length (l_del eq q (lru_iter U c)) < length (lru_iter U c)"
    using p by (auto simp: l_del_def split_beta intro: length_filter_less)
  moreover have "\<not> eq (fst z) (fst p)" if "z \<in> set (l_del eq q (lru_iter U c))" for z
    using that p(2) e_trans by (auto simp: l_del_set)
  moreover have "entry_inv E (fst p) en"
    by (rule entry_inv_key [OF p(2) en])
  ultimately show ?thesis
    using assms put [OF assms(2), of q en] Some
    by (auto simp: l_del_set) (auto simp: l_del_def keys_ok_filter)
next
  case None
  then have no: "\<forall>x\<in>set (lru_iter U c). \<not> eq (fst x) q" by (simp add: l_find_None)
  have "keys_ok eq (butlast (lru_iter U c))"
    using keys_ok_take [OF assms(1)] by (simp add: butlast_conv_take)
  then show ?thesis
    using assms put [OF assms(2), of q en] None no
    by (auto simp: l_insert_def dest: in_set_butlastD)
qed

lemma load_entries_inv:
  assumes "keys_ok eq (lru_iter U c)" "1 \<le> lru_cap U c" "length (lru_iter U c) \<le> lru_cap U c"
    and "\<forall>(q, en)\<in>set (lru_iter U c). entry_inv E q en"
    and "\<forall>en\<in>set es. entry_inv E (dr_query (en_data en)) en"
  shows "keys_ok eq (lru_iter U (load_entries U es c)) \<and>
    lru_cap U (load_entries U es c) = lru_cap U c \<and>
    length (lru_iter U (load_entries U es c)) \<le> lru_cap U c \<and>
    (\<forall>(q, en)\<in>set (lru_iter U (load_entries U es c)). entry_inv E q en)"
  using assms
proof (induction es arbitrary: c)
  case (Cons en es)
  let ?c = "snd (lru_put U (dr_query (en_data en)) en c)"
  have "entry_inv E (dr_query (en_data en)) en" using Cons.prems(5) by simp
  from put_inv [OF Cons.prems(1-4) this] Cons.IH [of ?c] Cons.prems(2,5)
  show ?case by (simp add: load_entries_def cap_put)
qed (simp add: load_entries_def)

lemma startup_load_inv:
  assumes inv: "cache_inv E d" and es: "\<forall>en\<in>set es. entry_inv E (dr_query (en_data en)) en"
  shows "cache_inv E (startup_load E es d)"
proof -
  let ?c = "load_entries U es (dc_cache d)"
  have d: "1 \<le> lru_cap U (dc_cache d)" "0 \<le> dc_memory_limit d"
    using inv by (simp_all add: cache_inv_def Let_def)
  have l: "keys_ok eq (lru_iter U ?c) \<and> lru_cap U ?c = lru_cap U (dc_cache d) \<and>
    length (lru_iter U ?c) \<le> lru_cap U (dc_cache d) \<and> (\<forall>(q, en)\<in>set (lru_iter U ?c). entry_inv E q en)"
    using inv by (intro load_entries_inv es) (auto simp: cache_inv_def Let_def)
  obtain usage c' where ev: "evict_all U (dc_memory_limit d) (mem (lru_iter U ?c)) ?c = (usage, c')" by fastforce
  then show ?thesis
    using evict_all_inv [OF _ _ _ _ d(2) ev] l d(1) by (auto simp: startup_load_def Let_def)
qed

section \<open>Prefetch lists\<close>

lemma scan_append:
  "fst (prefetch_scan now t es m) =
     map (\<lambda>(q, en). (q, en_hits en, dr_group (en_data en))) (filter (\<lambda>(q, en). prefetch_step now t q en = Due) es)"
  by (induction es arbitrary: m) (auto split: prefetch_verdict.split simp: split_beta)

lemma step_mark_due: "prefetch_step now t (fst (mark_due now t x)) (snd (mark_due now t x)) \<noteq> Due"
  by (auto simp: mark_due_def prefetch_step_def split_beta)

lemma get_expired_twice:
  assumes inv: "cache_inv E d" and g: "get_expired E now ahead d = ((ex, next), d')"
  shows "fst (fst (get_expired E now ahead d')) = []"
proof (cases "entries d = []")
  case False
  let ?t = "check_time d now ahead"
  have ok: "keys_ok eq (entries d)" using inv by (simp add: cache_inv_def Let_def)
  have d': "d' = d\<lparr>dc_cache := mark_prefetching U now ?t (dc_cache d)\<rparr>"
    using g False by (auto simp: get_expired_def Let_def split_beta)
  then have "entries d' = map (mark_due now ?t) (entries d)" "check_time d' now ahead = ?t"
    using iter_mark [OF ok] by (simp_all add: check_time_def)
  moreover have "filter (\<lambda>(q, en). prefetch_step now ?t q en = Due) (map (mark_due now ?t) (entries d)) = []"
    using step_mark_due by (simp add: filter_empty_conv split_beta)
  ultimately show ?thesis
    by (simp add: get_expired_def Let_def split_beta scan_append sort_by_def)
qed (use g in \<open>auto simp: get_expired_def Let_def\<close>)

end

section \<open>The instances\<close>

definition std_env :: "(nat \<times> (query \<times> cache_entry) list) cache_env" where
  "std_env =
     \<lparr>ce_lru = list_lru (q_eq std_lib), ce_lib = std_lib,
      ce_encode = (\<lambda>m. Some (replicate (12 + 16 * length (msg_answers m)) 0)),
      ce_name_len = (\<lambda>n. length (concat (nm_labels n)) + length (nm_labels n)),
      ce_size_entry = 300, ce_size_query = 100, ce_size_record = 250, ce_size_message = 200,
      ce_size_ttl_reply = 250\<rparr>"

interpretation qk: key_equality "q_eq std_lib"
  by (rule std.q_eq_key)

interpretation ll: lru_library "q_eq std_lib" "list_lru (q_eq std_lib) :: (nat \<times> (query \<times> cache_entry) list, query, cache_entry) lru_lib"
  by (rule list_lru_library [OF std.q_eq_key])

interpretation sc: cache_store std_env
proof (rule cache_store.intro)
  show "lru_library (q_eq (ce_lib std_env)) (ce_lru std_env)"
    by (simp add: std_env_def ll.lru_library_axioms)
qed

end
