(* ===== verification/Cache_Codec.thy ===== *)
theory Cache_Codec
  imports Cache_Laws "HOL-Library.Sublist"
begin

text \<open>
  The file that the DNS cache is saved to and loaded from (\<^verbatim>\<open>src/src/dns_mw_cache.rs\<close>, from
  \<open>BinEncodable for DnsCacheEntry\<close> on). \<open>BinEncoder\<close> and \<open>BinDecoder\<close> come from the DNS library:
  their operations are the fields of \<open>bin_lib\<close> and the locale \<open>bin_library\<close> states that a decoder
  reads back what an encoder has written at the same position of the buffer. An encoder is its
  buffer, a decoder is the data and its index. Wall clock times are seconds since the epoch.
\<close>

section \<open>The encoder and decoder\<close>

record bin_lib =
  emit_u8 :: "u8 \<Rightarrow> bytes \<Rightarrow> bytes option"
  emit_u16 :: "u16 \<Rightarrow> bytes \<Rightarrow> bytes option"
  emit_u32 :: "u32 \<Rightarrow> bytes \<Rightarrow> bytes option"
  emit_vec :: "bytes \<Rightarrow> bytes \<Rightarrow> bytes option"
  emit_message :: "message \<Rightarrow> bytes \<Rightarrow> bytes option"
  read_u8 :: "bytes \<Rightarrow> nat \<Rightarrow> (u8 \<times> nat) option"
  read_u16 :: "bytes \<Rightarrow> nat \<Rightarrow> (u16 \<times> nat) option"
  read_u32 :: "bytes \<Rightarrow> nat \<Rightarrow> (u32 \<times> nat) option"
  read_slice :: "nat \<Rightarrow> bytes \<Rightarrow> nat \<Rightarrow> (bytes \<times> nat) option"
  read_message :: "bytes \<Rightarrow> nat \<Rightarrow> (message \<times> nat) option"

text \<open>The buffer \<open>b'\<close> extends \<open>b\<close>, and \<open>g\<close> reads \<open>v\<close> at the end of \<open>b\<close>, up to the end of \<open>b'\<close>.\<close>

definition reads_back :: "bytes \<Rightarrow> bytes \<Rightarrow> (bytes \<Rightarrow> nat \<Rightarrow> ('v \<times> nat) option) \<Rightarrow> 'v \<Rightarrow> bool" where
  "reads_back b b' g v \<longleftrightarrow>
     (\<exists>w. b' = b @ w) \<and> (\<forall>rest. g (b' @ rest) (length b) = Some (v, length b'))"

locale bin_library =
  fixes B :: bin_lib
  assumes u8_back: "emit_u8 B x b = Some b' \<Longrightarrow> reads_back b b' (read_u8 B) x"
    and u16_back: "emit_u16 B y b = Some b' \<Longrightarrow> reads_back b b' (read_u16 B) y"
    and u32_back: "emit_u32 B z b = Some b' \<Longrightarrow> reads_back b b' (read_u32 B) z"
    and vec_back: "emit_vec B v b = Some b' \<Longrightarrow> reads_back b b' (read_slice B (length v)) v"
    and message_back: "emit_message B m b = Some b' \<Longrightarrow> reads_back b b' (read_message B) m"
    and u8_moves: "read_u8 B d i = Some (x, j) \<Longrightarrow> i < j"
    and u16_moves: "read_u16 B d i = Some (y, j) \<Longrightarrow> i < j"
    and u32_moves: "read_u32 B d i = Some (z, j) \<Longrightarrow> i < j"
    and slice_moves: "read_slice B n d i = Some (v, j) \<Longrightarrow> i \<le> j"
    and message_moves: "read_message B d i = Some (m, j) \<Longrightarrow> i \<le> j"

section \<open>UTF-8\<close>

text \<open>The well-formed byte sequences, as \<open>String::from_utf8\<close> accepts them.\<close>

definition cont :: "u8 \<Rightarrow> bool" where
  "cont b \<longleftrightarrow> 0x80 \<le> b \<and> b \<le> 0xBF"

fun utf8_ok :: "bytes \<Rightarrow> bool" where
  "utf8_ok [] \<longleftrightarrow> True"
| "utf8_ok (a # bs) \<longleftrightarrow>
     (if a < 0x80 then utf8_ok bs
      else case bs of
        [] \<Rightarrow> False
      | b # cs \<Rightarrow>
          if 0xC2 \<le> a \<and> a \<le> 0xDF then cont b \<and> utf8_ok cs
          else case cs of
            [] \<Rightarrow> False
          | c # ds \<Rightarrow>
              if 0xE0 \<le> a \<and> a \<le> 0xEF
              then cont b \<and> cont c \<and> (a = 0xE0 \<longrightarrow> 0xA0 \<le> b) \<and> (a = 0xED \<longrightarrow> b \<le> 0x9F) \<and> utf8_ok ds
              else case ds of
                [] \<Rightarrow> False
              | d # es \<Rightarrow>
                  0xF0 \<le> a \<and> a \<le> 0xF4 \<and> cont b \<and> cont c \<and> cont d \<and>
                  (a = 0xF0 \<longrightarrow> 0x90 \<le> b) \<and> (a = 0xF4 \<longrightarrow> b \<le> 0x8F) \<and> utf8_ok es)"

text \<open>A \<open>String\<close> is the sequence of its bytes.\<close>

definition str_bytes :: "string \<Rightarrow> bytes" where
  "str_bytes s = map (\<lambda>c. of_nat (of_char c)) s"

definition from_utf8 :: "bytes \<Rightarrow> string option" where
  "from_utf8 bs = (if utf8_ok bs then Some (map (\<lambda>b. char_of (unat b)) bs) else None)"

lemma length_str_bytes [simp]: "length (str_bytes s) = length s"
  by (simp add: str_bytes_def)

lemma from_utf8_str_bytes: "utf8_ok (str_bytes s) \<Longrightarrow> from_utf8 (str_bytes s) = Some s"
proof -
  have "char_of (unat (of_nat (of_char c) :: u8)) = c" for c :: char
    by (simp add: unat_of_nat)
  then show "utf8_ok (str_bytes s) \<Longrightarrow> from_utf8 (str_bytes s) = Some s"
    by (simp add: from_utf8_def str_bytes_def comp_def map_idI)
qed

section \<open>Entries\<close>

text \<open>\<open>expires\<close> in \<open>emit\<close>: the wall clock second at which the entry expires.\<close>

definition expires_at :: "nat \<Rightarrow> instant \<Rightarrow> instant \<Rightarrow> u64" where
  "expires_at wall_now now valid_until =
     (if valid_until > now
      then of_nat (min (wall_now + as_secs (valid_until - now)) (2 ^ 64 - 1))
      else of_nat (wall_now - as_secs (now - valid_until)))"

fun probe_code :: "probe_result \<Rightarrow> u8 \<times> u32" where
  "probe_code Unchecked = (0, 0)"
| "probe_code Failed = (1, 0)"
| "probe_code (Measured d) = (2, of_nat (min (d div 1000) (2 ^ 32 - 1)))"

definition then_emit :: "bytes option \<Rightarrow> (bytes \<Rightarrow> bytes option) \<Rightarrow> bytes option" where
  "then_emit x f = (case x of None \<Rightarrow> None | Some b \<Rightarrow> f b)"

definition emit :: "bin_lib \<Rightarrow> nat \<Rightarrow> instant \<Rightarrow> cache_entry \<Rightarrow> bytes \<Rightarrow> bytes option" where
  "emit B wall_now now en b =
     (let res = en_data en;
          b = emit_u8 B 1 b;
          b = then_emit b (emit_message B (dr_message res));
          b = then_emit b (emit_u8 B 5);
          expires = expires_at wall_now now (en_valid_until en);
          b = then_emit b (emit_u32 B (ucast (drop_bit 32 expires)));
          b = then_emit b (emit_u32 B (ucast expires));
          b = then_emit b (emit_u8 B 3);
          b = (case dr_group res of
                 Some g \<Rightarrow> then_emit (then_emit b (emit_u16 B (of_nat (length (str_bytes g))))) (emit_vec B (str_bytes g))
               | None \<Rightarrow> then_emit b (emit_u16 B 0));
          b = then_emit b (emit_u8 B 6);
          (kind, micros) = probe_code (dr_probe res);
          b = then_emit b (emit_u8 B kind);
          b = then_emit b (emit_u32 B micros);
          b = then_emit b (emit_u8 B 4)
      in then_emit b (emit_u32 B (of_nat (en_hits en))))"

definition then_read :: "('a \<times> nat) option \<Rightarrow> ('a \<Rightarrow> nat \<Rightarrow> 'b option) \<Rightarrow> 'b option" where
  "then_read x f = (case x of None \<Rightarrow> None | Some (v, i) \<Rightarrow> f v i)"

definition read_expiry :: "bin_lib \<Rightarrow> nat \<Rightarrow> instant \<Rightarrow> bytes \<Rightarrow> nat \<Rightarrow> (instant \<times> nat) option" where
  "read_expiry B wall_now now d i =
     then_read (read_u8 B d i) (\<lambda>tag i.
       if tag = 2
       then then_read (read_u32 B d i) (\<lambda>t i. Some (now + secs (unat t), i))
       else if tag = 5
       then then_read (read_u32 B d i) (\<lambda>hi i. then_read (read_u32 B d i) (\<lambda>lo i.
              let expires = unat (Bit_Operations.or (push_bit 32 (ucast hi :: u64)) (ucast lo))
              in if expires > wall_now
                 then Some (now + secs (expires - wall_now), i)
                 else Some (unwrap_or (checked_sub now (secs (wall_now - expires))) now, i)))
       else None)"

definition read_group :: "bin_lib \<Rightarrow> bytes \<Rightarrow> nat \<Rightarrow> (string option \<times> nat) option" where
  "read_group B d i =
     then_read (read_u8 B d i) (\<lambda>tag i.
       if tag \<noteq> 3 then None
       else then_read (read_u16 B d i) (\<lambda>n i.
         if n > 0
         then then_read (read_slice B (unat n) d i) (\<lambda>bs i. Some (from_utf8 bs, i))
         else Some (None, i)))"

definition read_probe :: "bin_lib \<Rightarrow> bytes \<Rightarrow> nat \<Rightarrow> ((u8 \<times> probe_result) \<times> nat) option" where
  "read_probe B d i =
     then_read (read_u8 B d i) (\<lambda>field i.
       if field = 6
       then then_read (read_u8 B d i) (\<lambda>kind i. then_read (read_u32 B d i) (\<lambda>micros i.
              then_read (if kind = 0 then Some (Unchecked, i)
                         else if kind = 1 then Some (Failed, i)
                         else if kind = 2 then Some (Measured (unat micros * 1000), i)
                         else None) (\<lambda>probe i.
              then_read (read_u8 B d i) (\<lambda>field i. Some ((field, probe), i)))))
       else Some ((field, Unchecked), i))"

text \<open>\<open>read\<close>: an entry and the index after it. \<open>wall\<close> is the wall clock of \<open>DnsCacheStats::new\<close>.\<close>

definition read_entry ::
  "bin_lib \<Rightarrow> 'c cache_env \<Rightarrow> nat \<Rightarrow> nat \<Rightarrow> instant \<Rightarrow> bytes \<Rightarrow> nat \<Rightarrow> (cache_entry \<times> nat) option" where
  "read_entry B E wall wall_now now d i =
     then_read (read_u8 B d i) (\<lambda>tag i.
       if tag \<noteq> 1 then None
       else then_read (read_message B d i) (\<lambda>message i.
         then_read (read_expiry B wall_now now d i) (\<lambda>valid_until i.
         then_read (read_group B d i) (\<lambda>group_name i.
         then_read (read_probe B d i) (\<lambda>(field, probe) i.
         if field \<noteq> 4 then None
         else then_read (read_u32 B d i) (\<lambda>hits i.
           let res = with_probe_result probe (with_valid_until valid_until (from_message now message));
               res = (case group_name of Some g \<Rightarrow> with_name_server_group g res | None \<Rightarrow> res);
               entry = (entry_new E wall res valid_until)\<lparr>en_hits := unat hits\<rparr>
           in Some (entry, i)))))))"

text \<open>\<open>serialize_many\<close>: each entry is written with a fresh encoder; one that does not encode is left
  out.\<close>

definition serialize_many :: "bin_lib \<Rightarrow> nat \<Rightarrow> instant \<Rightarrow> cache_entry list \<Rightarrow> bytes" where
  "serialize_many B wall_now now entries =
     concat (List.map_filter (\<lambda>en. emit B wall_now now en []) entries)"

text \<open>\<open>deserialize_many\<close>. A turn of the loop reads at least the tag of an entry, so the number of
  bytes is enough fuel; \<open>None\<close> is the error of \<open>read\<close>.\<close>

fun deserialize_loop ::
  "bin_lib \<Rightarrow> 'c cache_env \<Rightarrow> nat \<Rightarrow> nat \<Rightarrow> instant \<Rightarrow> nat \<Rightarrow> bytes \<Rightarrow> cache_entry list option" where
  "deserialize_loop B E wall wall_now now n [] = Some []"
| "deserialize_loop B E wall wall_now now 0 data = None"
| "deserialize_loop B E wall wall_now now (Suc n) data =
     (case read_entry B E wall wall_now now data 0 of
        None \<Rightarrow> None
      | Some (en, i) \<Rightarrow> map_option ((#) en) (deserialize_loop B E wall wall_now now n (drop i data)))"

definition deserialize_many ::
  "bin_lib \<Rightarrow> 'c cache_env \<Rightarrow> nat \<Rightarrow> nat \<Rightarrow> instant \<Rightarrow> bytes \<Rightarrow> cache_entry list option" where
  "deserialize_many B E wall wall_now now data =
     deserialize_loop B E wall wall_now now (length data) data"

text \<open>What \<open>persist\<close> and the periodic checkpoint write, and what \<open>load\<close> does with a file's bytes.\<close>

definition persist :: "bin_lib \<Rightarrow> 'c cache_env \<Rightarrow> nat \<Rightarrow> instant \<Rightarrow> 'c \<Rightarrow> bytes" where
  "persist B E wall_now now c = serialize_many B wall_now now (map snd (lru_iter (ce_lru E) c))"

definition load :: "bin_lib \<Rightarrow> 'c cache_env \<Rightarrow> nat \<Rightarrow> nat \<Rightarrow> instant \<Rightarrow> bytes \<Rightarrow> 'c \<Rightarrow> 'c" where
  "load B E wall wall_now now data c =
     (case deserialize_many B E wall wall_now now data of
        Some es \<Rightarrow> load_entries (ce_lru E) es c
      | None \<Rightarrow> c)"

text \<open>The start-up task of the middleware on a file.\<close>

definition startup :: "bin_lib \<Rightarrow> 'c cache_env \<Rightarrow> nat \<Rightarrow> nat \<Rightarrow> instant \<Rightarrow> bytes \<Rightarrow> 'c dns_cache \<Rightarrow> 'c dns_cache" where
  "startup B E wall wall_now now data d =
     startup_load E (unwrap_or (deserialize_many B E wall wall_now now data) []) d"

lemma startup_loads:
  "dc_memory_limit d = 0 \<Longrightarrow>
   dc_cache (startup B E wall wall_now now data d) = load B E wall wall_now now data (dc_cache d)"
  by (simp add: startup_def startup_load_def load_def Let_def evict_all_def load_entries_def unwrap_or_def
      split: option.split)

section \<open>Round trips\<close>

text \<open>The entry that a saved one is read back as.\<close>

definition restored_probe :: "probe_result \<Rightarrow> probe_result" where
  "restored_probe p =
     (case p of Measured d \<Rightarrow> Measured (min (d div 1000) (2 ^ 32 - 1) * 1000) | _ \<Rightarrow> p)"

definition restored_until :: "nat \<Rightarrow> instant \<Rightarrow> nat \<Rightarrow> instant \<Rightarrow> instant \<Rightarrow> instant" where
  "restored_until wall now wall' now' t =
     (let e = unat (expires_at wall now t)
      in if e > wall' then now' + secs (e - wall')
         else unwrap_or (checked_sub now' (secs (wall' - e))) now')"

definition restored ::
  "'c cache_env \<Rightarrow> nat \<Rightarrow> nat \<Rightarrow> instant \<Rightarrow> nat \<Rightarrow> instant \<Rightarrow> cache_entry \<Rightarrow> cache_entry" where
  "restored E w wall now wall' now' en =
     (let t = restored_until wall now wall' now' (en_valid_until en)
      in (entry_new E w
           ((from_message now' (dr_message (en_data en)))
              \<lparr>dr_valid_until := t, dr_group := dr_group (en_data en),
               dr_probe := restored_probe (dr_probe (en_data en))\<rparr>) t)
         \<lparr>en_hits := en_hits en\<rparr>)"

text \<open>Entries whose fields fit the widths of the file format.\<close>

definition storable :: "cache_entry \<Rightarrow> bool" where
  "storable en \<longleftrightarrow>
     en_hits en < 2 ^ 32 \<and>
     (case dr_group (en_data en) of
        None \<Rightarrow> True | Some g \<Rightarrow> g \<noteq> [] \<and> length g < 2 ^ 16 \<and> utf8_ok (str_bytes g))"

lemma then_emit_Some: "then_emit x f = Some b' \<longleftrightarrow> (\<exists>b. x = Some b \<and> f b = Some b')"
  by (simp add: then_emit_def split: option.split)

lemma then_read_Some: "then_read x f = Some r \<longleftrightarrow> (\<exists>v i. x = Some (v, i) \<and> f v i = Some r)"
  by (auto simp: then_read_def split: option.split)

lemma then_read_simp [simp]: "then_read (Some (v, i)) f = f v i"
  by (simp add: then_read_def)

lemma or_halves:
  fixes x :: u64
  shows "Bit_Operations.or (push_bit 32 (ucast (ucast (drop_bit 32 x) :: u32))) (ucast (ucast x :: u32)) = x"
  by (rule bit_word_eqI) (auto simp: bit_simps)

lemma unat_of_nat_small: "n < 2 ^ LENGTH('a) \<Longrightarrow> unat (of_nat n :: 'a::len word) = n"
  by (simp add: unat_of_nat)

lemma read_back_at:
  assumes "reads_back b b' g v" "prefix b' D"
  shows "g D (length b) = Some (v, length b') \<and> prefix b D"
  using assms by (auto simp: reads_back_def prefix_def)

context bin_library begin

lemma group_back:
  assumes g: "case grp of None \<Rightarrow> True | Some g \<Rightarrow> g \<noteq> [] \<and> length g < 2 ^ 16 \<and> utf8_ok (str_bytes g)"
    and tag: "emit_u8 B 3 b = Some b1"
    and e: "(case grp of
               Some g \<Rightarrow> then_emit (emit_u16 B (of_nat (length (str_bytes g))) b1) (emit_vec B (str_bytes g))
             | None \<Rightarrow> emit_u16 B 0 b1) = Some b2"
    and D: "prefix b2 D"
  shows "read_group B D (length b) = Some (grp, length b2) \<and> prefix b D"
proof (cases grp)
  case None
  then have "reads_back b1 b2 (read_u16 B) 0" using e u16_back by simp
  from read_back_at [OF this D] have 1: "read_u16 B D (length b1) = Some (0, length b2)" "prefix b1 D" by auto
  with read_back_at [OF u8_back [OF tag]] show ?thesis
    by (simp add: read_group_def None)
next
  case (Some g)
  with e obtain b' where b': "emit_u16 B (of_nat (length g)) b1 = Some b'" "emit_vec B (str_bytes g) b' = Some b2"
    by (auto simp: then_emit_Some)
  have len: "unat (of_nat (length g) :: u16) = length g" "(0 :: u16) < of_nat (length g)"
    using g Some by (simp_all add: unat_of_nat_small word_less_nat_alt)
  have s: "read_slice B (length g) D (length b') = Some (str_bytes g, length b2)" "prefix b' D"
    using read_back_at [OF vec_back [OF b'(2)] D] by auto
  then have "read_u16 B D (length b1) = Some (of_nat (length g), length b')" "prefix b1 D"
    using read_back_at [OF u16_back [OF b'(1)]] by auto
  with s read_back_at [OF u8_back [OF tag]] g Some len show ?thesis
    by (simp add: read_group_def from_utf8_str_bytes)
qed

lemma probe_back:
  assumes "emit_u8 B 6 b = Some b1" "emit_u8 B (fst (probe_code p)) b1 = Some b2"
    "emit_u32 B (snd (probe_code p)) b2 = Some b3" "emit_u8 B f b3 = Some b4" and D: "prefix b4 D"
  shows "read_probe B D (length b) = Some ((f, restored_probe p), length b4) \<and> prefix b D"
proof -
  have 4: "read_u8 B D (length b3) = Some (f, length b4)" "prefix b3 D"
    using read_back_at [OF u8_back [OF assms(4)] D] by auto
  have 3: "read_u32 B D (length b2) = Some (snd (probe_code p), length b3)" "prefix b2 D"
    using read_back_at [OF u32_back [OF assms(3)] 4(2)] by auto
  have 2: "read_u8 B D (length b1) = Some (fst (probe_code p), length b2)" "prefix b1 D"
    using read_back_at [OF u8_back [OF assms(2)] 3(2)] by auto
  have 1: "read_u8 B D (length b) = Some (6, length b1)" "prefix b D"
    using read_back_at [OF u8_back [OF assms(1)] 2(2)] by auto
  have "unat (of_nat (min (d div 1000) (2 ^ 32 - 1)) :: u32) = min (d div 1000) (2 ^ 32 - 1)" for d
    by (rule unat_of_nat_small) simp
  then show ?thesis
    using 1 2 3 4 by (cases p) (simp_all add: read_probe_def restored_probe_def)
qed

lemma expiry_back:
  fixes x :: u64
  assumes "emit_u8 B 5 b = Some b1" "emit_u32 B (ucast (drop_bit 32 x)) b1 = Some b2"
    "emit_u32 B (ucast x) b2 = Some b3" and D: "prefix b3 D"
  shows "read_expiry B wall' now' D (length b) =
      Some (if unat x > wall' then now' + secs (unat x - wall')
            else unwrap_or (checked_sub now' (secs (wall' - unat x))) now', length b3) \<and> prefix b D"
proof -
  have 3: "read_u32 B D (length b2) = Some (ucast x, length b3)" "prefix b2 D"
    using read_back_at [OF u32_back [OF assms(3)] D] by auto
  have 2: "read_u32 B D (length b1) = Some (ucast (drop_bit 32 x), length b2)" "prefix b1 D"
    using read_back_at [OF u32_back [OF assms(2)] 3(2)] by auto
  have 1: "read_u8 B D (length b) = Some (5, length b1)" "prefix b D"
    using read_back_at [OF u8_back [OF assms(1)] 2(2)] by auto
  show ?thesis
    using 1 2 3 by (simp add: read_expiry_def or_halves Let_def)
qed

text \<open>Reading an entry gives what was saved, and stops where the encoder stopped.\<close>

lemma entry_back:
  assumes "emit B wall now en [] = Some bs" "storable en"
  shows "read_entry B E w wall' now' (bs @ rest) 0 = Some (restored E w wall now wall' now' en, length bs)"
proof -
  let ?x = "expires_at wall now (en_valid_until en)" and ?p = "dr_probe (en_data en)" and ?D = "bs @ rest"
  obtain b1 b2 b3 b4 b5 b6 b7 b8 b9 b10 b11 where e:
    "emit_u8 B 1 [] = Some b1" "emit_message B (dr_message (en_data en)) b1 = Some b2"
    "emit_u8 B 5 b2 = Some b3" "emit_u32 B (ucast (drop_bit 32 ?x)) b3 = Some b4" "emit_u32 B (ucast ?x) b4 = Some b5"
    "emit_u8 B 3 b5 = Some b6"
    "(case dr_group (en_data en) of
        Some g \<Rightarrow> then_emit (emit_u16 B (of_nat (length (str_bytes g))) b6) (emit_vec B (str_bytes g))
      | None \<Rightarrow> emit_u16 B 0 b6) = Some b7"
    "emit_u8 B 6 b7 = Some b8" "emit_u8 B (fst (probe_code ?p)) b8 = Some b9"
    "emit_u32 B (snd (probe_code ?p)) b9 = Some b10" "emit_u8 B 4 b10 = Some b11"
    "emit_u32 B (of_nat (en_hits en)) b11 = Some bs"
    using assms(1)
    by (auto simp: emit_def Let_def split_beta then_emit_Some split: option.splits)
  have s: "unat (of_nat (en_hits en) :: u32) = en_hits en"
    using assms(2) by (simp add: storable_def unat_of_nat_small)
  have r12: "read_u32 B ?D (length b11) = Some (of_nat (en_hits en), length bs)" "prefix b11 ?D"
    using read_back_at [OF u32_back [OF e(12)], of ?D] by auto
  have r8: "read_probe B ?D (length b7) = Some ((4, restored_probe ?p), length b11)" "prefix b7 ?D"
    using probe_back [OF e(8-11) r12(2)] by auto
  have r6: "read_group B ?D (length b5) = Some (dr_group (en_data en), length b7)" "prefix b5 ?D"
    using group_back [OF _ e(6,7) r8(2)] assms(2) by (auto simp: storable_def)
  have r3: "read_expiry B wall' now' ?D (length b2) =
      Some (restored_until wall now wall' now' (en_valid_until en), length b5)" "prefix b2 ?D"
    using expiry_back [OF e(3-5) r6(2), of wall' now'] by (simp_all add: restored_until_def Let_def)
  have r2: "read_message B ?D (length b1) = Some (dr_message (en_data en), length b2)" "prefix b1 ?D"
    using read_back_at [OF message_back [OF e(2)] r3(2)] by auto
  have "read_u8 B ?D 0 = Some (1, length b1)"
    using read_back_at [OF u8_back [OF e(1)] r2(2)] by auto
  then show ?thesis
    using r2(1) r3(1) r6(1) r8(1) r12(1)
    by (simp add: read_entry_def restored_def Let_def s with_probe_result_def with_valid_until_def
        with_name_server_group_def from_message_def split: option.split)
qed

lemma emit_nonempty: "emit B wall now en [] = Some bs \<Longrightarrow> bs \<noteq> []"
proof
  assume "emit B wall now en [] = Some bs" "bs = []"
  then obtain b where "emit_u32 B (of_nat (en_hits en)) b = Some []"
    by (auto simp: emit_def Let_def split_beta then_emit_Some)
  then have "reads_back b [] (read_u32 B) (of_nat (en_hits en))" by (rule u32_back)
  then show False
    using u32_moves [of "[]" "length b"] by (auto simp: reads_back_def)
qed

text \<open>The loop reads every entry of a file, with as many turns as the file has bytes.\<close>

lemma deserialize_back:
  assumes "\<forall>en\<in>set es. storable en" "length (serialize_many B wall now es) \<le> n"
  shows "deserialize_loop B E w wall' now' n (serialize_many B wall now es) =
    Some (map (restored E w wall now wall' now') (filter (\<lambda>en. emit B wall now en [] \<noteq> None) es))"
  using assms
proof (induction es arbitrary: n)
  case (Cons en es)
  show ?case
  proof (cases "emit B wall now en []")
    case None
    then show ?thesis using Cons by (simp add: serialize_many_def map_filter_simps)
  next
    case (Some bs)
    let ?rest = "serialize_many B wall now es"
    have split: "serialize_many B wall now (en # es) = bs @ ?rest"
      using Some by (simp add: serialize_many_def map_filter_simps)
    have ne: "bs \<noteq> []" by (rule emit_nonempty [OF Some])
    then obtain m where n: "n = Suc m" "length ?rest \<le> m"
      using Cons.prems(2) by (cases n; cases bs) (auto simp: split)
    have "read_entry B E w wall' now' (bs @ ?rest) 0 = Some (restored E w wall now wall' now' en, length bs)"
      using entry_back [OF Some] Cons.prems(1) by simp
    moreover obtain x xs where "bs @ ?rest = x # xs" using ne by (cases bs) auto
    ultimately have "deserialize_loop B E w wall' now' n (bs @ ?rest) =
        map_option ((#) (restored E w wall now wall' now' en)) (deserialize_loop B E w wall' now' m ?rest)"
      using n(1) by (metis append_eq_conv_conj deserialize_loop.simps(3) option.case(2) prod.case)
    then show ?thesis
      using Cons.IH [of m] Cons.prems(1) n(2) Some by (simp add: split)
  qed
qed (simp add: serialize_many_def map_filter_simps)

text \<open>Every turn of the loop takes at least a byte, whatever the file holds.\<close>

lemma read_entry_moves: "read_entry B E w wall now d i = Some (en, j) \<Longrightarrow> i < j"
  by (fastforce simp: read_entry_def read_expiry_def read_group_def read_probe_def then_read_Some Let_def
      split: if_splits prod.splits
      dest!: u8_moves u16_moves u32_moves slice_moves message_moves)

lemma deserialize_fuel:
  "length data \<le> n \<Longrightarrow> deserialize_loop B E w wall now n data = deserialize_many B E w wall now data"
proof (induction n arbitrary: data rule: less_induct)
  case (less n)
  show ?case
  proof (cases data)
    case (Cons x xs)
    obtain m where n: "n = Suc m" using less.prems Cons by (cases n) auto
    show ?thesis
    proof (cases "read_entry B E w wall now data 0")
      case (Some r)
      obtain en i where r: "r = (en, i)" by (cases r)
      have "0 < i" using read_entry_moves Some r by blast
      then have l: "length (drop i data) \<le> m" "length (drop i data) \<le> length xs"
        using less.prems by (auto simp: Cons n)
      have "deserialize_loop B E w wall now m (drop i data) = deserialize_loop B E w wall now (length xs) (drop i data)"
        using less.IH [of m] less.IH [of "length xs"] l less.prems by (simp add: n Cons)
      then show ?thesis
        using Some r by (simp add: deserialize_many_def n Cons)
    qed (simp add: deserialize_many_def n Cons)
  qed (simp add: deserialize_many_def)
qed

end

section \<open>An instance\<close>

text \<open>Big-endian integers in a buffer of at most 65535 bytes; the one message it encodes is
  \<open>example_message\<close>.\<close>

definition example_message :: message where
  "example_message =
     \<lparr>msg_rcode = NoError, msg_truncated = False,
      msg_queries = [\<lparr>q_name = ascii_name [''example'', ''com''] True, q_type = RT_A, q_class = 1\<rparr>],
      msg_answers = [\<lparr>rr_name = ascii_name [''example'', ''com''] True, rr_ttl = 60, rr_data = RD_A 0x01020304\<rparr>],
      msg_authorities = [], msg_additionals = []\<rparr>"

definition room :: "bytes \<Rightarrow> bytes \<Rightarrow> bytes option" where
  "room w b = (if length b + length w \<le> 65535 then Some (b @ w) else None)"

definition take_at :: "nat \<Rightarrow> bytes \<Rightarrow> nat \<Rightarrow> (bytes \<times> nat) option" where
  "take_at n d i = (if i + n \<le> length d then Some (take n (drop i d), i + n) else None)"

definition be16 :: "u16 \<Rightarrow> bytes" where
  "be16 y = [ucast (drop_bit 8 y), ucast y]"

definition be32 :: "u32 \<Rightarrow> bytes" where
  "be32 z = [ucast (drop_bit 24 z), ucast (drop_bit 16 z), ucast (drop_bit 8 z), ucast z]"

definition un_be :: "bytes \<Rightarrow> 'a::len word" where
  "un_be bs = foldl (\<lambda>x b. Bit_Operations.or (push_bit 8 x) (ucast b)) 0 bs"

definition std_bin :: bin_lib where
  "std_bin =
     \<lparr>emit_u8 = (\<lambda>x. room [x]), emit_u16 = (\<lambda>y. room (be16 y)), emit_u32 = (\<lambda>z. room (be32 z)),
      emit_vec = room,
      emit_message = (\<lambda>m b. if m = example_message then room [0xAB] b else None),
      read_u8 = (\<lambda>d i. map_option (\<lambda>(bs, j). (bs ! 0, j)) (take_at 1 d i)),
      read_u16 = (\<lambda>d i. map_option (\<lambda>(bs, j). (un_be bs, j)) (take_at 2 d i)),
      read_u32 = (\<lambda>d i. map_option (\<lambda>(bs, j). (un_be bs, j)) (take_at 4 d i)),
      read_slice = take_at,
      read_message = (\<lambda>d i. map_option (\<lambda>(_, j). (example_message, j)) (take_at 1 d i))\<rparr>"

lemma length_be: "length (be16 y) = 2" "length (be32 z) = 4"
  by (simp_all add: be16_def be32_def)

lemma un_be16: "un_be (be16 y) = y"
  unfolding un_be_def be16_def by (rule bit_word_eqI) (auto simp: bit_simps)

lemma un_be32: "un_be (be32 z) = z"
proof (rule bit_word_eqI)
  fix n assume "n < LENGTH(32)"
  then have "n < 8 \<or> 8 \<le> n \<and> n < 16 \<or> 16 \<le> n \<and> n < 24 \<or> 24 \<le> n \<and> n < 32" by auto
  then show "bit (un_be (be32 z) :: u32) n \<longleftrightarrow> bit z n"
    by (elim disjE) (auto simp: un_be_def be32_def bit_simps)
qed

lemma room_back: "room w b = Some b' \<Longrightarrow> reads_back b b' (take_at (length w)) w"
  by (auto simp: room_def reads_back_def take_at_def split: if_splits)

lemma reads_back_map:
  "reads_back b b' g w \<Longrightarrow> f w = v \<Longrightarrow> reads_back b b' (\<lambda>d i. map_option (\<lambda>(bs, j). (f bs, j)) (g d i)) v"
  by (simp add: reads_back_def)

interpretation sb: bin_library std_bin
proof unfold_locales
  fix x b b' assume "emit_u8 std_bin x b = Some b'"
  then show "reads_back b b' (read_u8 std_bin) x"
    using reads_back_map [OF room_back [of "[x]"], of b b' "\<lambda>bs. bs ! 0" x] by (simp add: std_bin_def)
next
  fix y b b' assume "emit_u16 std_bin y b = Some b'"
  then show "reads_back b b' (read_u16 std_bin) y"
    using reads_back_map [OF room_back [of "be16 y"], where f = un_be and v = y] un_be16 [of y]
    by (simp add: std_bin_def length_be)
next
  fix z b b' assume "emit_u32 std_bin z b = Some b'"
  then show "reads_back b b' (read_u32 std_bin) z"
    using reads_back_map [OF room_back [of "be32 z"], where f = un_be and v = z] un_be32 [of z]
    by (simp add: std_bin_def length_be)
next
  fix v b b' assume "emit_vec std_bin v b = Some b'"
  then show "reads_back b b' (read_slice std_bin (length v)) v"
    by (simp add: std_bin_def room_back)
next
  fix m b b' assume "emit_message std_bin m b = Some b'"
  then show "reads_back b b' (read_message std_bin) m"
    using reads_back_map [OF room_back [of "[0xAB]"], of b b' "\<lambda>_. example_message"]
    by (simp add: std_bin_def split: if_splits)
qed (auto simp: std_bin_def take_at_def split: if_splits)

section \<open>The properties\<close>

text \<open>The time to live survives to the second when the two clocks advance together.\<close>

lemma restored_until_close:
  assumes "wall + as_secs (t - now) < 2 ^ 64" "wall \<le> wall'" "now' = now + secs (wall' - wall)"
    and "as_secs (now - t) \<le> wall" "wall < 2 ^ 64"
  shows "t < restored_until wall now wall' now' t + secs 1 \<and> restored_until wall now wall' now' t < t + secs 1"
proof (cases "now < t")
  case True
  define f where "f = as_secs (t - now)"
  have e: "unat (expires_at wall now t) = wall + f"
    using True assms(1) unat_of_nat_small [of "wall + f", where 'a = 64]
    by (simp add: expires_at_def f_def)
  have "restored_until wall now wall' now' t = now + secs f"
  proof (cases "wall + f > wall'")
    case True
    then show ?thesis
      using assms(2) by (simp add: restored_until_def Let_def e assms(3) secs_def diff_mult_distrib)
  next
    case False
    then obtain k where "wall' = wall + f + k" using le_Suc_ex by (meson not_less)
    then show ?thesis
      by (simp add: restored_until_def Let_def e assms(3) checked_sub_def unwrap_or_def secs_def)
  qed
  moreover have "secs f \<le> t - now" "t - now < secs f + secs 1"
    unfolding f_def as_secs_def secs_def by (simp_all add: dividend_less_div_times mult.commute)
  ultimately show ?thesis using True by linarith
next
  case False
  define f where "f = as_secs (now - t)"
  have e: "unat (expires_at wall now t) = wall - f"
    using False assms(5) by (simp add: expires_at_def f_def unat_of_nat_small)
  have f: "secs f \<le> now - t" "now - t < secs f + secs 1" "f \<le> wall"
    using assms(4) unfolding f_def as_secs_def secs_def by (simp_all add: dividend_less_div_times mult.commute)
  have "restored_until wall now wall' now' t = now - secs f"
    using f assms(2) False
    by (auto simp: restored_until_def Let_def e assms(3) checked_sub_def unwrap_or_def secs_def diff_mult_distrib)
  then show ?thesis using f False by linarith
qed

end
