(* ===== verification/Cache_Props.thy ===== *)
theory Cache_Props
  imports Cache_Codec
begin

text \<open>
  The behaviour of the DNS cache over time. \<open>cache_step\<close> is one operation under the lock, by
  whichever task; \<open>cache_reaches\<close> any sequence of them. The invariant of \<open>Cache_Laws\<close> holds in
  every state that is reached from the cache the middleware starts with, and the handler of the
  middleware makes only such steps.
\<close>

section \<open>Steps\<close>

text \<open>An entry as it is read from a file.\<close>

definition file_entry :: "'c cache_env \<Rightarrow> cache_entry \<Rightarrow> bool" where
  "file_entry E en \<longleftrightarrow> (\<exists>wall r t h. en = (entry_new E wall r t)\<lparr>en_hits := h\<rparr>)"

inductive cache_step :: "'c cache_env \<Rightarrow> 'c dns_cache \<Rightarrow> 'c dns_cache \<Rightarrow> bool" for E where
  step_insert: "cache_step E d (insert_response E wall r now ttl g d)"
| step_get: "cache_step E d (snd (cache_get E wall q now d))"
| step_finish: "cache_step E d (finish_prefetch E q now d)"
| step_begin: "cache_step E d (snd (begin_refresh E q d))"
| step_end: "cache_step E d (end_refresh E q d)"
| step_expired: "cache_step E d (snd (get_expired E now ahead d))"
| step_flush: "cache_step E d (flush E d)"
| step_load: "\<forall>en\<in>set es. file_entry E en \<Longrightarrow> cache_step E d (startup_load E es d)"

inductive cache_reaches :: "'c cache_env \<Rightarrow> 'c dns_cache \<Rightarrow> 'c dns_cache \<Rightarrow> bool" for E where
  reaches_refl: "cache_reaches E d d"
| reaches_step: "cache_reaches E d d' \<Longrightarrow> cache_step E d' d'' \<Longrightarrow> cache_reaches E d d''"

inductive_cases cache_stepE: "cache_step E d d'"

lemmas cache_steps = step_insert step_get step_finish step_begin step_end step_expired step_flush step_load

lemma reaches_trans: "cache_reaches E d d' \<Longrightarrow> cache_reaches E d' d'' \<Longrightarrow> cache_reaches E d d''"
  by (rotate_tac 1, induction rule: cache_reaches.induct) (auto intro: cache_reaches.intros)

lemma reaches_one: "cache_step E d d' \<Longrightarrow> cache_reaches E d d'"
  by (auto intro: cache_reaches.intros)

text \<open>The configuration of a cache and the capacity of its map never change.\<close>

definition same_setup :: "'c cache_env \<Rightarrow> 'c dns_cache \<Rightarrow> 'c dns_cache \<Rightarrow> bool" where
  "same_setup E d d' \<longleftrightarrow>
     lru_cap (ce_lru E) (dc_cache d') = lru_cap (ce_lru E) (dc_cache d) \<and>
     dc_memory_limit d' = dc_memory_limit d \<and> dc_serve_expired d' = dc_serve_expired d \<and>
     dc_expired_ttl d' = dc_expired_ttl d \<and> dc_expired_reply_ttl d' = dc_expired_reply_ttl d \<and>
     dc_prefetch_time d' = dc_prefetch_time d"

context cache_store begin

lemma file_entry_inv: "file_entry E en \<Longrightarrow> entry_inv E (dr_query (en_data en)) en"
  using e_refl by (auto simp: file_entry_def entry_inv_def entry_new_def)

lemma step_inv: "cache_step E d d' \<Longrightarrow> cache_inv E d \<Longrightarrow> cache_inv E d'"
  by (induction rule: cache_step.induct)
    (simp_all add: insert_response_inv cache_get_inv finish_prefetch_inv begin_refresh_inv end_refresh_inv
      get_expired_inv flush_inv startup_load_inv file_entry_inv)

lemma reaches_inv: "cache_reaches E d d' \<Longrightarrow> cache_inv E d \<Longrightarrow> cache_inv E d'"
  by (induction rule: cache_reaches.induct) (auto intro: step_inv)

lemma new_inv: "1 \<le> cache_size cfg \<Longrightarrow> cache_inv E (middleware_cache E cfg)"
  by (simp add: middleware_cache_def cache_new_def cache_inv_def Let_def iter_new cap_new)

lemma cap_evict: "lru_cap U (snd (evict U n limit usage c)) = lru_cap U c"
proof (induction n arbitrary: usage c)
  case (Suc n)
  then show ?case
    using cap_pop_lru [of c] by (auto simp: split_beta split: option.split prod.split)
qed simp

lemma cap_evict_all: "lru_cap U (snd (evict_all U limit usage c)) = lru_cap U c"
  unfolding evict_all_def by (rule cap_evict)

lemma cap_load: "lru_cap U (load_entries U es c) = lru_cap U c"
  by (induction es arbitrary: c) (simp_all add: load_entries_def cap_put)

lemma cap_mark: "lru_cap U (fold (\<lambda>(q, en) c. if prefetch_step now t q en = Due
    then lru_write U q (en\<lparr>en_is_in_prefetching := True\<rparr>) c else c) es c) = lru_cap U c"
  by (induction es arbitrary: c) (auto simp: cap_write)

lemma insert_setup: "same_setup E d (insert_response E wall r now ttl g d)"
proof -
  define q where "q = dr_query (stored r now ttl g)"
  define en where "en = entry_new E wall (stored r now ttl g) (now + secs (unat ttl))"
  obtain out c where p: "lru_push U q en (dc_cache d) = (out, c)" by fastforce
  then have cap: "lru_cap U c = lru_cap U (dc_cache d)" using cap_push [of q en "dc_cache d"] by simp
  show ?thesis
  proof (cases "lru_peek U q (dc_cache d)")
    case None
    then show ?thesis
      using p cap by (cases out)
        (auto simp: insert_response_eq [OF q_def en_def] Let_def same_setup_def split_beta cap_evict_all)
  next
    case (Some prev)
    then show ?thesis
      by (simp add: insert_response_eq [OF q_def en_def] Let_def same_setup_def split_beta cap_evict_all
          cap_write cap_promote)
  qed
qed

lemma get_setup:
  assumes "cache_inv E d"
  shows "same_setup E d (snd (cache_get E wall q now d))"
  using cache_get_cases [OF assms, of q wall now]
  by (auto simp: same_setup_def cap_write cap_promote cap_pop split: if_splits)

lemma step_setup: "cache_step E d d' \<Longrightarrow> cache_inv E d \<Longrightarrow> same_setup E d d'"
proof (induction rule: cache_step.induct)
  case (step_insert d wall r now ttl g)
  show ?case by (rule insert_setup)
next
  case (step_get d wall q now)
  then show ?case by (rule get_setup)
next
  case (step_load es d)
  show ?case
    by (simp add: startup_load_def Let_def split_beta same_setup_def cap_evict_all cap_load)
qed (auto simp: finish_prefetch_def begin_refresh_def end_refresh_def get_expired_def flush_def
      Let_def split_beta same_setup_def cap_write cap_clear mark_prefetching_def cap_mark split: option.split)

lemma reaches_setup: "cache_reaches E d d' \<Longrightarrow> cache_inv E d \<Longrightarrow> same_setup E d d'"
  by (induction rule: cache_reaches.induct) (auto simp: same_setup_def dest: step_setup reaches_inv)

section \<open>The handler\<close>

lemma prefetch_turn_reaches:
  "cache_reaches E d (snd (snd (snd (prefetch_turn E min_interval now last_check d))))"
  using reaches_one [OF step_expired [of E d now "Some 5"]]
  by (auto simp: prefetch_turn_def split_beta Let_def reaches_refl)

lemma speed_check_reaches: "cache_reaches E (cs_cache s) (cs_cache (finish_speed_check E ctx q r s))"
  using step_begin [of E "cs_cache s" q]
  by (auto simp: finish_speed_check_def spawn_def reaches_refl intro!: reaches_one split: prod.split bool.split)

lemma run_speed_check_reaches:
  "cache_reaches E (cs_cache s) (cs_cache (run_speed_check E wall now q limits cfg grp r s))"
proof -
  have "cache_reaches E d (end_refresh E q d)"
    "cache_reaches E d (end_refresh E q (insert_response E wall r now ttl g d))" for d r ttl g
    using reaches_step [OF reaches_refl step_end] reaches_step [OF reaches_one [OF step_insert] step_end]
    by auto
  then show ?thesis
    by (auto simp: run_speed_check_def Let_def spawn_def split: sum.split)
qed

lemma cached_reply_reaches: "cache_reaches E (cs_cache s) (cs_cache (snd (cached_reply E wall now ctx q s)))"
proof -
  have "cs_cache (snd (cached_reply E wall now ctx q s)) = snd (cache_get E wall q now (cs_cache s))"
    by (auto simp: cached_reply_def Let_def spawn_def split: prod.split option.split cache_status.split)
  then show ?thesis by (simp add: reaches_one step_get)
qed

lemma store_reply_reaches: "cache_reaches E (cs_cache s) (cs_cache (store_reply E wall now ctx q sc r s))"
proof -
  have a: "cache_reaches E (cs_cache s) (insert_response E wall r now ttl g (cs_cache s))" for ttl g
    by (rule reaches_one [OF step_insert])
  have b: "cache_reaches E (cs_cache s) (cs_cache (finish_speed_check E ctx q x
      (s\<lparr>cs_cache := insert_response E wall r now ttl g (cs_cache s)\<rparr>)))" for ttl g x
    using reaches_trans [OF a] speed_check_reaches [of "s\<lparr>cs_cache := insert_response E wall r now ttl g (cs_cache s)\<rparr>"]
    by fastforce
  show ?thesis
    using a b by (auto simp: store_reply_def Let_def spawn_def reaches_refl split: option.split)
qed

lemma handle_reaches:
  assumes nxt: "\<And>ctx req st res ctx' st'. nxt ctx req st = (res, ctx', st') \<Longrightarrow>
      cache_reaches E (cs_cache (fst st)) (cs_cache (fst st'))"
    and h: "cache_handle E ds wall now now' ctx req nxt st = (res, ctx', st')"
  shows "cache_reaches E (cs_cache (fst st)) (cs_cache (fst st'))"
proof (cases "opts_no_cache (cx_server_opts ctx) \<or> cx_no_cache ctx \<or> is_dnssec ds req")
  case True
  then show ?thesis using h nxt by (simp add: cache_handle_def)
next
  case False
  obtain hit s where hit: "(if \<not> so_is_background (cx_server_opts ctx)
      then cached_reply E wall now ctx (rq_query req) (fst st) else (None, fst st)) = (hit, s)" by fastforce
  then have s: "cache_reaches E (cs_cache (fst st)) (cs_cache s)"
    using cached_reply_reaches [of "fst st" wall now ctx "rq_query req"] by (auto simp: reaches_refl split: if_splits)
  show ?thesis
  proof (cases hit)
    case None
    obtain r c s2 rest where n: "nxt ctx req (s, snd st) = (r, c, s2, rest)" by (metis prod_cases4)
    then have s2: "cache_reaches E (cs_cache (fst st)) (cs_cache s2)"
      using reaches_trans [OF s] nxt by fastforce
    then have "cache_reaches E (cs_cache (fst st)) (cs_cache (store_reply E wall now' c' q sc l s2))" for c' q sc l
      using reaches_trans store_reply_reaches by blast
    then show ?thesis
      using h s2 hit False None by (auto simp: cache_handle_def n Let_def pending_take_def split: sum.splits)
  qed (use h s hit False in \<open>auto simp: cache_handle_def\<close>)
qed

end

section \<open>Replies\<close>

lemma adjust_reply_data:
  "map rr_data (answers (adjust_reply L q t r)) = map rr_data (answers r)"
  "map rr_data (authorities (adjust_reply L q t r)) = map rr_data (authorities r)"
  "rcode (adjust_reply L q t r) = rcode r" "dr_group (adjust_reply L q t r) = dr_group r"
  by (simp_all add: adjust_reply_def Let_def set_max_ttl_message set_answers_def comp_def)

lemma adjust_reply_ttl:
  "x \<in> set (answers (adjust_reply L q t r)) \<union> set (authorities (adjust_reply L q t r)) \<Longrightarrow> rr_ttl x \<le> t"
  by (auto simp: adjust_reply_def Let_def set_max_ttl_message)

lemma prepare_wire_message [simp]:
  "dr_message (prepare_wire enc r) = dr_message r" "dr_group (prepare_wire enc r) = dr_group r"
  by (simp_all add: prepare_wire_def)

text \<open>What a client sees of an entry.\<close>

definition shows_entry :: "dns_response \<Rightarrow> dns_response \<Rightarrow> bool" where
  "shows_entry res data \<longleftrightarrow>
     map rr_data (answers res) = map rr_data (answers data) \<and>
     map rr_data (authorities res) = map rr_data (authorities data) \<and>
     rcode res = rcode data \<and> dr_group res = dr_group data"

lemma hit_outcome_reply:
  assumes "hit_outcome E d now q k en res en' usage"
  shows "shows_entry res (en_data en) \<and>
    (\<forall>x\<in>set (answers res) \<union> set (authorities res). rr_ttl x \<le> fst (hit_reply d now en))"
proof -
  obtain q' where "dr_message res = dr_message (adjust_reply (ce_lib E) q' (fst (hit_reply d now en)) (en_data en))"
    "dr_group res = dr_group (adjust_reply (ce_lib E) q' (fst (hit_reply d now en)) (en_data en))"
    using assms by (auto simp: hit_outcome_def)
  then show ?thesis
    using adjust_reply_ttl by (simp add: shows_entry_def adjust_reply_data)
qed

lemma valid_ttl_bound:
  assumes "is_current now en" "t \<le> (of_nat (as_secs (entry_ttl now en)) :: u32)"
  shows "now + secs (unat t) \<le> en_valid_until en"
proof -
  have "unat t \<le> unat (of_nat (as_secs (entry_ttl now en)) :: u32)"
    using assms(2) by (simp add: word_le_nat_alt)
  also have "\<dots> \<le> as_secs (entry_ttl now en)"
    by (simp add: unat_of_nat)
  finally have "secs (unat t) \<le> entry_ttl now en"
    by (simp add: secs_def as_secs_def)
  then show ?thesis
    using assms(1) by (simp add: entry_ttl_def is_current_def)
qed

lemma expired_ttl_bound:
  "t \<le> (ucast (x :: u64) :: u32) \<Longrightarrow> unat t \<le> unat x"
  by (metis word_le_nat_alt le_trans unsigned_ucast_eq unsigned_take_bit_eq take_bit_nat_less_eq_self)

context cache_store begin

lemma get_hit_entry:
  assumes inv: "cache_inv E d" and g: "cache_get E wall q now d = (Some (res, status), d')"
  obtains k en where "(k, en) \<in> set (entries d)" "eq k q" "servable d now en" "status = snd (hit_reply d now en)"
    "shows_entry res (en_data en)"
    "\<forall>x\<in>set (answers res) \<union> set (authorities res). rr_ttl x \<le> fst (hit_reply d now en)"
proof -
  from cache_get_cases [OF inv, of q wall now] g obtain k en en' usage where
    *: "l_find eq q (entries d) = Some (k, en)" "eq k q" "servable d now en"
      "hit_outcome E d now q k en res en' usage" "status = snd (hit_reply d now en)"
    by (auto split: if_splits)
  show ?thesis
    using that [of k en] * hit_outcome_reply [OF *(4)] l_find_SomeD [OF *(1)] by simp
qed

lemma get_front:
  assumes inv: "cache_inv E d" and it: "entries d = (k, en) # es" and k: "eq k q" and c: "is_current now en"
  shows "\<exists>res d'. cache_get E wall q now d = (Some (res, Valid), d') \<and> shows_entry res (en_data en) \<and>
    (\<forall>x\<in>set (answers res) \<union> set (authorities res). now + secs (unat (rr_ttl x)) \<le> en_valid_until en)"
proof -
  have f: "l_find eq q (entries d) = Some (k, en)" using it k by (simp add: l_find_def)
  have s: "servable d now en" using c by (simp add: servable_def)
  have h: "hit_reply d now en = (of_nat (as_secs (entry_ttl now en)), Valid)" using c by (simp add: hit_reply_def)
  from cache_get_cases [OF inv, of q wall now] f s h obtain res en' usage d' where
    o: "hit_outcome E d now q k en res en' usage" "cache_get E wall q now d = (Some (res, Valid), d')"
    by auto
  show ?thesis
    using hit_outcome_reply [OF o(1)] o(2) valid_ttl_bound [OF c] by (auto simp: h)
qed

lemma insert_get:
  assumes inv: "cache_inv E d"
    and fits: "dc_memory_limit d = 0 \<or> measure_memory E (stored r now ttl g) \<le> dc_memory_limit d"
    and q: "eq (dr_query r) q" and t: "now' \<le> now + secs (unat ttl)"
  shows "\<exists>res d'. cache_get E wall' q now' (insert_response E wall r now ttl g d) = (Some (res, Valid), d') \<and>
    shows_entry res (stored r now ttl g) \<and>
    (\<forall>x\<in>set (answers res) \<union> set (authorities res). now' + secs (unat (rr_ttl x)) \<le> now + secs (unat ttl))"
proof -
  let ?d = "insert_response E wall r now ttl g d"
  obtain k en es where it: "entries ?d = (k, en) # es" "eq k (dr_query r)" "en_data en = stored r now ttl g"
    "en_valid_until en = now + secs (unat ttl)"
    using insert_front [OF inv fits, of wall] by blast
  have "eq k q" using it(2) q e_trans by blast
  from get_front [OF insert_response_inv [OF inv] it(1) this, of now' wall'] it t show ?thesis
    by (simp add: is_current_def)
qed

text \<open>Loading entries into an empty map reverses their order.\<close>

lemma load_order:
  assumes "1 \<le> lru_cap U c" "length (lru_iter U c) + length es \<le> lru_cap U c"
    and "keys_ok eq (map (\<lambda>en. (dr_query (en_data en), en)) es)"
    and "\<forall>en\<in>set es. \<forall>p\<in>set (lru_iter U c). \<not> eq (fst p) (dr_query (en_data en))"
  shows "lru_iter U (load_entries U es c) = rev (map (\<lambda>en. (dr_query (en_data en), en)) es) @ lru_iter U c"
  using assms
proof (induction es arbitrary: c)
  case (Cons en es)
  let ?q = "dr_query (en_data en)" and ?c = "snd (lru_put U (dr_query (en_data en)) en c)"
  have "l_find eq ?q (lru_iter U c) = None" using Cons.prems(4) by (simp add: l_find_None)
  then have it: "lru_iter U ?c = (?q, en) # lru_iter U c"
    using put [OF Cons.prems(1), of ?q en] Cons.prems(2) by (simp add: l_insert_def)
  have "\<not> eq ?q (dr_query (en_data en'))" if "en' \<in> set es" for en'
    using Cons.prems(3) that e_sym by force
  then show ?case
    using Cons.IH [of ?c] Cons.prems it by (simp add: load_entries_def cap_put)
qed (simp add: load_entries_def)

end

section \<open>Properties\<close>

lemma sort_by_wrt:
  assumes "transp R" "\<And>x y. if c x y = Greater then R y x else R x y"
  shows "sorted_wrt R (sort_by c xs)"
proof -
  have "sorted_wrt R (insert_by c x ys)" if "sorted_wrt R ys" for x ys
    using that
  proof (induction ys)
    case (Cons y ys)
    have s: "set (insert_by c x ys) = insert x (set ys)"
      by (metis mset_insert_by set_mset_add_mset_insert set_mset_mset)
    show ?case
      using Cons assms(2) [of x y] transpD [OF assms(1)] by (auto simp: s split: if_splits)
  qed simp
  then show ?thesis
    unfolding sort_by_def by (induction xs) simp_all
qed

lemma store_inv:
  assumes "lru_library (q_eq (ce_lib E)) (ce_lru E)" "1 \<le> cache_size cfg"
    "cache_reaches E (middleware_cache E cfg) d"
  shows "cache_store E" "cache_inv E d" "same_setup E (middleware_cache E cfg) d"
proof -
  show s: "cache_store E" using assms(1) by (rule cache_store.intro)
  show "cache_inv E d" "same_setup E (middleware_cache E cfg) d"
    using cache_store.reaches_inv [OF s] cache_store.reaches_setup [OF s] cache_store.new_inv [OF s] assms(2,3)
    by blast+
qed

definition example_query :: query where
  "example_query = \<lparr>q_name = ascii_name [''example'', ''com''] True, q_type = RT_A, q_class = 1\<rparr>"

definition example_cache :: "(nat \<times> (query \<times> cache_entry) list) dns_cache" where
  "example_cache =
     insert_response std_env 0 (from_message 0 example_message) 0 60 ''default''
       (middleware_cache std_env config_default)"

lemma example_cache_reached:
  "lru_library (q_eq (ce_lib std_env)) (ce_lru std_env)" "1 \<le> cache_size config_default"
  "cache_reaches std_env (middleware_cache std_env config_default) (middleware_cache std_env config_default)"
  "cache_reaches std_env (middleware_cache std_env config_default) example_cache"
  using sc.lru_ok by (auto simp: example_cache_def cache_size_def config_default_def unwrap_or_def
      intro: cache_reaches.intros step_insert)

text \<open>
  C8: Whatever sequence of insertions, lookups, prefetches, refreshes, flushes and loads the cache
  has been through, its keys are distinct, it has no more entries than \<open>cache-size\<close>, its byte
  counter is the sum of the sizes charged to its entries, each of which is the size of the
  response and of its memorised reply, and the counter is within \<open>cache-mem-size\<close>.
\<close>

theorem cache_within_bounds:
  assumes "lru_library (q_eq (ce_lib E)) (ce_lru E)" "1 \<le> cache_size cfg"
    "cache_reaches E (middleware_cache E cfg) d"
  shows "keys_ok (q_eq (ce_lib E)) (lru_iter (ce_lru E) (dc_cache d)) \<and>
    cache_len E d \<le> cache_size cfg \<and>
    dc_memory_usage d = (\<Sum>(_, en)\<leftarrow>lru_iter (ce_lru E) (dc_cache d). en_memory_usage en) \<and>
    (\<forall>(_, en)\<in>set (lru_iter (ce_lru E) (dc_cache d)). en_memory_usage en =
       measure_memory E (en_data en) + (case en_ttl_reply en of None \<Rightarrow> 0 | Some (_, m) \<Rightarrow> m)) \<and>
    (case cc_memory_size (cf_cache cfg) of None \<Rightarrow> True | Some m \<Rightarrow> m = 0 \<or> dc_memory_usage d \<le> int m)"
proof -
  note s = store_inv [OF assms]
  have cap: "lru_cap (ce_lru E) (dc_cache d) = cache_size cfg"
    "dc_memory_limit d = int (unwrap_or (cc_memory_size (cf_cache cfg)) 0)"
    using s(3) lru_library.cap_new [OF assms(1,2)]
    by (simp_all add: same_setup_def middleware_cache_def cache_new_def)
  show ?thesis
    using s(2) unfolding cache_inv_def Let_def cap cache_len_def
    by (auto simp: entry_inv_def unwrap_or_def split: option.splits)
qed

theorem cache_within_bounds_witness:
  "cache_len std_env example_cache \<le> cache_size config_default \<and>
   dc_memory_usage example_cache =
     (\<Sum>(_, en)\<leftarrow>lru_iter (ce_lru std_env) (dc_cache example_cache). en_memory_usage en)"
  using cache_within_bounds [OF example_cache_reached(1,2,4)] by simp

text \<open>
  C9: A lookup that hits returns the data of an entry stored for an equal query. When it is said to
  be valid, the entry has not expired and no record outlives it; when it is said to be expired,
  \<open>serve-expired\<close> is on, the entry is positive and within \<open>serve-expired-ttl\<close>, and no record
  lives longer than \<open>serve-expired-reply-ttl\<close>.
\<close>

theorem hit_is_fresh:
  assumes "lru_library (q_eq (ce_lib E)) (ce_lru E)" "1 \<le> cache_size cfg"
    "cache_reaches E (middleware_cache E cfg) d"
    "cache_get E wall q now d = (Some (res, status), d')"
  shows "\<exists>(k, en)\<in>set (lru_iter (ce_lru E) (dc_cache d)). q_eq (ce_lib E) k q \<and> shows_entry res (en_data en) \<and>
    (case status of
       Valid \<Rightarrow> now \<le> en_valid_until en \<and>
         (\<forall>x\<in>set (answers res) \<union> set (authorities res). now + secs (unat (rr_ttl x)) \<le> en_valid_until en)
     | Expired \<Rightarrow> en_valid_until en < now \<and> serve_expired cfg \<and> negative_response_ttl (en_data en) = None \<and>
         (serve_expired_ttl cfg = 0 \<or> now \<le> en_valid_until en + secs (unat (serve_expired_ttl cfg))) \<and>
         (\<forall>x\<in>set (answers res) \<union> set (authorities res). unat (rr_ttl x) \<le> unat (serve_expired_reply_ttl cfg)))"
proof -
  note s = store_inv [OF assms(1-3)]
  have st: "dc_serve_expired d = serve_expired cfg" "dc_expired_ttl d = serve_expired_ttl cfg"
    "dc_expired_reply_ttl d = serve_expired_reply_ttl cfg"
    using s(3) by (simp_all add: same_setup_def middleware_cache_def cache_new_def)
  obtain k en where en: "(k, en) \<in> set (lru_iter (ce_lru E) (dc_cache d))" "q_eq (ce_lib E) k q" "servable d now en"
    "status = snd (hit_reply d now en)" "shows_entry res (en_data en)"
    "\<forall>x\<in>set (answers res) \<union> set (authorities res). rr_ttl x \<le> fst (hit_reply d now en)"
    by (rule cache_store.get_hit_entry [OF s(1,2) assms(4)])
  show ?thesis
  proof (cases "is_current now en")
    case True
    then have "status = Valid" "now \<le> en_valid_until en"
      using en(4) by (simp_all add: hit_reply_def is_current_def)
    moreover have "\<forall>x\<in>set (answers res) \<union> set (authorities res). now + secs (unat (rr_ttl x)) \<le> en_valid_until en"
      using en(6) True by (auto simp: hit_reply_def intro!: valid_ttl_bound)
    ultimately show ?thesis using en(1,2,5) by auto
  next
    case False
    then have "status = Expired" "en_valid_until en < now"
      using en(4) by (simp_all add: hit_reply_def is_current_def not_le)
    moreover have "serve_expired cfg \<and> negative_response_ttl (en_data en) = None \<and>
        (serve_expired_ttl cfg = 0 \<or> now \<le> en_valid_until en + secs (unat (serve_expired_ttl cfg)))"
      using en(3) False st by (auto simp: servable_def word_gt_0)
    moreover have "\<forall>x\<in>set (answers res) \<union> set (authorities res). unat (rr_ttl x) \<le> unat (serve_expired_reply_ttl cfg)"
      using en(6) False st by (auto simp: hit_reply_def intro!: expired_ttl_bound)
    ultimately show ?thesis using en(1,2,5) by auto
  qed
qed

text \<open>
  C10: A response that fits the memory budget is found again by every equal query until its TTL runs
  out, with the data, the response code and the group it was stored under, and with TTLs that
  end no later than its own.
\<close>

theorem insert_then_get:
  assumes "lru_library (q_eq (ce_lib E)) (ce_lru E)" "1 \<le> cache_size cfg"
    "cache_reaches E (middleware_cache E cfg) d"
    and "dc_memory_limit d = 0 \<or> measure_memory E (stored r now ttl g) \<le> dc_memory_limit d"
    and "q_eq (ce_lib E) (dr_query r) q" "now' \<le> now + secs (unat ttl)"
  shows "\<exists>res d'. cache_get E wall' q now' (insert_response E wall r now ttl g d) = (Some (res, Valid), d') \<and>
    map rr_data (answers res) = map rr_data (answers r) \<and> rcode res = rcode r \<and> dr_group res = Some g \<and>
    (\<forall>x\<in>set (answers res) \<union> set (authorities res). now' + secs (unat (rr_ttl x)) \<le> now + secs (unat ttl))"
proof -
  note s = store_inv [OF assms(1-3)]
  have "dr_message (stored r now ttl g) = dr_message r" "dr_group (stored r now ttl g) = Some g"
    by (simp_all add: stored_def Let_def with_valid_until_def with_name_server_group_def)
  then show ?thesis
    using cache_store.insert_get [OF s(1,2) assms(4-6), of wall' wall] by (auto simp: shows_entry_def)
qed

lemma example_limits:
  "dc_memory_limit (middleware_cache std_env config_default) = 0"
  "q_eq (ce_lib std_env) (dr_query (from_message 0 example_message)) example_query"
  "(30 :: nat) \<le> 0 + secs (unat (60 :: u32))"
  by (simp_all add: middleware_cache_def config_default_def unwrap_or_def dr_query_def
      from_message_def example_message_def example_query_def q_eq_def std_env_def secs_def std.eq_refl)

theorem insert_then_get_witness:
  "\<exists>res d'. cache_get std_env 0 example_query 30 example_cache = (Some (res, Valid), d') \<and>
     map rr_data (answers res) = [RD_A 0x01020304] \<and> dr_group res = Some ''default''"
  using insert_then_get [OF example_cache_reached(1-3) disjI1 [OF example_limits(1)] example_limits(2,3),
      of 0 0 "''default''"]
  by (simp add: example_cache_def) (auto simp: from_message_def example_message_def)

theorem hit_is_fresh_witness:
  "\<exists>res d'. cache_get std_env 0 example_query 30 example_cache = (Some (res, Valid), d') \<and>
     (\<exists>(k, en)\<in>set (lru_iter (ce_lru std_env) (dc_cache example_cache)).
        q_eq (ce_lib std_env) k example_query \<and> shows_entry res (en_data en))"
proof -
  have "dc_memory_limit (middleware_cache std_env config_default) = 0 \<or> P" for P
    by (simp add: example_limits)
  from sc.insert_get [OF sc.new_inv [OF example_cache_reached(2)] this example_limits(2,3), of 0 0 "''default''"]
  obtain res d' where g: "cache_get std_env 0 example_query 30 example_cache = (Some (res, Valid), d')"
    unfolding example_cache_def by blast
  show ?thesis
    using hit_is_fresh [OF example_cache_reached(1,2,4) g] g by auto
qed

text \<open>
  A prefetch check returns the due entries, the most used first, each with the group it was
  stored under; it marks them, so a second check at the same time returns none of them.
\<close>

theorem prefetch_due_once:
  assumes "lru_library (q_eq (ce_lib E)) (ce_lru E)" "1 \<le> cache_size cfg"
    "cache_reaches E (middleware_cache E cfg) d"
    "get_expired E now ahead d = ((ex, next), d')"
  shows "(\<exists>due. ex = map (\<lambda>(q, en). (q, dr_group (en_data en))) due \<and>
      sorted_wrt (\<lambda>(_, a) (_, b). en_hits b \<le> en_hits a) due \<and>
      mset due = {#(q, en) \<in># mset (lru_iter (ce_lru E) (dc_cache d)).
        prefetch_step now (check_time d now ahead) q en = Due#}) \<and>
    fst (fst (get_expired E now ahead d')) = []"
proof
  note s = store_inv [OF assms(1-3)]
  show "fst (fst (get_expired E now ahead d')) = []"
    by (rule cache_store.get_expired_twice [OF s(1,2) assms(4)])
  define es where "es = filter (\<lambda>(q, en). prefetch_step now (check_time d now ahead) q en = Due)
      (lru_iter (ce_lru E) (dc_cache d))"
  let ?f = "\<lambda>(q, en). (q, en_hits en, dr_group (en_data en))"
  let ?c = "\<lambda>(_, a, _) (_, b, _). cmp_of b (a :: nat)" and ?c' = "\<lambda>(_, a) (_, b). cmp_of (en_hits b) (en_hits a)"
  have ex: "ex = map (\<lambda>(q, _, g). (q, g)) (sort_by ?c (map ?f es))"
    using assms(4) cache_store.scan_append [OF s(1)]
    by (auto simp: get_expired_def Let_def es_def split_beta sort_by_def split: if_splits)
  have sort: "sort_by ?c (map ?f xs) = map ?f (sort_by ?c' xs)" for xs :: "(query \<times> cache_entry) list"
    by (simp add: sort_by_map case_prod_unfold)
  show "\<exists>due. ex = map (\<lambda>(q, en). (q, dr_group (en_data en))) due \<and>
      sorted_wrt (\<lambda>(_, a) (_, b). en_hits b \<le> en_hits a) due \<and>
      mset due = {#(q, en) \<in># mset (lru_iter (ce_lru E) (dc_cache d)).
        prefetch_step now (check_time d now ahead) q en = Due#}"
  proof (intro exI [of _ "sort_by ?c' es"] conjI)
    show "ex = map (\<lambda>(q, en). (q, dr_group (en_data en))) (sort_by ?c' es)"
      by (simp add: ex sort comp_def split_beta)
    show "sorted_wrt (\<lambda>(_, a) (_, b). en_hits b \<le> en_hits a) (sort_by ?c' es)"
      by (rule sort_by_wrt) (auto simp: transp_def cmp_of_def split: if_splits)
  qed (simp add: es_def)
qed

lemma example_due:
  "fst (fst (get_expired std_env (secs 100) None example_cache)) = [(example_query, Some ''default'')]"
proof -
  let ?en = "entry_new std_env 0 (stored (from_message 0 example_message) 0 60 ''default'') (secs 60)"
  have q: "dr_query (stored (from_message 0 example_message) 0 60 ''default'') = example_query"
    by (simp add: stored_def Let_def with_valid_until_def with_name_server_group_def from_message_def
        dr_query_def example_message_def example_query_def)
  have "lru_iter (ce_lru std_env) (dc_cache example_cache) = [(example_query, ?en)]"
    unfolding example_cache_def insert_response_eq [OF refl refl] q
    by (simp add: middleware_cache_def cache_new_def config_default_def cache_size_def unwrap_or_def std_env_def
        list_lru_def l_find_def l_insert_def evict_all_def Let_def secs_def)
  moreover have "check_time example_cache (secs 100) None = secs 105"
  proof -
    have "same_setup std_env (middleware_cache std_env config_default) example_cache"
      unfolding example_cache_def by (rule sc.insert_setup)
    then have "dc_prefetch_time example_cache = 28800"
      by (simp add: same_setup_def middleware_cache_def prefetch_interval_def config_default_def unwrap_or_def
          serve_expired_ttl_def Let_def)
    then show ?thesis
      by (simp add: check_time_def Let_def checked_sub_def unwrap_or_def secs_def)
  qed
  moreover have "prefetch_step (secs 100) (secs 105) example_query ?en = Due"
    by (simp add: prefetch_step_def entry_new_def is_current_def negative_response_ttl_def stored_def Let_def
        with_valid_until_def with_name_server_group_def from_message_def example_message_def example_query_def
        dr_query_def secs_def)
  moreover have "dr_group (en_data ?en) = Some ''default''"
    by (simp add: entry_new_def stored_def Let_def with_valid_until_def with_name_server_group_def)
  ultimately show ?thesis
    by (simp add: get_expired_def Let_def split_beta sort_by_def)
qed

theorem prefetch_due_once_witness:
  "fst (fst (get_expired std_env (secs 100) None example_cache)) = [(example_query, Some ''default'')] \<and>
   fst (fst (get_expired std_env (secs 100) None (snd (get_expired std_env (secs 100) None example_cache)))) = []"
proof
  show "fst (fst (get_expired std_env (secs 100) None example_cache)) = [(example_query, Some ''default'')]"
    by (rule example_due)
  obtain ex nxt d' where g: "get_expired std_env (secs 100) None example_cache = ((ex, nxt), d')" by (metis surj_pair)
  then show "fst (fst (get_expired std_env (secs 100) None (snd (get_expired std_env (secs 100) None example_cache)))) = []"
    using prefetch_due_once [OF example_cache_reached(1,2,4) g] by simp
qed

text \<open>
  C11: A positive reply that the chain gave for a query and that the handler stored is served to
  the next equal query of the same group, until its (limited) TTL runs out, with the same data
  and without running the chain.
\<close>

theorem repeated_query_hits:
  assumes "lru_library (q_eq (ce_lib E)) (ce_lru E)" "1 \<le> cache_size cfg"
    "cache_reaches E (middleware_cache E cfg) (cs_cache s)"
    and "negative_response_ttl r = None" "list_ex (\<lambda>x. rr_type x = q_type q) (answers r)" "\<not> cx_no_cache ctx"
    and "ttl = ttl_apply (rr_ttl_limits ctx) (unwrap_or (min_ttl r) 0)"
    and "cc_memory_size (cf_cache cfg) = None"
    and "q_eq (ce_lib E) (dr_query r) (rq_query req)" "nowb \<le> now + secs (unat ttl)"
    and "\<not> opts_no_cache (cx_server_opts ctxb)" "\<not> cx_no_cache ctxb" "\<not> is_dnssec ds req"
    and "\<not> so_is_background (cx_server_opts ctxb)" "server_group_name ctxb = server_group_name ctx"
  shows "\<exists>res st'. (\<forall>nxt. cache_handle E ds wallb nowb nowc ctxb req nxt
        (store_reply E wall now ctx q None r s, rest) = (Inr res, ctxb\<lparr>cx_source := FromCache\<rparr>, st')) \<and>
      map rr_data (answers res) = map rr_data (answers r) \<and> rcode res = rcode r"
proof -
  note s = store_inv [OF assms(1-3)]
  have "dc_memory_limit (cs_cache s) = 0"
    using s(3) assms(8) by (simp add: same_setup_def middleware_cache_def unwrap_or_def)
  then have fits: "dc_memory_limit (cs_cache s) = 0 \<or> P" for P by simp
  let ?g = "server_group_name ctx"
  let ?t = "map_option (ttl_apply (rr_ttl_limits ctx)) (min_ttl r)"
  have "min_ttl r \<noteq> None"
    using assms(5) by (auto simp: min_ttl_def list_min_def list_ex_iff)
  then have ttl: "unwrap_or ?t 0 = ttl" using assms(7) by (auto simp: unwrap_or_def)
  have st: "cs_cache (store_reply E wall now ctx q None r s) = insert_response E wall r now ttl ?g (cs_cache s)"
    using assms(4-6) ttl
    by (auto simp: store_reply_def Let_def spawn_def list_all_iff list_ex_iff split: option.split)
  obtain res d' where g:
    "cache_get E wallb (rq_query req) nowb (insert_response E wall r now ttl ?g (cs_cache s)) = (Some (res, Valid), d')"
    "shows_entry res (stored r now ttl ?g)"
    using cache_store.insert_get [OF s(1,2) fits assms(9,10), of wallb wall] by blast
  have m: "dr_message (stored r now ttl ?g) = dr_message r" "dr_group (stored r now ttl ?g) = Some ?g"
    by (simp_all add: stored_def Let_def with_valid_until_def with_name_server_group_def)
  then have "\<exists>s'. cached_reply E wallb nowb ctxb (rq_query req) (store_reply E wall now ctx q None r s) = (Some res, s')"
    using g st assms(15) by (simp add: cached_reply_def Let_def shows_entry_def)
  then obtain s' where
    "cached_reply E wallb nowb ctxb (rq_query req) (store_reply E wall now ctx q None r s) = (Some res, s')" ..
  then have "\<forall>nxt. cache_handle E ds wallb nowb nowc ctxb req nxt (store_reply E wall now ctx q None r s, rest) =
      (Inr res, ctxb\<lparr>cx_source := FromCache\<rparr>, (s', rest))"
    using assms(11-14) by (simp add: cache_handle_def)
  then show ?thesis
    using g(2) m by (auto simp: shows_entry_def)
qed

definition repeat_ctx :: dns_context where
  "repeat_ctx =
     \<lparr>cx_cfg = config_default, cx_server_opts = server_opts_default, cx_domain_rule = None, cx_fastest_speed = 0,
      cx_source = FromNone, cx_no_cache = False, cx_is_dualstack = False, cx_pending_speed_check = None\<rparr>"

definition repeat_state :: "(nat \<times> (query \<times> cache_entry) list) cache_state" where
  "repeat_state =
     \<lparr>cs_cache = middleware_cache std_env config_default, cs_checks = 0, cs_hits = 0, cs_spawned = []\<rparr>"

theorem repeated_query_hits_witness:
  "\<exists>res st'. (\<forall>nxt. cache_handle std_env (\<lambda>_. False) 0 5 5 repeat_ctx (request_new 1 example_message (V4 0) None) nxt
        (store_reply std_env 0 0 repeat_ctx example_query None (from_message 0 example_message) repeat_state, ()) =
      (Inr res, repeat_ctx\<lparr>cx_source := FromCache\<rparr>, st')) \<and> map rr_data (answers res) = [RD_A 0x01020304]"
proof -
  let ?r = "from_message 0 example_message" and ?req = "request_new 1 example_message (V4 0) None"
  have q: "rq_query ?req = example_query" "dr_query ?r = example_query"
    by (simp_all add: request_new_def from_message_def dr_query_def example_message_def example_query_def)
  have r: "negative_response_ttl ?r = None" "list_ex (\<lambda>x. rr_type x = q_type example_query) (answers ?r)"
    "map rr_data (answers ?r) = [RD_A 0x01020304]"
    by (simp_all add: negative_response_ttl_def q) (simp_all add: from_message_def example_message_def example_query_def)
  have c: "\<not> cx_no_cache repeat_ctx" "\<not> opts_no_cache (cx_server_opts repeat_ctx)"
    "\<not> so_is_background (cx_server_opts repeat_ctx)" "\<not> is_dnssec (\<lambda>_. False) ?req"
    "cc_memory_size (cf_cache config_default) = None"
    by (simp_all add: repeat_ctx_def server_opts_default_def opts_no_cache_def unwrap_or_def is_dnssec_def
        request_new_def config_default_def)
  have e: "q_eq (ce_lib std_env) (dr_query ?r) (rq_query ?req)"
    by (simp add: q sc.e_refl)
  have ttl: "60 = ttl_apply (rr_ttl_limits repeat_ctx) (unwrap_or (min_ttl ?r) 0)"
  proof -
    have "rr_ttl_limits repeat_ctx = \<lparr>tl_min = None, tl_max = None\<rparr>"
      by (simp add: rr_ttl_limits_def repeat_ctx_def config_default_def Let_def opt_node_get_def or_else_def
          set_ttl_def rr_ttl_min_def rr_ttl_max_def opt_filter_def)
    moreover have "min_ttl ?r = Some 60"
      by (simp add: min_ttl_def list_min_def from_message_def example_message_def)
    ultimately show ?thesis by (simp add: ttl_apply_def unwrap_or_def)
  qed
  have t: "5 \<le> 0 + secs (unat (60 :: u32))"
    by (simp add: secs_def)
  have reached: "cache_reaches std_env (middleware_cache std_env config_default) (cs_cache repeat_state)"
    by (simp add: repeat_state_def reaches_refl)
  show ?thesis
    using repeated_query_hits [OF example_cache_reached(1,2) reached r(1,2) c(1) ttl c(5) e t c(2,1,4,3) refl,
        where wallb = 0 and nowc = 5 and wall = 0 and rest = "()"]
    unfolding r(3) by (elim exE conjE) (rule exI, rule exI, rule conjI)
qed



text \<open>
  Loading ends on every file. A turn of \<open>deserialize_many\<close> takes at least a byte, so as many
  turns as the file has bytes give the result that any larger number of turns gives.
\<close>

theorem deserialize_terminates:
  assumes "bin_library B" "length data \<le> n"
  shows "deserialize_loop B E w wall now n data = deserialize_many B E w wall now data"
  by (rule bin_library.deserialize_fuel [OF assms])

theorem deserialize_terminates_witness:
  "deserialize_loop std_bin std_env 0 0 0 9 [1] = deserialize_many std_bin std_env 0 0 0 [1]"
  by (rule deserialize_terminates [OF sb.bin_library_axioms]) simp

text \<open>
  Loading a saved cache reverses the order of use: \<open>persist\<close> writes the most recently used entry
  first, and \<open>load\<close> puts the entries in that order, so the entry read first is the first to be
  evicted.
\<close>

theorem reload_reverses_recency:
  assumes "lru_library (q_eq (ce_lib E)) (ce_lru E)" "length es \<le> n" "1 \<le> n"
    and "keys_ok (q_eq (ce_lib E)) (map (\<lambda>en. (dr_query (en_data en), en)) es)"
    and "deserialize_many B E w wall now data = Some es"
  shows "lru_iter (ce_lru E) (load B E w wall now data (lru_new (ce_lru E) n)) =
    rev (map (\<lambda>en. (dr_query (en_data en), en)) es)"
proof -
  have s: "cache_store E" using assms(1) by (rule cache_store.intro)
  show ?thesis
    using cache_store.load_order [OF s, of "lru_new (ce_lru E) n" es] assms
    by (simp add: load_def lru_library.iter_new [OF assms(1,3)] lru_library.cap_new [OF assms(1,3)])
qed

text \<open>
  A prefetch passes the server group of the entry as the rule group of the query, and leaves the
  server group unset: without a rule for the name, an entry of any group is refreshed from the
  default servers, and the answer replaces it under the default group.
\<close>

theorem prefetch_loses_group:
  "\<exists>opts. prefetch_domains [(example_query, Some ''remote'')] = [[(example_query, opts)]] \<and>
     so_rule_group opts = Some ''remote'' \<and> so_group opts = None \<and>
     server_group_name (context_new std_lib (q_name example_query) config_default opts) = ''default''"
proof -
  have none: "dm_find std_lib (dm_empty :: arc tree_node domain_map) (q_name example_query) = None"
    by code_simp
  show ?thesis
    by (simp add: none prefetch_domains_def MAX_PREFETCH_CONCURRENCY_def server_opts_default_def context_new_def Let_def
        server_group_name_def find_domain_rule_def domain_rule_group_def config_default_def or_else_def unwrap_or_def)
qed

end
