(* ===== verification/Own_Listeners.thy ===== *)
theory Own_Listeners
  imports Context
begin

text \<open>
  The addresses this server answers on (\<^verbatim>\<open>src/src/own_listeners.rs\<close>), from its binds
  (\<^verbatim>\<open>src/src/config/bind_addr.rs\<close>), so that no upstream is this server.

  The addresses of the local interfaces are an argument.
\<close>

section \<open>Binds\<close>

datatype bind_addr = Localhost | BindAll | BindV4 ipv4 | BindV6 ipv6

datatype bind_kind = BindUdp | BindTcp | BindTls | BindHttp | BindHttps | BindQuic | BindH3

record bind_addr_config =
  ba_kind :: bind_kind
  ba_addr :: bind_addr
  ba_port :: u16
  ba_enabled :: "bool option"
  ba_device :: "string option"

definition bind_enabled :: "bind_addr_config \<Rightarrow> bool" where
  "bind_enabled b = unwrap_or (ba_enabled b) True"

definition sock_addr :: "bind_addr_config \<Rightarrow> ip_addr \<times> u16" where
  "sock_addr b =
     (case ba_addr b of
        Localhost \<Rightarrow> (V4 0x7f000001, ba_port b)
      | BindAll \<Rightarrow> (V4 0, ba_port b)
      | BindV4 ip \<Rightarrow> (V4 ip, ba_port b)
      | BindV6 ip \<Rightarrow> (V6 ip, ba_port b))"

section \<open>Listeners\<close>

datatype transport = TrPlain | TrTls | TrHttps | TrQuic | TrH3

record listener =
  ls_transport :: transport
  ls_addr :: "ip_addr \<times> u16"

definition from_binds :: "bind_addr_config list \<Rightarrow> listener list" where
  "from_binds binds =
     map (\<lambda>b. \<lparr>ls_transport =
             (case ba_kind b of
                BindUdp \<Rightarrow> TrPlain | BindTcp \<Rightarrow> TrPlain | BindTls \<Rightarrow> TrTls | BindHttp \<Rightarrow> TrHttps | BindHttps \<Rightarrow> TrHttps
              | BindQuic \<Rightarrow> TrQuic | BindH3 \<Rightarrow> TrH3),
           ls_addr = sock_addr b\<rparr>)
       (filter bind_enabled binds)"

definition transport_of :: "dns_url \<Rightarrow> transport" where
  "transport_of url =
     (case du_proto url of
        PcUdp \<Rightarrow> TrPlain | PcTcp \<Rightarrow> TrPlain | PcSystem \<Rightarrow> TrPlain | PcDhcp _ \<Rightarrow> TrPlain | PcTls \<Rightarrow> TrTls
      | PcHttps _ _ \<Rightarrow> TrHttps | PcQuic \<Rightarrow> TrQuic | PcH3 _ _ \<Rightarrow> TrH3)"

text \<open>\<open>IpAddr::is_unspecified\<close> and \<open>is_loopback\<close>; \<open>to_canonical\<close> is \<open>unmap_ip\<close>.\<close>

definition is_unspecified :: "ip_addr \<Rightarrow> bool" where
  "is_unspecified ip = (case ip of V4 a \<Rightarrow> a = 0 | V6 a \<Rightarrow> a = 0)"

definition is_loopback :: "ip_addr \<Rightarrow> bool" where
  "is_loopback ip = (case ip of V4 a \<Rightarrow> drop_bit 24 a = 127 | V6 a \<Rightarrow> a = 1)"

definition is_ipv4 :: "ip_addr \<Rightarrow> bool" where
  "is_ipv4 ip = (case ip of V4 _ \<Rightarrow> True | V6 _ \<Rightarrow> False)"

definition is_own :: "url_lib \<Rightarrow> listener list \<Rightarrow> dns_url \<Rightarrow> ip_addr list \<Rightarrow> bool" where
  "is_own U listeners url local_ips =
     (case url_ip U url of
        None \<Rightarrow> False
      | Some ip \<Rightarrow>
          (let ip = unmap_ip ip; port = url_port url; transport = transport_of url
           in list_ex (\<lambda>listener.
                let bound = unmap_ip (fst (ls_addr listener))
                in ls_transport listener = transport \<and> snd (ls_addr listener) = port \<and>
                   (if is_unspecified bound
                    then (\<not> is_ipv4 bound \<or> is_ipv4 ip) \<and>
                         (is_loopback ip \<or> is_unspecified ip \<or> ip \<in> set local_ips)
                    else bound = ip)) listeners))"

definition without_own :: "url_lib \<Rightarrow> ip_addr list \<Rightarrow> listener list \<Rightarrow> dns_url list \<Rightarrow> dns_url list \<times> nat" where
  "without_own U local_ips listeners urls =
     (let local_ips = (if listeners = [] then [] else local_ips);
          own = (\<lambda>url. is_own U listeners url local_ips)
      in (filter (\<lambda>url. \<not> own url) urls, length (filter own urls)))"

section \<open>Properties\<close>

text \<open>The addresses at which a query reaches a listener of this host.\<close>

definition reaches :: "ip_addr list \<Rightarrow> ip_addr \<Rightarrow> ip_addr \<Rightarrow> bool" where
  "reaches local_ips bound ip \<longleftrightarrow>
     (if is_unspecified bound
      then (is_ipv4 bound \<longrightarrow> is_ipv4 ip) \<and> (is_loopback ip \<or> is_unspecified ip \<or> ip \<in> set local_ips)
      else ip = bound)"


end
