(* ===== verification/Upstream.thy ===== *)
theory Upstream
  imports Cache_Laws Own_Listeners
begin

text \<open>
  The DNS client (\<^verbatim>\<open>src/src/dns_client.rs\<close>) and its counters (\<^verbatim>\<open>src/src/stats.rs\<close>): name servers,
  groups of name servers, the resolver for the names of the name servers, and the client that
  holds them.

  The connection to a server is an argument: what it answers to a query, and whether the answer
  has an EDNS record. A group asks its servers concurrently; the model takes the replies in the
  order in which they arrive, which \<open>arrival\<close> chooses.
\<close>

section \<open>Options\<close>

type_synonym client_subnet = "ip_addr \<times> u8"

record lookup_options =
  lk_is_dnssec :: bool
  lk_record_type :: record_type
  lk_client_subnet :: "client_subnet option"

definition lookup_options_default :: lookup_options where
  "lookup_options_default = \<lparr>lk_is_dnssec = False, lk_record_type = RT_A, lk_client_subnet = None\<rparr>"

record name_server_opts =
  no_blacklist_ip :: bool
  no_whitelist_ip :: bool
  no_check_edns :: bool
  no_client_subnet :: "client_subnet option"
  no_recursion_desired :: bool
  no_edns0 :: bool

record out_edns =
  oe_max_payload :: u16
  oe_version :: u8
  oe_dnssec_ok :: bool
  oe_subnet :: "client_subnet option"

record request_options =
  ro_recursion_desired :: bool
  ro_use_edns :: bool

definition MAX_PAYLOAD_LEN :: u16 where
  "MAX_PAYLOAD_LEN = 1232"

definition build_edns :: "request_options \<Rightarrow> client_subnet option \<Rightarrow> bool \<Rightarrow> out_edns option" where
  "build_edns opts subnet dnssec =
     (if \<not> ro_use_edns opts \<and> subnet = None \<and> \<not> dnssec then None
      else Some \<lparr>oe_max_payload = MAX_PAYLOAD_LEN, oe_version = 0, oe_dnssec_ok = dnssec, oe_subnet = subnet\<rparr>)"

section \<open>Counters\<close>

record query_statistics =
  qs_total :: u64
  qs_success :: u64
  qs_received :: u64
  qs_elapsed_micros :: u64

record upstream =
  up_stats :: query_statistics
  up_alive :: bool
  up_registered :: bool

definition micros :: "duration \<Rightarrow> u64" where
  "micros d = of_nat (d div 1000)"

definition upstream_completed :: "dns_result \<Rightarrow> duration \<Rightarrow> upstream \<Rightarrow> upstream" where
  "upstream_completed result elapsed u =
     (let reachable = (case result of
            Inr _ \<Rightarrow> True
          | Inl e \<Rightarrow> (case e of ErrProto (NoRecordsFound _) \<Rightarrow> True | _ \<Rightarrow> False));
          u = u\<lparr>up_alive := reachable\<rparr>;
          s = up_stats u
      in if reachable
         then u\<lparr>up_stats := s\<lparr>qs_received := qs_received s + 1,
                              qs_elapsed_micros := qs_elapsed_micros s + micros elapsed,
                              qs_success := qs_success s + 1\<rparr>\<rparr>
         else u)"

definition blocked :: "dns_context \<Rightarrow> dns_result \<Rightarrow> bool" where
  "blocked ctx result =
     (case result of
        Inr response \<Rightarrow>
          (case cx_source ctx of FromStatic \<Rightarrow> True | FromZone _ \<Rightarrow> True | _ \<Rightarrow> False) \<and>
          list_ex (\<lambda>r. rr_type r = RT_SOA) (answers response @ authorities response)
      | Inl (ErrResponseCode c) \<Rightarrow> c = NXDomain
      | Inl _ \<Rightarrow> False)"

record global_stats =
  gs_requests :: query_statistics
  gs_from_client :: u64
  gs_blocked :: u64

definition stats_completed ::
  "dns_context \<Rightarrow> u16 \<Rightarrow> dns_result \<Rightarrow> duration \<Rightarrow> global_stats \<Rightarrow> global_stats" where
  "stats_completed ctx src_port result duration g =
     (let r = gs_requests g;
          r = r\<lparr>qs_total := qs_total r + 1, qs_received := qs_received r + 1,
                qs_elapsed_micros := qs_elapsed_micros r + micros duration\<rparr>;
          r = (if (case result of Inr _ \<Rightarrow> True | Inl e \<Rightarrow> is_negative_response e)
               then r\<lparr>qs_success := qs_success r + 1\<rparr> else r);
          g = g\<lparr>gs_requests := r\<rparr>;
          g = (if \<not> so_is_background (cx_server_opts ctx) \<and> \<not> cx_is_dualstack ctx \<and> src_port \<noteq> 0
               then g\<lparr>gs_from_client := gs_from_client g + 1\<rparr> else g)
      in if blocked ctx result then g\<lparr>gs_blocked := gs_blocked g + 1\<rparr> else g)"

section \<open>Name servers\<close>

text \<open>\<open>sv_connection\<close>: the answer of the server to a query sent with these options.\<close>

record name_server =
  sv_options :: name_server_opts
  sv_connection :: "query \<Rightarrow> request_options \<Rightarrow> out_edns option \<Rightarrow> lookup_error + (dns_response \<times> bool)"

definition ns_lookup :: "name_server \<Rightarrow> name \<Rightarrow> lookup_options \<Rightarrow> dns_result" where
  "ns_lookup server n options =
     (let q = \<lparr>q_name = n, q_type = lk_record_type options, q_class = 1\<rparr>;
          opts = sv_options server;
          client_subnet = or_else (lk_client_subnet options) (no_client_subnet opts);
          request_options =
            \<lparr>ro_recursion_desired = no_recursion_desired opts,
             ro_use_edns = no_edns0 opts \<or> client_subnet \<noteq> None\<rparr>;
          edns = build_edns request_options client_subnet (lk_is_dnssec options)
      in case sv_connection server q request_options edns of
           Inl e \<Rightarrow> Inl e
         | Inr (res, has_edns) \<Rightarrow>
             (if no_check_edns opts \<and> \<not> has_edns
              then Inl (ErrProto (ProtoOther ''upstream reply has no required EDNS record''))
              else Inr res))"

text \<open>\<open>select_response\<close>: the replies in the order of their arrival. \<open>select_all\<close> panics when there
  are none (\<open>None\<close>).\<close>

fun select_loop ::
  "bool \<Rightarrow> dns_response option \<Rightarrow> lookup_error option \<Rightarrow> lookup_error option \<Rightarrow> dns_result list \<Rightarrow>
   dns_result option" where
  "select_loop prefer_nonempty empty_resp no_records_error last_error [] = None"
| "select_loop prefer_nonempty empty_resp no_records_error last_error (res # rest) =
     (case (case res of
              Inr response \<Rightarrow>
                (if answers response \<noteq> [] \<or> \<not> prefer_nonempty then Inl (Inr response)
                 else Inr (or_else empty_resp (Some response), no_records_error, last_error))
            | Inl e \<Rightarrow>
                (if is_negative_response e
                 then (if \<not> prefer_nonempty then Inl (Inl e)
                       else Inr (empty_resp, or_else no_records_error (Some e), last_error))
                 else Inr (empty_resp, no_records_error, Some e))) of
        Inl r \<Rightarrow> Some r
      | Inr (empty_resp, no_records_error, last_error) \<Rightarrow>
          (if rest = []
           then (case empty_resp of
                   Some response \<Rightarrow> Some (Inr response)
                 | None \<Rightarrow>
                     (case no_records_error of
                        Some e \<Rightarrow> Some (Inl e)
                      | None \<Rightarrow> map_option Inl last_error))
           else select_loop prefer_nonempty empty_resp no_records_error last_error rest))"

definition select_response :: "bool \<Rightarrow> dns_result list \<Rightarrow> dns_result option" where
  "select_response prefer_nonempty tasks = select_loop prefer_nonempty None None None tasks"

definition group_lookup ::
  "(dns_result list \<Rightarrow> dns_result list) \<Rightarrow> name_server list \<Rightarrow> name \<Rightarrow> lookup_options \<Rightarrow> dns_result option" where
  "group_lookup arrival servers n options =
     (case servers of
        [server] \<Rightarrow> Some (ns_lookup server n options)
      | _ \<Rightarrow> select_response (is_ip_addr (lk_record_type options))
               (arrival (map (\<lambda>s. ns_lookup s n options) servers)))"

section \<open>The resolver of server names\<close>

text \<open>\<open>BootstrapResolver\<close>: the records found so far, by query. \<open>HashMap::insert\<close> and \<open>get\<close> compare
  queries as the library does.\<close>

record bootstrap =
  bo_ip_store :: "(query \<times> rr list) list"
  bo_has_records :: bool

definition bootstrap_new :: bootstrap where
  "bootstrap_new = \<lparr>bo_ip_store = [], bo_has_records = False\<rparr>"

definition fqdn_query :: "name \<Rightarrow> record_type \<Rightarrow> query" where
  "fqdn_query n t = \<lparr>q_name = n\<lparr>nm_fqdn := True\<rparr>, q_type = t, q_class = 1\<rparr>"

definition local_lookup :: "name_lib \<Rightarrow> instant \<Rightarrow> bootstrap \<Rightarrow> name \<Rightarrow> record_type \<Rightarrow> dns_response option" where
  "local_lookup L now b n t =
     (if \<not> bo_has_records b then None
      else
        let q = fqdn_query n t
        in map_option (\<lambda>(_, records). new_with_max_ttl now q records) (l_find (q_eq L) q (bo_ip_store b)))"

text \<open>\<open>lookup\<close>; \<open>ask\<close> is the lookup of the group of bootstrap servers.\<close>

definition bootstrap_lookup ::
  "name_lib \<Rightarrow> instant \<Rightarrow> (name \<Rightarrow> lookup_options \<Rightarrow> dns_result option) \<Rightarrow> name \<Rightarrow> lookup_options \<Rightarrow>
   bootstrap \<Rightarrow> dns_result option \<times> bootstrap" where
  "bootstrap_lookup L now ask n options b =
     (case local_lookup L now b n (lk_record_type options) of
        Some lookup \<Rightarrow> (Some (Inr lookup), b)
      | None \<Rightarrow>
          (case ask n options of
             Some (Inr lookup) \<Rightarrow>
               (let q = fqdn_query n (lk_record_type options)
                in (Some (Inr lookup),
                    b\<lparr>bo_ip_store := (q, answers lookup) # l_del (q_eq L) q (bo_ip_store b), bo_has_records := True\<rparr>))
           | r \<Rightarrow> (r, b)))"

section \<open>DnsClient\<close>

record dns_client =
  cl_default :: "name_server list"
  cl_bootstrap :: bootstrap
  cl_servers :: "(string, name_server list) hmap"

definition client_server_group :: "dns_client \<Rightarrow> string \<Rightarrow> name_server list option" where
  "client_server_group c name =
     (if name = [] \<or> eq_ignore_ascii_case name ''default'' then Some (cl_default c)
      else map_of (cl_servers c) name)"

definition lookup_nameserver :: "name_lib \<Rightarrow> instant \<Rightarrow> dns_client \<Rightarrow> name \<Rightarrow> record_type \<Rightarrow> dns_response option" where
  "lookup_nameserver L now c n t = local_lookup L now (cl_bootstrap c) n t"

text \<open>
  What the client is built from: the \<open>url\<close> package, the addresses of the local interfaces, the system's
  resolvers (\<open>None\<close>: they cannot be read) and the preset ones, whether a protocol is encrypted, whether
  the TLS configuration of a server can be made, the resolver's options, without and with a resolver
  for server names, and the connection to a server.
\<close>

record client_env =
  cv_url :: url_lib
  cv_local_ips :: "ip_addr list"
  cv_system :: "dns_url list option"
  cv_presets :: "dns_url list"
  cv_encrypted :: "protocol \<Rightarrow> bool"
  cv_tls :: "name_server_info \<Rightarrow> bool"
  cv_recursion_desired :: "bool \<Rightarrow> bool"
  cv_edns0 :: "bool \<Rightarrow> bool"
  cv_connect :: "name_server_info \<Rightarrow> query \<Rightarrow> request_options \<Rightarrow> out_edns option \<Rightarrow> lookup_error + (dns_response \<times> bool)"

definition is_encrypted :: "client_env \<Rightarrow> protocol_config \<Rightarrow> bool" where
  "is_encrypted E p = (case to_protocol p of Some q \<Rightarrow> cv_encrypted E q | None \<Rightarrow> False)"

text \<open>\<open>NameServer::new\<close>.\<close>

definition name_server_new ::
  "client_env \<Rightarrow> client_subnet option \<Rightarrow> bool \<Rightarrow> name_server_info \<Rightarrow> name_server option" where
  "name_server_new E default_client_subnet has_resolver config =
     (if \<not> has_ip (cv_url E) (ni_server config) \<and> \<not> has_resolver then None
      else if is_encrypted E (du_proto (ni_server config)) \<and> \<not> cv_tls E config then None
      else
        Some \<lparr>sv_options =
                \<lparr>no_blacklist_ip = ni_blacklist_ip config, no_whitelist_ip = ni_whitelist_ip config,
                 no_check_edns = ni_check_edns config,
                 no_client_subnet = or_else (ni_subnet config) default_client_subnet,
                 no_recursion_desired = cv_recursion_desired E has_resolver, no_edns0 = cv_edns0 E has_resolver\<rparr>,
              sv_connection = cv_connect E config\<rparr>)"

text \<open>\<open>BootstrapResolver::from_system_conf\<close>.\<close>

definition from_system_conf :: "client_env \<Rightarrow> listener list \<Rightarrow> name_server list" where
  "from_system_conf E own_listeners =
     (let (urls, skipped) = without_own (cv_url E) (cv_local_ips E) own_listeners (unwrap_or (cv_system E) (cv_presets E));
          urls = (if urls = [] \<and> skipped > 0 then cv_presets E else urls)
      in List.map_filter (\<lambda>url. name_server_new E None False (info_of_url url)) urls)"

text \<open>\<open>DnsClientBuilder::build\<close>, from its parts: the servers that are not this server, the bootstrap
  servers among them, the configurations of a group (a hash set has no duplicates), and the server
  of a configuration. \<open>make_server\<close> makes one server per configuration, so that a bootstrap server
  has no resolver in its groups either.\<close>

definition upstream_configs :: "client_env \<Rightarrow> listener list \<Rightarrow> name_server_info list \<Rightarrow> name_server_info list" where
  "upstream_configs E own_listeners infos =
     (let local_ips = (if own_listeners = [] then [] else cv_local_ips E)
      in filter (\<lambda>info. \<not> is_own (cv_url E) own_listeners (ni_server info) local_ips) infos)"

definition bootstrap_configs :: "client_env \<Rightarrow> name_server_info list \<Rightarrow> name_server_info list" where
  "bootstrap_configs E infos =
     (let bootstrap_servers = filter (\<lambda>info. has_ip (cv_url E) (ni_server info)) (filter ni_bootstrap_dns infos)
      in if bootstrap_servers = []
         then filter (\<lambda>info. has_ip (cv_url E) (ni_server info) \<and> ni_proxy info = None) infos
         else bootstrap_servers)"

definition group_configs :: "name_server_info list \<Rightarrow> string option \<Rightarrow> name_server_info list" where
  "group_configs infos g =
     remdups (filter (\<lambda>i. case g of Some n \<Rightarrow> list_ex (\<lambda>x. x = n) (ni_group i) | None \<Rightarrow> \<not> ni_exclude_default_group i) infos)"

definition make_server ::
  "client_env \<Rightarrow> client_subnet option \<Rightarrow> name_server_info list \<Rightarrow> name_server_info \<Rightarrow> name_server option" where
  "make_server E subnet bootstraps info = name_server_new E subnet (info \<notin> set bootstraps) info"

text \<open>\<open>None\<close>: there is no bootstrap server, and the \<open>assert!\<close> panics.\<close>

definition build_client ::
  "client_env \<Rightarrow> client_subnet option \<Rightarrow> listener list \<Rightarrow> name_server_info list \<Rightarrow> dns_client option" where
  "build_client E subnet own_listeners infos =
     (let infos = upstream_configs E own_listeners infos;
          bootstraps = bootstrap_configs E infos;
          bootstrap_group =
            (if bootstraps \<noteq> [] then List.map_filter (make_server E subnet bootstraps) (remdups bootstraps)
             else from_system_conf E own_listeners);
          group = (\<lambda>g. List.map_filter (make_server E subnet bootstraps) (group_configs infos g))
      in if bootstrap_group = [] then None
         else Some \<lparr>cl_default = (if group_configs infos None = [] then bootstrap_group else group None),
                    cl_bootstrap = bootstrap_new,
                    cl_servers = map (\<lambda>g. (g, group (Some g))) (remdups (concat (map ni_group infos)))\<rparr>)"

section \<open>Which reply a group gives\<close>

definition positive :: "dns_result \<Rightarrow> bool" where
  "positive r \<longleftrightarrow> (case r of Inr x \<Rightarrow> answers x \<noteq> [] | Inl _ \<Rightarrow> False)"

definition replied :: "dns_result \<Rightarrow> bool" where
  "replied r \<longleftrightarrow> (case r of Inr _ \<Rightarrow> True | Inl _ \<Rightarrow> False)"

definition negative :: "dns_result \<Rightarrow> bool" where
  "negative r \<longleftrightarrow> (case r of Inr _ \<Rightarrow> False | Inl e \<Rightarrow> is_negative_response e)"

text \<open>The first reply that satisfies the earliest of the tests that any reply satisfies, and
  otherwise the last.\<close>

fun first_of :: "(dns_result \<Rightarrow> bool) list \<Rightarrow> dns_result list \<Rightarrow> dns_result" where
  "first_of [] rs = last rs"
| "first_of (t # ts) rs = (case find t rs of Some r \<Rightarrow> r | None \<Rightarrow> first_of ts rs)"

lemma select_loop_any:
  "rs \<noteq> [] \<Longrightarrow> select_loop False None None l rs = Some (first_of [\<lambda>r. replied r \<or> negative r] rs)"
proof (induction rs arbitrary: l)
  case (Cons r rs)
  then show ?case
    by (cases r) (auto simp: replied_def negative_def split: option.split)
qed simp

text \<open>What is kept of the replies read so far comes before the replies to come.\<close>

lemma select_loop_nonempty:
  "rs \<noteq> [] \<Longrightarrow>
   select_loop True e n l rs = Some (case find positive rs of Some r \<Rightarrow> r | None \<Rightarrow>
     (case or_else (map_option Inr e) (find replied rs) of Some r \<Rightarrow> r | None \<Rightarrow>
     (case or_else (map_option Inl n) (find negative rs) of Some r \<Rightarrow> r | None \<Rightarrow> last rs)))"
proof (induction rs arbitrary: e n l)
  case (Cons r rs)
  show ?case
  proof (cases "rs = []")
    case True
    then show ?thesis
      by (cases r; cases e; cases n)
        (auto simp: positive_def replied_def negative_def)
  next
    case False
    show ?thesis
    proof (cases r)
      case (Inl x)
      then show ?thesis
        using False Cons.IH [of e "or_else n (Some x)" l] Cons.IH [of e n "Some x"]
        by (cases "is_negative_response x"; cases n)
          (simp_all add: positive_def replied_def negative_def split: option.split)
    next
      case (Inr x)
      then show ?thesis
        using False Cons.IH [of "or_else e (Some x)" n l]
        by (cases "answers x = []"; cases e)
          (simp_all add: positive_def replied_def negative_def split: option.split)
    qed
  qed
qed simp

lemma group_reply_spec:
  assumes "servers \<noteq> []" "\<And>rs. mset (arrival rs) = mset rs"
  shows "group_lookup arrival servers n options =
    Some (case servers of
        [server] \<Rightarrow> ns_lookup server n options
      | _ \<Rightarrow> first_of (if is_ip_addr (lk_record_type options) then [positive, replied, negative]
                      else [\<lambda>r. replied r \<or> negative r])
               (arrival (map (\<lambda>s. ns_lookup s n options) servers)))"
proof -
  have "arrival (map (\<lambda>s. ns_lookup s n options) servers) \<noteq> []"
    using assms(1) assms(2) [of "map (\<lambda>s. ns_lookup s n options) servers"] by auto
  then have "select_response (is_ip_addr (lk_record_type options)) (arrival (map (\<lambda>s. ns_lookup s n options) servers)) =
      Some (first_of (if is_ip_addr (lk_record_type options) then [positive, replied, negative]
        else [\<lambda>r. replied r \<or> negative r]) (arrival (map (\<lambda>s. ns_lookup s n options) servers)))"
    by (simp add: select_response_def select_loop_any select_loop_nonempty cong: option.case_cong)
  then show ?thesis
    using assms(1)
    by (cases servers rule: remdups_adj.cases) (simp_all add: group_lookup_def del: first_of.simps)
qed

text \<open>
  C20: A group of servers that has any server gives a reply. For an address query it is the first
  answer with records; without one, the first empty answer, else the first negative error, else
  the last error. For other queries it is the first answer or negative error, else the last
  error.
\<close>

theorem group_reply_preferred:
  assumes "servers \<noteq> []" "\<And>rs. mset (arrival rs) = mset rs"
  shows "group_lookup arrival servers n options =
    Some (case servers of
        [server] \<Rightarrow> ns_lookup server n options
      | _ \<Rightarrow> first_of (if is_ip_addr (lk_record_type options) then [positive, replied, negative]
                      else [\<lambda>r. replied r \<or> negative r])
               (arrival (map (\<lambda>s. ns_lookup s n options) servers)))"
  using assms by (rule group_reply_spec)

definition example_opts :: name_server_opts where
  "example_opts =
     \<lparr>no_blacklist_ip = False, no_whitelist_ip = False, no_check_edns = False, no_client_subnet = None,
      no_recursion_desired = True, no_edns0 = True\<rparr>"

theorem group_reply_preferred_witness:
  "group_lookup rev
     [\<lparr>sv_options = example_opts, sv_connection = \<lambda>_ _ _. Inl (ErrProto ProtoTimeout)\<rparr>,
      \<lparr>sv_options = example_opts, sv_connection = \<lambda>q _ _. Inr (new_with_deadline q [] 0, True)\<rparr>]
     www_example_com lookup_options_default =
   Some (Inr (new_with_deadline \<lparr>q_name = www_example_com, q_type = RT_A, q_class = 1\<rparr> [] 0))"
proof -
  let ?a = "\<lparr>sv_options = example_opts, sv_connection = \<lambda>_ _ _. Inl (ErrProto ProtoTimeout)\<rparr>"
  let ?b = "\<lparr>sv_options = example_opts, sv_connection = \<lambda>q _ _. Inr (new_with_deadline q [] 0, True)\<rparr>"
  have "ns_lookup ?a www_example_com lookup_options_default = Inl (ErrProto ProtoTimeout)"
    "ns_lookup ?b www_example_com lookup_options_default =
       Inr (new_with_deadline \<lparr>q_name = www_example_com, q_type = RT_A, q_class = 1\<rparr> [] 0)"
    by (simp_all add: ns_lookup_def Let_def example_opts_def lookup_options_default_def)
  then show ?thesis
    using group_reply_preferred [of "[?a, ?b]" rev www_example_com lookup_options_default]
    by (simp add: lookup_options_default_def positive_def replied_def negative_def)
qed

text \<open>A group all of whose servers could not be created is empty; looking up any type but an
  address through it panics in \<open>select_all\<close>.\<close>

theorem empty_group_panics: "group_lookup arrival [] n options = None" if "arrival [] = []"
  using that by (simp add: group_lookup_def select_response_def)

section \<open>The names of servers\<close>

lemma local_lookup_hit:
  assumes "name_library L" "bo_has_records b" "bo_ip_store b = (q, records) # rest"
    "nl_eq L (q_name q) (n\<lparr>nm_fqdn := True\<rparr>)" "q_type q = t" "q_class q = 1"
  shows "local_lookup L now b n t = Some (new_with_max_ttl now (fqdn_query n t) records)"
  using assms by (simp add: local_lookup_def Let_def l_find_def q_eq_def fqdn_query_def)

text \<open>
  Once the name of a server has been resolved, every later question for that name, in any
  case of letters and with or without the trailing dot, and that type is answered with the same
  records, and no server is asked.
\<close>

theorem server_name_remembered:
  assumes "name_library L" "local_lookup L now b n (lk_record_type options) = None"
    and "bootstrap_lookup L now ask n options b = (Some (Inr lookup), b')"
    and "nl_eq L (n\<lparr>nm_fqdn := True\<rparr>) (n'\<lparr>nm_fqdn := True\<rparr>)" "lk_record_type options' = lk_record_type options"
  shows "\<exists>r. bootstrap_lookup L now' ask' n' options' b' = (Some (Inr r), b') \<and>
    answers r = answers lookup \<and> dr_query r = fqdn_query n' (lk_record_type options)"
proof -
  have b': "bo_ip_store b' = (fqdn_query n (lk_record_type options), answers lookup) #
      l_del (q_eq L) (fqdn_query n (lk_record_type options)) (bo_ip_store b)" "bo_has_records b'"
    using assms(2,3) by (auto simp: bootstrap_lookup_def Let_def split: option.splits sum.splits)
  have "local_lookup L now' b' n' (lk_record_type options) =
      Some (new_with_max_ttl now' (fqdn_query n' (lk_record_type options)) (answers lookup))"
    by (rule local_lookup_hit [OF assms(1) b'(2,1)]) (use assms(4) in \<open>simp_all add: fqdn_query_def\<close>)
  then show ?thesis
    using assms(5) by (simp add: bootstrap_lookup_def new_with_max_ttl_def)
qed

theorem server_name_remembered_witness:
  "\<exists>r. bootstrap_lookup std_lib 9 (\<lambda>_ _. None) www_example_com lookup_options_default
      (snd (bootstrap_lookup std_lib 0 (\<lambda>n _. Some (Inr (new_with_deadline default_query [from_rdata n 60 (RD_A 7)] 0)))
         (www_example_com\<lparr>nm_fqdn := False\<rparr>) lookup_options_default bootstrap_new)) =
      (Some (Inr r), snd (bootstrap_lookup std_lib 0
         (\<lambda>n _. Some (Inr (new_with_deadline default_query [from_rdata n 60 (RD_A 7)] 0)))
         (www_example_com\<lparr>nm_fqdn := False\<rparr>) lookup_options_default bootstrap_new)) \<and>
    map rr_data (answers r) = [RD_A 7]"
proof -
  let ?n = "www_example_com\<lparr>nm_fqdn := False\<rparr>"
  let ?ask = "\<lambda>n _. Some (Inr (new_with_deadline default_query [from_rdata n 60 (RD_A 7)] 0))"
  let ?l = "new_with_deadline default_query [from_rdata ?n 60 (RD_A 7)] 0"
  have 1: "local_lookup std_lib 0 bootstrap_new ?n (lk_record_type lookup_options_default) = None"
    by (simp add: local_lookup_def bootstrap_new_def)
  then have 2: "bootstrap_lookup std_lib 0 ?ask ?n lookup_options_default bootstrap_new =
      (Some (Inr ?l), snd (bootstrap_lookup std_lib 0 ?ask ?n lookup_options_default bootstrap_new))"
    by (simp add: bootstrap_lookup_def Let_def)
  have "nl_eq std_lib (?n\<lparr>nm_fqdn := True\<rparr>) (www_example_com\<lparr>nm_fqdn := True\<rparr>)"
    by (simp add: std.eq_refl)
  from server_name_remembered [OF std.name_library_axioms 1 2 this refl, of 9 "\<lambda>_ _. None"] show ?thesis
    by (auto simp: from_rdata_def)
qed

section \<open>The client that is built\<close>

lemma in_map_filter: "y \<in> set (List.map_filter f xs) \<longleftrightarrow> (\<exists>x\<in>set xs. f x = Some y)"
  by (force simp: List.map_filter_def)

lemma is_own_local [simp]: "is_own U ls url (if ls = [] then [] else ips) = is_own U ls url ips"
  by (cases ls) (auto simp: is_own_def Let_def split: option.split)

lemma upstream_configs_not_own:
  "info \<in> set (upstream_configs E own_listeners infos) \<Longrightarrow>
   info \<in> set infos \<and> \<not> is_own (cv_url E) own_listeners (ni_server info) (cv_local_ips E)"
  by (simp add: upstream_configs_def Let_def)

lemma bootstrap_configs_subset: "set (bootstrap_configs E infos) \<subseteq> set infos"
  by (auto simp: bootstrap_configs_def Let_def split: if_splits)

definition client_servers :: "dns_client \<Rightarrow> name_server set" where
  "client_servers c = set (cl_default c) \<union> \<Union> (set ` snd ` set (cl_servers c))"

text \<open>
  C21: No query is sent back to this server: every server of the client that is built, in every group,
  comes from a configured server, or from a resolver of the system, that is none of this server's own
  listeners, or from a preset.
\<close>

theorem no_query_loop:
  assumes "build_client E subnet own_listeners infos = Some c" "s \<in> client_servers c"
  shows "\<exists>info sn res. name_server_new E sn res info = Some s \<and>
    (\<not> is_own (cv_url E) own_listeners (ni_server info) (cv_local_ips E) \<or> ni_server info \<in> set (cv_presets E))"
proof -
  let ?infos = "upstream_configs E own_listeners infos"
  let ?boots = "bootstrap_configs E ?infos"
  have made: "\<exists>info sn res. name_server_new E sn res info = Some s \<and>
      \<not> is_own (cv_url E) own_listeners (ni_server info) (cv_local_ips E)"
    if "s \<in> set (List.map_filter (make_server E subnet ?boots) is)" "set is \<subseteq> set ?infos" for "is"
    using that upstream_configs_not_own by (fastforce simp: in_map_filter make_server_def)
  have system: "\<exists>info sn res. name_server_new E sn res info = Some s \<and>
      (\<not> is_own (cv_url E) own_listeners (ni_server info) (cv_local_ips E) \<or> ni_server info \<in> set (cv_presets E))"
    if "s \<in> set (from_system_conf E own_listeners)"
  proof -
    let ?w = "without_own (cv_url E) (cv_local_ips E) own_listeners (unwrap_or (cv_system E) (cv_presets E))"
    have "from_system_conf E own_listeners = List.map_filter (\<lambda>url. name_server_new E None False (info_of_url url))
        (if fst ?w = [] \<and> snd ?w > 0 then cv_presets E else fst ?w)"
      by (simp add: from_system_conf_def Let_def split: prod.split)
    with that obtain url where u: "name_server_new E None False (info_of_url url) = Some s"
      "url \<in> set (cv_presets E) \<or> url \<in> set (fst ?w)"
      by (auto simp: in_map_filter split: if_splits)
    moreover have "\<not> is_own (cv_url E) own_listeners url (cv_local_ips E)"
      if "url \<in> set (fst (without_own (cv_url E) (cv_local_ips E) own_listeners urls))" for urls
      using that by (simp add: without_own_def Let_def)
    ultimately show ?thesis by (fastforce simp: info_of_url_def)
  qed
  have sub: "set (group_configs ?infos g) \<subseteq> set ?infos" "set (remdups ?boots) \<subseteq> set ?infos" for g
    using bootstrap_configs_subset by (auto simp: group_configs_def)
  consider g where "s \<in> set (List.map_filter (make_server E subnet ?boots) (group_configs ?infos g))"
    | "s \<in> set (List.map_filter (make_server E subnet ?boots) (remdups ?boots))"
    | "s \<in> set (from_system_conf E own_listeners)"
    using assms by (auto simp: build_client_def Let_def client_servers_def split: if_splits)
  then show ?thesis
    using made sub system by cases blast+
qed

definition example_env :: client_env where
  "example_env =
     \<lparr>cv_url = small_lib, cv_local_ips = [], cv_system = None, cv_presets = [], cv_encrypted = (\<lambda>p. p \<noteq> Udp \<and> p \<noteq> Tcp),
      cv_tls = (\<lambda>_. True), cv_recursion_desired = (\<lambda>_. True), cv_edns0 = (\<lambda>_. True),
      cv_connect = (\<lambda>_ _ _ _. Inl (ErrProto ProtoTimeout))\<rparr>"

text \<open>A listener on port 53, and two servers: the listener and a server elsewhere.\<close>

definition example_listeners :: "listener list" where
  "example_listeners = [\<lparr>ls_transport = TrPlain, ls_addr = (V4 0, 53)\<rparr>]"

definition url_at :: "ipv4 \<Rightarrow> dns_url" where
  "url_at a = url_default\<lparr>du_host := HIpv4 a\<rparr>"

definition example_infos :: "name_server_info list" where
  "example_infos = [info_of_url (url_at 0x7f000001), (info_of_url (url_at 9))\<lparr>ni_group := [''g'']\<rparr>]"

definition server_elsewhere :: name_server where
  "server_elsewhere = \<lparr>sv_options = example_opts, sv_connection = \<lambda>_ _ _. Inl (ErrProto ProtoTimeout)\<rparr>"

lemma example_own:
  "is_own small_lib example_listeners (url_at 0x7f000001) ips" "\<not> is_own small_lib example_listeners (url_at 9) []"
  by (simp_all add: is_own_def example_listeners_def url_at_def url_default_def url_ip_def url_port_def default_port_def
      to_protocol_def protocol_default_port_def transport_of_def unmap_ip_def is_unspecified_def is_loopback_def is_ipv4_def)

lemma example_configs:
  "upstream_configs example_env example_listeners example_infos = [(info_of_url (url_at 9))\<lparr>ni_group := [''g'']\<rparr>]"
  using example_own by (simp add: upstream_configs_def example_env_def example_infos_def info_of_url_def example_listeners_def)

lemma example_client_built:
  "build_client example_env None example_listeners example_infos =
     Some \<lparr>cl_default = [server_elsewhere], cl_bootstrap = bootstrap_new, cl_servers = [(''g'', [server_elsewhere])]\<rparr>"
proof -
  let ?i = "(info_of_url (url_at 9))\<lparr>ni_group := [''g'']\<rparr>"
  have "bootstrap_configs example_env [?i] = [?i]"
    by (simp add: bootstrap_configs_def example_env_def info_of_url_def has_ip_def url_ip_def url_at_def url_default_def)
  moreover have "make_server example_env None [?i] ?i = Some server_elsewhere"
    by (simp add: make_server_def name_server_new_def example_env_def info_of_url_def has_ip_def url_ip_def url_at_def
        url_default_def is_encrypted_def to_protocol_def server_elsewhere_def example_opts_def)
  moreover have "group_configs [?i] None = [?i]" "group_configs [?i] (Some ''g'') = [?i]" "ni_group ?i = [''g'']"
    by (simp_all add: group_configs_def info_of_url_def)
  ultimately show ?thesis
    unfolding build_client_def example_configs by (simp add: Let_def map_filter_simps)
qed

theorem no_query_loop_witness:
  "\<exists>info sn res. name_server_new example_env sn res info = Some server_elsewhere \<and>
     \<not> is_own small_lib example_listeners (ni_server info) []"
  using no_query_loop [OF example_client_built, of server_elsewhere]
  by (simp add: client_servers_def example_env_def)

text \<open>
  Each group of the client holds the servers that its configurations make, and exists exactly when
  a configuration names it; a server that names no group, unless it is excluded, is in the default
  group.
\<close>

theorem groups_as_configured:
  assumes "build_client E subnet own_listeners infos = Some c"
  defines "configs \<equiv> upstream_configs E own_listeners infos"
  defines "made \<equiv> \<lambda>info s. make_server E subnet (bootstrap_configs E (upstream_configs E own_listeners infos)) info = Some s"
  shows "(g \<noteq> [] \<and> \<not> eq_ignore_ascii_case g ''default'' \<longrightarrow>
      (case client_server_group c g of
         None \<Rightarrow> \<forall>info\<in>set configs. g \<notin> set (ni_group info)
       | Some servers \<Rightarrow> (\<exists>info\<in>set configs. g \<in> set (ni_group info)) \<and>
           (\<forall>s. s \<in> set servers \<longleftrightarrow> (\<exists>info\<in>set configs. g \<in> set (ni_group info) \<and> made info s)))) \<and>
    (\<forall>info\<in>set configs. \<forall>s. \<not> ni_exclude_default_group info \<and> made info s \<longrightarrow>
      (\<exists>servers. client_server_group c ''default'' = Some servers \<and> s \<in> set servers))"
proof
  let ?boots = "bootstrap_configs E (upstream_configs E own_listeners infos)"
  let ?group = "\<lambda>g. List.map_filter (make_server E subnet ?boots) (group_configs configs g)"
  have c: "cl_servers c = map (\<lambda>g. (g, ?group (Some g))) (remdups (concat (map ni_group configs)))"
    "group_configs configs None \<noteq> [] \<Longrightarrow> cl_default c = ?group None"
    using assms(1) by (auto simp: build_client_def Let_def configs_def split: if_splits)
  have look: "map_of (cl_servers c) g = (if \<exists>info\<in>set configs. g \<in> set (ni_group info) then Some (?group (Some g)) else None)"
    unfolding c(1) by (auto simp: map_of_map_restrict restrict_map_def)
  show "g \<noteq> [] \<and> \<not> eq_ignore_ascii_case g ''default'' \<longrightarrow>
      (case client_server_group c g of
         None \<Rightarrow> \<forall>info\<in>set configs. g \<notin> set (ni_group info)
       | Some servers \<Rightarrow> (\<exists>info\<in>set configs. g \<in> set (ni_group info)) \<and>
           (\<forall>s. s \<in> set servers \<longleftrightarrow> (\<exists>info\<in>set configs. g \<in> set (ni_group info) \<and> made info s)))"
    by (auto simp: client_server_group_def look in_map_filter group_configs_def list_ex_iff made_def split: option.split)
  show "\<forall>info\<in>set configs. \<forall>s. \<not> ni_exclude_default_group info \<and> made info s \<longrightarrow>
      (\<exists>servers. client_server_group c ''default'' = Some servers \<and> s \<in> set servers)"
  proof (intro ballI allI impI)
    fix info s assume i: "info \<in> set configs" "\<not> ni_exclude_default_group info \<and> made info s"
    then have m: "info \<in> set (group_configs configs None)" by (simp add: group_configs_def)
    then have "cl_default c = ?group None" by (intro c(2)) auto
    with m i(2) show "\<exists>servers. client_server_group c ''default'' = Some servers \<and> s \<in> set servers"
      by (auto simp: client_server_group_def eq_ignore_ascii_case_def in_map_filter made_def)
  qed
qed

theorem groups_as_configured_witness:
  "case client_server_group
      \<lparr>cl_default = [server_elsewhere], cl_bootstrap = bootstrap_new, cl_servers = [(''g'', [server_elsewhere])]\<rparr> ''g'' of
     None \<Rightarrow> False | Some servers \<Rightarrow> \<exists>info\<in>set example_infos. ''g'' \<in> set (ni_group info)"
proof -
  have "\<not> eq_ignore_ascii_case ''g'' ''default''" by (simp add: eq_ignore_ascii_case_def lower_def ascii_def)
  then show ?thesis
    using groups_as_configured [OF example_client_built, of "''g''"]
    unfolding example_configs by (auto simp: client_server_group_def example_infos_def split: option.splits)
qed

end
