(* ===== verification/Select.thy ===== *)
theory Select
  imports Upstream
begin

text \<open>
  The choice among the replies of several upstreams (\<^verbatim>\<open>src/src/dns_mw_ns.rs\<close>): the filter on the
  addresses of one upstream, the three response modes and the probes.

  Queries and probes run concurrently. A selection is a state machine whose events are the
  completion of a pending query or of a pending probe, in any order: \<open>sel_event\<close> names the
  pending task and the time or the outcome. \<open>unreachable!()\<close> is \<open>None\<close>.
\<close>

section \<open>Filtering the reply of one upstream\<close>

record lookup_ip_options =
  li_response_strategy :: response_mode
  li_speed_check_mode :: "speed_check_mode_list option"
  li_no_speed_check :: bool
  li_ignore_ip :: ip_set
  li_ignore_ip_is_empty :: bool
  li_whitelist_ip :: ip_set
  li_blacklist_ip :: ip_set
  li_ip_alias :: "ip_addr \<Rightarrow> (nat \<times> ip_addr list) option"
  li_ip_alias_is_empty :: bool
  li_lookup_options :: lookup_options

definition ip_filter :: "name_server_opts \<Rightarrow> lookup_ip_options \<Rightarrow> ip_addr \<Rightarrow> bool" where
  "ip_filter ns_opts options ip =
     (if no_whitelist_ip ns_opts \<and> li_whitelist_ip options ip then True
      else if no_blacklist_ip ns_opts \<and> li_blacklist_ip options ip then False
      else \<not> li_ignore_ip options ip)"

definition family_matches :: "record_type \<Rightarrow> ip_addr \<Rightarrow> bool" where
  "family_matches t ip \<longleftrightarrow> (case ip of V4 _ \<Rightarrow> t = RT_A | V6 _ \<Rightarrow> t = RT_AAAA)"

text \<open>The records for the addresses of an alias: those of the queried family, and those that go to
  the additional section.\<close>

definition alias_records :: "record_type \<Rightarrow> rr \<Rightarrow> ip_addr list \<Rightarrow> rr list \<times> rr list" where
  "alias_records t r ips =
     (map (\<lambda>ip. r\<lparr>rr_data := rdata_of_ip ip\<rparr>) (filter (family_matches t) ips),
      map (\<lambda>ip. r\<lparr>rr_data := rdata_of_ip ip\<rparr>) (filter (\<lambda>ip. \<not> family_matches t ip) ips))"

fun filter_answers ::
  "name_server_opts \<Rightarrow> lookup_ip_options \<Rightarrow> name \<Rightarrow> nat list \<Rightarrow> rr list \<Rightarrow> rr list \<times> rr list" where
  "filter_answers ns_opts options n alias_set [] = ([], [])"
| "filter_answers ns_opts options n alias_set (r # rs) =
     (case opt_filter (ip_filter ns_opts options) (rr_ip r) of
        None \<Rightarrow> filter_answers ns_opts options n alias_set rs
      | Some ip \<Rightarrow>
          (let r = r\<lparr>rr_name := n\<rparr> in
           case li_ip_alias options ip of
             None \<Rightarrow>
               (let (ans, add) = filter_answers ns_opts options n alias_set rs in (r # ans, add))
           | Some (ptr, ips) \<Rightarrow>
               (if ptr \<notin> set alias_set
                then
                  (let (ans, add) = filter_answers ns_opts options n (alias_set @ [ptr]) rs;
                       (xs, ys) = alias_records (lk_record_type (li_lookup_options options)) r ips
                   in (xs @ ans, ys @ add))
                else filter_answers ns_opts options n alias_set rs)))"

text \<open>\<open>filtered_code\<close> is the response code that the library derives from \<open>AuthorityData::new(..)\<close> for
  the error when no address is left.\<close>

definition filter_response ::
  "response_code \<Rightarrow> instant \<Rightarrow> name_server_opts \<Rightarrow> lookup_ip_options \<Rightarrow> dns_result \<Rightarrow> dns_result" where
  "filter_response filtered_code now ns_opts options res =
     (if \<not> no_whitelist_ip ns_opts \<and> \<not> no_blacklist_ip ns_opts \<and> li_ignore_ip_is_empty options \<and>
         li_ip_alias_is_empty options
      then res
      else
        case res of
          Inl e \<Rightarrow> Inl e
        | Inr lookup \<Rightarrow>
            (let query = dr_query lookup;
                 (answers, lookup) = take_answers lookup;
                 (answers, add) = filter_answers ns_opts options (q_name query) [] answers;
                 lookup = fold add_additional add lookup
             in if answers = []
                then Inl (ErrProto (NoRecordsFound \<lparr>nr_soa = None, nr_response_code = filtered_code\<rparr>))
                else Inr (set_valid_until_max now (set_answers answers lookup))))"

definition per_nameserver_lookup_ip ::
  "response_code \<Rightarrow> instant \<Rightarrow> name_server \<Rightarrow> name \<Rightarrow> lookup_ip_options \<Rightarrow> dns_result" where
  "per_nameserver_lookup_ip filtered_code now server n options =
     filter_response filtered_code now (sv_options server) options
       (ns_lookup server n (li_lookup_options options))"

section \<open>Probes\<close>

text \<open>\<open>ping\<close>: the time a destination takes to answer, if it does within 200 milliseconds.\<close>

datatype ping_error = NoAddress | PingTimeout

fun multi_mode_ping ::
  "(ping_addr \<Rightarrow> duration option) \<Rightarrow> ip_addr \<Rightarrow> speed_check_mode list \<Rightarrow> ping_error + duration" where
  "multi_mode_ping ping ip [] = Inl PingTimeout"
| "multi_mode_ping ping ip (mode # modes) =
     (case to_ping_addr mode ip of
        None \<Rightarrow> Inl NoAddress
      | Some dest \<Rightarrow>
          (case ping dest of
             Some elapsed \<Rightarrow> Inr elapsed
           | None \<Rightarrow> multi_mode_ping ping ip modes))"

text \<open>\<open>ping_fastest\<close>: which of several destinations answers first, and when.\<close>

fun multi_mode_ping_fastest ::
  "(ping_addr list \<Rightarrow> (nat \<times> duration) option) \<Rightarrow> ip_addr list \<Rightarrow> speed_check_mode list \<Rightarrow>
   (ping_addr \<times> duration) option" where
  "multi_mode_ping_fastest ping_fastest ips [] = None"
| "multi_mode_ping_fastest ping_fastest ips (mode # modes) =
     (let dests = to_ping_addrs mode ips in
      case ping_fastest dests of
        Some (i, elapsed) \<Rightarrow> if i < length dests then Some (dests ! i, elapsed) else None
      | None \<Rightarrow> multi_mode_ping_fastest ping_fastest ips modes)"

section \<open>The state of a selection\<close>

text \<open>\<open>EvQuery t i\<close>: the \<open>i\<close>-th pending query completes at time \<open>t\<close>. \<open>EvPing i out\<close>: the \<open>i\<close>-th pending
  probe completes; \<open>out\<close> is the index of the address that answered, and the time it took.\<close>

datatype sel_event = EvQuery instant nat | EvPing nat "(nat \<times> duration) option"

record sel =
  sl_tasks :: "dns_result list"
  sl_pings :: "ip_addr list list"
  sl_ok :: "dns_response list"
  sl_err :: "lookup_error list"
  sl_received :: bool
  sl_deadline :: "instant option"
  sl_fastest :: "(ip_addr \<times> duration) option"
  sl_stats :: "(ip_addr, u8) hmap"
  sl_first :: "dns_result option"
  sl_stopped :: bool

definition sel_init :: "dns_result list \<Rightarrow> sel" where
  "sel_init tasks =
     \<lparr>sl_tasks = tasks, sl_pings = [], sl_ok = [], sl_err = [], sl_received = False, sl_deadline = None,
      sl_fastest = None, sl_stats = [], sl_first = None, sl_stopped = False\<rparr>"

definition drop_nth :: "nat \<Rightarrow> 'a list \<Rightarrow> 'a list" where
  "drop_nth i xs = take i xs @ drop (Suc i) xs"

definition is_valid_response :: "dns_result \<Rightarrow> bool" where
  "is_valid_response r =
     (case r of
        Inr response \<Rightarrow> rcode response = NoError \<or> rcode response = NXDomain
      | Inl e \<Rightarrow> is_negative_response e)"

text \<open>The result of a query at a time: once \<open>limit_remaining_queries\<close> has set a deadline, a query
  that completes after it has timed out.\<close>

definition query_result :: "sel \<Rightarrow> instant \<Rightarrow> nat \<Rightarrow> dns_result" where
  "query_result s t i =
     (case sl_deadline s of
        Some d \<Rightarrow> if t > d then Inl (ErrProto ProtoTimeout) else sl_tasks s ! i
      | None \<Rightarrow> sl_tasks s ! i)"

definition limit_remaining_queries :: "instant \<Rightarrow> dns_result \<Rightarrow> sel \<Rightarrow> sel" where
  "limit_remaining_queries t res s =
     (if sl_received s \<or> \<not> is_valid_response res then s
      else s\<lparr>sl_received := True, sl_deadline := Some (t + millis 200)\<rparr>)"

definition sel_done :: "sel \<Rightarrow> bool" where
  "sel_done s \<longleftrightarrow> sl_stopped s \<or> (sl_tasks s = [] \<and> sl_pings s = [])"

text \<open>One turn of the loop of \<open>FirstPing\<close>. \<open>None\<close>: there is no such task.\<close>

fun first_ping_step :: "sel_event \<Rightarrow> sel \<Rightarrow> sel option" where
  "first_ping_step (EvPing i out) s =
     (if i < length (sl_pings s)
      then
        (let ips = sl_pings s ! i; s = s\<lparr>sl_pings := drop_nth i (sl_pings s)\<rparr>
         in case out of
              None \<Rightarrow> Some s
            | Some (j, elapsed) \<Rightarrow>
                (if j < length ips
                 then Some (s\<lparr>sl_fastest := Some (ips ! j, elapsed), sl_stopped := True\<rparr>)
                 else None))
      else None)"
| "first_ping_step (EvQuery t i) s =
     (if i < length (sl_tasks s)
      then
        (let res = query_result s t i;
             s = s\<lparr>sl_tasks := drop_nth i (sl_tasks s)\<rparr>;
             s = limit_remaining_queries t res s
         in case res of
              Inr lookup \<Rightarrow>
                Some (s\<lparr>sl_ok := sl_ok s @ [lookup],
                        sl_pings := (if ip_addrs lookup \<noteq> [] then sl_pings s @ [ip_addrs lookup] else sl_pings s)\<rparr>)
            | Inl e \<Rightarrow> Some (s\<lparr>sl_err := sl_err s @ [e]\<rparr>))
      else None)"

text \<open>The addresses of a reply in \<open>FastestIp\<close>: each is counted, and probed when it is new. The
  counter has eight bits.\<close>

definition count_ip :: "ip_addr \<Rightarrow> sel \<Rightarrow> sel" where
  "count_ip ip s =
     (case map_of (sl_stats s) ip of
        None \<Rightarrow> s\<lparr>sl_stats := AList.update ip 1 (sl_stats s), sl_pings := sl_pings s @ [[ip]]\<rparr>
      | Some n \<Rightarrow> s\<lparr>sl_stats := AList.update ip (n + 1) (sl_stats s)\<rparr>)"

fun fastest_ip_step :: "bool \<Rightarrow> sel_event \<Rightarrow> sel \<Rightarrow> sel option" where
  "fastest_ip_step reports_first (EvPing i out) s =
     (if i < length (sl_pings s)
      then
        (let ips = sl_pings s ! i; s = s\<lparr>sl_pings := drop_nth i (sl_pings s)\<rparr>
         in case out of
              None \<Rightarrow> Some s
            | Some (j, elapsed) \<Rightarrow>
                (if j < length ips
                 then Some (if (case sl_fastest s of Some (_, t) \<Rightarrow> elapsed < t | None \<Rightarrow> True)
                            then s\<lparr>sl_fastest := Some (ips ! j, elapsed)\<rparr> else s)
                 else None))
      else None)"
| "fastest_ip_step reports_first (EvQuery t i) s =
     (if i < length (sl_tasks s)
      then
        (let res = query_result s t i;
             s = s\<lparr>sl_tasks := drop_nth i (sl_tasks s)\<rparr>;
             s = (if reports_first then s\<lparr>sl_received := sl_received s \<or> is_valid_response res\<rparr>
                  else limit_remaining_queries t res s);
             s = (if reports_first \<and> sl_first s = None \<and> (sl_received s \<or> sl_tasks s = [])
                  then s\<lparr>sl_first := Some res\<rparr> else s)
         in case res of
              Inr lookup \<Rightarrow>
                (let s = fold count_ip (ip_addrs lookup) s in Some (s\<lparr>sl_ok := sl_ok s @ [lookup]\<rparr>))
            | Inl e \<Rightarrow> Some (s\<lparr>sl_err := sl_err s @ [e]\<rparr>))
      else None)"

text \<open>A run of the loop: no event is taken once it has ended.\<close>

fun sel_run :: "(sel_event \<Rightarrow> sel \<Rightarrow> sel option) \<Rightarrow> sel_event list \<Rightarrow> sel \<Rightarrow> sel option" where
  "sel_run step [] s = Some s"
| "sel_run step (e # es) s =
     (if sel_done s then None else case step e s of None \<Rightarrow> None | Some s' \<Rightarrow> sel_run step es s')"

section \<open>The answer\<close>

text \<open>\<open>Iterator::max_by_key\<close>: the last of the greatest.\<close>

fun max_by_key :: "('a \<Rightarrow> nat) \<Rightarrow> 'a list \<Rightarrow> 'a option" where
  "max_by_key k [] = None"
| "max_by_key k (x # xs) =
     (case max_by_key k xs of None \<Rightarrow> Some x | Some y \<Rightarrow> if k y \<ge> k x then Some y else Some x)"

text \<open>\<open>order\<close>: the order in which the hash map yields its keys.\<close>

definition most_common :: "(ip_addr list \<Rightarrow> ip_addr list) \<Rightarrow> (ip_addr, nat) hmap \<Rightarrow> ip_addr option" where
  "most_common order stats =
     max_by_key (\<lambda>ip. unwrap_or (map_of stats ip) 0) (order (map fst stats))"

definition count_all :: "ip_addr list \<Rightarrow> (ip_addr, nat) hmap" where
  "count_all ips = fold (\<lambda>ip m. AList.update ip (unwrap_or (map_of m ip) 0 + 1) m) ips []"

definition selected_ip :: "(ip_addr list \<Rightarrow> ip_addr list) \<Rightarrow> response_mode \<Rightarrow> sel \<Rightarrow> ip_addr option" where
  "selected_ip order mode s =
     (case sl_fastest s of
        Some (ip, _) \<Rightarrow> Some ip
      | None \<Rightarrow>
          (if mode = FirstPing then most_common order (count_all (concat (map ip_addrs (sl_ok s))))
           else most_common order (map (apsnd unat) (sl_stats s))))"

fun answer_for :: "name \<Rightarrow> ip_addr \<Rightarrow> probe_result \<Rightarrow> dns_response list \<Rightarrow> dns_response option" where
  "answer_for n ip probe [] = None"
| "answer_for n ip probe (res # rest) =
     (let (answers, res) = take_answers res in
      case find (\<lambda>r. rr_ip r = Some ip) answers of
        Some record \<Rightarrow> Some (with_probe_result probe (add_answer (record\<lparr>rr_name := n\<rparr>) res))
      | None \<Rightarrow> answer_for n ip probe rest)"

definition sel_finish ::
  "(ip_addr list \<Rightarrow> ip_addr list) \<Rightarrow> response_mode \<Rightarrow> name \<Rightarrow> sel \<Rightarrow> dns_result option" where
  "sel_finish order mode n s =
     (case selected_ip order mode s of
        Some ip \<Rightarrow>
          map_option Inr (answer_for n ip
            (case sl_fastest s of Some (_, t) \<Rightarrow> Measured t | None \<Rightarrow> Failed) (sl_ok s))
      | None \<Rightarrow>
          (case sl_ok s of
             lookup # _ \<Rightarrow> Some (Inr lookup)
           | [] \<Rightarrow> (case sl_err s of e # _ \<Rightarrow> Some (Inl e) | [] \<Rightarrow> None)))"

text \<open>\<open>FastestResponse\<close>: the replies in the order of their arrival.\<close>

fun fastest_response :: "dns_result list \<Rightarrow> dns_result option" where
  "fastest_response [] = None"
| "fastest_response (res # rest) =
     (if is_valid_response res \<or> rest = [] then Some res else fastest_response rest)"

text \<open>What the environment decides: the arrival of replies, the schedule of a selection (by its
  response mode and whether it reports its first answer) and the order of hash maps; and what the
  library says of names and record types.\<close>

record world =
  w_lib :: name_lib
  w_now :: instant
  w_arrival :: "dns_result list \<Rightarrow> dns_result list"
  w_events :: "response_mode \<Rightarrow> bool \<Rightarrow> dns_result list \<Rightarrow> sel_event list"
  w_order :: "ip_addr list \<Rightarrow> ip_addr list"
  w_filtered_code :: response_code
  w_is_local :: "name \<Rightarrow> bool"
  w_type_is_dnssec :: "record_type \<Rightarrow> bool"

definition select_loop_of :: "response_mode \<Rightarrow> bool \<Rightarrow> sel_event \<Rightarrow> sel \<Rightarrow> sel option" where
  "select_loop_of mode reports_first = (if mode = FirstPing then first_ping_step else fastest_ip_step reports_first)"

definition select_ip_response :: "world \<Rightarrow> name \<Rightarrow> response_mode \<Rightarrow> dns_result list \<Rightarrow> dns_result option" where
  "select_ip_response W n mode tasks =
     (if mode = FastestResponse then fastest_response (w_arrival W tasks)
      else
        case sel_run (select_loop_of mode False) (w_events W mode False tasks) (sel_init tasks) of
          Some s \<Rightarrow> (if sel_done s then sel_finish (w_order W) mode n s else None)
        | None \<Rightarrow> None)"

end
