(* ===== verification/Select_Laws.thy ===== *)
theory Select_Laws
  imports Select
begin

text \<open>
  What the selection among upstreams guarantees, for every schedule of replies and probes: it ends,
  it never reaches \<open>unreachable!()\<close>, the answer is one that an upstream gave, the fastest address is
  the fastest probed, and the answer reported early is the one \<open>fastest-response\<close> gives. The
  locale \<open>selection\<close> is what the two loops have in common; \<open>fp\<close> and \<open>fi\<close> are its
  interpretations.
\<close>

section \<open>Lists\<close>

lemma set_drop_nth: "set (drop_nth i xs) \<subseteq> set xs"
  by (auto simp: drop_nth_def dest: in_set_takeD in_set_dropD)

lemma length_drop_nth: "i < length xs \<Longrightarrow> Suc (length (drop_nth i xs)) = length xs"
  by (auto simp: drop_nth_def)

lemma max_by_key_in: "max_by_key k xs = Some x \<Longrightarrow> x \<in> set xs"
  by (induction xs arbitrary: x) (auto split: option.splits if_splits)

lemma max_by_key_None: "max_by_key k xs = None \<longleftrightarrow> xs = []"
  by (cases xs) (auto split: option.splits)

lemma set_keys_update: "fst ` set (AList.update k v m) = insert k (fst ` set m)"
  using dom_update [of k v m] by (auto simp: dom_map_of_conv_image_fst)

lemma count_all_keys: "fst ` set (count_all ips) = set ips"
proof -
  have "fst ` set (fold (\<lambda>ip m. AList.update ip (unwrap_or (map_of m ip) 0 + 1) m) ips m) = fst ` set m \<union> set ips"
    for m :: "(ip_addr, nat) hmap"
    by (induction ips arbitrary: m) (auto simp: set_keys_update)
  then show ?thesis by (simp add: count_all_def)
qed

lemma length_alist_update:
  "length (AList.update k v m) = (if map_of m k = None then Suc (length m) else length m)"
  by (induction m) auto

section \<open>Counting addresses\<close>

definition sl_ips :: "sel \<Rightarrow> ip_addr set" where
  "sl_ips s = \<Union> (set ` ip_addrs ` set (sl_ok s))"

lemma count_ip_frame [simp]:
  "sl_tasks (count_ip ip s) = sl_tasks s" "sl_ok (count_ip ip s) = sl_ok s" "sl_err (count_ip ip s) = sl_err s"
  "sl_fastest (count_ip ip s) = sl_fastest s" "sl_first (count_ip ip s) = sl_first s"
  "sl_received (count_ip ip s) = sl_received s" "sl_stopped (count_ip ip s) = sl_stopped s"
  "sl_deadline (count_ip ip s) = sl_deadline s"
  by (simp_all add: count_ip_def split: option.split)

lemma count_ips_frame [simp]:
  "sl_tasks (fold count_ip ips s) = sl_tasks s" "sl_ok (fold count_ip ips s) = sl_ok s"
  "sl_err (fold count_ip ips s) = sl_err s" "sl_fastest (fold count_ip ips s) = sl_fastest s"
  "sl_first (fold count_ip ips s) = sl_first s" "sl_received (fold count_ip ips s) = sl_received s"
  "sl_stopped (fold count_ip ips s) = sl_stopped s" "sl_deadline (fold count_ip ips s) = sl_deadline s"
  by (induction ips arbitrary: s) simp_all

lemma count_ips_stats: "fst ` set (sl_stats (fold count_ip ips s)) = fst ` set (sl_stats s) \<union> set ips"
  by (induction ips arbitrary: s) (auto simp: count_ip_def set_keys_update split: option.split)

lemma count_ips_pings: "\<exists>new. sl_pings (fold count_ip ips s) = sl_pings s @ new \<and> (\<forall>g\<in>set new. set g \<subseteq> set ips)"
proof (induction ips arbitrary: s)
  case (Cons ip ips)
  obtain new where "sl_pings (fold count_ip ips (count_ip ip s)) = sl_pings (count_ip ip s) @ new"
    "\<forall>g\<in>set new. set g \<subseteq> set ips"
    using Cons by blast
  moreover have "sl_pings (count_ip ip s) = sl_pings s \<or> sl_pings (count_ip ip s) = sl_pings s @ [[ip]]"
    by (simp add: count_ip_def split: option.split)
  ultimately show ?case by fastforce
qed simp

lemma count_ips_pings_from:
  "sl_pings s = p \<Longrightarrow>
   \<exists>new. sl_pings (fold count_ip ips s) = p @ new \<and> (\<forall>g\<in>set new. set g \<subseteq> set ips)"
  using count_ips_pings [of ips s] by simp

lemma count_ips_length:
  "length (sl_pings (fold count_ip ips s)) + length (sl_stats s) = length (sl_pings s) + length (sl_stats (fold count_ip ips s))"
proof (induction ips arbitrary: s)
  case (Cons ip ips)
  have "length (sl_pings (count_ip ip s)) + length (sl_stats s) = length (sl_pings s) + length (sl_stats (count_ip ip s))"
    by (auto simp: count_ip_def length_alist_update split: option.split)
  then show ?case using Cons [of "count_ip ip s"] by simp
qed simp

section \<open>The invariant of a selection\<close>

definition timeout_error :: lookup_error where
  "timeout_error = ErrProto ProtoTimeout"

definition sel_inv :: "dns_result list \<Rightarrow> sel \<Rightarrow> bool" where
  "sel_inv tasks s \<longleftrightarrow>
     set (sl_tasks s) \<subseteq> set tasks \<and>
     (\<forall>r\<in>set (sl_ok s). Inr r \<in> set tasks) \<and>
     (\<forall>e\<in>set (sl_err s). Inl e \<in> set tasks \<or> e = timeout_error) \<and>
     length (sl_tasks s) + length (sl_ok s) + length (sl_err s) = length tasks \<and>
     (\<forall>g\<in>set (sl_pings s). set g \<subseteq> sl_ips s) \<and>
     (case sl_fastest s of None \<Rightarrow> True | Some (ip, _) \<Rightarrow> ip \<in> sl_ips s)"

lemma sel_inv_init: "sel_inv tasks (sel_init tasks)"
  by (simp add: sel_inv_def sel_init_def)

lemma query_result_cases:
  "i < length (sl_tasks s) \<Longrightarrow> query_result s t i \<in> set (sl_tasks s) \<or> query_result s t i = Inl timeout_error"
  by (auto simp: query_result_def timeout_error_def split: option.split)

lemma limit_frame [simp]:
  "sl_tasks (limit_remaining_queries t r s) = sl_tasks s" "sl_ok (limit_remaining_queries t r s) = sl_ok s"
  "sl_err (limit_remaining_queries t r s) = sl_err s" "sl_pings (limit_remaining_queries t r s) = sl_pings s"
  "sl_fastest (limit_remaining_queries t r s) = sl_fastest s" "sl_stats (limit_remaining_queries t r s) = sl_stats s"
  "sl_first (limit_remaining_queries t r s) = sl_first s" "sl_stopped (limit_remaining_queries t r s) = sl_stopped s"
  by (simp_all add: limit_remaining_queries_def)

text \<open>What a completed query adds, in either loop.\<close>

lemma sel_inv_reply:
  assumes inv: "sel_inv tasks s" and i: "i < length (sl_tasks s)" and r: "query_result s t i = Inr l"
    and s': "sl_tasks s' = drop_nth i (sl_tasks s)" "sl_ok s' = sl_ok s @ [l]" "sl_err s' = sl_err s"
      "sl_fastest s' = sl_fastest s" "\<exists>new. sl_pings s' = sl_pings s @ new \<and> (\<forall>g\<in>set new. set g \<subseteq> set (ip_addrs l))"
  shows "sel_inv tasks s'"
proof -
  have l: "Inr l \<in> set tasks"
    using query_result_cases [OF i, of t] r inv by (auto simp: sel_inv_def)
  have ips: "sl_ips s' = sl_ips s \<union> set (ip_addrs l)" by (auto simp: sl_ips_def s'(2))
  show ?thesis
    using inv l s' set_drop_nth [of i "sl_tasks s"] length_drop_nth [OF i] ips
    unfolding sel_inv_def by (auto split: option.splits)
qed

lemma sel_inv_error:
  assumes inv: "sel_inv tasks s" and i: "i < length (sl_tasks s)" and r: "query_result s t i = Inl e"
    and s': "sl_tasks s' = drop_nth i (sl_tasks s)" "sl_ok s' = sl_ok s" "sl_err s' = sl_err s @ [e]"
      "sl_fastest s' = sl_fastest s" "sl_pings s' = sl_pings s"
  shows "sel_inv tasks s'"
proof -
  have "Inl e \<in> set tasks \<or> e = timeout_error"
    using query_result_cases [OF i, of t] r inv by (auto simp: sel_inv_def)
  moreover have "sl_ips s' = sl_ips s" by (simp add: sl_ips_def s'(2))
  ultimately show ?thesis
    using inv s' set_drop_nth [of i "sl_tasks s"] length_drop_nth [OF i] unfolding sel_inv_def
    by (auto split: option.splits)
qed

lemma sel_inv_ping:
  assumes inv: "sel_inv tasks s" and i: "i < length (sl_pings s)"
    and s': "sl_tasks s' = sl_tasks s" "sl_ok s' = sl_ok s" "sl_err s' = sl_err s" "sl_pings s' = drop_nth i (sl_pings s)"
      "sl_fastest s' = sl_fastest s \<or> (\<exists>j t. j < length (sl_pings s ! i) \<and> sl_fastest s' = Some (sl_pings s ! i ! j, t))"
  shows "sel_inv tasks s'"
proof -
  have ips: "sl_ips s' = sl_ips s" by (simp add: sl_ips_def s'(2))
  have "set (sl_pings s ! i) \<subseteq> sl_ips s" using inv i by (auto simp: sel_inv_def)
  then show ?thesis
    using inv s' ips set_drop_nth [of i "sl_pings s"] unfolding sel_inv_def
    by (auto split: option.splits)
qed

lemma first_ping_inv: "first_ping_step e s = Some s' \<Longrightarrow> sel_inv tasks s \<Longrightarrow> sel_inv tasks s'"
proof (induction e s rule: first_ping_step.induct)
  case (1 i out s)
  then show ?case
    by (intro sel_inv_ping [OF 1(2), of i]) (auto simp: Let_def split: if_splits option.splits prod.splits)
next
  case (2 t i s)
  then have i: "i < length (sl_tasks s)" by (simp split: if_splits)
  show ?case
  proof (cases "query_result s t i")
    case (Inl e)
    then show ?thesis using 2 i by (intro sel_inv_error [OF 2(2) i Inl]) (auto simp: Let_def)
  next
    case (Inr l)
    then show ?thesis using 2 i by (intro sel_inv_reply [OF 2(2) i Inr]) (auto simp: Let_def)
  qed
qed

lemma fastest_ip_inv: "fastest_ip_step b e s = Some s' \<Longrightarrow> sel_inv tasks s \<Longrightarrow> sel_inv tasks s'"
proof (induction b e s rule: fastest_ip_step.induct)
  case (1 b i out s)
  then show ?case
    by (intro sel_inv_ping [OF 1(2), of i]) (auto simp: Let_def split: if_splits option.splits prod.splits)
next
  case (2 b t i s)
  then have i: "i < length (sl_tasks s)" by (simp split: if_splits)
  show ?case
  proof (cases "query_result s t i")
    case (Inl e)
    then show ?thesis using 2 i by (intro sel_inv_error [OF 2(2) i Inl]) (auto simp: Let_def split: if_splits)
  next
    case (Inr l)
    then show ?thesis
      using 2 i
      by (intro sel_inv_reply [OF 2(2) i Inr]) (auto simp: Let_def split: if_splits intro!: count_ips_pings_from)
  qed
qed

section \<open>The two loops\<close>

definition sel_ok :: "response_mode \<Rightarrow> dns_result list \<Rightarrow> sel \<Rightarrow> bool" where
  "sel_ok mode tasks s \<longleftrightarrow>
     sel_inv tasks s \<and> (mode \<noteq> FirstPing \<longrightarrow> fst ` set (sl_stats s) = sl_ips s) \<and>
     (sl_stopped s \<longrightarrow> sl_fastest s \<noteq> None)"

lemma sel_ok_init: "sel_ok mode tasks (sel_init tasks)"
  using sel_inv_init by (simp add: sel_ok_def sel_init_def sl_ips_def)

lemma first_ping_ok: "first_ping_step e s = Some s' \<Longrightarrow> sel_ok FirstPing tasks s \<Longrightarrow> sel_ok FirstPing tasks s'"
proof -
  assume st: "first_ping_step e s = Some s'" and ok: "sel_ok FirstPing tasks s"
  have "sl_stopped s' \<longrightarrow> sl_fastest s' \<noteq> None"
    using st ok
    by (induction e s rule: first_ping_step.induct)
      (auto simp: sel_ok_def Let_def split: if_splits option.splits sum.splits prod.splits)
  then show ?thesis
    using first_ping_inv [OF st] ok by (simp add: sel_ok_def)
qed

lemma fastest_ip_ok: "fastest_ip_step b e s = Some s' \<Longrightarrow> sel_ok FastestIp tasks s \<Longrightarrow> sel_ok FastestIp tasks s'"
proof -
  assume st: "fastest_ip_step b e s = Some s'" and ok: "sel_ok FastestIp tasks s"
  have "(sl_stopped s' \<longrightarrow> sl_fastest s' \<noteq> None) \<and> fst ` set (sl_stats s') = sl_ips s'"
    using st ok
  proof (induction b e s rule: fastest_ip_step.induct)
    case (1 b i out s)
    then have "sl_ok s' = sl_ok s \<and> sl_stats s' = sl_stats s \<and> sl_stopped s' = sl_stopped s \<and>
        (sl_fastest s \<noteq> None \<longrightarrow> sl_fastest s' \<noteq> None)"
      by (auto simp: Let_def split: if_splits option.splits prod.splits)
    then show ?case using 1(2) by (simp add: sel_ok_def sl_ips_def)
  next
    case (2 b t i s)
    show ?case
    proof (cases "query_result s t i")
      case (Inl x)
      then have "sl_ok s' = sl_ok s \<and> sl_stats s' = sl_stats s \<and> sl_stopped s' = sl_stopped s \<and>
          sl_fastest s' = sl_fastest s"
        using 2(1) by (auto simp: Let_def split: if_splits)
      then show ?thesis using 2(2) by (simp add: sel_ok_def sl_ips_def)
    next
      case (Inr l)
      then obtain s0 where "s' = (fold count_ip (ip_addrs l) s0)\<lparr>sl_ok := sl_ok s @ [l]\<rparr>"
        "sl_stats s0 = sl_stats s" "sl_stopped s0 = sl_stopped s" "sl_fastest s0 = sl_fastest s"
        using 2(1) by (auto simp: Let_def split: if_splits)
      then show ?thesis using 2(2) by (simp add: sel_ok_def sl_ips_def count_ips_stats Un_commute)
    qed
  qed
  then show ?thesis
    using fastest_ip_inv [OF st] ok by (simp add: sel_ok_def)
qed

lemma answer_for_in:
  assumes "ip \<in> \<Union> (set ` ip_addrs ` set oks)"
  shows "\<exists>up rec. up \<in> set oks \<and> rec \<in> set (answers up) \<and> rr_ip rec = Some ip \<and>
    answer_for n ip p oks = Some (with_probe_result p (add_answer (rec\<lparr>rr_name := n\<rparr>) (snd (take_answers up))))"
  using assms
proof (induction oks)
  case (Cons r oks)
  show ?case
  proof (cases "find (\<lambda>r. rr_ip r = Some ip) (answers r)")
    case None
    then have "ip \<notin> set (ip_addrs r)"
      by (auto simp: find_None_iff ip_addrs_def map_filter_def)
    then show ?thesis
      using Cons None by (auto simp: take_answers_def)
  next
    case (Some rec)
    then show ?thesis
      by (intro exI [of _ r] exI [of _ rec]) (auto simp: take_answers_def dest: find_SomeD)
  qed
qed simp

text \<open>The reply comes from an upstream: one record of an answer, or a whole reply without addresses.\<close>

definition from_upstream :: "name \<Rightarrow> dns_result list \<Rightarrow> dns_result \<Rightarrow> bool" where
  "from_upstream n tasks r \<longleftrightarrow>
     (case r of
        Inl e \<Rightarrow> Inl e \<in> set tasks \<or> e = timeout_error
      | Inr x \<Rightarrow>
          (Inr x \<in> set tasks \<and> ip_addrs x = []) \<or>
          (\<exists>up rec. Inr up \<in> set tasks \<and> rec \<in> set (answers up) \<and> answers x = [rec\<lparr>rr_name := n\<rparr>] \<and>
             rcode x = rcode up \<and> msg_queries (dr_message x) = msg_queries (dr_message up)))"

text \<open>The schedule in which every query and then every probe completes, the probes without an answer.\<close>

definition drain :: "(sel_event \<Rightarrow> sel \<Rightarrow> sel option) \<Rightarrow> dns_result list \<Rightarrow> sel_event list" where
  "drain step tasks =
     (let es = replicate (length tasks) (EvQuery 0 0)
      in case sel_run step es (sel_init tasks) of
           None \<Rightarrow> es
         | Some s \<Rightarrow> es @ replicate (length (sl_pings s)) (EvPing 0 None))"

lemma sel_run_append:
  "sel_run step (xs @ ys) s = (case sel_run step xs s of None \<Rightarrow> None | Some s' \<Rightarrow> sel_run step ys s')"
  by (induction xs arbitrary: s) (auto split: option.split)

locale selection =
  fixes mode :: response_mode and step :: "sel_event \<Rightarrow> sel \<Rightarrow> sel option"
  assumes step_ok: "step e s = Some s' \<Longrightarrow> sel_ok mode tasks s \<Longrightarrow> sel_ok mode tasks s'"
    and query_completes: "sl_tasks s \<noteq> [] \<Longrightarrow>
      \<exists>s'. step (EvQuery t 0) s = Some s' \<and> sl_tasks s' = tl (sl_tasks s) \<and> sl_stopped s' = sl_stopped s"
    and ping_completes: "sl_pings s \<noteq> [] \<Longrightarrow> step (EvPing 0 None) s = Some (s\<lparr>sl_pings := tl (sl_pings s)\<rparr>)"
begin

lemma queries_complete:
  "\<not> sl_stopped s \<Longrightarrow>
   \<exists>s'. sel_run step (replicate (length (sl_tasks s)) (EvQuery 0 0)) s = Some s' \<and> sl_tasks s' = [] \<and> \<not> sl_stopped s'"
proof (induction "length (sl_tasks s)" arbitrary: s)
  case (Suc k)
  then have ne: "sl_tasks s \<noteq> []" by auto
  from query_completes [OF this, of 0] obtain s1 where
    s1: "step (EvQuery 0 0) s = Some s1" "sl_tasks s1 = tl (sl_tasks s)" "sl_stopped s1 = sl_stopped s" by blast
  have "k = length (sl_tasks s1)" using Suc.hyps(2) s1(2) by simp
  from Suc.hyps(1) [OF this] Suc.prems s1(3) obtain s' where
    "sel_run step (replicate k (EvQuery 0 0)) s1 = Some s'" "sl_tasks s' = []" "\<not> sl_stopped s'"
    by (auto simp: \<open>k = length (sl_tasks s1)\<close>)
  then have "sel_run step (replicate (Suc k) (EvQuery 0 0)) s = Some s'"
    using ne Suc.prems s1(1) by (simp add: sel_done_def)
  then show ?case
    unfolding Suc.hyps(2) using \<open>sl_tasks s' = []\<close> \<open>\<not> sl_stopped s'\<close> by blast
qed simp

lemma pings_complete:
  "\<not> sl_stopped s \<Longrightarrow> sl_tasks s = [] \<Longrightarrow>
   \<exists>s'. sel_run step (replicate (length (sl_pings s)) (EvPing 0 None)) s = Some s' \<and> sel_done s'"
proof (induction "length (sl_pings s)" arbitrary: s)
  case (Suc k)
  then have ne: "sl_pings s \<noteq> []" by auto
  define s1 where "s1 = s\<lparr>sl_pings := tl (sl_pings s)\<rparr>"
  have k: "k = length (sl_pings s1)" using Suc.hyps(2) by (simp add: s1_def)
  have "\<not> sl_stopped s1" "sl_tasks s1 = []" using Suc.prems by (simp_all add: s1_def)
  from Suc.hyps(1) [OF k this] obtain s' where
    "sel_run step (replicate k (EvPing 0 None)) s1 = Some s'" "sel_done s'"
    by (auto simp: k)
  then have "sel_run step (replicate (Suc k) (EvPing 0 None)) s = Some s'"
    using ne Suc.prems(1) ping_completes [OF ne] by (simp add: sel_done_def s1_def)
  then show ?case
    unfolding Suc.hyps(2) using \<open>sel_done s'\<close> by blast
qed (simp add: sel_done_def)

text \<open>There is a schedule with which the selection ends.\<close>

lemma drain_ends: "\<exists>s. sel_run step (drain step tasks) (sel_init tasks) = Some s \<and> sel_done s"
proof -
  obtain s1 where s1: "sel_run step (replicate (length tasks) (EvQuery 0 0)) (sel_init tasks) = Some s1"
    "sl_tasks s1 = []" "\<not> sl_stopped s1"
    using queries_complete [of "sel_init tasks"] by (auto simp: sel_init_def)
  from pings_complete [OF s1(3,2)] show ?thesis
    using s1(1) by (simp add: drain_def sel_run_append)
qed

lemma run_ok: "sel_run step es s = Some s' \<Longrightarrow> sel_ok mode tasks s \<Longrightarrow> sel_ok mode tasks s'"
  by (induction es arbitrary: s) (auto split: if_splits option.splits intro: step_ok)

lemma counted_keys:
  assumes "sel_ok mode tasks s"
  shows "fst ` set (if mode = FirstPing then count_all (concat (map ip_addrs (sl_ok s)))
      else map (apsnd unat) (sl_stats s)) = sl_ips s"
proof -
  have "fst ` set (map (apsnd unat) m) = fst ` set m" for m :: "(ip_addr \<times> u8) list"
    by (induction m) auto
  then show ?thesis
    using assms by (simp add: sel_ok_def count_all_keys sl_ips_def)
qed

lemma selected_in:
  assumes "sel_ok mode tasks s" "\<And>xs. set (order xs) = set xs" "selected_ip order mode s = Some ip"
  shows "ip \<in> sl_ips s"
proof (cases "sl_fastest s")
  case (Some p)
  then show ?thesis
    using assms by (cases p) (auto simp: selected_ip_def sel_ok_def sel_inv_def)
next
  case None
  then have "most_common order (if mode = FirstPing then count_all (concat (map ip_addrs (sl_ok s)))
      else map (apsnd unat) (sl_stats s)) = Some ip"
    using assms(3) by (simp add: selected_ip_def split: if_splits)
  from max_by_key_in [OF this [unfolded most_common_def]] show ?thesis
    unfolding assms(2) using counted_keys [OF assms(1)] by simp
qed

lemma selected_none:
  assumes "sel_ok mode tasks s" "\<And>xs. set (order xs) = set xs" "selected_ip order mode s = None"
  shows "sl_ips s = {}"
proof -
  let ?m = "if mode = FirstPing then count_all (concat (map ip_addrs (sl_ok s))) else map (apsnd unat) (sl_stats s)"
  have "sl_fastest s = None" using assms(3) by (auto simp: selected_ip_def split: option.splits)
  then have "most_common order ?m = None"
    using assms(3) by (simp add: selected_ip_def split: if_splits)
  then have "order (map fst ?m) = []" by (simp add: most_common_def max_by_key_None)
  then have "fst ` set ?m = {}" using assms(2) [of "map fst ?m"] by simp
  then show ?thesis using counted_keys [OF assms(1)] by simp
qed

lemma finish_sound:
  assumes ok: "sel_ok mode tasks s" and fin: "sel_done s" and ne: "tasks \<noteq> []"
    and order: "\<And>xs. set (order xs) = set xs"
  shows "\<exists>r. sel_finish order mode n s = Some r \<and> from_upstream n tasks r"
proof (cases "selected_ip order mode s")
  case (Some ip)
  let ?p = "case sl_fastest s of Some (_, t) \<Rightarrow> Measured t | None \<Rightarrow> Failed"
  have "ip \<in> \<Union> (set ` ip_addrs ` set (sl_ok s))"
    using selected_in [OF ok order Some] by (simp add: sl_ips_def)
  from answer_for_in [OF this, of n ?p] obtain up rec where u: "up \<in> set (sl_ok s)" "rec \<in> set (answers up)"
    "answer_for n ip ?p (sl_ok s) = Some (with_probe_result ?p (add_answer (rec\<lparr>rr_name := n\<rparr>) (snd (take_answers up))))"
    by blast
  have "Inr up \<in> set tasks" using ok u(1) by (simp add: sel_ok_def sel_inv_def)
  then show ?thesis
    using u Some
    by (auto simp: sel_finish_def from_upstream_def with_probe_result_def add_answer_def take_answers_def
        set_answers_def intro!: exI [of _ up] exI [of _ rec])
next
  case None
  have ips: "sl_ips s = {}" by (rule selected_none [OF ok order None])
  have "\<not> sl_stopped s"
  proof
    assume "sl_stopped s"
    then obtain ip t where "sl_fastest s = Some (ip, t)" using ok by (auto simp: sel_ok_def)
    then show False using ok ips by (auto simp: sel_ok_def sel_inv_def)
  qed
  then have "sl_ok s \<noteq> [] \<or> sl_err s \<noteq> []"
    using ok fin ne by (auto simp: sel_ok_def sel_inv_def sel_done_def)
  then show ?thesis
    using ok ips None
    by (cases "sl_ok s"; cases "sl_err s")
      (auto simp: sel_finish_def from_upstream_def sel_ok_def sel_inv_def sl_ips_def)
qed

end

lemma drop_first [simp]: "drop_nth 0 xs = tl xs"
  by (simp add: drop_nth_def drop_Suc)

lemma fold_count_ip_frame [simp]:
  "sl_tasks (fold count_ip ips s) = sl_tasks s" "sl_stopped (fold count_ip ips s) = sl_stopped s"
  by (induction ips arbitrary: s) simp_all

interpretation fp: selection FirstPing first_ping_step
proof
  show "\<exists>s'. first_ping_step (EvQuery t 0) s = Some s' \<and> sl_tasks s' = tl (sl_tasks s) \<and> sl_stopped s' = sl_stopped s"
    if "sl_tasks s \<noteq> []" for s t
    using that by (auto simp: Let_def split: sum.split)
qed (simp_all add: first_ping_ok)

interpretation fi: selection FastestIp "fastest_ip_step reports_first" for reports_first
proof
  show "\<exists>s'. fastest_ip_step reports_first (EvQuery t 0) s = Some s' \<and> sl_tasks s' = tl (sl_tasks s) \<and>
      sl_stopped s' = sl_stopped s"
    if "sl_tasks s \<noteq> []" for s t
    using that by (auto simp: Let_def split: sum.split)
qed (simp_all add: fastest_ip_ok)

section \<open>Which address is chosen\<close>

definition probe_times :: "sel_event list \<Rightarrow> duration list" where
  "probe_times es = List.map_filter (\<lambda>e. case e of EvPing _ (Some (_, t)) \<Rightarrow> Some t | _ \<Rightarrow> None) es"

definition fastest_time :: "sel \<Rightarrow> duration option" where
  "fastest_time s = map_option snd (sl_fastest s)"

definition least_time :: "duration option \<Rightarrow> duration list \<Rightarrow> duration option" where
  "least_time t ts = (case t of None \<Rightarrow> list_min ts | Some u \<Rightarrow> Some (fold min ts u))"

lemma fastest_ip_time:
  assumes "fastest_ip_step b e s = Some s'"
  shows "fastest_time s' = least_time (fastest_time s) (probe_times [e])"
  using assms
proof (induction b e s rule: fastest_ip_step.induct)
  case (1 b i out s)
  then show ?case
    by (auto simp: Let_def fastest_time_def least_time_def probe_times_def map_filter_simps list_min_def min_def
        split: if_splits option.splits prod.splits)
next
  case (2 b t i s)
  then show ?case
    by (cases "query_result s t i")
      (auto simp: Let_def fastest_time_def least_time_def probe_times_def map_filter_simps list_min_def
        split: if_splits option.split)
qed

lemma list_min_Cons: "list_min (x # xs) = Some (fold min xs x)"
  unfolding list_min_def by (simp only: Min.set_eq_fold list.distinct if_False)

lemma least_time_append: "least_time t (ts @ us) = least_time (least_time t ts) us"
proof (cases t)
  case None
  then show ?thesis
    by (cases ts) (simp_all add: least_time_def list_min_Cons, simp add: list_min_def)
qed (simp add: least_time_def)

lemma run_time:
  "sel_run (fastest_ip_step b) es s = Some s' \<Longrightarrow> fastest_time s' = least_time (fastest_time s) (probe_times es)"
proof (induction es arbitrary: s)
  case Nil
  then show ?case by (simp add: probe_times_def map_filter_simps least_time_def list_min_def split: option.split)
next
  case (Cons e es)
  then obtain s1 where s1: "fastest_ip_step b e s = Some s1" "sel_run (fastest_ip_step b) es s1 = Some s'"
    by (auto split: if_splits option.splits)
  have "probe_times (e # es) = probe_times [e] @ probe_times es"
    by (simp add: probe_times_def map_filter_simps split: option.split)
  then show ?case
    using Cons.IH [OF s1(2)] fastest_ip_time [OF s1(1)] by (simp add: least_time_append)
qed

section \<open>The answer reported early\<close>

text \<open>The replies in the order in which the events complete the queries.\<close>

fun replies :: "sel_event list \<Rightarrow> dns_result list \<Rightarrow> dns_result list" where
  "replies [] tasks = []"
| "replies (EvPing i out # es) tasks = replies es tasks"
| "replies (EvQuery t i # es) tasks = tasks ! i # replies es (drop_nth i tasks)"

lemma early_kept: "fastest_ip_step True e s = Some s' \<Longrightarrow> sl_first s = Some r \<Longrightarrow> sl_first s' = Some r"
  by (induction True e s rule: fastest_ip_step.induct)
    (auto simp: Let_def split: if_splits option.splits sum.splits prod.splits)

lemma replies_length:
  "sel_run (fastest_ip_step b) es s = Some s' \<Longrightarrow>
   length (replies es (sl_tasks s)) + length (sl_tasks s') = length (sl_tasks s)"
proof (induction es arbitrary: s)
  case (Cons e es)
  then obtain s1 where s1: "fastest_ip_step b e s = Some s1" "sel_run (fastest_ip_step b) es s1 = Some s'"
    by (auto split: if_splits option.splits)
  show ?case
  proof (cases e)
    case (EvPing i out)
    then have "sl_tasks s1 = sl_tasks s"
      using s1(1) by (auto simp: Let_def split: if_splits option.splits prod.splits)
    then show ?thesis using Cons.IH [OF s1(2)] EvPing by simp
  next
    case (EvQuery t i)
    then have "sl_tasks s1 = drop_nth i (sl_tasks s)" "i < length (sl_tasks s)"
      using s1(1) by (auto simp: Let_def split: if_splits sum.splits)
    then show ?thesis using Cons.IH [OF s1(2)] EvQuery length_drop_nth [of i "sl_tasks s"] by simp
  qed
qed simp

lemma early_answer:
  assumes "sel_run (fastest_ip_step True) es s = Some s'" "sl_tasks s' = []" "sl_deadline s = None"
    and "sl_tasks s \<noteq> []" "sl_first s = None" "\<not> sl_received s"
  shows "sl_first s' = fastest_response (replies es (sl_tasks s))"
  using assms
proof (induction es arbitrary: s)
  case (Cons e es)
  then obtain s1 where s1: "fastest_ip_step True e s = Some s1" "sel_run (fastest_ip_step True) es s1 = Some s'"
    by (auto split: if_splits option.splits)
  have kept: "sl_first s' = Some r" if "sl_first s1 = Some r" for r
    using s1(2) that by (induction es arbitrary: s1) (auto split: if_splits option.splits dest: early_kept)
  show ?case
  proof (cases e)
    case (EvPing i out)
    then have "sl_tasks s1 = sl_tasks s" "sl_first s1 = sl_first s" "sl_received s1 = sl_received s"
      "sl_deadline s1 = sl_deadline s"
      using s1(1) by (auto simp: Let_def split: if_splits option.splits prod.splits)
    then show ?thesis
      using Cons.IH [OF s1(2)] Cons.prems EvPing by simp
  next
    case (EvQuery t i)
    let ?r = "sl_tasks s ! i"
    have i: "i < length (sl_tasks s)" using s1(1) EvQuery by (simp split: if_splits)
    have r: "query_result s t i = ?r" using Cons.prems(3) by (simp add: query_result_def)
    have t1: "sl_tasks s1 = drop_nth i (sl_tasks s)" "sl_deadline s1 = None"
      "sl_received s1 = is_valid_response ?r"
      "sl_first s1 = (if is_valid_response ?r \<or> drop_nth i (sl_tasks s) = [] then Some ?r else None)"
      using s1(1) EvQuery r i Cons.prems(3,5,6) by (auto simp: Let_def split: sum.splits if_splits)
    have len: "length (replies es (drop_nth i (sl_tasks s))) = length (drop_nth i (sl_tasks s))"
      using replies_length [OF s1(2)] t1(1) Cons.prems(2) by simp
    show ?thesis
    proof (cases "is_valid_response ?r \<or> drop_nth i (sl_tasks s) = []")
      case True
      have "replies es (drop_nth i (sl_tasks s)) = [] \<or> is_valid_response ?r"
        using True len by auto
      then show ?thesis
        using kept t1(4) True EvQuery by auto
    next
      case False
      have "replies es (drop_nth i (sl_tasks s)) \<noteq> []"
        using False len by auto
      then show ?thesis
        using Cons.IH [OF s1(2)] Cons.prems(2) t1 False EvQuery by simp
    qed
  qed
qed simp

section \<open>The number of turns\<close>

lemma count_ips_distinct: "distinct (map fst (sl_stats s)) \<Longrightarrow> distinct (map fst (sl_stats (fold count_ip ips s)))"
proof (induction ips arbitrary: s)
  case (Cons ip ips)
  have "distinct (map fst (sl_stats (count_ip ip s)))"
    using Cons.prems by (simp add: count_ip_def distinct_update split: option.split)
  then show ?case using Cons.IH by simp
qed simp

lemma fastest_ip_turn:
  assumes "fastest_ip_step b e s = Some s'" "distinct (map fst (sl_stats s))"
  shows "Suc (length (sl_tasks s') + length (sl_pings s') + length (sl_stats s)) =
      length (sl_tasks s) + length (sl_pings s) + length (sl_stats s') \<and> distinct (map fst (sl_stats s')) \<and>
    sl_stopped s' = sl_stopped s"
  using assms
proof (induction b e s rule: fastest_ip_step.induct)
  case (1 b i out s)
  then show ?case
    using length_drop_nth [of i "sl_pings s"] by (auto simp: Let_def split: if_splits option.splits prod.splits)
next
  case (2 b t i s)
  then have i: "i < length (sl_tasks s)" by (simp split: if_splits)
  show ?case
  proof (cases "query_result s t i")
    case (Inl x)
    then show ?thesis
      using 2 i length_drop_nth [OF i] by (auto simp: Let_def split: if_splits)
  next
    case (Inr l)
    then obtain s0 where s0: "s' = (fold count_ip (ip_addrs l) s0)\<lparr>sl_ok := sl_ok s @ [l]\<rparr>"
      "sl_stats s0 = sl_stats s" "sl_pings s0 = sl_pings s" "sl_tasks s0 = drop_nth i (sl_tasks s)"
      "sl_stopped s0 = sl_stopped s"
      using 2(1) by (auto simp: Let_def split: if_splits)
    then show ?thesis
      using count_ips_length [of "ip_addrs l" s0] count_ips_distinct [of s0 "ip_addrs l"] 2(2) length_drop_nth [OF i]
      by simp
  qed
qed

lemma run_turns:
  assumes "sel_run (fastest_ip_step b) es s = Some s'" "distinct (map fst (sl_stats s))"
  shows "length es + length (sl_tasks s') + length (sl_pings s') + length (sl_stats s) =
      length (sl_tasks s) + length (sl_pings s) + length (sl_stats s') \<and> distinct (map fst (sl_stats s')) \<and>
    sl_stopped s' = sl_stopped s"
  using assms
proof (induction es arbitrary: s)
  case (Cons e es)
  then obtain s1 where s1: "fastest_ip_step b e s = Some s1" "sel_run (fastest_ip_step b) es s1 = Some s'"
    by (auto split: if_splits option.splits)
  show ?case
    using fastest_ip_turn [OF s1(1) Cons.prems(2)] Cons.IH [OF s1(2)] by auto
qed simp

definition task_ips :: "dns_result list \<Rightarrow> ip_addr set" where
  "task_ips tasks = \<Union> {set (ip_addrs r) |r. Inr r \<in> set tasks}"

lemma finite_task_ips: "finite (task_ips tasks)"
proof -
  have "{set (ip_addrs r) |r. Inr r \<in> set tasks} \<subseteq> (\<lambda>t. set (ip_addrs (projr t))) ` set tasks"
  proof
    fix A assume "A \<in> {set (ip_addrs r) |r. Inr r \<in> set tasks}"
    then obtain r where r: "Inr r \<in> set tasks" "A = set (ip_addrs r)" by blast
    then have "A = set (ip_addrs (projr (Inr r)))" by simp
    then show "A \<in> (\<lambda>t. set (ip_addrs (projr t))) ` set tasks" using r(1) by (rule image_eqI)
  qed
  from finite_subset [OF this] have "finite {set (ip_addrs r) |r. Inr r \<in> set tasks}" by simp
  then show ?thesis unfolding task_ips_def by (rule finite_Union) blast
qed

lemma selection_ok:
  assumes "tasks \<noteq> []" "mode \<noteq> FastestResponse" "\<And>xs. set (order xs) = set xs"
    and "sel_run (select_loop_of mode reports_first) es (sel_init tasks) = Some s" "sel_done s"
  shows "\<exists>r. sel_finish order mode n s = Some r \<and> from_upstream n tasks r"
proof (cases mode)
  case FirstPing
  have "sel_ok FirstPing tasks s"
    using fp.run_ok [OF _ sel_ok_init] assms(4) by (simp add: select_loop_of_def FirstPing)
  then show ?thesis
    unfolding FirstPing by (rule fp.finish_sound [OF _ assms(5,1,3)])
next
  case FastestIp
  have "sel_ok FastestIp tasks s"
    using fi.run_ok [OF _ sel_ok_init] assms(4) by (simp add: select_loop_of_def FastestIp)
  then show ?thesis
    unfolding FastestIp by (rule fi.finish_sound [OF _ assms(5,1,3)])
qed (use assms(2) in simp)

section \<open>Properties\<close>

text \<open>
  C13: Whatever the order in which upstreams and probes answer, once the selection has ended it has
  an answer (\<open>unreachable!()\<close> is not reached), and the answer is one of an upstream: a single
  record of one of the replies, under the queried name, or a reply without addresses, or an
  error.
\<close>

theorem selection_answers:
  assumes "tasks \<noteq> []" "mode \<noteq> FastestResponse" "\<And>xs. set (order xs) = set xs"
    and "sel_run (select_loop_of mode reports_first) es (sel_init tasks) = Some s" "sel_done s"
  shows "\<exists>r. sel_finish order mode n s = Some r \<and> from_upstream n tasks r"
  using assms by (rule selection_ok)

definition example_answer :: dns_response where
  "example_answer =
     new_with_deadline \<lparr>q_name = www_example_com, q_type = RT_A, q_class = 1\<rparr> [from_rdata www_example_com 60 (RD_A 7)] 0"

definition example_tasks :: "dns_result list" where
  "example_tasks = [Inl timeout_error, Inr example_answer]"

definition example_events :: "sel_event list" where
  "example_events = [EvQuery 3 0, EvQuery 4 0, EvPing 0 (Some (0, 5))]"

definition example_end :: sel where
  "example_end =
     \<lparr>sl_tasks = [], sl_pings = [], sl_ok = [example_answer], sl_err = [timeout_error], sl_received = True,
      sl_deadline = None, sl_fastest = Some (V4 7, 5), sl_stats = [(V4 7, 1)], sl_first = Some (Inr example_answer),
      sl_stopped = False\<rparr>"

lemma example_run: "sel_run (fastest_ip_step True) example_events (sel_init example_tasks) = Some example_end"
  by (simp add: example_events_def example_tasks_def sel_init_def sel_done_def query_result_def drop_nth_def
      is_valid_response_def timeout_error_def is_negative_response_def example_answer_def ip_addrs_def
      map_filter_simps from_rdata_def count_ip_def example_end_def is_nx_domain_def Let_def)

theorem selection_answers_witness:
  "\<exists>r. sel_finish id FastestIp www_example_com example_end = Some r \<and> from_upstream www_example_com example_tasks r"
proof -
  have "sel_run (select_loop_of FastestIp True) example_events (sel_init example_tasks) = Some example_end"
    using example_run by (simp add: select_loop_of_def)
  moreover have "sel_done example_end" by (simp add: sel_done_def example_end_def)
  ultimately show ?thesis
    using selection_answers [of example_tasks FastestIp id] by (simp add: example_tasks_def)
qed



text \<open>
  C14: The selection ends. It takes no more turns than there are upstreams and different addresses in
  their replies, and as long as it has not ended some pending query or probe can complete.
\<close>

theorem selection_ends:
  assumes "sel_run (fastest_ip_step reports_first) es (sel_init tasks) = Some s"
  shows "length es \<le> length tasks + card (task_ips tasks) \<and>
    (\<not> sel_done s \<longrightarrow> (\<exists>e s'. fastest_ip_step reports_first e s = Some s'))"
proof
  have ok: "sel_ok FastestIp tasks s" by (rule fi.run_ok [OF assms sel_ok_init])
  have t: "length es + length (sl_tasks s) + length (sl_pings s) = length tasks + length (sl_stats s)"
    "distinct (map fst (sl_stats s))" "\<not> sl_stopped s"
    using run_turns [OF assms] by (simp_all add: sel_init_def)
  have "length (sl_stats s) = card (sl_ips s)"
  proof -
    have "set (map fst (sl_stats s)) = sl_ips s" using ok by (simp add: sel_ok_def)
    then show ?thesis using distinct_card [OF t(2)] by simp
  qed
  moreover have "sl_ips s \<subseteq> task_ips tasks"
    using ok by (fastforce simp: sel_ok_def sel_inv_def sl_ips_def task_ips_def)
  ultimately have "length (sl_stats s) \<le> card (task_ips tasks)"
    using card_mono [OF finite_task_ips] by simp
  then show "length es \<le> length tasks + card (task_ips tasks)"
    using t(1) by linarith
  show "\<not> sel_done s \<longrightarrow> (\<exists>e s'. fastest_ip_step reports_first e s = Some s')"
  proof
    assume "\<not> sel_done s"
    then consider "sl_tasks s \<noteq> []" | "sl_pings s \<noteq> []" using t(3) by (auto simp: sel_done_def)
    then show "\<exists>e s'. fastest_ip_step reports_first e s = Some s'"
    proof cases
      case 1
      then have "\<exists>s'. fastest_ip_step reports_first (EvQuery 0 0) s = Some s'"
        by (auto simp: Let_def split: sum.split)
      then show ?thesis by blast
    next
      case 2
      then have "\<exists>s'. fastest_ip_step reports_first (EvPing 0 None) s = Some s'" by simp
      then show ?thesis by blast
    qed
  qed
qed

theorem selection_ends_witness: "length example_events \<le> length example_tasks + card (task_ips example_tasks)"
  using selection_ends [OF example_run] by blast

text \<open>
  The answer that a \<open>fastest-response\<close> lookup reports before its speed check is the answer that
  plain \<open>fastest-response\<close> gives for the same order of replies.
\<close>

theorem early_answer_is_fastest_response:
  assumes "sel_run (fastest_ip_step True) es (sel_init tasks) = Some s" "sl_tasks s = []" "tasks \<noteq> []"
  shows "sl_first s = fastest_response (replies es tasks)"
  using early_answer [OF assms(1,2)] assms(3) by (simp add: sel_init_def)

theorem early_answer_is_fastest_response_witness:
  "sl_first example_end = fastest_response (replies example_events example_tasks) \<and>
   fastest_response (replies example_events example_tasks) = Some (Inr example_answer)"
proof
  show "sl_first example_end = fastest_response (replies example_events example_tasks)"
    by (rule early_answer_is_fastest_response [OF example_run]) (simp_all add: example_end_def example_tasks_def)
  then show "fastest_response (replies example_events example_tasks) = Some (Inr example_answer)"
    by (simp add: example_end_def)
qed

section \<open>The filter on the addresses of an upstream\<close>

text \<open>What a configuration allows as an answer to a query: an address of the reply that passes the
  filter and has no alias, or, of the queried family, an address of the alias of one that does.\<close>

definition allowed_address :: "name_server_opts \<Rightarrow> lookup_ip_options \<Rightarrow> rr list \<Rightarrow> ip_addr \<Rightarrow> bool" where
  "allowed_address ns_opts options rs ip \<longleftrightarrow>
     (\<exists>r orig. r \<in> set rs \<and> rr_ip r = Some orig \<and> ip_filter ns_opts options orig \<and>
        (case li_ip_alias options orig of
           None \<Rightarrow> ip = orig
         | Some (_, ips) \<Rightarrow> ip \<in> set ips \<and> family_matches (lk_record_type (li_lookup_options options)) ip))"

lemma rr_ip_rdata_of_ip [simp]: "rdata_ip (rdata_of_ip ip) = Some ip"
  by (cases ip) (simp_all add: rdata_of_ip_def)

lemma allowed_address_mono:
  "allowed_address ns_opts options xs ip \<Longrightarrow> set xs \<subseteq> set ys \<Longrightarrow> allowed_address ns_opts options ys ip"
  unfolding allowed_address_def by blast

lemma filter_answers_allowed:
  assumes "rec \<in> set (fst (filter_answers ns_opts options n seen rs))"
  shows "rr_name rec = n \<and> (\<exists>ip. rr_ip rec = Some ip \<and> allowed_address ns_opts options rs ip)"
  using assms
proof (induction rs arbitrary: seen)
  case (Cons r rs)
  have later: ?case if "rec \<in> set (fst (filter_answers ns_opts options n seen' rs))" for seen'
    using Cons.IH [OF that] allowed_address_mono [of ns_opts options rs _ "r # rs"] by auto
  show ?case
  proof (cases "opt_filter (ip_filter ns_opts options) (rr_ip r)")
    case None
    with Cons.prems later show ?thesis by simp
  next
    case some: (Some ip)
    then have ip: "rr_ip r = Some ip" "ip_filter ns_opts options ip"
      by (auto simp: opt_filter_Some_iff)
    show ?thesis
    proof (cases "li_ip_alias options ip")
      case None
      then have "rec = r\<lparr>rr_name := n\<rparr> \<or> rec \<in> set (fst (filter_answers ns_opts options n seen rs))"
        using Cons.prems some by (auto simp: Let_def split: prod.splits)
      moreover have "allowed_address ns_opts options (r # rs) ip"
        using ip None unfolding allowed_address_def by force
      ultimately show ?thesis using later ip(1) by auto
    next
      case (Some al)
      obtain ptr ips where al: "al = (ptr, ips)" by fastforce
      from Some some Cons.prems al consider
          a where "a \<in> set ips" "family_matches (lk_record_type (li_lookup_options options)) a"
            "rec = r\<lparr>rr_name := n, rr_data := rdata_of_ip a\<rparr>"
        | "rec \<in> set (fst (filter_answers ns_opts options n (if ptr \<in> set seen then seen else seen @ [ptr]) rs))"
        by (auto simp: Let_def alias_records_def split: prod.splits if_splits)
      then show ?thesis
      proof cases
        case 1
        then have "allowed_address ns_opts options (r # rs) a"
          using ip Some al unfolding allowed_address_def by force
        with 1 show ?thesis by simp
      qed (rule later)
    qed
  qed
qed simp

text \<open>An address that may be answered is answered.\<close>

lemma filter_answers_complete:
  assumes "r \<in> set rs" "rr_ip r = Some ip" "ip_filter ns_opts options ip" "li_ip_alias options ip = None"
  shows "r\<lparr>rr_name := n\<rparr> \<in> set (fst (filter_answers ns_opts options n seen rs))"
  using assms
proof (induction rs arbitrary: seen)
  case (Cons r' rs)
  show ?case
  proof (cases "r = r'")
    case True
    with Cons.prems show ?thesis by (auto simp: Let_def split: prod.splits)
  next
    case False
    with Cons.prems have "r\<lparr>rr_name := n\<rparr> \<in> set (fst (filter_answers ns_opts options n s rs))" for s
      by (intro Cons.IH) simp_all
    then show ?thesis
      by (simp add: Let_def split: option.split prod.split) (metis UnCI fst_conv)
  qed
qed simp

lemma fold_add_additional_frame [simp]:
  "answers (fold add_additional add x) = answers x"
  by (induction add arbitrary: x) (auto simp: add_additional_def)

lemma filter_response_allowed:
  assumes "\<not> (\<not> no_whitelist_ip ns_opts \<and> \<not> no_blacklist_ip ns_opts \<and> li_ignore_ip_is_empty options \<and> li_ip_alias_is_empty options)"
  shows "case filter_response code now ns_opts options (Inr x) of
      Inl e \<Rightarrow> (\<exists>nr. e = ErrProto (NoRecordsFound nr)) \<and>
        (\<forall>ip\<in>set (ip_addrs x). ip_filter ns_opts options ip \<longrightarrow> li_ip_alias options ip \<noteq> None)
    | Inr y \<Rightarrow> answers y \<noteq> [] \<and>
        (\<forall>rec\<in>set (answers y). rr_name rec = q_name (dr_query x) \<and>
           (\<exists>ip. rr_ip rec = Some ip \<and> allowed_address ns_opts options (answers x) ip)) \<and>
        (\<forall>ip\<in>set (ip_addrs x). ip_filter ns_opts options ip \<and> li_ip_alias options ip = None \<longrightarrow>
           ip \<in> set (ip_addrs y))"
proof -
  let ?f = "filter_answers ns_opts options (q_name (dr_query x)) [] (answers x)"
  have complete: "\<exists>rec\<in>set (fst ?f). rr_ip rec = Some ip"
    if "ip \<in> set (ip_addrs x)" "ip_filter ns_opts options ip" "li_ip_alias options ip = None" for ip
  proof -
    from that(1) obtain r where "r \<in> set (answers x)" "rr_ip r = Some ip"
      by (auto simp: ip_addrs_def List.map_filter_def)
    from filter_answers_complete [OF this that(2,3), of "q_name (dr_query x)" "[]"] this
    show ?thesis by (intro bexI [where x = "r\<lparr>rr_name := q_name (dr_query x)\<rparr>"]) simp_all
  qed
  have sound: "\<forall>rec\<in>set (fst ?f). rr_name rec = q_name (dr_query x) \<and>
      (\<exists>ip. rr_ip rec = Some ip \<and> allowed_address ns_opts options (answers x) ip)"
    using filter_answers_allowed by blast
  obtain ans add where f: "?f = (ans, add)" by fastforce
  show ?thesis
  proof (cases "ans = []")
    case True
    have "filter_response code now ns_opts options (Inr x) =
        Inl (ErrProto (NoRecordsFound \<lparr>nr_soa = None, nr_response_code = code\<rparr>))"
      using assms f True by (simp add: filter_response_def take_answers_def Let_def)
    with True f complete show ?thesis by fastforce
  next
    case False
    then obtain y where "filter_response code now ns_opts options (Inr x) = Inr y" "answers y = ans"
      using assms f
      by (simp add: take_answers_def set_valid_until_max_def set_valid_until_def set_answers_def filter_response_def Let_def)
    moreover have "ip \<in> set (ip_addrs y)"
      if ip: "ip \<in> set (ip_addrs x)" "ip_filter ns_opts options ip" "li_ip_alias options ip = None" for ip
    proof -
      obtain rec where "rec \<in> set ans" "rr_ip rec = Some ip" using complete [OF ip] f by auto
      then show ?thesis using \<open>answers y = ans\<close> by (force simp: ip_addrs_def List.map_filter_def)
    qed
    ultimately show ?thesis using f False sound by simp
  qed
qed

text \<open>
  With a filter configured, the records that one upstream contributes carry the queried name and
  an address the configuration allows, every allowed address of the reply without an alias is among
  them, and an upstream with none left counts as having failed.
\<close>

theorem filtered_answers_allowed:
  assumes "\<not> (\<not> no_whitelist_ip ns_opts \<and> \<not> no_blacklist_ip ns_opts \<and> li_ignore_ip_is_empty options \<and> li_ip_alias_is_empty options)"
  shows "case filter_response code now ns_opts options (Inr x) of
      Inl e \<Rightarrow> (\<exists>nr. e = ErrProto (NoRecordsFound nr)) \<and>
        (\<forall>ip\<in>set (ip_addrs x). ip_filter ns_opts options ip \<longrightarrow> li_ip_alias options ip \<noteq> None)
    | Inr y \<Rightarrow> answers y \<noteq> [] \<and>
        (\<forall>rec\<in>set (answers y). rr_name rec = q_name (dr_query x) \<and>
           (\<exists>ip. rr_ip rec = Some ip \<and> allowed_address ns_opts options (answers x) ip)) \<and>
        (\<forall>ip\<in>set (ip_addrs x). ip_filter ns_opts options ip \<and> li_ip_alias options ip = None \<longrightarrow>
           ip \<in> set (ip_addrs y))"
  using assms by (rule filter_response_allowed)

definition example_ns_opts :: name_server_opts where
  "example_ns_opts =
     \<lparr>no_blacklist_ip = True, no_whitelist_ip = False, no_check_edns = False, no_client_subnet = None,
      no_recursion_desired = True, no_edns0 = True\<rparr>"

definition example_filter :: lookup_ip_options where
  "example_filter =
     \<lparr>li_response_strategy = FastestIp, li_speed_check_mode = None, li_no_speed_check = False,
      li_ignore_ip = (\<lambda>_. False), li_ignore_ip_is_empty = True, li_whitelist_ip = (\<lambda>_. False),
      li_blacklist_ip = (\<lambda>ip. ip = V4 8), li_ip_alias = (\<lambda>_. None), li_ip_alias_is_empty = True,
      li_lookup_options = lookup_options_default\<rparr>"

theorem filtered_answers_allowed_witness:
  "\<exists>y. filter_response ServFail 0 example_ns_opts example_filter (Inr example_answer) = Inr y \<and> answers y \<noteq> []"
proof -
  have "V4 7 \<in> set (ip_addrs example_answer)" "ip_filter example_ns_opts example_filter (V4 7)"
    "li_ip_alias example_filter (V4 7) = None"
    by (simp_all add: example_answer_def ip_addrs_def map_filter_simps from_rdata_def ip_filter_def
        example_ns_opts_def example_filter_def)
  then show ?thesis
    using filtered_answers_allowed [of example_ns_opts example_filter example_answer ServFail 0]
    by (auto simp: example_ns_opts_def split: sum.splits)
qed

end
