(* ===== verification/Ns_Mw.thy ===== *)
theory Ns_Mw
  imports Select_Laws
begin

text \<open>
  The middleware that asks the upstream servers (\<^verbatim>\<open>src/src/dns_mw_ns.rs\<close>): the lookup of
  addresses through a group, \<open>-recheck-nameserver\<close>, the deferred speed check and the handler.

  The state of the handler is the number of permits that the semaphore of deferred speed checks has
  left. \<open>None\<close> is a panic. The future that goes on after the first answer is the result it resolves
  to; the permit it holds is given back when it ends (\<open>speed_check_ends\<close>).
\<close>

section \<open>Looking up addresses\<close>

definition MAX_DEFERRED_SPEED_CHECKS :: nat where
  "MAX_DEFERRED_SPEED_CHECKS = 128"

definition no_connections :: lookup_error where
  "no_connections = ErrProto NoConnections"

definition lookup_strategy :: "lookup_ip_options \<Rightarrow> response_mode" where
  "lookup_strategy options =
     (let response_strategy =
            (if li_no_speed_check options \<or> li_speed_check_mode options = None then FastestResponse
             else li_response_strategy options);
          speed_check_mode = unwrap_or (li_speed_check_mode options) []
      in if list_ex mode_is_none speed_check_mode then FastestResponse else response_strategy)"

text \<open>\<open>assert!\<close> panics on a query for another type than an address.\<close>

definition lookup_ip :: "world \<Rightarrow> name_server list \<Rightarrow> name \<Rightarrow> lookup_ip_options \<Rightarrow> dns_result option" where
  "lookup_ip W servers n options =
     (if \<not> is_ip_addr (lk_record_type (li_lookup_options options)) then None
      else
        let response_strategy = lookup_strategy options;
            query_tasks = map (\<lambda>s. per_nameserver_lookup_ip (w_filtered_code W) (w_now W) s n options) servers
        in if response_strategy = FastestResponse \<and> length servers = 1 then Some (hd query_tasks)
           else if query_tasks = [] then Some (Inl no_connections)
           else select_ip_response W n response_strategy query_tasks)"

text \<open>\<open>lookup_ip_answering_first\<close>: the first answer, and what the rest of the lookup resolves to.\<close>

definition config_ip_options ::
  "runtime_config \<Rightarrow> response_mode \<Rightarrow> speed_check_mode_list option \<Rightarrow> bool \<Rightarrow> lookup_options \<Rightarrow> lookup_ip_options" where
  "config_ip_options cfg strategy modes no_check options =
     \<lparr>li_response_strategy = strategy, li_speed_check_mode = modes, li_no_speed_check = no_check,
      li_ignore_ip = cf_ignore_ip cfg, li_ignore_ip_is_empty = cf_ignore_ip_is_empty cfg,
      li_whitelist_ip = cf_whitelist_ip cfg, li_blacklist_ip = cf_blacklist_ip cfg,
      li_ip_alias = cf_ip_alias cfg, li_ip_alias_is_empty = cf_ip_alias_is_empty cfg,
      li_lookup_options = options\<rparr>"

definition lookup_ip_answering_first ::
  "world \<Rightarrow> name_server list \<Rightarrow> name \<Rightarrow> runtime_config \<Rightarrow> speed_check_mode_list \<Rightarrow> lookup_options \<Rightarrow>
   (dns_result \<times> dns_result option) option" where
  "lookup_ip_answering_first W servers n cfg modes lookup_options =
     (if servers = [] then Some (Inl no_connections, None)
      else if \<not> is_ip_addr (lk_record_type lookup_options) then None
      else
        let options = config_ip_options cfg FastestIp (Some modes) False lookup_options;
            query_tasks = map (\<lambda>s. per_nameserver_lookup_ip (w_filtered_code W) (w_now W) s n options) servers
        in case sel_run (select_loop_of FastestIp True) (w_events W FastestIp True query_tasks) (sel_init query_tasks) of
             Some s \<Rightarrow>
               (if \<not> sel_done s then None
                else
                  case (sl_first s, sel_finish (w_order W) FastestIp n s) of
                    (Some first, Some rest) \<Rightarrow> Some (first, Some rest)
                  | (None, Some result) \<Rightarrow> Some (result, None)
                  | (_, None) \<Rightarrow> None)
           | None \<Rightarrow> None)"

section \<open>Rechecking through another group\<close>

record recheck =
  re_group :: string
  re_ip_set :: string

fun recheck_up :: "arc tree_node \<Rightarrow> string \<Rightarrow> recheck option" where
  "recheck_up (TreeNode a z) group_name =
     (case ru_nameserver (arc_rule a) of
        Some nameserver \<Rightarrow>
          (case ru_recheck_nameserver (arc_rule a) of
             None \<Rightarrow> None
           | Some g \<Rightarrow>
               (if nameserver \<noteq> group_name \<or> g = group_name then None
                else
                  case ru_recheck_ip_set (arc_rule a) of
                    None \<Rightarrow> None
                  | Some s \<Rightarrow> Some \<lparr>re_group = g, re_ip_set = s\<rparr>))
      | None \<Rightarrow> (case z of None \<Rightarrow> None | Some n \<Rightarrow> recheck_up n group_name))"

definition recheck_find :: "arc tree_node option \<Rightarrow> string \<Rightarrow> recheck option" where
  "recheck_find domain_rule group_name =
     (case domain_rule of None \<Rightarrow> None | Some n \<Rightarrow> recheck_up n group_name)"

definition has_ip_in :: "dns_response \<Rightarrow> ip_set \<Rightarrow> bool" where
  "has_ip_in res ips = list_ex ips (List.map_filter rr_ip (answers res))"

definition recheck_lookup ::
  "world \<Rightarrow> recheck \<Rightarrow> dns_client \<Rightarrow> runtime_config \<Rightarrow> name \<Rightarrow> lookup_ip_options \<Rightarrow> dns_result \<Rightarrow>
   (dns_result \<times> string option) option" where
  "recheck_lookup W self client cfg n options res =
     (case recheck_ip_set cfg (re_ip_set self) of
        None \<Rightarrow> Some (res, None)
      | Some ips \<Rightarrow>
          (if \<not> (case res of Inr answer \<Rightarrow> has_ip_in answer ips | Inl _ \<Rightarrow> False) then Some (res, None)
           else
             case client_server_group client (re_group self) of
               None \<Rightarrow> Some (res, None)
             | Some server \<Rightarrow>
                 (case lookup_ip W server n options of
                    None \<Rightarrow> None
                  | Some (Inr answer) \<Rightarrow>
                      Some (if has_ip_in answer ips then (Inr answer, Some (re_group self)) else (res, None))
                  | Some (Inl _) \<Rightarrow> Some (res, None))))"

section \<open>The deferred speed check\<close>

definition ctx_response_mode :: "dns_context \<Rightarrow> response_mode" where
  "ctx_response_mode ctx =
     (case opt_node_get (\<lambda>n. ru_response_mode (rule_of n)) (cx_domain_rule ctx) of
        Some m \<Rightarrow> m | None \<Rightarrow> cfg_response_mode (cx_cfg ctx))"

definition ctx_speed_check_mode :: "dns_context \<Rightarrow> speed_check_mode_list option" where
  "ctx_speed_check_mode ctx =
     or_else (Option.bind (cx_domain_rule ctx) (\<lambda>n. ru_speed_check_mode (rule_of n)))
       (cf_speed_check_mode (cx_cfg ctx))"

definition deferred_speed_check_mode :: "world \<Rightarrow> dns_context \<Rightarrow> dns_request \<Rightarrow> speed_check_mode_list option" where
  "deferred_speed_check_mode W ctx req =
     (if ctx_response_mode ctx \<noteq> FastestResponse \<or> no_speed_check (cx_server_opts ctx) \<or>
         so_is_background (cx_server_opts ctx) \<or> cx_is_dualstack ctx \<or> cache_size (cx_cfg ctx) = 0 \<or>
         cx_no_cache ctx \<or> opts_no_cache (cx_server_opts ctx) \<or> is_dnssec (w_type_is_dnssec W) req
      then None
      else opt_filter (\<lambda>modes. modes \<noteq> [] \<and> \<not> list_ex mode_is_none modes) (ctx_speed_check_mode ctx))"

section \<open>The handler\<close>

definition request_lookup_options :: "world \<Rightarrow> dns_context \<Rightarrow> dns_request \<Rightarrow> lookup_options" where
  "request_lookup_options W ctx req =
     \<lparr>lk_is_dnssec = is_dnssec (w_type_is_dnssec W) req, lk_record_type = q_type (rq_query req),
      lk_client_subnet = or_else (Option.bind (rq_edns req) ed_subnet)
        (opt_node_get (\<lambda>n. ru_subnet (rule_of n)) (cx_domain_rule ctx))\<rparr>"

definition choose_group :: "dns_client \<Rightarrow> bool \<Rightarrow> string \<Rightarrow> name_server list option" where
  "choose_group client mdns group_name =
     (case (if mdns then client_server_group client ''mdns'' else None) of
        Some ns \<Rightarrow> Some ns
      | None \<Rightarrow> client_server_group client group_name)"

definition in_group :: "string \<Rightarrow> dns_result \<Rightarrow> dns_result" where
  "in_group g r = map_sum id (with_name_server_group g) r"

text \<open>The lookup with the rules' group and, if there is one, the recheck.\<close>

definition lookup_and_recheck ::
  "world \<Rightarrow> dns_client \<Rightarrow> name_server list \<Rightarrow> recheck option \<Rightarrow> dns_context \<Rightarrow> name \<Rightarrow> lookup_options \<Rightarrow>
   (dns_result \<times> string option) option" where
  "lookup_and_recheck W client servers re ctx n lookup_options =
     (let cfg = cx_cfg ctx;
          opts = config_ip_options cfg (ctx_response_mode ctx) (ctx_speed_check_mode ctx)
            (no_speed_check (cx_server_opts ctx)) lookup_options;
          opts = (if so_is_background (cx_server_opts ctx) then opts\<lparr>li_response_strategy := FastestIp\<rparr> else opts)
      in case lookup_ip W servers n opts of
           None \<Rightarrow> None
         | Some res \<Rightarrow>
             (case re of
                None \<Rightarrow> Some (res, None)
              | Some re \<Rightarrow>
                  recheck_lookup W re client cfg n
                    (opts\<lparr>li_response_strategy :=
                       (if so_is_background (cx_server_opts ctx) then FastestIp else cfg_response_mode cfg),
                       li_speed_check_mode := cf_speed_check_mode cfg\<rparr>)
                    res))"

text \<open>The conditions of the early answer: no recheck, a deferred speed check and a permit for it.\<close>

definition may_defer ::
  "world \<Rightarrow> dns_context \<Rightarrow> dns_request \<Rightarrow> recheck option \<Rightarrow> nat \<Rightarrow> speed_check_mode_list option" where
  "may_defer W ctx req re permits = (if re = None \<and> permits > 0 then deferred_speed_check_mode W ctx req else None)"

text \<open>The handler from the choice of the group on, and the whole.\<close>

definition ns_handle_group ::
  "world \<Rightarrow> dns_client \<Rightarrow> name_server list \<Rightarrow> bool \<Rightarrow> dns_context \<Rightarrow> dns_request \<Rightarrow> nat \<Rightarrow>
   (dns_result \<times> dns_context \<times> nat) option" where
  "ns_handle_group W client servers mdns ctx req permits =
     (let n = q_name (rq_query req);
          rtype = q_type (rq_query req);
          lookup_options = request_lookup_options W ctx req;
          group_name = server_group_name ctx;
          ctx = ctx\<lparr>cx_source := FromServer group_name\<rparr>
      in if \<not> is_ip_addr rtype
         then map_option (\<lambda>r. (in_group group_name r, ctx, permits))
                (group_lookup (w_arrival W) servers n lookup_options)
         else
           let re = (if mdns then None else recheck_find (cx_domain_rule ctx) group_name)
           in case may_defer W ctx req re permits of
                Some modes \<Rightarrow>
                  (case lookup_ip_answering_first W servers n (cx_cfg ctx) modes lookup_options of
                     None \<Rightarrow> None
                   | Some (first, None) \<Rightarrow> Some (in_group group_name first, ctx, permits)
                   | Some (first, Some rest) \<Rightarrow>
                       Some (in_group group_name first, pending_set (in_group group_name rest) ctx, permits - 1))
              | None \<Rightarrow>
                  (case lookup_and_recheck W client servers re ctx n lookup_options of
                     None \<Rightarrow> None
                   | Some (res, rechecked_by) \<Rightarrow>
                       Some (in_group group_name res,
                         (case rechecked_by of
                            Some g \<Rightarrow> ctx\<lparr>cx_source := FromServer g\<rparr> | None \<Rightarrow> ctx),
                         permits)))"

definition ns_handle ::
  "world \<Rightarrow> dns_client \<Rightarrow> dns_context \<Rightarrow> dns_request \<Rightarrow> nat \<Rightarrow> (dns_result \<times> dns_context \<times> nat) option" where
  "ns_handle W client ctx req permits =
     (let n = q_name (rq_query req);
          rtype = q_type (rq_query req)
      in case (if is_ip_addr rtype then lookup_nameserver (w_lib W) (w_now W) client n rtype else None) of
           Some lookup \<Rightarrow> Some (Inr lookup, ctx\<lparr>cx_no_cache := True\<rparr>, permits)
         | None \<Rightarrow>
             (if no_rule_nameserver (cx_server_opts ctx)
              then map_option (\<lambda>r. (r, ctx, permits))
                     (group_lookup (w_arrival W) (cl_default client) n (request_lookup_options W ctx req))
              else
                let mdns = (mdns_lookup (cx_cfg ctx) \<and> w_is_local W n)
                in case choose_group client mdns (server_group_name ctx) of
                     None \<Rightarrow> Some (Inl no_connections, ctx, permits)
                   | Some servers \<Rightarrow> ns_handle_group W client servers mdns ctx req permits))"

definition speed_check_ends :: "nat \<Rightarrow> nat" where
  "speed_check_ends permits = permits + 1"

end
