(* ===== verification/Ns_Laws.thy ===== *)
theory Ns_Laws
  imports Ns_Mw
begin

text \<open>
  What the upstream middleware guarantees: it answers, its answers respect the address filters and
  carry the group that the cache looks for, and a recheck replaces an answer only by one that is in
  the ip-set too.
\<close>

section \<open>Selections that end\<close>

text \<open>What is assumed of the environment: replies arrive each once, a hash map yields each of its keys,
  and a selection is scheduled until it ends (\<open>drain_ends\<close> gives such a schedule).\<close>

definition world_ok :: "world \<Rightarrow> bool" where
  "world_ok W \<longleftrightarrow>
     (\<forall>rs. mset (w_arrival W rs) = mset rs) \<and>
     (\<forall>xs. set (w_order W xs) = set xs) \<and>
     (\<forall>mode first tasks. tasks \<noteq> [] \<and> mode \<noteq> FastestResponse \<longrightarrow>
        (\<exists>s. sel_run (select_loop_of mode first) (w_events W mode first tasks) (sel_init tasks) = Some s \<and> sel_done s))"

definition came_from :: "name \<Rightarrow> dns_result list \<Rightarrow> dns_result \<Rightarrow> bool" where
  "came_from n tasks r \<longleftrightarrow> r \<in> set tasks \<or> from_upstream n tasks r"

lemma fastest_response_in: "rs \<noteq> [] \<Longrightarrow> \<exists>r. fastest_response rs = Some r \<and> r \<in> set rs"
  by (induction rs) auto

lemma select_sound:
  assumes W: "world_ok W" and ne: "tasks \<noteq> []"
  shows "\<exists>r. select_ip_response W n mode tasks = Some r \<and> came_from n tasks r"
proof (cases "mode = FastestResponse")
  case True
  have m: "mset (w_arrival W tasks) = mset tasks" using W by (simp add: world_ok_def)
  then have "w_arrival W tasks \<noteq> []" "set (w_arrival W tasks) = set tasks"
    using ne by (auto dest: mset_eq_setD)
  then show ?thesis
    using fastest_response_in [of "w_arrival W tasks"] True by (auto simp: select_ip_response_def came_from_def)
next
  case False
  then obtain s where s: "sel_run (select_loop_of mode False) (w_events W mode False tasks) (sel_init tasks) = Some s"
    "sel_done s"
    using W ne unfolding world_ok_def by blast
  have "set (w_order W xs) = set xs" for xs using W by (simp add: world_ok_def)
  from selection_ok [OF ne False this s, of n] show ?thesis
    using False s by (auto simp: select_ip_response_def came_from_def)
qed

lemma came_from_ips:
  assumes "came_from n tasks (Inr x)"
  shows "set (ip_addrs x) \<subseteq> task_ips tasks"
proof -
  have *: "set (ip_addrs r) \<subseteq> task_ips tasks" if "Inr r \<in> set tasks" for r
    using that by (auto simp: task_ips_def)
  have "rec \<in> set (answers up) \<Longrightarrow> set (List.map_filter rr_ip [rec\<lparr>rr_name := n\<rparr>]) \<subseteq> set (ip_addrs up)" for rec up
    by (auto simp: ip_addrs_def List.map_filter_def image_iff split: option.splits)
  then show ?thesis
    using assms * unfolding came_from_def from_upstream_def by (fastforce simp: ip_addrs_def)
qed

section \<open>Addresses that are filtered out\<close>

lemma per_nameserver_ips:
  assumes "per_nameserver_lookup_ip code now server n options = Inr y" "ip \<in> set (ip_addrs y)"
    and "\<And>ip. li_ip_alias options ip = None" "\<not> li_ignore_ip_is_empty options"
  shows "ip_filter (sv_options server) options ip"
proof -
  obtain x where x: "ns_lookup server n (li_lookup_options options) = Inr x"
    using assms(1) by (auto simp: per_nameserver_lookup_ip_def filter_response_def assms(4) split: sum.splits)
  have "filter_response code now (sv_options server) options (Inr x) = Inr y"
    using assms(1) x by (simp add: per_nameserver_lookup_ip_def)
  moreover obtain rec where "rec \<in> set (answers y)" "rr_ip rec = Some ip"
    using assms(2) by (auto simp: ip_addrs_def List.map_filter_def)
  ultimately have "allowed_address (sv_options server) options (answers x) ip"
    using filter_response_allowed [of "sv_options server" options x code now] assms(4) by fastforce
  then show ?thesis by (auto simp: allowed_address_def assms(3))
qed

lemma ip_filter_ignored: "ip_filter ns_opts options ip \<Longrightarrow> li_ignore_ip options ip \<Longrightarrow> li_whitelist_ip options ip"
  by (auto simp: ip_filter_def split: if_splits)

text \<open>What is said of the addresses that a lookup gives for its options.\<close>

definition unignored :: "lookup_ip_options \<Rightarrow> dns_result \<Rightarrow> bool" where
  "unignored options r \<longleftrightarrow>
     (case r of
        Inl _ \<Rightarrow> True
      | Inr x \<Rightarrow> \<forall>ip\<in>set (ip_addrs x). li_ignore_ip options ip \<longrightarrow> li_whitelist_ip options ip)"

definition plain_filter :: "lookup_ip_options \<Rightarrow> bool" where
  "plain_filter options \<longleftrightarrow> \<not> li_ignore_ip_is_empty options \<and> (\<forall>ip. li_ip_alias options ip = None)"

lemma came_from_unignored:
  assumes "came_from n (map (\<lambda>s. per_nameserver_lookup_ip code now s n options) servers) r" "plain_filter options"
  shows "unignored options r"
proof (cases r)
  case (Inr x)
  show ?thesis
  proof (unfold unignored_def Inr, simp, intro ballI impI)
    fix ip assume ip: "ip \<in> set (ip_addrs x)" "li_ignore_ip options ip"
    from came_from_ips [OF assms(1) [unfolded Inr]] ip(1)
    have "ip \<in> task_ips (map (\<lambda>s. per_nameserver_lookup_ip code now s n options) servers)" by blast
    then obtain s y where "Inr y = per_nameserver_lookup_ip code now s n options" "ip \<in> set (ip_addrs y)"
      by (auto simp: task_ips_def)
    then have "per_nameserver_lookup_ip code now s n options = Inr y" "ip \<in> set (ip_addrs y)" by simp_all
    from per_nameserver_ips [OF this] assms(2) have "ip_filter (sv_options s) options ip"
      by (simp add: plain_filter_def)
    then show "li_whitelist_ip options ip" using ip(2) by (rule ip_filter_ignored)
  qed
qed (simp add: unignored_def)

lemma lookup_ip_sound:
  assumes "world_ok W" "is_ip_addr (lk_record_type (li_lookup_options options))"
  shows "\<exists>r. lookup_ip W servers n options = Some r \<and> (plain_filter options \<longrightarrow> unignored options r)"
proof -
  let ?tasks = "map (\<lambda>s. per_nameserver_lookup_ip (w_filtered_code W) (w_now W) s n options) servers"
  have "unignored options (Inl e)" for e by (simp add: unignored_def)
  moreover have "came_from n ?tasks (hd ?tasks)" if "length servers = 1"
    using that by (cases servers) (auto simp: came_from_def)
  moreover have "\<exists>r. select_ip_response W n (lookup_strategy options) ?tasks = Some r \<and> came_from n ?tasks r"
    if "?tasks \<noteq> []"
    using select_sound [OF assms(1) that] .
  ultimately show ?thesis
    using came_from_unignored [of n "w_filtered_code W" "w_now W" options servers] assms(2)
    unfolding lookup_ip_def by (auto simp: Let_def)
qed

lemma replies_in:
  "sel_run (fastest_ip_step b) es s = Some s' \<Longrightarrow> set (replies es (sl_tasks s)) \<subseteq> set (sl_tasks s)"
proof (induction es arbitrary: s)
  case (Cons e es)
  then obtain s1 where s1: "fastest_ip_step b e s = Some s1" "sel_run (fastest_ip_step b) es s1 = Some s'"
    by (auto split: if_splits option.splits)
  show ?case
  proof (cases e)
    case (EvPing i out)
    then have "sl_tasks s1 = sl_tasks s"
      using s1(1) by (auto simp: Let_def split: if_splits option.splits prod.splits)
    then show ?thesis using Cons.IH [OF s1(2)] EvPing by simp
  next
    case (EvQuery t i)
    then have "sl_tasks s1 = drop_nth i (sl_tasks s)" "i < length (sl_tasks s)"
      using s1(1) by (auto simp: Let_def split: if_splits sum.splits)
    then show ?thesis using Cons.IH [OF s1(2)] EvQuery set_drop_nth [of i "sl_tasks s"] by auto
  qed
qed simp

lemma first_in_tasks:
  assumes "sel_run (fastest_ip_step True) es (sel_init tasks) = Some s" "sl_tasks s = []" "tasks \<noteq> []"
  shows "\<exists>first. sl_first s = Some first \<and> first \<in> set tasks"
proof -
  have i: "sl_tasks (sel_init tasks) = tasks" by (simp add: sel_init_def)
  have "sl_first s = fastest_response (replies es tasks)"
    using early_answer [OF assms(1,2)] assms(3) by (simp add: sel_init_def)
  moreover have "replies es tasks \<noteq> []"
    using replies_length [OF assms(1)] assms(2,3) by (auto simp: i)
  ultimately show ?thesis
    using fastest_response_in [of "replies es tasks"] replies_in [OF assms(1)] by (auto simp: i)
qed

lemma answering_first_sound:
  assumes W: "world_ok W" "is_ip_addr (lk_record_type lo)"
    and options_def: "options = config_ip_options cfg FastestIp (Some modes) False lo"
  shows "\<exists>first rest. lookup_ip_answering_first W servers n cfg modes lo = Some (first, rest) \<and>
    (plain_filter options \<longrightarrow> unignored options first \<and> (\<forall>r. rest = Some r \<longrightarrow> unignored options r))"
proof (cases "servers = []")
  case True
  then show ?thesis by (simp add: lookup_ip_answering_first_def unignored_def)
next
  case False
  let ?tasks = "map (\<lambda>s. per_nameserver_lookup_ip (w_filtered_code W) (w_now W) s n options) servers"
  have ne: "?tasks \<noteq> []" using False by simp
  obtain s where s: "sel_run (select_loop_of FastestIp True) (w_events W FastestIp True ?tasks) (sel_init ?tasks) = Some s"
    "sel_done s"
    using W(1) ne unfolding world_ok_def by blast
  have order: "set (w_order W xs) = set xs" for xs using W(1) by (simp add: world_ok_def)
  obtain rest where rest: "sel_finish (w_order W) FastestIp n s = Some rest" "from_upstream n ?tasks rest"
    using selection_ok [OF ne _ order s, of n] by auto
  have run: "sel_run (fastest_ip_step True) (w_events W FastestIp True ?tasks) (sel_init ?tasks) = Some s"
    using s(1) by (simp add: select_loop_of_def)
  have "\<not> sl_stopped s" using run_turns [OF run] by (simp add: sel_init_def)
  then have "sl_tasks s = []" using s(2) by (simp add: sel_done_def)
  from first_in_tasks [OF run this ne] obtain first where first: "sl_first s = Some first" "first \<in> set ?tasks"
    by blast
  have "came_from n ?tasks first" "came_from n ?tasks rest"
    using first(2) rest(2) by (simp_all add: came_from_def)
  from this [THEN came_from_unignored] show ?thesis
    using False W(2) s first(1) rest(1) unfolding lookup_ip_answering_first_def
    by (simp add: Let_def options_def)
qed

section \<open>The handler\<close>

definition from_bootstrap :: "world \<Rightarrow> dns_client \<Rightarrow> dns_request \<Rightarrow> dns_response option" where
  "from_bootstrap W client req =
     (if is_ip_addr (q_type (rq_query req))
      then lookup_nameserver (w_lib W) (w_now W) client (q_name (rq_query req)) (q_type (rq_query req)) else None)"

text \<open>The upstreams are asked as the rules say.\<close>

definition asks_by_rules :: "world \<Rightarrow> dns_client \<Rightarrow> dns_context \<Rightarrow> dns_request \<Rightarrow> bool" where
  "asks_by_rules W client ctx req \<longleftrightarrow> from_bootstrap W client req = None \<and> \<not> no_rule_nameserver (cx_server_opts ctx)"

lemma ns_handle_by_rules:
  assumes "asks_by_rules W client ctx req"
  shows "\<exists>mdns. ns_handle W client ctx req permits =
    (case choose_group client mdns (server_group_name ctx) of
       None \<Rightarrow> Some (Inl no_connections, ctx, permits)
     | Some servers \<Rightarrow> ns_handle_group W client servers mdns ctx req permits)"
  using assms unfolding asks_by_rules_def from_bootstrap_def ns_handle_def Let_def by auto

lemma source_frame [simp]:
  "server_group_name (ctx\<lparr>cx_source := x\<rparr>) = server_group_name ctx"
  "server_group_name (pending_set r ctx) = server_group_name ctx"
  "ctx_response_mode (ctx\<lparr>cx_source := x\<rparr>) = ctx_response_mode ctx"
  "ctx_speed_check_mode (ctx\<lparr>cx_source := x\<rparr>) = ctx_speed_check_mode ctx"
  "cx_pending_speed_check (pending_set r ctx) = Some r"
  by (simp_all add: server_group_name_def pending_set_def ctx_response_mode_def ctx_speed_check_mode_def
      cong: option.case_cong)

lemma source_frame_lookup [simp]:
  "may_defer W (ctx\<lparr>cx_source := x\<rparr>) req re permits = may_defer W ctx req re permits"
  "lookup_and_recheck W client servers re (ctx\<lparr>cx_source := x\<rparr>) n lo = lookup_and_recheck W client servers re ctx n lo"
  by (simp_all add: may_defer_def deferred_speed_check_mode_def lookup_and_recheck_def Let_def cong: option.case_cong)

lemma in_group_cases [simp]:
  "in_group g r = Inr x \<longleftrightarrow> (\<exists>y. r = Inr y \<and> x = with_name_server_group g y)"
  "in_group g r = Inl e \<longleftrightarrow> r = Inl e"
  by (cases r; auto simp: in_group_def)+

definition recheck_for :: "bool \<Rightarrow> dns_context \<Rightarrow> recheck option" where
  "recheck_for mdns ctx = (if mdns then None else recheck_find (cx_domain_rule ctx) (server_group_name ctx))"

lemma ns_handle_group_ip:
  assumes "is_ip_addr (q_type (rq_query req))"
  shows
  "may_defer W ctx req (recheck_for mdns ctx) permits = Some modes \<Longrightarrow>
   ns_handle_group W client servers mdns ctx req permits =
     (case lookup_ip_answering_first W servers (q_name (rq_query req)) (cx_cfg ctx) modes (request_lookup_options W ctx req) of
        None \<Rightarrow> None
      | Some (first, None) \<Rightarrow>
          Some (in_group (server_group_name ctx) first, ctx\<lparr>cx_source := FromServer (server_group_name ctx)\<rparr>, permits)
      | Some (first, Some rest) \<Rightarrow>
          Some (in_group (server_group_name ctx) first,
            pending_set (in_group (server_group_name ctx) rest) (ctx\<lparr>cx_source := FromServer (server_group_name ctx)\<rparr>),
            permits - 1))"
    and
  "may_defer W ctx req (recheck_for mdns ctx) permits = None \<Longrightarrow>
   ns_handle_group W client servers mdns ctx req permits =
     (case lookup_and_recheck W client servers (recheck_for mdns ctx) ctx (q_name (rq_query req)) (request_lookup_options W ctx req) of
        None \<Rightarrow> None
      | Some (res, rechecked_by) \<Rightarrow>
          Some (in_group (server_group_name ctx) res,
            ctx\<lparr>cx_source := FromServer (unwrap_or rechecked_by (server_group_name ctx))\<rparr>, permits))"
  using assms
  by (cases mdns; simp add: recheck_for_def ns_handle_group_def Let_def unwrap_or_def split: option.split)+

text \<open>The ways in which an address query through a group ends.\<close>

lemma ns_handle_group_cases:
  assumes "ns_handle_group W client servers mdns ctx req permits = Some (res, ctx', permits')"
  obtains (other) r where "\<not> is_ip_addr (q_type (rq_query req))"
      "group_lookup (w_arrival W) servers (q_name (rq_query req)) (request_lookup_options W ctx req) = Some r"
      "res = in_group (server_group_name ctx) r" "ctx' = ctx\<lparr>cx_source := FromServer (server_group_name ctx)\<rparr>"
      "permits' = permits"
    | (deferred) modes first rest where "is_ip_addr (q_type (rq_query req))" "permits > 0"
      "deferred_speed_check_mode W ctx req = Some modes"
      "lookup_ip_answering_first W servers (q_name (rq_query req)) (cx_cfg ctx) modes (request_lookup_options W ctx req) =
         Some (first, rest)"
      "res = in_group (server_group_name ctx) first"
      "(rest = None \<and> permits' = permits \<and> ctx' = ctx\<lparr>cx_source := FromServer (server_group_name ctx)\<rparr>) \<or>
       (\<exists>r. rest = Some r \<and> permits' = permits - 1 \<and>
          ctx' = pending_set (in_group (server_group_name ctx) r) (ctx\<lparr>cx_source := FromServer (server_group_name ctx)\<rparr>))"
    | (whole) re r rechecked_by where "is_ip_addr (q_type (rq_query req))"
      "re = None \<or> re = recheck_find (cx_domain_rule ctx) (server_group_name ctx)"
      "lookup_and_recheck W client servers re ctx (q_name (rq_query req)) (request_lookup_options W ctx req) =
         Some (r, rechecked_by)"
      "res = in_group (server_group_name ctx) r" "permits' = permits"
      "ctx' = ctx\<lparr>cx_source := FromServer (unwrap_or rechecked_by (server_group_name ctx))\<rparr>"
proof (cases "is_ip_addr (q_type (rq_query req))")
  case False
  then show ?thesis
    using assms other unfolding ns_handle_group_def Let_def by auto
next
  case ip: True
  show ?thesis
  proof (cases "may_defer W ctx req (recheck_for mdns ctx) permits")
    case (Some modes)
    then have d: "permits > 0" "deferred_speed_check_mode W ctx req = Some modes"
      by (auto simp: may_defer_def split: if_splits)
    then show ?thesis
      using assms deferred [OF ip d] by (auto simp: ns_handle_group_ip(1) [OF ip Some] split: option.splits)
  next
    case None
    have "recheck_for mdns ctx = None \<or> recheck_for mdns ctx = recheck_find (cx_domain_rule ctx) (server_group_name ctx)"
      by (simp add: recheck_for_def)
    then show ?thesis
      using assms whole [OF ip, of "recheck_for mdns ctx"]
      by (auto simp: ns_handle_group_ip(2) [OF ip None] split: option.splits)
  qed
qed

text \<open>What the rules' lookup and the recheck give.\<close>

lemma recheck_lookup_sound:
  assumes "world_ok W" "is_ip_addr (lk_record_type (li_lookup_options options))"
  shows "\<exists>r by. recheck_lookup W re client cfg n options res = Some (r, by) \<and>
    (by = None \<and> r = res \<or>
     by = Some (re_group re) \<and>
     (\<exists>ips answer first. recheck_ip_set cfg (re_ip_set re) = Some ips \<and> r = Inr answer \<and> has_ip_in answer ips \<and>
        res = Inr first \<and> has_ip_in first ips) \<and>
     (plain_filter options \<longrightarrow> unignored options r))"
proof -
  have l: "\<exists>r. lookup_ip W servers n options = Some r \<and> (plain_filter options \<longrightarrow> unignored options r)" for servers
    by (rule lookup_ip_sound [OF assms])
  show ?thesis
  proof (cases "client_server_group client (re_group re)")
    case None
    then show ?thesis by (auto simp: recheck_lookup_def split: option.split)
  next
    case (Some servers)
    from l [of servers] obtain r where "lookup_ip W servers n options = Some r"
      "plain_filter options \<longrightarrow> unignored options r" by blast
    then show ?thesis
      using Some by (cases r) (auto simp: recheck_lookup_def split: option.split sum.split)
  qed
qed

lemma request_options_type [simp]: "lk_record_type (request_lookup_options W ctx req) = q_type (rq_query req)"
  by (simp add: request_lookup_options_def)

text \<open>An ignored address is not answered, unless it is whitelisted.\<close>

definition cfg_unignored :: "runtime_config \<Rightarrow> dns_result \<Rightarrow> bool" where
  "cfg_unignored cfg r \<longleftrightarrow>
     (case r of
        Inl _ \<Rightarrow> True
      | Inr x \<Rightarrow> \<forall>ip\<in>set (ip_addrs x). cf_ignore_ip cfg ip \<longrightarrow> cf_whitelist_ip cfg ip)"

definition cfg_plain_filter :: "runtime_config \<Rightarrow> bool" where
  "cfg_plain_filter cfg \<longleftrightarrow> \<not> cf_ignore_ip_is_empty cfg \<and> (\<forall>ip. cf_ip_alias cfg ip = None)"

lemma config_options_simps [simp]:
  "li_lookup_options (config_ip_options cfg st modes b lo) = lo"
  "plain_filter (config_ip_options cfg st modes b lo) = cfg_plain_filter cfg"
  "plain_filter (options\<lparr>li_response_strategy := st'\<rparr>) = plain_filter options"
  "plain_filter (options\<lparr>li_speed_check_mode := modes'\<rparr>) = plain_filter options"
  by (simp_all add: config_ip_options_def plain_filter_def cfg_plain_filter_def)

lemma unignored_simps [simp]:
  "unignored (config_ip_options cfg st modes b lo) r = cfg_unignored cfg r"
  "unignored (options\<lparr>li_response_strategy := st'\<rparr>) r = unignored options r"
  "unignored (options\<lparr>li_speed_check_mode := modes'\<rparr>) r = unignored options r"
  by (cases r; simp add: config_ip_options_def unignored_def cfg_unignored_def)+

lemma cfg_unignored_in_group [simp]: "cfg_unignored cfg (in_group g r) = cfg_unignored cfg r"
  by (cases r) (simp_all add: cfg_unignored_def in_group_def with_name_server_group_def ip_addrs_def)

lemma has_ip_in_group [simp]: "has_ip_in (with_name_server_group g x) ips = has_ip_in x ips"
  by (simp add: has_ip_in_def with_name_server_group_def)

lemma lookup_and_recheck_sound:
  assumes "world_ok W" "is_ip_addr (lk_record_type lo)"
  shows "\<exists>r by. lookup_and_recheck W client servers re ctx n lo = Some (r, by) \<and>
    (cfg_plain_filter (cx_cfg ctx) \<longrightarrow> cfg_unignored (cx_cfg ctx) r) \<and>
    (\<forall>g. by = Some g \<longrightarrow> (\<exists>re' ips answer. re = Some re' \<and> re_group re' = g \<and>
       recheck_ip_set (cx_cfg ctx) (re_ip_set re') = Some ips \<and> r = Inr answer \<and> has_ip_in answer ips))"
proof -
  let ?o = "config_ip_options (cx_cfg ctx) (ctx_response_mode ctx) (ctx_speed_check_mode ctx)
    (no_speed_check (cx_server_opts ctx)) lo"
  let ?opts = "if so_is_background (cx_server_opts ctx) then ?o\<lparr>li_response_strategy := FastestIp\<rparr> else ?o"
  have "is_ip_addr (lk_record_type (li_lookup_options ?opts))" using assms(2) by simp
  from lookup_ip_sound [OF assms(1) this] obtain res where res: "lookup_ip W servers n ?opts = Some res"
    "cfg_plain_filter (cx_cfg ctx) \<longrightarrow> cfg_unignored (cx_cfg ctx) res"
    by (force split: if_splits)
  show ?thesis
  proof (cases re)
    case None
    then show ?thesis using res by (simp add: lookup_and_recheck_def Let_def)
  next
    case (Some re')
    let ?ro = "?opts\<lparr>li_response_strategy :=
        (if so_is_background (cx_server_opts ctx) then FastestIp else cfg_response_mode (cx_cfg ctx)),
        li_speed_check_mode := cf_speed_check_mode (cx_cfg ctx)\<rparr>"
    have "is_ip_addr (lk_record_type (li_lookup_options ?ro))" using assms(2) by simp
    from recheck_lookup_sound [OF assms(1) this, of re' client "cx_cfg ctx" n res]
    obtain r rby where r: "recheck_lookup W re' client (cx_cfg ctx) n ?ro res = Some (r, rby)"
      "rby = None \<and> r = res \<or> rby = Some (re_group re') \<and>
       (\<exists>ips answer. recheck_ip_set (cx_cfg ctx) (re_ip_set re') = Some ips \<and> r = Inr answer \<and> has_ip_in answer ips) \<and>
       (plain_filter ?ro \<longrightarrow> unignored ?ro r)"
      by blast
    have "plain_filter ?ro = cfg_plain_filter (cx_cfg ctx)" "unignored ?ro r = cfg_unignored (cx_cfg ctx) r"
      by (simp_all split: if_split)
    moreover have "lookup_and_recheck W client servers re ctx n lo = Some (r, rby)"
      using Some res(1) r(1) unfolding lookup_and_recheck_def Let_def by simp
    ultimately show ?thesis using r(2) res(2) Some by auto
  qed
qed

lemma group_replies:
  assumes "world_ok W" "servers \<noteq> []"
  shows "\<exists>r. group_lookup (w_arrival W) servers n lo = Some r"
  using group_reply_spec [OF assms(2), of "w_arrival W"] assms(1) by (simp add: world_ok_def)

lemma ns_handle_group_some:
  assumes "world_ok W" "servers \<noteq> []"
  shows "\<exists>r. ns_handle_group W client servers mdns ctx req permits = Some r"
proof (cases "is_ip_addr (q_type (rq_query req))")
  case False
  then show ?thesis
    using group_replies [OF assms] by (fastforce simp: ns_handle_group_def Let_def)
next
  case True
  then have ip: "is_ip_addr (lk_record_type (request_lookup_options W ctx req))" by simp
  show ?thesis
  proof (cases "may_defer W ctx req (recheck_for mdns ctx) permits")
    case None
    obtain r rby where "lookup_and_recheck W client servers (recheck_for mdns ctx) ctx (q_name (rq_query req))
        (request_lookup_options W ctx req) = Some (r, rby)"
      using lookup_and_recheck_sound [OF assms(1) ip, of client servers "recheck_for mdns ctx" ctx "q_name (rq_query req)"]
      by metis
    then show ?thesis by (simp add: ns_handle_group_ip(2) [OF True None])
  next
    case (Some modes)
    obtain first rest where "lookup_ip_answering_first W servers (q_name (rq_query req)) (cx_cfg ctx) modes
        (request_lookup_options W ctx req) = Some (first, rest)"
      using answering_first_sound [OF assms(1) ip refl] by blast
    then show ?thesis by (simp add: ns_handle_group_ip(1) [OF True Some] split: option.split)
  qed
qed

lemma choose_group_some:
  "choose_group client mdns g = Some servers \<Longrightarrow> \<exists>g'. client_server_group client g' = Some servers"
  by (auto simp: choose_group_def split: option.splits if_splits)

lemma ns_handle_some:
  assumes "world_ok W" "\<forall>g servers. client_server_group client g = Some servers \<longrightarrow> servers \<noteq> []"
  shows "\<exists>r. ns_handle W client ctx req permits = Some r"
proof (cases "from_bootstrap W client req")
  case None
  have default: "cl_default client \<noteq> []"
    using assms(2) [rule_format, of "[]"] by (simp add: client_server_group_def)
  show ?thesis
  proof (cases "no_rule_nameserver (cx_server_opts ctx)")
    case True
    then show ?thesis
      using None group_replies [OF assms(1) default] by (force simp: ns_handle_def from_bootstrap_def Let_def)
  next
    case False
    with None have "asks_by_rules W client ctx req" by (simp add: asks_by_rules_def)
    from ns_handle_by_rules [OF this, of permits] obtain mdns where
      h: "ns_handle W client ctx req permits =
        (case choose_group client mdns (server_group_name ctx) of
           None \<Rightarrow> Some (Inl no_connections, ctx, permits)
         | Some servers \<Rightarrow> ns_handle_group W client servers mdns ctx req permits)" by blast
    show ?thesis
    proof (cases "choose_group client mdns (server_group_name ctx)")
      case (Some servers)
      then have "servers \<noteq> []" using choose_group_some assms(2) by blast
      from ns_handle_group_some [OF assms(1) this] show ?thesis using h Some by simp
    qed (use h in simp)
  qed
qed (simp add: ns_handle_def from_bootstrap_def Let_def)

text \<open>The ways in which the handler ends.\<close>

lemma ns_handle_cases:
  assumes "ns_handle W client ctx req permits = Some (res, ctx', permits')"
  obtains (bootstrap) x where "from_bootstrap W client req = Some x" "res = Inr x" "ctx' = ctx\<lparr>cx_no_cache := True\<rparr>"
      "permits' = permits"
    | (no_rules) "from_bootstrap W client req = None" "no_rule_nameserver (cx_server_opts ctx)"
      "group_lookup (w_arrival W) (cl_default client) (q_name (rq_query req)) (request_lookup_options W ctx req) = Some res"
      "ctx' = ctx" "permits' = permits"
    | (no_group) "asks_by_rules W client ctx req" "res = Inl no_connections" "ctx' = ctx" "permits' = permits"
    | (asked) servers mdns where "asks_by_rules W client ctx req"
      "ns_handle_group W client servers mdns ctx req permits = Some (res, ctx', permits')"
proof (cases "from_bootstrap W client req")
  case (Some x)
  then show ?thesis
    using assms bootstrap by (simp add: ns_handle_def from_bootstrap_def Let_def split: if_splits)
next
  case None
  show ?thesis
  proof (cases "no_rule_nameserver (cx_server_opts ctx)")
    case True
    then show ?thesis
      using None assms
      by (intro no_rules) (auto simp: ns_handle_def from_bootstrap_def Let_def)
  next
    case False
    with None have rules: "asks_by_rules W client ctx req" by (simp add: asks_by_rules_def)
    from ns_handle_by_rules [OF this, of permits] obtain mdns where
      h: "ns_handle W client ctx req permits =
        (case choose_group client mdns (server_group_name ctx) of
           None \<Rightarrow> Some (Inl no_connections, ctx, permits)
         | Some servers \<Rightarrow> ns_handle_group W client servers mdns ctx req permits)" by blast
    show ?thesis
    proof (cases "choose_group client mdns (server_group_name ctx)")
      case None
      with h assms show ?thesis by (intro no_group [OF rules]) simp_all
    next
      case (Some servers)
      with h assms show ?thesis by (intro asked [OF rules, of servers mdns]) simp
    qed
  qed
qed

lemma ns_handle_permits:
  assumes "ns_handle W client ctx req permits = Some (res, ctx', permits')" "cx_pending_speed_check ctx = None"
  shows "permits = permits' + (if cx_pending_speed_check ctx' = None then 0 else 1)"
  using assms(1)
proof (cases rule: ns_handle_cases)
  case (asked servers mdns)
  from asked(2) show ?thesis
  proof (cases rule: ns_handle_group_cases)
    case (deferred modes first rest)
    then show ?thesis using assms(2) by (auto simp: pending_set_def)
  qed (use assms(2) in simp_all)
qed (use assms(2) in simp_all)

section \<open>Properties\<close>

text \<open>
  C16: The upstream middleware always has a result, whatever the upstreams and the probes do: with
  servers in every group, no \<open>unreachable!()\<close> and no empty selection is reached. It takes a permit
  exactly when it leaves a speed check running.
\<close>

theorem ns_answers:
  assumes "world_ok W" "\<forall>g servers. client_server_group client g = Some servers \<longrightarrow> servers \<noteq> []"
    and "cx_pending_speed_check ctx = None"
  shows "\<exists>res ctx' permits'. ns_handle W client ctx req permits = Some (res, ctx', permits') \<and>
    permits = permits' + (if cx_pending_speed_check ctx' = None then 0 else 1)"
proof -
  obtain res ctx' permits' where h: "ns_handle W client ctx req permits = Some (res, ctx', permits')"
    using ns_handle_some [OF assms(1,2), of ctx req permits] by auto
  from ns_handle_permits [OF this assms(3)] h show ?thesis by blast
qed

definition quiet_world :: world where
  "quiet_world =
     \<lparr>w_lib = std_lib, w_now = 0, w_arrival = id,
      w_events = (\<lambda>mode first. drain (select_loop_of mode first)), w_order = id, w_filtered_code = NoError,
      w_is_local = (\<lambda>_. False), w_type_is_dnssec = (\<lambda>_. False)\<rparr>"

lemma quiet_world_ok: "world_ok quiet_world"
  unfolding world_ok_def
proof (intro conjI allI impI)
  fix mode first and tasks :: "dns_result list"
  assume "tasks \<noteq> [] \<and> mode \<noteq> FastestResponse"
  then show "\<exists>s. sel_run (select_loop_of mode first) (w_events quiet_world mode first tasks) (sel_init tasks) = Some s \<and> sel_done s"
    using fp.drain_ends [of tasks] fi.drain_ends [of first tasks]
    by (cases mode) (simp_all add: quiet_world_def select_loop_of_def)
qed (simp_all add: quiet_world_def)

definition ns_example_server :: name_server where
  "ns_example_server = \<lparr>sv_options = example_opts, sv_connection = (\<lambda>_ _ _. Inr (example_answer, True))\<rparr>"

definition ns_example_client :: dns_client where
  "ns_example_client = \<lparr>cl_default = [ns_example_server], cl_bootstrap = bootstrap_new, cl_servers = []\<rparr>"

definition filter_config :: runtime_config where
  "filter_config = config_default\<lparr>cf_ignore_ip := (\<lambda>ip. ip = V4 8), cf_ignore_ip_is_empty := False\<rparr>"

definition ns_example_ctx :: dns_context where
  "ns_example_ctx = context_new std_lib www_example_com filter_config server_opts_default"

definition ns_example_request :: dns_request where
  "ns_example_request = request_new 1 (dr_message example_answer) (V4 1) None"

lemma ns_example_client_groups: "client_server_group ns_example_client g = Some servers \<Longrightarrow> servers \<noteq> []"
  by (auto simp: client_server_group_def ns_example_client_def split: if_splits)

lemma ns_example_ctx_pending: "cx_pending_speed_check ns_example_ctx = None"
  by (simp add: ns_example_ctx_def context_new_def Let_def)

lemma example_by_rules: "asks_by_rules quiet_world ns_example_client ns_example_ctx ns_example_request"
  by (simp add: asks_by_rules_def from_bootstrap_def lookup_nameserver_def local_lookup_def ns_example_client_def
      bootstrap_new_def ns_example_ctx_def context_new_def Let_def no_rule_nameserver_def server_opts_default_def)

theorem ns_answers_witness:
  "\<exists>res ctx' permits'. ns_handle quiet_world ns_example_client ns_example_ctx ns_example_request MAX_DEFERRED_SPEED_CHECKS =
     Some (res, ctx', permits')"
  using ns_answers [OF quiet_world_ok _ ns_example_ctx_pending] ns_example_client_groups by blast

lemma ns_unignored:
  assumes "world_ok W" "asks_by_rules W client ctx req" "is_ip_addr (q_type (rq_query req))"
    and "cfg_plain_filter (cx_cfg ctx)" "cx_pending_speed_check ctx = None"
    and "ns_handle W client ctx req permits = Some (res, ctx', permits')"
  shows "cfg_unignored (cx_cfg ctx) res \<and> (\<forall>r. cx_pending_speed_check ctx' = Some r \<longrightarrow> cfg_unignored (cx_cfg ctx) r)"
  using assms(6)
proof (cases rule: ns_handle_cases)
  case (asked servers mdns)
  have ip: "is_ip_addr (lk_record_type (request_lookup_options W ctx req))" using assms(3) by simp
  from asked(2) show ?thesis
  proof (cases rule: ns_handle_group_cases)
    case (deferred modes first rest)
    from answering_first_sound [OF assms(1) ip refl, of servers "q_name (rq_query req)" "cx_cfg ctx" modes] deferred(4)
    have "cfg_unignored (cx_cfg ctx) first" "\<And>r. rest = Some r \<Longrightarrow> cfg_unignored (cx_cfg ctx) r"
      using assms(4) by simp_all
    then show ?thesis using deferred(5,6) assms(5) by (auto simp: pending_set_def)
  next
    case (whole re r rechecked_by)
    from lookup_and_recheck_sound [OF assms(1) ip, of client servers re ctx "q_name (rq_query req)"] whole(3)
    have "cfg_unignored (cx_cfg ctx) r" using assms(4) by simp
    then show ?thesis using whole(4,6) assms(5) by simp
  qed (use assms(3) in simp)
qed (use assms(2,5) in \<open>simp_all add: asks_by_rules_def cfg_unignored_def\<close>)



text \<open>
  An answer of the upstreams carries the group that the rules chose, which is the group that the
  cache asks for when it looks the answer up, also when a recheck answered and when a speed check
  goes on; and the handler does not change the group of the query.
\<close>

theorem ns_answers_in_group:
  assumes "asks_by_rules W client ctx req" "cx_pending_speed_check ctx = None"
    and "ns_handle W client ctx req permits = Some (res, ctx', permits')"
  shows "server_group_name ctx' = server_group_name ctx \<and>
    (\<forall>x. res = Inr x \<or> cx_pending_speed_check ctx' = Some (Inr x) \<longrightarrow> dr_group x = Some (server_group_name ctx))"
  using assms(3)
proof (cases rule: ns_handle_cases)
  case (asked servers mdns)
  from asked(2) show ?thesis
    by (cases rule: ns_handle_group_cases)
      (use assms(2) in \<open>auto simp: with_name_server_group_def\<close>)
qed (use assms(1,2) in \<open>simp_all add: asks_by_rules_def\<close>)

theorem ns_answers_in_group_witness:
  "\<exists>res ctx' permits'. ns_handle quiet_world ns_example_client ns_example_ctx ns_example_request 128 = Some (res, ctx', permits') \<and>
     server_group_name ctx' = server_group_name ns_example_ctx"
proof -
  obtain res ctx' permits' where h: "ns_handle quiet_world ns_example_client ns_example_ctx ns_example_request 128 = Some (res, ctx', permits')"
    using ns_handle_some [OF quiet_world_ok, of ns_example_client] ns_example_client_groups by (metis prod_cases3)
  from ns_answers_in_group [OF example_by_rules ns_example_ctx_pending h] h show ?thesis by blast
qed

lemma recheck_up_chosen:
  "recheck_up node g = Some re \<Longrightarrow> nameserver_up node = Some g \<and> re_group re \<noteq> g"
  by (induction node g rule: recheck_up.induct) (auto split: option.splits if_splits)

text \<open>
  C18: A query counts as answered by another group than the one the rules chose only through a
  recheck: the rule that chose the group names both the other group and an ip-set, and the answer has
  an address in that set.
\<close>

theorem recheck_confirms:
  assumes "world_ok W" "asks_by_rules W client ctx req" "cx_source ctx = FromNone"
    and "ns_handle W client ctx req permits = Some (res, ctx', permits')"
    and "cx_source ctx' = FromServer g" "g \<noteq> server_group_name ctx"
  shows "\<exists>node re ips x. cx_domain_rule ctx = Some node \<and> nameserver_up node = Some (server_group_name ctx) \<and>
    recheck_find (cx_domain_rule ctx) (server_group_name ctx) = Some re \<and> re_group re = g \<and>
    recheck_ip_set (cx_cfg ctx) (re_ip_set re) = Some ips \<and> res = Inr x \<and> has_ip_in x ips"
  using assms(4)
proof (cases rule: ns_handle_cases)
  case (asked servers mdns)
  from asked(2) show ?thesis
  proof (cases rule: ns_handle_group_cases)
    case (deferred modes first rest)
    then show ?thesis using assms(5,6) by (auto simp: pending_set_def)
  next
    case (whole re r rechecked_by)
    have ip: "is_ip_addr (lk_record_type (request_lookup_options W ctx req))" using whole(1) by simp
    have by_g: "rechecked_by = Some g"
      using whole(6) assms(5,6) by (cases rechecked_by) (auto simp: unwrap_or_def)
    from lookup_and_recheck_sound [OF assms(1) ip, of client servers re ctx "q_name (rq_query req)"] whole(3) by_g
    obtain re' ips x where r: "re = Some re'" "re_group re' = g" "recheck_ip_set (cx_cfg ctx) (re_ip_set re') = Some ips"
      "r = Inr x" "has_ip_in x ips" by auto
    then have f: "recheck_find (cx_domain_rule ctx) (server_group_name ctx) = Some re'" using whole(2) by simp
    then obtain node where "cx_domain_rule ctx = Some node" "recheck_up node (server_group_name ctx) = Some re'"
      by (auto simp: recheck_find_def split: option.splits)
    then show ?thesis
      using recheck_up_chosen f r whole(4) by (auto simp: in_group_def)
  qed (use assms(5,6) in simp)
qed (use assms(2,3,5) in \<open>simp_all add: asks_by_rules_def\<close>)

definition recheck_node :: "arc tree_node" where
  "recheck_node = TreeNode \<lparr>arc_ptr = 0, arc_rule = rule_default\<lparr>ru_nameserver := Some ''proxy'',
     ru_recheck_nameserver := Some ''direct'', ru_recheck_ip_set := Some ''home''\<rparr>\<rparr> None"

definition recheck_ctx :: dns_context where
  "recheck_ctx = ns_example_ctx\<lparr>cx_domain_rule := Some recheck_node,
     cx_cfg := config_default\<lparr>cf_recheck_ip_sets := [(''home'', \<lambda>ip. ip = V4 7)]\<rparr>\<rparr>"

definition recheck_client :: dns_client where
  "recheck_client = ns_example_client\<lparr>cl_servers := [(''proxy'', [ns_example_server]), (''direct'', [ns_example_server])]\<rparr>"

lemma ns_example_lookup:
  "lookup_ip quiet_world [ns_example_server] n
     \<lparr>li_response_strategy = st, li_speed_check_mode = None, li_no_speed_check = b, li_ignore_ip = ig,
      li_ignore_ip_is_empty = True, li_whitelist_ip = w, li_blacklist_ip = bl, li_ip_alias = al, li_ip_alias_is_empty = True,
      li_lookup_options = \<lparr>lk_is_dnssec = d, lk_record_type = RT_A, lk_client_subnet = sn\<rparr>\<rparr> = Some (Inr example_answer)"
  by (simp add: lookup_ip_def lookup_strategy_def per_nameserver_lookup_ip_def ns_lookup_def Let_def
      ns_example_server_def filter_response_def example_opts_def unwrap_or_def)

lemma example_answer_home: "has_ip_in example_answer (\<lambda>ip. ip = V4 7)"
  by (simp add: has_ip_in_def example_answer_def map_filter_simps from_rdata_def)

lemma recheck_run:
  "ns_handle quiet_world recheck_client recheck_ctx ns_example_request 128 =
     Some (in_group ''proxy'' (Inr example_answer), recheck_ctx\<lparr>cx_source := FromServer ''direct''\<rparr>, 128)"
proof -
  have q: "rq_query ns_example_request = \<lparr>q_name = www_example_com, q_type = RT_A, q_class = 1\<rparr>"
    by (simp add: ns_example_request_def request_new_def example_answer_def new_with_deadline_def)
  have g: "server_group_name recheck_ctx = ''proxy''"
    by (simp add: server_group_name_def recheck_ctx_def ns_example_ctx_def context_new_def Let_def server_opts_default_def
        recheck_node_def unwrap_or_def)
  have re: "recheck_for False recheck_ctx = Some \<lparr>re_group = ''direct'', re_ip_set = ''home''\<rparr>"
    by (simp add: recheck_for_def g) (simp add: recheck_find_def recheck_ctx_def recheck_node_def)
  have l: "lookup_and_recheck quiet_world recheck_client [ns_example_server] (recheck_for False recheck_ctx) recheck_ctx
      www_example_com (request_lookup_options quiet_world recheck_ctx ns_example_request) =
      Some (Inr example_answer, Some ''direct'')"
    unfolding re
    by (simp add: lookup_and_recheck_def Let_def recheck_ctx_def config_ip_options_def config_default_def
        ctx_speed_check_mode_def recheck_node_def rule_of_def rule_default_def request_lookup_options_def q
        ns_example_lookup recheck_lookup_def recheck_ip_set_def example_answer_home client_server_group_def
        recheck_client_def eq_ignore_ascii_case_def lower_def ascii_def)
  have "ns_handle_group quiet_world recheck_client [ns_example_server] False recheck_ctx ns_example_request 128 =
      Some (in_group ''proxy'' (Inr example_answer), recheck_ctx\<lparr>cx_source := FromServer ''direct''\<rparr>, 128)"
    using ns_handle_group_ip(2) [of ns_example_request quiet_world recheck_ctx False 128 recheck_client "[ns_example_server]"]
    by (simp add: q may_defer_def re l [unfolded re] g unwrap_or_def)
  moreover have "choose_group recheck_client False ''proxy'' = Some [ns_example_server]"
    by (simp add: choose_group_def client_server_group_def recheck_client_def eq_ignore_ascii_case_def lower_def ascii_def)
  moreover have "from_bootstrap quiet_world recheck_client ns_example_request = None"
    by (simp add: from_bootstrap_def lookup_nameserver_def local_lookup_def recheck_client_def ns_example_client_def
        bootstrap_new_def)
  moreover have "\<not> no_rule_nameserver (cx_server_opts recheck_ctx)"
    by (simp add: recheck_ctx_def ns_example_ctx_def context_new_def Let_def no_rule_nameserver_def server_opts_default_def
        unwrap_or_def)
  moreover have "\<not> mdns_lookup (cx_cfg recheck_ctx)"
    by (simp add: recheck_ctx_def mdns_lookup_def config_default_def unwrap_or_def)
  ultimately show ?thesis
    unfolding ns_handle_def from_bootstrap_def by (simp add: Let_def g)
qed

theorem recheck_confirms_witness:
  "\<exists>res ctx'. ns_handle quiet_world recheck_client recheck_ctx ns_example_request 128 = Some (res, ctx', 128) \<and>
     cx_source ctx' = FromServer ''direct'' \<and>
     (\<exists>(re :: recheck) ips x. recheck_ip_set (cx_cfg recheck_ctx) (re_ip_set re) = Some ips \<and> res = Inr x \<and> has_ip_in x ips)"
proof -
  have "asks_by_rules quiet_world recheck_client recheck_ctx ns_example_request"
    by (simp add: asks_by_rules_def from_bootstrap_def lookup_nameserver_def local_lookup_def recheck_client_def
        ns_example_client_def bootstrap_new_def recheck_ctx_def ns_example_ctx_def context_new_def Let_def
        no_rule_nameserver_def server_opts_default_def unwrap_or_def)
  moreover have "cx_source recheck_ctx = FromNone"
    by (simp add: recheck_ctx_def ns_example_ctx_def context_new_def Let_def)
  moreover have "''direct'' \<noteq> server_group_name recheck_ctx"
    by (simp add: server_group_name_def recheck_ctx_def ns_example_ctx_def context_new_def Let_def server_opts_default_def
        recheck_node_def unwrap_or_def)
  ultimately show ?thesis
    using recheck_confirms [OF quiet_world_ok _ _ recheck_run, of "''direct''"] recheck_run by auto
qed

section \<open>Running speed checks\<close>

text \<open>Queries and the ends of speed checks in any order: the permits left and the speed checks that
  run.\<close>

inductive speed_checks :: "nat \<Rightarrow> nat \<Rightarrow> bool" where
  start: "speed_checks MAX_DEFERRED_SPEED_CHECKS 0"
| query: "speed_checks permits running \<Longrightarrow> cx_pending_speed_check ctx = None \<Longrightarrow>
    ns_handle W client ctx req permits = Some (res, ctx', permits') \<Longrightarrow>
    speed_checks permits' (if cx_pending_speed_check ctx' = None then running else Suc running)"
| finished: "speed_checks permits (Suc running) \<Longrightarrow> speed_checks (speed_check_ends permits) running"

text \<open>
  At no time do more than \<open>MAX_DEFERRED_SPEED_CHECKS\<close> deferred speed checks run, and no permit is
  lost.
\<close>

theorem speed_checks_bounded:
  assumes "speed_checks permits running"
  shows "permits + running = MAX_DEFERRED_SPEED_CHECKS"
  using assms
proof induction
  case (query permits running ctx W client req res ctx' permits')
  then show ?case using ns_handle_permits [OF query.hyps(3,2)] by (auto split: if_splits)
qed (simp_all add: speed_check_ends_def)

theorem speed_checks_bounded_witness: "MAX_DEFERRED_SPEED_CHECKS + 0 = MAX_DEFERRED_SPEED_CHECKS \<and> speed_checks MAX_DEFERRED_SPEED_CHECKS 0"
  using speed_checks_bounded [OF speed_checks.start] speed_checks.start by blast

end
