(* ===== verification/Ip_Set.thy ===== *)
theory Ip_Set
  imports Config
begin

unbundle bit_operations_syntax

text \<open>
  Sets of and maps from IP addresses (\<^verbatim>\<open>src/src/infra/ipset.rs\<close>): what \<open>ignore-ip\<close>, \<open>blacklist-ip\<close>,
  \<open>bogus-nxdomain\<close>, \<open>ip-alias\<close> and the rechecks ask.

  The map of ranges is the \<open>rangemap\<close> package's and the ends of a network the \<open>ipnet\<close> package's: they
  are the records \<open>range_lib\<close> and \<open>net_ends\<close>, with the locales \<open>range_library\<close> and \<open>ipnet_library\<close> for
  their documented behaviour. \<open>list_ranges\<close> and \<open>std_nets\<close> are instances, on which the program's maps
  are interpreted.
\<close>

section \<open>The packages\<close>

record ('m, 'k, 'v) range_lib =
  rm_new :: 'm
  rm_is_empty :: "'m \<Rightarrow> bool"
  rm_get :: "'m \<Rightarrow> 'k \<Rightarrow> 'v option"
  rm_insert :: "'k \<Rightarrow> 'k \<Rightarrow> 'v \<Rightarrow> 'm \<Rightarrow> 'm"
  rm_gaps :: "'m \<Rightarrow> 'k \<Rightarrow> 'k \<Rightarrow> ('k \<times> 'k) list"
  rm_overlaps :: "'m \<Rightarrow> 'k \<Rightarrow> 'k \<Rightarrow> bool"

text \<open>\<open>network()\<close> and \<open>broadcast()\<close>.\<close>

record net_ends =
  ne_v4 :: "ipv4 \<Rightarrow> u8 \<Rightarrow> ipv4 \<times> ipv4"
  ne_v6 :: "ipv6 \<Rightarrow> u8 \<Rightarrow> ipv6 \<times> ipv6"

section \<open>IpMap\<close>

record ('m4, 'm6) ip_map =
  im_v4 :: 'm4
  im_v6 :: 'm6

type_synonym ('m4, 'm6, 'v) ip_lib = "('m4, ipv4, 'v) range_lib \<times> ('m6, ipv6, 'v) range_lib"

definition im_default :: "('m4, 'm6, 'v) ip_lib \<Rightarrow> ('m4, 'm6) ip_map" where
  "im_default R = \<lparr>im_v4 = rm_new (fst R), im_v6 = rm_new (snd R)\<rparr>"

definition im_is_empty :: "('m4, 'm6, 'v) ip_lib \<Rightarrow> ('m4, 'm6) ip_map \<Rightarrow> bool" where
  "im_is_empty R m = (rm_is_empty (fst R) (im_v4 m) \<and> rm_is_empty (snd R) (im_v6 m))"

definition im_get :: "('m4, 'm6, 'v) ip_lib \<Rightarrow> ('m4, 'm6) ip_map \<Rightarrow> ip_addr \<Rightarrow> 'v option" where
  "im_get R m ip = (case ip of V4 a \<Rightarrow> rm_get (fst R) (im_v4 m) a | V6 a \<Rightarrow> rm_get (snd R) (im_v6 m) a)"

definition im_contains :: "('m4, 'm6, 'v) ip_lib \<Rightarrow> ('m4, 'm6) ip_map \<Rightarrow> ip_addr \<Rightarrow> bool" where
  "im_contains R m ip = (im_get R m ip \<noteq> None)"

definition im_insert :: "('m4, 'm6, 'v) ip_lib \<Rightarrow> ip_addr \<Rightarrow> 'v \<Rightarrow> ('m4, 'm6) ip_map \<Rightarrow> ('m4, 'm6) ip_map" where
  "im_insert R ip v m =
     (case ip of
        V4 a \<Rightarrow> m\<lparr>im_v4 := rm_insert (fst R) a a v (im_v4 m)\<rparr>
      | V6 a \<Rightarrow> m\<lparr>im_v6 := rm_insert (snd R) a a v (im_v6 m)\<rparr>)"

definition im_contains_net :: "('m4, 'm6, 'v) ip_lib \<Rightarrow> net_ends \<Rightarrow> ('m4, 'm6) ip_map \<Rightarrow> ip_net \<Rightarrow> bool" where
  "im_contains_net R N m net =
     (case net_addr net of
        V4 a \<Rightarrow> (case ne_v4 N a (net_prefix net) of (lo, hi) \<Rightarrow> rm_gaps (fst R) (im_v4 m) lo hi = [])
      | V6 a \<Rightarrow> (case ne_v6 N a (net_prefix net) of (lo, hi) \<Rightarrow> rm_gaps (snd R) (im_v6 m) lo hi = []))"

definition im_overlap_net :: "('m4, 'm6, 'v) ip_lib \<Rightarrow> net_ends \<Rightarrow> ('m4, 'm6) ip_map \<Rightarrow> ip_net \<Rightarrow> bool" where
  "im_overlap_net R N m net =
     (case net_addr net of
        V4 a \<Rightarrow> (case ne_v4 N a (net_prefix net) of (lo, hi) \<Rightarrow> rm_overlaps (fst R) (im_v4 m) lo hi)
      | V6 a \<Rightarrow> (case ne_v6 N a (net_prefix net) of (lo, hi) \<Rightarrow> rm_overlaps (snd R) (im_v6 m) lo hi))"

definition im_insert_net ::
  "('m4, 'm6, 'v) ip_lib \<Rightarrow> net_ends \<Rightarrow> ip_net \<Rightarrow> 'v \<Rightarrow> ('m4, 'm6) ip_map \<Rightarrow> ('m4, 'm6) ip_map" where
  "im_insert_net R N net v m =
     (case net_addr net of
        V4 a \<Rightarrow> (case ne_v4 N a (net_prefix net) of (lo, hi) \<Rightarrow> m\<lparr>im_v4 := rm_insert (fst R) lo hi v (im_v4 m)\<rparr>)
      | V6 a \<Rightarrow> (case ne_v6 N a (net_prefix net) of (lo, hi) \<Rightarrow> m\<lparr>im_v6 := rm_insert (snd R) lo hi v (im_v6 m)\<rparr>))"

definition im_extend ::
  "('m4, 'm6, 'v) ip_lib \<Rightarrow> net_ends \<Rightarrow> (ip_net \<times> 'v) list \<Rightarrow> ('m4, 'm6) ip_map \<Rightarrow> ('m4, 'm6) ip_map" where
  "im_extend R N nets m = fold (\<lambda>(n, v) m. im_insert_net R N n v m) nets m"

definition im_from_iter :: "('m4, 'm6, 'v) ip_lib \<Rightarrow> net_ends \<Rightarrow> (ip_net \<times> 'v) list \<Rightarrow> ('m4, 'm6) ip_map" where
  "im_from_iter R N nets = im_extend R N nets (im_default R)"

definition ip_set_new :: "('m4, 'm6, unit) ip_lib \<Rightarrow> net_ends \<Rightarrow> ip_net list \<Rightarrow> ('m4, 'm6) ip_map" where
  "ip_set_new R N nets = im_from_iter R N (map (\<lambda>n. (n, ())) nets)"

section \<open>What the packages promise\<close>

locale range_library =
  fixes R :: "('m, 'k :: linorder, 'v) range_lib"
  assumes get_new: "rm_get R (rm_new R) k = None"
    and get_insert: "lo \<le> hi \<Longrightarrow> rm_get R (rm_insert R lo hi v m) k = (if lo \<le> k \<and> k \<le> hi then Some v else rm_get R m k)"
    and gaps: "rm_gaps R m lo hi = [] \<longleftrightarrow> (\<forall>k. lo \<le> k \<and> k \<le> hi \<longrightarrow> rm_get R m k \<noteq> None)"
    and overlaps: "rm_overlaps R m lo hi \<longleftrightarrow> (\<exists>k. lo \<le> k \<and> k \<le> hi \<and> rm_get R m k \<noteq> None)"
    and is_empty: "rm_is_empty R m \<longleftrightarrow> (\<forall>k. rm_get R m k = None)"

locale ipnet_library =
  fixes N :: net_ends
  assumes v4_ends: "fst (ne_v4 N a p) \<le> snd (ne_v4 N a p)"
    and v6_ends: "fst (ne_v6 N b p) \<le> snd (ne_v6 N b p)"

text \<open>The addresses of a network.\<close>

definition in_net :: "net_ends \<Rightarrow> ip_net \<Rightarrow> ip_addr \<Rightarrow> bool" where
  "in_net N net ip =
     (case (net_addr net, ip) of
        (V4 a, V4 x) \<Rightarrow> fst (ne_v4 N a (net_prefix net)) \<le> x \<and> x \<le> snd (ne_v4 N a (net_prefix net))
      | (V6 a, V6 x) \<Rightarrow> fst (ne_v6 N a (net_prefix net)) \<le> x \<and> x \<le> snd (ne_v6 N a (net_prefix net))
      | _ \<Rightarrow> False)"

lemma all_ip: "(\<forall>ip. P ip) \<longleftrightarrow> (\<forall>a. P (V4 a)) \<and> (\<forall>b. P (V6 b))"
  by (metis ip_addr.exhaust)

lemma ex_ip: "(\<exists>ip. P ip) \<longleftrightarrow> (\<exists>a. P (V4 a)) \<or> (\<exists>b. P (V6 b))"
  by (metis ip_addr.exhaust)

lemma find_append: "find P (xs @ ys) = or_else (find P xs) (find P ys)"
  by (induction xs) simp_all

locale ip_maps = v4: range_library R4 + v6: range_library R6 + ipnet_library N
  for R4 :: "('m4, ipv4, 'v) range_lib" and R6 :: "('m6, ipv6, 'v) range_lib" and N :: net_ends
begin

lemma get_default: "im_get (R4, R6) (im_default (R4, R6)) ip = None"
  by (simp add: im_get_def im_default_def v4.get_new v6.get_new split: ip_addr.split)

lemma get_insert_net:
  "im_get (R4, R6) (im_insert_net (R4, R6) N net v m) ip = (if in_net N net ip then Some v else im_get (R4, R6) m ip)"
  by (auto simp: im_get_def im_insert_net_def in_net_def case_prod_beta v4.get_insert [OF v4_ends] v6.get_insert [OF v6_ends]
      split: ip_addr.split)

lemma get_insert_ip:
  "im_get (R4, R6) (im_insert (R4, R6) a v m) ip = (if ip = a then Some v else im_get (R4, R6) m ip)"
  by (auto simp: im_get_def im_insert_def v4.get_insert v6.get_insert split: ip_addr.split)

lemma get_extend:
  "im_get (R4, R6) (im_extend (R4, R6) N nets m) ip =
     (case find (\<lambda>(n, _). in_net N n ip) (rev nets) of Some (_, v) \<Rightarrow> Some v | None \<Rightarrow> im_get (R4, R6) m ip)"
proof (induction nets arbitrary: m)
  case (Cons nv nets)
  obtain n v where "nv = (n, v)" by fastforce
  then show ?case
    using Cons.IH [of "im_insert_net (R4, R6) N n v m"]
    by (auto simp: im_extend_def get_insert_net find_append or_else_def split: option.split)
qed (simp add: im_extend_def)

lemma net_queries:
  "im_contains_net (R4, R6) N m net \<longleftrightarrow> (\<forall>ip. in_net N net ip \<longrightarrow> im_contains (R4, R6) m ip)"
  "im_overlap_net (R4, R6) N m net \<longleftrightarrow> (\<exists>ip. in_net N net ip \<and> im_contains (R4, R6) m ip)"
  by (cases "net_addr net"; simp add: im_contains_net_def im_overlap_net_def in_net_def im_contains_def im_get_def
      case_prod_beta all_ip ex_ip v4.gaps v6.gaps v4.overlaps v6.overlaps conj_assoc)+

lemma empty: "im_is_empty (R4, R6) m \<longleftrightarrow> (\<forall>ip. \<not> im_contains (R4, R6) m ip)"
  unfolding im_is_empty_def im_contains_def im_get_def v4.is_empty fst_conv snd_conv v6.is_empty
  by (auto split: ip_addr.split)

end

section \<open>Instances\<close>

text \<open>Ranges as they were inserted, the last first; \<open>uncovered\<close> cuts them out of a range.\<close>

type_synonym ('k, 'v) ranges = "(('k \<times> 'k) \<times> 'v) list"

fun cut :: "('k :: len) word \<Rightarrow> 'k word \<Rightarrow> 'k word \<times> 'k word \<Rightarrow> ('k word \<times> 'k word) list" where
  "cut a b (lo, hi) =
     (if b < lo \<or> hi < a then [(lo, hi)]
      else (if lo < a then [(lo, a - 1)] else []) @ (if b < hi then [(b + 1, hi)] else []))"

fun uncovered :: "('k :: len word, 'v) ranges \<Rightarrow> ('k word \<times> 'k word) list \<Rightarrow> ('k word \<times> 'k word) list" where
  "uncovered [] gaps = gaps"
| "uncovered (((a, b), _) # m) gaps = uncovered m (if a \<le> b then concat (map (cut a b) gaps) else gaps)"

fun ranges_get :: "('k :: linorder, 'v) ranges \<Rightarrow> 'k \<Rightarrow> 'v option" where
  "ranges_get [] k = None"
| "ranges_get (((a, b), v) # m) k = (if a \<le> k \<and> k \<le> b then Some v else ranges_get m k)"

definition list_ranges :: "(('k :: len word, 'v) ranges, 'k word, 'v) range_lib" where
  "list_ranges =
     \<lparr>rm_new = [], rm_is_empty = (\<lambda>m. list_all (\<lambda>((a, b), _). b < a) m), rm_get = ranges_get,
      rm_insert = (\<lambda>lo hi v m. ((lo, hi), v) # m),
      rm_gaps = (\<lambda>m lo hi. if lo \<le> hi then uncovered m [(lo, hi)] else []),
      rm_overlaps = (\<lambda>m lo hi. list_ex (\<lambda>((a, b), _). max lo a \<le> min hi b) m)\<rparr>"

definition gap_set :: "('k :: linorder \<times> 'k) list \<Rightarrow> 'k set" where
  "gap_set gaps = (\<Union>(lo, hi)\<in>set gaps. {lo..hi})"

lemma gap_set_simps [simp]:
  "gap_set [] = {}" "gap_set ((lo, hi) # gs) = {lo..hi} \<union> gap_set gs" "gap_set (xs @ ys) = gap_set xs \<union> gap_set ys"
  by (auto simp: gap_set_def)

lemma unat_inc: "unat (b + 1) = unat b + 1" if "b < hi" for b :: "('k :: len) word"
proof -
  have "unat b + 1 < 2 ^ LENGTH('k)"
    using that unsigned_less [of hi, where ?'a = nat] unfolding word_less_nat_alt by linarith
  then show ?thesis by (simp add: unat_word_ariths)
qed

lemma cut_set:
  assumes "a \<le> b"
  shows "gap_set (cut a b g) = {fst g..snd g} - {a..b}"
proof -
  obtain lo hi where g: "g = (lo, hi)" by fastforce
  have "lo < a \<Longrightarrow> {lo..a - 1} = {lo..<a}"
    by (auto simp: word_le_nat_alt word_less_nat_alt unat_sub_if_size)
  moreover have "b < hi \<Longrightarrow> {b + 1..hi} = {b<..hi}"
    by (auto simp: word_le_nat_alt word_less_nat_alt unat_inc)
  ultimately have "gap_set (cut a b g) = (if b < lo \<or> hi < a then {lo..hi} else (if lo < a then {lo..<a} else {}) \<union>
      (if b < hi then {b<..hi} else {}))"
    by (simp add: g)
  also have "\<dots> = {lo..hi} - {a..b}"
    using assms by (auto split: if_splits)
  finally show ?thesis by (simp add: g)
qed

lemma gap_set_concat: "gap_set (concat gss) = (\<Union>gs\<in>set gss. gap_set gs)"
  by (induction gss) simp_all

lemma gap_set_Union: "gap_set gaps = (\<Union>g\<in>set gaps. {fst g..snd g})"
  by (auto simp: gap_set_def case_prod_beta)

lemma uncovered_set: "gap_set (uncovered m gaps) = {k \<in> gap_set gaps. ranges_get m k = None}"
proof (induction m gaps rule: uncovered.induct)
  case (2 a b v m gaps)
  have "gap_set (concat (map (cut a b) gaps)) = gap_set gaps - {a..b}" if "a \<le> b"
  proof -
    have "gap_set (concat (map (cut a b) gaps)) = (\<Union>g\<in>set gaps. {fst g..snd g} - {a..b})"
      by (simp only: gap_set_concat set_map image_image cut_set [OF that])
    then show ?thesis by (simp only: gap_set_Union UN_extend_simps)
  qed
  moreover have "{a..b} = {}" if "\<not> a \<le> b" using that by simp
  ultimately show ?case using 2 by auto
qed simp

text \<open>No gap is empty.\<close>

lemma cut_proper: "a \<le> b \<Longrightarrow> fst g \<le> snd g \<Longrightarrow> \<forall>(lo, hi)\<in>set (cut a b g). lo \<le> hi"
  by (cases g) (auto intro: inc_le simp: word_le_nat_alt word_less_nat_alt unat_sub_if_size unat_inc)

declare cut.simps [simp del]

lemma uncovered_proper: "\<forall>(lo, hi)\<in>set gaps. lo \<le> hi \<Longrightarrow> \<forall>(lo, hi)\<in>set (uncovered m gaps). lo \<le> hi"
proof (induction m gaps rule: uncovered.induct)
  case (2 a b v m gaps)
  have "\<forall>(lo, hi)\<in>set (concat (map (cut a b) gaps)). lo \<le> hi" if "a \<le> b"
  proof -
    have "\<forall>p\<in>set (cut a b g). fst p \<le> snd p" if "g \<in> set gaps" for g
    proof -
      have "fst g \<le> snd g" using 2(2) that by (metis case_prod_beta)
      from cut_proper [OF \<open>a \<le> b\<close> this] show ?thesis by (metis case_prod_beta)
    qed
    then show ?thesis by (auto simp: case_prod_beta simp del: cut.simps)
  qed
  with 2(2) have "\<forall>(lo, hi)\<in>set (if a \<le> b then concat (map (cut a b) gaps) else gaps). lo \<le> hi" by presburger
  then show ?case unfolding uncovered.simps by (rule 2(1))
qed simp

lemma gap_set_empty: "\<forall>(lo, hi)\<in>set gaps. lo \<le> hi \<Longrightarrow> gap_set gaps = {} \<longleftrightarrow> gaps = []"
  by (cases gaps) (auto simp: gap_set_def)

lemma ranges_get_None: "ranges_get m k = None \<longleftrightarrow> (\<forall>((a, b), _)\<in>set m. \<not> (a \<le> k \<and> k \<le> b))"
  by (induction m k rule: ranges_get.induct) auto

interpretation lr: range_library "list_ranges :: (('k :: len word, 'v) ranges, 'k word, 'v) range_lib"
proof
  fix m :: "('k word, 'v) ranges" and lo hi k :: "'k word" and v :: 'v
  show "rm_get list_ranges (rm_insert list_ranges lo hi v m) k =
      (if lo \<le> k \<and> k \<le> hi then Some v else rm_get list_ranges m k)" if "lo \<le> hi"
    by (simp add: list_ranges_def)
  show "rm_gaps list_ranges m lo hi = [] \<longleftrightarrow> (\<forall>k. lo \<le> k \<and> k \<le> hi \<longrightarrow> rm_get list_ranges m k \<noteq> None)"
  proof (cases "lo \<le> hi")
    case True
    then have "uncovered m [(lo, hi)] = [] \<longleftrightarrow> gap_set (uncovered m [(lo, hi)]) = {}"
      using gap_set_empty [OF uncovered_proper, of "[(lo, hi)]" m] by simp
    also have "\<dots> \<longleftrightarrow> (\<forall>k. lo \<le> k \<and> k \<le> hi \<longrightarrow> ranges_get m k \<noteq> None)"
      unfolding uncovered_set by auto
    finally show ?thesis using True by (simp add: list_ranges_def)
  qed (auto simp: list_ranges_def)
  show "rm_overlaps list_ranges m lo hi \<longleftrightarrow> (\<exists>k. lo \<le> k \<and> k \<le> hi \<and> rm_get list_ranges m k \<noteq> None)"
  proof
    assume "rm_overlaps list_ranges m lo hi"
    then obtain a b x where "((a, b), x) \<in> set m" "max lo a \<le> min hi b" by (auto simp: list_ranges_def list_ex_iff)
    then have "\<not> (ranges_get m (max lo a) = None)" unfolding ranges_get_None by force
    moreover have "lo \<le> max lo a" "max lo a \<le> hi" using \<open>max lo a \<le> min hi b\<close> by auto
    ultimately show "\<exists>k. lo \<le> k \<and> k \<le> hi \<and> rm_get list_ranges m k \<noteq> None"
      by (intro exI [of _ "max lo a"]) (simp add: list_ranges_def)
  next
    assume "\<exists>k. lo \<le> k \<and> k \<le> hi \<and> rm_get list_ranges m k \<noteq> None"
    then obtain k a b x where "lo \<le> k" "k \<le> hi" "((a, b), x) \<in> set m" "a \<le> k" "k \<le> b"
      by (auto simp: list_ranges_def ranges_get_None)
    then have "max lo a \<le> min hi b" by auto
    then show "rm_overlaps list_ranges m lo hi"
      using \<open>((a, b), x) \<in> set m\<close> by (force simp: list_ranges_def list_ex_iff)
  qed
  show "rm_is_empty list_ranges m \<longleftrightarrow> (\<forall>k. rm_get list_ranges m k = None)"
    by (fastforce simp: list_ranges_def ranges_get_None list_all_iff not_le)
qed (simp add: list_ranges_def)

definition host_mask :: "nat \<Rightarrow> u8 \<Rightarrow> 'k :: len word" where
  "host_mask w p = mask (w - unat p)"

definition std_nets :: net_ends where
  "std_nets =
     \<lparr>ne_v4 = (\<lambda>a p. (a AND NOT (host_mask 32 p), a OR host_mask 32 p)),
      ne_v6 = (\<lambda>a p. (a AND NOT (host_mask 128 p), a OR host_mask 128 p))\<rparr>"

lemma and_le_or: "a AND m \<le> a OR n" for a :: "'k :: len word"
proof -
  have "(a AND m) OR (a OR n) = a OR n" by (rule bit_eqI) (auto simp: bit_simps)
  then show ?thesis using le_word_or2 [of "a AND m" "a OR n"] by simp
qed

interpretation sn: ipnet_library std_nets
  by unfold_locales (simp_all add: std_nets_def and_le_or)

interpretation sm: ip_maps "list_ranges :: ((ipv4, 'v) ranges, ipv4, 'v) range_lib"
    "list_ranges :: ((ipv6, 'v) ranges, ipv6, 'v) range_lib" std_nets
  by unfold_locales

lemma im_contains_nets:
  assumes "ip_maps R4 R6 N"
  shows "im_contains (R4, R6) (im_from_iter (R4, R6) N nets) ip \<longleftrightarrow> (\<exists>(n, _)\<in>set nets. in_net N n ip)"
proof -
  note laws = ip_maps.get_extend [OF assms] ip_maps.get_default [OF assms]
  have "im_get (R4, R6) (im_from_iter (R4, R6) N nets) ip = map_option snd (find (\<lambda>(n, _). in_net N n ip) (rev nets))"
    by (simp add: im_from_iter_def laws case_prod_beta split: option.split)
  then show ?thesis by (force simp: im_contains_def find_None_iff case_prod_beta)
qed

section \<open>Properties\<close>

text \<open>
  C28: A map built from networks gives an address the value of the last network that has it, and
  nothing when none has; a set contains an address, or overlaps a network, exactly when one of its
  networks has it, or shares an address with it, and contains a network exactly when it contains its
  addresses, though no single network of the set need have them all.
\<close>

theorem ip_map_lookup:
  assumes "ip_maps R4 R6 N" and m_def: "m = im_from_iter (R4, R6) N nets"
  shows "im_get (R4, R6) m ip = map_option snd (find (\<lambda>(n, _). in_net N n ip) (rev nets)) \<and>
    (im_contains (R4, R6) m ip \<longleftrightarrow> (\<exists>(n, _)\<in>set nets. in_net N n ip)) \<and>
    (im_contains_net (R4, R6) N m net \<longleftrightarrow> (\<forall>a. in_net N net a \<longrightarrow> (\<exists>(n, _)\<in>set nets. in_net N n a))) \<and>
    (im_overlap_net (R4, R6) N m net \<longleftrightarrow> (\<exists>a. in_net N net a \<and> (\<exists>(n, _)\<in>set nets. in_net N n a)))"
proof -
  note laws = ip_maps.get_extend [OF assms(1)] ip_maps.get_default [OF assms(1)]
  have get: "im_get (R4, R6) m ip = map_option snd (find (\<lambda>(n, _). in_net N n ip) (rev nets))" for ip
    by (simp add: m_def im_from_iter_def laws case_prod_beta split: option.split)
  have contains: "im_contains (R4, R6) m ip \<longleftrightarrow> (\<exists>(n, _)\<in>set nets. in_net N n ip)" for ip
    unfolding m_def by (rule im_contains_nets [OF assms(1)])
  show ?thesis
    using get contains by (simp add: ip_maps.net_queries [OF assms(1)])
qed

theorem ip_map_lookup_witness:
  "im_contains_net (list_ranges, list_ranges) std_nets
     (ip_set_new (list_ranges, list_ranges) std_nets
        [\<lparr>net_addr = V4 0x0a000000, net_prefix = 25\<rparr>, \<lparr>net_addr = V4 0x0a000080, net_prefix = 25\<rparr>])
     \<lparr>net_addr = V4 0x0a000000, net_prefix = 24\<rparr> \<longleftrightarrow>
   (\<forall>a. in_net std_nets \<lparr>net_addr = V4 0x0a000000, net_prefix = 24\<rparr> a \<longrightarrow>
     (\<exists>(n, _)\<in>set [(\<lparr>net_addr = V4 0x0a000000, net_prefix = 25\<rparr>, ()), (\<lparr>net_addr = V4 0x0a000080, net_prefix = 25\<rparr>, ())].
        in_net std_nets n a))"
  using ip_map_lookup [OF sm.ip_maps_axioms refl] unfolding ip_set_new_def list.map by blast

end
