(* ===== verification/Der.thy ===== *)
theory Der
  imports Cache_Codec
begin

unbundle bit_operations_syntax

text \<open>
  The certificate fields read from DER (\<^verbatim>\<open>src/src/rustls/der.rs\<close>).

  A slice is the list of its bytes; \<open>None\<close> is the \<open>None\<close> of the source. Making a date and a time from
  their fields is the \<open>time\<close> package's and an argument. Lengths have at most four bytes and do not
  overflow a \<open>usize\<close>.
\<close>

section \<open>Elements\<close>

record element =
  el_tag :: u8
  el_contents :: bytes
  el_whole :: bytes
  el_rest :: bytes

definition be_len :: "bytes \<Rightarrow> nat" where
  "be_len bs = fold (\<lambda>b len. len * 256 + unat b) bs 0"

definition element_at :: "bytes \<Rightarrow> element option" where
  "element_at input =
     (case input of
        tag # first # rest \<Rightarrow>
          (case (if first < 0x80 then Some (unat first, rest)
                 else
                   let count = unat (first AND 0x7f)
                   in if count = 0 \<or> count > 4 \<or> length rest < count then None
                      else Some (be_len (take count rest), drop count rest)) of
             None \<Rightarrow> None
           | Some (len, rest) \<Rightarrow>
               (if length rest < len then None
                else
                  let header = length input - length rest
                  in Some \<lparr>el_tag = tag, el_contents = take len rest, el_whole = take (header + len) input,
                           el_rest = drop len rest\<rparr>))
      | _ \<Rightarrow> None)"

definition expect :: "bytes \<Rightarrow> u8 \<Rightarrow> element option" where
  "expect input tag = opt_filter (\<lambda>e. el_tag e = tag) (element_at input)"

section \<open>Fields of a certificate\<close>

fun skip_fields :: "nat \<Rightarrow> bytes \<Rightarrow> bytes option" where
  "skip_fields 0 fs = Some fs"
| "skip_fields (Suc n) fs = Option.bind (element_at fs) (\<lambda>e. skip_fields n (el_rest e))"

definition after_version :: "bytes \<Rightarrow> bytes option" where
  "after_version fs = (if fs \<noteq> [] \<and> hd fs = 0xa0 then map_option el_rest (expect fs 0xa0) else Some fs)"

definition tbs_field :: "bytes \<Rightarrow> nat \<Rightarrow> element option" where
  "tbs_field der index =
     Option.bind (expect der 0x30) (\<lambda>certificate.
     Option.bind (expect (el_contents certificate) 0x30) (\<lambda>tbs.
     Option.bind (after_version (el_contents tbs)) (\<lambda>fs.
     Option.bind (skip_fields index fs) element_at)))"

definition subject_public_key_info :: "bytes \<Rightarrow> bytes option" where
  "subject_public_key_info der =
     map_option el_whole (opt_filter (\<lambda>f. el_tag f = 0x30) (tbs_field der 5))"

section \<open>Times\<close>

text \<open>\<open>text[range].parse::<u32>()\<close>, on digits.\<close>

definition number :: "bytes \<Rightarrow> nat" where
  "number ds = fold (\<lambda>d n. n * 10 + (unat d - 48)) ds 0"

definition is_ascii_digit :: "u8 \<Rightarrow> bool" where
  "is_ascii_digit b \<longleftrightarrow> 48 \<le> b \<and> b \<le> 57"

definition text_slice :: "nat \<Rightarrow> nat \<Rightarrow> 'a list \<Rightarrow> 'a list" where
  "text_slice i n xs = take n (drop i xs)"

definition der_time ::
  "(int \<Rightarrow> u8 \<Rightarrow> u8 \<Rightarrow> u8 \<Rightarrow> u8 \<Rightarrow> u8 \<Rightarrow> 't option) \<Rightarrow> bytes \<Rightarrow> ('t \<times> bytes) option" where
  "der_time mk input =
     Option.bind (element_at input) (\<lambda>e.
     Option.bind (if el_tag e = 0x17 then Some 2 else if el_tag e = 0x18 then Some 4 else None) (\<lambda>year_digits.
     let value = el_contents e in
     if \<not> utf8_ok value \<or> value = [] \<or> last value \<noteq> 90 then None
     else
       let txt = butlast value in
       if length txt \<noteq> year_digits + 10 \<or> \<not> list_all is_ascii_digit txt then None
       else
         let n = number (take year_digits txt);
             year = (if year_digits = 2 \<and> n \<ge> 50 then 1900 + n else if year_digits = 2 then 2000 + n else n);
             field = (\<lambda>i. of_nat (number (text_slice (year_digits + 2 * i) 2 txt)))
         in map_option (\<lambda>t. (t, el_rest e)) (mk (int year) (field 0) (field 1) (field 2) (field 3) (field 4))))"

definition validity ::
  "(int \<Rightarrow> u8 \<Rightarrow> u8 \<Rightarrow> u8 \<Rightarrow> u8 \<Rightarrow> u8 \<Rightarrow> 't option) \<Rightarrow> bytes \<Rightarrow> ('t \<times> 't) option" where
  "validity mk der =
     Option.bind (opt_filter (\<lambda>f. el_tag f = 0x30) (tbs_field der 3)) (\<lambda>v.
     Option.bind (der_time mk (el_contents v)) (\<lambda>(not_before, rest).
     Option.bind (der_time mk rest) (\<lambda>(not_after, _). Some (not_before, not_after))))"

section \<open>Reading what is written\<close>

text \<open>An element is the start of the input, and its contents are the end of it.\<close>

lemma element_at_split:
  assumes "element_at input = Some e"
  shows "input = el_whole e @ el_rest e" and "\<exists>header. el_whole e = header @ el_contents e \<and> hd header = el_tag e"
proof -
  obtain tag first rest where i: "input = tag # first # rest"
    using assms by (auto simp: element_at_def split: list.splits)
  obtain len k where k: "k \<le> length rest" "len \<le> length rest - k"
    and e: "e = \<lparr>el_tag = tag, el_contents = take len (drop k rest), el_whole = take (k + 2 + len) input,
      el_rest = drop len (drop k rest)\<rparr>"
  proof (cases "first < 0x80")
    case True
    then show ?thesis using assms i that [of 0 "unat first"]
      by (auto simp: element_at_def Let_def split: if_splits)
  next
    case False
    then show ?thesis using assms i that [of "unat (first AND 0x7f)" "be_len (take (unat (first AND 0x7f)) rest)"]
      by (auto simp: element_at_def Let_def split: if_splits)
  qed
  show "input = el_whole e @ el_rest e"
    by (simp add: e i add.commute)
  have "el_whole e = (tag # first # take k rest) @ el_contents e"
    by (simp add: e i take_add)
  then show "\<exists>header. el_whole e = header @ el_contents e \<and> hd header = el_tag e"
    by (metis e element.select_convs(1) list.sel(1) append_Cons)
qed

text \<open>DER: a tag, the length in one byte if it is below 128 and otherwise after the number of its bytes, and
  the contents.\<close>

definition der_length :: "nat \<Rightarrow> bytes" where
  "der_length n =
     (if n < 128 then [of_nat n]
      else if n < 2 ^ 8 then [0x81, of_nat n]
      else if n < 2 ^ 16 then [0x82, of_nat (n div 2 ^ 8), of_nat n]
      else if n < 2 ^ 24 then [0x83, of_nat (n div 2 ^ 16), of_nat (n div 2 ^ 8), of_nat n]
      else [0x84, of_nat (n div 2 ^ 24), of_nat (n div 2 ^ 16), of_nat (n div 2 ^ 8), of_nat n])"

definition der_element :: "u8 \<Rightarrow> bytes \<Rightarrow> bytes" where
  "der_element tag contents = tag # der_length (length contents) @ contents"

lemma be_len_step: "be_len xs = n div 256 \<Longrightarrow> be_len (xs @ [of_nat n]) = n"
  by (simp add: be_len_def unat_of_nat)

lemma be_len_one: "n < 256 \<Longrightarrow> be_len [of_nat n] = n"
  by (simp add: be_len_def unat_of_nat)

lemma be_len_two: "n < 2 ^ 16 \<Longrightarrow> be_len [of_nat (n div 2 ^ 8), of_nat n] = n"
  using be_len_step [OF be_len_one, of n] by (simp add: less_mult_imp_div_less)

lemma be_len_three: "n < 2 ^ 24 \<Longrightarrow> be_len [of_nat (n div 2 ^ 16), of_nat (n div 2 ^ 8), of_nat n] = n"
  using be_len_step [OF be_len_two [of "n div 256"]] by (simp add: less_mult_imp_div_less div_mult2_eq [symmetric])

lemma be_len_four:
  "n < 2 ^ 32 \<Longrightarrow> be_len [of_nat (n div 2 ^ 24), of_nat (n div 2 ^ 16), of_nat (n div 2 ^ 8), of_nat n] = n"
  using be_len_step [OF be_len_three [of "n div 256"]] by (simp add: less_mult_imp_div_less div_mult2_eq [symmetric])

lemma element_at_short:
  assumes "n < 128"
  shows "element_at (tag # of_nat n # rest) =
    (if length rest < n then None
     else Some \<lparr>el_tag = tag, el_contents = take n rest, el_whole = tag # of_nat n # take n rest, el_rest = drop n rest\<rparr>)"
  using assms by (simp add: element_at_def word_less_nat_alt unat_of_nat Let_def)

lemma element_at_long:
  assumes "\<not> first < 0x80" and "unat (first AND 0x7f) = length ls" and "ls \<noteq> []" and "length ls \<le> 4" and "be_len ls = n"
  shows "element_at (tag # first # ls @ rest) =
    (if length rest < n then None
     else Some \<lparr>el_tag = tag, el_contents = take n rest, el_whole = tag # first # ls @ take n rest, el_rest = drop n rest\<rparr>)"
  using assms by (simp add: element_at_def Let_def)

lemma element_at_der:
  assumes "length contents < 2 ^ 32"
  shows "element_at (der_element tag contents @ rest) =
    Some \<lparr>el_tag = tag, el_contents = contents, el_whole = der_element tag contents, el_rest = rest\<rparr>"
proof -
  let ?n = "length contents"
  consider "?n < 128" | "128 \<le> ?n" "?n < 2 ^ 8" | "2 ^ 8 \<le> ?n" "?n < 2 ^ 16" | "2 ^ 16 \<le> ?n" "?n < 2 ^ 24"
    | "2 ^ 24 \<le> ?n" "?n < 2 ^ 32"
    using assms by linarith
  then show ?thesis
  proof cases
    case 1
    then show ?thesis using element_at_short [of ?n tag "contents @ rest"] by (simp add: der_element_def der_length_def)
  next
    case 2
    then show ?thesis using element_at_long [OF _ _ _ _ be_len_one [of ?n], of "0x81" tag "contents @ rest"]
      by (simp add: der_element_def der_length_def)
  next
    case 3
    then show ?thesis using element_at_long [OF _ _ _ _ be_len_two [of ?n], of "0x82" tag "contents @ rest"]
      by (simp add: der_element_def der_length_def)
  next
    case 4
    then show ?thesis using element_at_long [OF _ _ _ _ be_len_three [of ?n], of "0x83" tag "contents @ rest"]
      by (simp add: der_element_def der_length_def)
  next
    case 5
    then show ?thesis using element_at_long [OF _ _ _ _ be_len_four [of ?n], of "0x84" tag "contents @ rest"]
      by (simp add: der_element_def der_length_def)
  qed
qed

text \<open>A certificate as X.509 lays it out: its fields, after the version when it is not the first, and then what
  follows the TBSCertificate.\<close>

definition der_fields :: "(u8 \<times> bytes) list \<Rightarrow> bytes" where
  "der_fields fs = concat (map (\<lambda>(tag, contents). der_element tag contents) fs)"

definition certificate :: "bytes option \<Rightarrow> (u8 \<times> bytes) list \<Rightarrow> bytes \<Rightarrow> bytes" where
  "certificate version fs signature =
     der_element 0x30 (der_element 0x30 (case_option [] (der_element 0xa0) version @ der_fields fs) @ signature)"

lemma length_der_element: "length contents < length (der_element tag contents)"
  by (simp add: der_element_def)

lemma der_fields_simps [simp]:
  "der_fields [] = []" "der_fields (f # fs) = der_element (fst f) (snd f) @ der_fields fs"
  by (simp_all add: der_fields_def split_beta)

lemma skip_fields_der:
  assumes "length (der_fields fs) < 2 ^ 32" and "n \<le> length fs"
  shows "skip_fields n (der_fields fs) = Some (der_fields (drop n fs))"
  using assms
proof (induction n arbitrary: fs)
  case (Suc n)
  then obtain tag contents fs' where fs: "fs = (tag, contents) # fs'" by (cases fs) auto
  have "length contents < 2 ^ 32"
    using Suc.prems(1) length_der_element [of contents tag] by (simp add: fs)
  then show ?case using Suc by (simp add: fs element_at_der)
qed simp

lemma field_short:
  assumes "length (der_fields fs) < N" and "n < length fs"
  shows "length (snd (fs ! n)) < N"
  using assms
proof (induction fs arbitrary: n)
  case (Cons f fs)
  obtain tag contents where f: "f = (tag, contents)" by (cases f)
  show ?case
    using Cons length_der_element [of contents tag] by (cases n) (auto simp: f)
qed simp

lemma tbs_field_der:
  assumes "length (certificate version fs signature) < 2 ^ 32" and "n < length fs" and "fst (hd fs) \<noteq> 0xa0"
  shows "tbs_field (certificate version fs signature) n =
    Some \<lparr>el_tag = fst (fs ! n), el_contents = snd (fs ! n), el_whole = der_element (fst (fs ! n)) (snd (fs ! n)),
          el_rest = der_fields (drop (Suc n) fs)\<rparr>"
proof -
  let ?v = "case_option [] (der_element 0xa0) version"
  let ?tbs = "?v @ der_fields fs"
  have l1: "length (der_element 0x30 ?tbs @ signature) < 2 ^ 32"
    using assms(1) length_der_element [of _ "0x30"] unfolding certificate_def by (rule less_trans [rotated])
  have l2: "length ?tbs < 2 ^ 32"
    using l1 length_der_element [of ?tbs "0x30"] by simp
  then have l3: "length (der_fields fs) < 2 ^ 32" by simp
  have c1: "element_at (certificate version fs signature) = Some \<lparr>el_tag = 0x30,
      el_contents = der_element 0x30 ?tbs @ signature, el_whole = certificate version fs signature, el_rest = []\<rparr>"
    using element_at_der [OF l1, of "0x30" "[]"] by (simp add: certificate_def)
  have hd_f: "hd (der_fields fs) = fst (hd fs)" "der_fields fs \<noteq> []"
    using assms(2) by (cases fs; auto simp: der_element_def)+
  have v: "after_version ?tbs = Some (der_fields fs)"
  proof (cases version)
    case None
    then show ?thesis using assms(3) by (simp add: hd_f after_version_def)
  next
    case (Some v)
    have "length v < 2 ^ 32" using l2 length_der_element [of v "0xa0"] by (simp add: Some)
    then show ?thesis by (simp add: Some after_version_def expect_def element_at_der opt_filter_def) (simp add: der_element_def)
  qed
  have "drop n fs = (fst (fs ! n), snd (fs ! n)) # drop (Suc n) fs"
    using assms(2) by (simp add: Cons_nth_drop_Suc)
  then have "element_at (der_fields (drop n fs)) = Some \<lparr>el_tag = fst (fs ! n), el_contents = snd (fs ! n),
      el_whole = der_element (fst (fs ! n)) (snd (fs ! n)), el_rest = der_fields (drop (Suc n) fs)\<rparr>"
    using element_at_der [OF field_short [OF l3 assms(2)]] by simp
  then show ?thesis
    using v assms(2) by (simp add: tbs_field_def expect_def c1 opt_filter_def element_at_der [OF l2] skip_fields_der [OF l3] Let_def)
qed

text \<open>A time as RFC 5280 has it: with two digits of the year from 1950 to 2049, otherwise with four.\<close>

type_synonym calendar = "nat \<times> nat \<times> nat \<times> nat \<times> nat \<times> nat"

definition two_digits :: "nat \<Rightarrow> bytes" where
  "two_digits n = [of_nat (48 + n div 10), of_nat (48 + n mod 10)]"

definition x509_time :: "calendar \<Rightarrow> bytes" where
  "x509_time t =
     (case t of (year, month, day, hour, minute, second) \<Rightarrow>
        let rest = concat (map two_digits [month, day, hour, minute, second]) @ [90] in
        if 1950 \<le> year \<and> year < 2050 then der_element 0x17 (two_digits (year mod 100) @ rest)
        else der_element 0x18 (two_digits (year div 100) @ two_digits (year mod 100) @ rest))"

definition calendar_ok :: "calendar \<Rightarrow> bool" where
  "calendar_ok t \<longleftrightarrow>
     (case t of (year, month, day, hour, minute, second) \<Rightarrow>
        year < 10000 \<and> list_all (\<lambda>n. n < 100) [month, day, hour, minute, second])"

definition calendar_time :: "(int \<Rightarrow> u8 \<Rightarrow> u8 \<Rightarrow> u8 \<Rightarrow> u8 \<Rightarrow> u8 \<Rightarrow> 't option) \<Rightarrow> calendar \<Rightarrow> 't option" where
  "calendar_time mk t =
     (case t of (year, month, day, hour, minute, second) \<Rightarrow>
        mk (int year) (of_nat month) (of_nat day) (of_nat hour) (of_nat minute) (of_nat second))"

lemma digit_byte: "d < 10 \<Longrightarrow> unat (48 + of_nat d :: u8) = 48 + d"
  using unat_of_nat [of "48 + d", where 'a = 8] by simp

lemma two_digits_props:
  assumes "n < 100"
  shows "list_all is_ascii_digit (two_digits n)" "list_all (\<lambda>b. b < 0x80) (two_digits n)"
    "number (two_digits n) = n"
proof -
  have d: "n div 10 < 10" "n mod 10 < 10" using assms by auto
  show "list_all is_ascii_digit (two_digits n)" "list_all (\<lambda>b. b < 0x80) (two_digits n)"
    using d by (simp_all add: two_digits_def is_ascii_digit_def word_le_nat_alt word_less_nat_alt digit_byte)
  show "number (two_digits n) = n"
    using d by (simp add: two_digits_def number_def digit_byte)
qed

lemma length_two_digits [simp]: "length (two_digits n) = 2"
  by (simp add: two_digits_def)

lemma utf8_ok_ascii: "list_all (\<lambda>b. b < 0x80) bs \<Longrightarrow> utf8_ok bs"
  by (induction bs) simp_all

lemma number_four: "number (two_digits a @ two_digits b) = 100 * number (two_digits a) + number (two_digits b)"
  by (simp add: two_digits_def number_def)

lemma der_time_digits:
  assumes "tag = 0x17 \<and> k = 2 \<or> tag = 0x18 \<and> k = 4" and "length ds = k + 10" and "list_all is_ascii_digit ds"
    and "year = (if k = 2 \<and> number (take k ds) \<ge> 50 then 1900 + number (take k ds)
      else if k = 2 then 2000 + number (take k ds) else number (take k ds))"
  shows "der_time mk (der_element tag (ds @ [90]) @ rest) =
    (let field = (\<lambda>i. of_nat (number (text_slice (k + 2 * i) 2 ds)))
     in map_option (\<lambda>t. (t, rest)) (mk (int year) (field 0) (field 1) (field 2) (field 3) (field 4)))"
proof -
  have a: "list_all (\<lambda>b. b < 0x80) ds"
    using assms(3) by (auto simp: list_all_iff is_ascii_digit_def intro: order.strict_trans1)
  have u: "utf8_ok (ds @ [90])"
    using a by (intro utf8_ok_ascii) simp
  have e: "element_at (der_element tag (ds @ [90]) @ rest) = Some \<lparr>el_tag = tag, el_contents = ds @ [90],
      el_whole = der_element tag (ds @ [90]), el_rest = rest\<rparr>"
    using assms(1,2) by (intro element_at_der) auto
  show ?thesis
    using assms e u by (elim disjE) (simp_all add: der_time_def Let_def)
qed

lemma two_digit_year:
  fixes y d c :: nat
  assumes "y = d * 100 + c" and "c < 100" and "1950 \<le> y" and "y < 2050"
  shows "y = (if 50 \<le> c then 1900 + c else 2000 + c)"
proof -
  have "d = 19 \<or> d = 20" using assms by linarith
  then show ?thesis using assms by auto
qed

lemma x509_time_read:
  assumes "calendar_ok t"
  shows "der_time mk (x509_time t @ rest) = map_option (\<lambda>v. (v, rest)) (calendar_time mk t)"
proof -
  obtain year month day hour minute second where t: "t = (year, month, day, hour, minute, second)"
    by (cases t)
  have b: "year < 10000" "month < 100" "day < 100" "hour < 100" "minute < 100" "second < 100"
    using assms by (simp_all add: t calendar_ok_def)
  let ?ds = "two_digits month @ two_digits day @ two_digits hour @ two_digits minute @ two_digits second"
  have m: "year mod 100 < 100" by simp
  show ?thesis
  proof (cases "1950 \<le> year \<and> year < 2050")
    case True
    then have yc: "year = (if 50 \<le> c then 1900 + c else 2000 + c)" if "c = year mod 100" for c
      using that m by (intro two_digit_year [of _ "year div 100"]) simp_all
    have n: "number (take 2 (two_digits (year mod 100) @ ?ds)) = year mod 100"
      by (simp add: two_digits_props)
    have y: "year = (if (2::nat) = 2 \<and> 50 \<le> number (take 2 (two_digits (year mod 100) @ ?ds))
        then 1900 + number (take 2 (two_digits (year mod 100) @ ?ds))
        else if (2::nat) = 2 then 2000 + number (take 2 (two_digits (year mod 100) @ ?ds))
        else number (take 2 (two_digits (year mod 100) @ ?ds)))"
      using yc [OF n] by (simp only: simp_thms if_True)
    have x: "x509_time t = der_element 0x17 ((two_digits (year mod 100) @ ?ds) @ [90])"
      using True by (simp add: t x509_time_def)
    show ?thesis
      using der_time_digits [OF _ _ _ y, of "0x17" mk rest] b m
      by (simp add: x [unfolded t] two_digits_props text_slice_def calendar_time_def Let_def t)
  next
    case False
    then have x: "x509_time t = der_element 0x18 ((two_digits (year div 100) @ two_digits (year mod 100) @ ?ds) @ [90])"
      by (auto simp: t x509_time_def Let_def)
    have y: "year div 100 < 100" using b by auto
    show ?thesis
      using der_time_digits [of "0x18" 4 "two_digits (year div 100) @ two_digits (year mod 100) @ ?ds" year mk rest] b m y
      by (simp add: x [unfolded t] two_digits_props text_slice_def t calendar_time_def number_four Let_def)
  qed
qed

text \<open>
  C29: The fields read from a certificate are its own: of a certificate laid out as X.509 has it, with or without
  a version, whose sixth field is a sequence, \<open>subject_public_key_info\<close> returns exactly the encoding of that field with its
  tag and length, which is what a pin is computed from; and when the fourth field holds two times as RFC 5280 has
  them, two digits of the year or four, \<open>validity\<close> returns these two times in this order, or nothing when one of
  them is not on the calendar.
\<close>

theorem certificate_fields_read:
  assumes "length (certificate version fs signature) < 2 ^ 32" and "5 < length fs" and "fst (hd fs) \<noteq> 0xa0"
    and "fs ! 5 = (0x30, spki)" and "fs ! 3 = (0x30, x509_time from @ x509_time to @ extra)"
    and "calendar_ok from" and "calendar_ok to"
  shows "subject_public_key_info (certificate version fs signature) = Some (der_element 0x30 spki)
    \<and> validity mk (certificate version fs signature) =
        (case (calendar_time mk from, calendar_time mk to) of
           (Some not_before, Some not_after) \<Rightarrow> Some (not_before, not_after)
         | _ \<Rightarrow> None)"
  using assms by (simp add: subject_public_key_info_def validity_def tbs_field_der opt_filter_def x509_time_read
      split: option.splits)

definition example_fields :: "(u8 \<times> bytes) list" where
  "example_fields = [(2, [1]), (0x30, []), (0x30, []),
     (0x30, x509_time (2020, 1, 2, 3, 4, 5) @ x509_time (2090, 12, 31, 23, 59, 58)), (0x30, []), (0x30, [5, 0])]"

theorem certificate_fields_read_witness:
  "subject_public_key_info (certificate (Some [2, 1, 2]) example_fields [0x30, 0]) = Some [0x30, 2, 5, 0]
    \<and> validity (\<lambda>y m d h mi s. Some (y, m, d, h, mi, s)) (certificate (Some [2, 1, 2]) example_fields [0x30, 0]) =
      Some ((2020, 1, 2, 3, 4, 5), (2090, 12, 31, 23, 59, 58))"
  using certificate_fields_read [of "Some [2, 1, 2]" example_fields "[0x30, 0]" "[5, 0]" "(2020, 1, 2, 3, 4, 5)"
      "(2090, 12, 31, 23, 59, 58)" "[]" "\<lambda>y m d h mi s. Some (y, m, d, h, mi, s)"]
  by (simp add: example_fields_def certificate_def x509_time_def two_digits_def der_element_def der_length_def
      calendar_ok_def calendar_time_def)

end
