(* ===== verification/Rust_Text.thy ===== *)
theory Rust_Text
  imports Dns_Url
begin

text \<open>
  The part of Rust's standard library that reads text: splitting and trimming of strings, numbers,
  and the textual form of IP addresses (\<open>IpAddr::from_str\<close>). A string is a list of ASCII
  characters.
\<close>

section \<open>Splitting\<close>

definition is_whitespace :: "char \<Rightarrow> bool" where
  "is_whitespace c \<longleftrightarrow> c \<in> set [CHR 0x09, CHR 0x0A, CHR 0x0B, CHR 0x0C, CHR 0x0D, CHR '' '']"

definition trim_start :: "string \<Rightarrow> string" where
  "trim_start s = dropWhile is_whitespace s"

definition trim :: "string \<Rightarrow> string" where
  "trim s = rev (dropWhile is_whitespace (rev (trim_start s)))"

fun split_on :: "('a \<Rightarrow> bool) \<Rightarrow> 'a list \<Rightarrow> 'a list list" where
  "split_on p [] = [[]]"
| "split_on p (c # cs) =
     (if p c then [] # split_on p cs
      else case split_on p cs of [] \<Rightarrow> [[c]] | x # xs \<Rightarrow> (c # x) # xs)"

definition split_whitespace :: "string \<Rightarrow> string list" where
  "split_whitespace s = filter (\<lambda>p. p \<noteq> []) (split_on is_whitespace s)"

text \<open>\<open>str::lines\<close> and \<open>BufRead::lines\<close>: a final newline ends the last line, and the carriage
  return before a newline is not part of it.\<close>

definition lines :: "string \<Rightarrow> string list" where
  "lines s =
     (let ls = split_on (\<lambda>c. c = CHR 0x0A) s;
          strip = (\<lambda>l. if l \<noteq> [] \<and> last l = CHR 0x0D then butlast l else l)
      in map strip (butlast ls) @ (if last ls = [] then [] else [last ls]))"

definition strip_prefix :: "'a list \<Rightarrow> 'a list \<Rightarrow> 'a list option" where
  "strip_prefix p s = (if take (length p) s = p then Some (drop (length p) s) else None)"

lemma split_on_not_Nil [simp]: "split_on p s \<noteq> []"
  by (induction s) (simp_all split: list.split)

section \<open>Numbers\<close>

definition is_digit :: "char \<Rightarrow> bool" where
  "is_digit c \<longleftrightarrow> c \<in> set ''0123456789''"

definition is_hexdigit :: "char \<Rightarrow> bool" where
  "is_hexdigit c \<longleftrightarrow> c \<in> set ''0123456789abcdefABCDEF''"

fun index_in :: "string \<Rightarrow> char \<Rightarrow> int" where
  "index_in [] c = 0"
| "index_in (x # xs) c = (if x = c then 0 else 1 + index_in xs c)"

definition digit_value :: "char \<Rightarrow> int" where
  "digit_value c =
     (if c \<in> set ''ABCDEF'' then 10 + index_in ''ABCDEF'' c else index_in ''0123456789abcdef'' c)"

definition digits_value :: "int \<Rightarrow> string \<Rightarrow> int" where
  "digits_value radix ds = fold (\<lambda>d n. n * radix + digit_value d) ds 0"

text \<open>\<open>i64::from_str\<close>: a sign, then digits, in range.\<close>

definition i64_from_str :: "string \<Rightarrow> int option" where
  "i64_from_str s =
     (let (neg, ds) = (case s of
             c # cs \<Rightarrow> (if c = CHR ''-'' then (True, cs) else if c = CHR ''+'' then (False, cs) else (False, s))
           | [] \<Rightarrow> (False, []));
          v = (if neg then - 1 else 1) * digits_value 10 ds
      in if ds = [] \<or> \<not> list_all is_digit ds \<or> v < - (2 ^ 63) \<or> v \<ge> 2 ^ 63 then None else Some v)"

section \<open>Addresses\<close>

definition read_char :: "char \<Rightarrow> string \<Rightarrow> string option" where
  "read_char c s = (case s of x # xs \<Rightarrow> if x = c then Some xs else None | [] \<Rightarrow> None)"

text \<open>An octet has no leading zero; a group of an IPv6 address has at most four digits.\<close>

definition read_octet :: "string \<Rightarrow> (u8 \<times> string) option" where
  "read_octet s =
     (let ds = takeWhile is_digit s
      in if ds = [] \<or> length ds > 3 \<or> (length ds > 1 \<and> hd ds = CHR ''0'') \<or> digits_value 10 ds > 255 then None
         else Some (of_int (digits_value 10 ds), drop (length ds) s))"

definition read_group :: "string \<Rightarrow> (u16 \<times> string) option" where
  "read_group s =
     (let ds = takeWhile is_hexdigit s
      in if ds = [] \<or> length ds > 4 then None else Some (of_int (digits_value 16 ds), drop (length ds) s))"

fun read_octets :: "nat \<Rightarrow> ipv4 \<Rightarrow> string \<Rightarrow> (ipv4 \<times> string) option" where
  "read_octets 0 v s = Some (v, s)"
| "read_octets (Suc n) v s =
     Option.bind (read_char (CHR ''.'') s) (\<lambda>s. Option.bind (read_octet s) (\<lambda>(b, s). read_octets n (v * 256 + ucast b) s))"

definition read_ipv4 :: "string \<Rightarrow> (ipv4 \<times> string) option" where
  "read_ipv4 s = Option.bind (read_octet s) (\<lambda>(b, s). read_octets 3 (ucast b) s)"

text \<open>\<open>read_groups\<close>: at most \<open>n\<close> groups, the last two of which may be written as an IPv4 address.\<close>

fun read_groups :: "nat \<Rightarrow> bool \<Rightarrow> string \<Rightarrow> u16 list \<times> bool \<times> string" where
  "read_groups 0 first s = ([], False, s)"
| "read_groups (Suc n) first s =
     (let body = (if first then Some s else read_char (CHR '':'') s)
      in case (if n \<ge> 1 then Option.bind body read_ipv4 else None) of
           Some (a, rest) \<Rightarrow> ([ucast (drop_bit 16 a), ucast a], True, rest)
         | None \<Rightarrow>
             (case Option.bind body read_group of
                Some (g, rest) \<Rightarrow> (let (gs, v4, rest) = read_groups n False rest in (g # gs, v4, rest))
              | None \<Rightarrow> ([], False, s)))"

definition ipv6_of_groups :: "u16 list \<Rightarrow> ipv6" where
  "ipv6_of_groups gs = fold (\<lambda>g a. push_bit 16 a + ucast g) gs 0"

definition read_ipv6 :: "string \<Rightarrow> (ipv6 \<times> string) option" where
  "read_ipv6 s =
     (let (head, head_ipv4, rest) = read_groups 8 True s
      in if length head = 8 then Some (ipv6_of_groups head, rest)
         else if head_ipv4 then None
         else
           Option.bind (Option.bind (read_char (CHR '':'') rest) (read_char (CHR '':''))) (\<lambda>rest.
             let (tail, _, rest) = read_groups (8 - (length head + 1)) True rest
             in Some (ipv6_of_groups (head @ replicate (8 - length head - length tail) 0 @ tail), rest)))"

definition ip_from_str :: "string \<Rightarrow> ip_addr option" where
  "ip_from_str s =
     Option.bind (or_else (map_option (map_prod V4 id) (read_ipv4 s)) (map_option (map_prod V6 id) (read_ipv6 s)))
       (\<lambda>(ip, rest). if rest = [] then Some ip else None)"

end
