(* ===== verification/Stat_Cache.thy ===== *)
theory Stat_Cache
  imports Prelude
begin

text \<open>
  The contract that the three caches of local files share (dnsmasq and odhcpd leases, hosts files): what was
  read is kept, the file's change time is looked at again only after an interval, and the file is read
  again when that time has changed. The lemma proved from it says how old the data are that such a cache
  answers with.
\<close>

locale stat_cache =
  fixes refresh :: "'w \<Rightarrow> 'c \<Rightarrow> 'c"
    and now :: "'w \<Rightarrow> instant"
    and mtime :: "'w \<Rightarrow> 'm"
    and read :: "'c \<Rightarrow> 'w \<Rightarrow> 'd option"
    and content :: "'c \<Rightarrow> 'd option"
    and stamp :: "'c \<Rightarrow> 'm"
    and checked :: "'c \<Rightarrow> int"
    and interval :: duration
  assumes interval: "0 < interval"
    and fresh: "content c = Some d \<Longrightarrow> int (now w) - checked c < int interval \<Longrightarrow> refresh w c = c"
    and unchanged: "content c = Some d \<Longrightarrow> int (now w) - checked c \<ge> int interval \<Longrightarrow> stamp c = mtime w \<Longrightarrow>
      content (refresh w c) = Some d \<and> stamp (refresh w c) = mtime w \<and> checked (refresh w c) = int (now w)"
    and changed: "content c = None \<or> (int (now w) - checked c \<ge> int interval \<and> stamp c \<noteq> mtime w) \<Longrightarrow>
      read c w = Some d \<Longrightarrow>
      content (refresh w c) = Some d \<and> stamp (refresh w c) = mtime w \<and> checked (refresh w c) = int (now w)"
    and same_file: "read (refresh w c) = read c"
begin

text \<open>The cache after the refreshes that a sequence of queries makes, each with what it finds outside.\<close>

fun run :: "'c \<Rightarrow> 'w list \<Rightarrow> 'c" where
  "run c [] = c"
| "run c (w # ws) = run (refresh w c) ws"

lemma run_snoc: "run c (ws @ [w]) = refresh w (run c ws)"
  by (induction ws arbitrary: c) simp_all

lemma read_run: "read (run c ws) = read c"
  by (induction ws arbitrary: c) (simp_all add: same_file)

text \<open>What is kept is what the file held when it was last looked at.\<close>

lemma run_current:
  assumes unread: "content c = None \<or> (int (now (hd ws)) - checked c \<ge> int interval \<and>
      (stamp c = mtime (hd ws) \<longrightarrow> content c = read c (hd ws)))"
    and ws: "ws \<noteq> []"
    and readable: "\<forall>w\<in>set ws. read c w \<noteq> None"
    and stamped: "\<forall>v\<in>set ws. \<forall>w\<in>set ws. mtime v = mtime w \<longrightarrow> read c v = read c w"
  shows "\<exists>v\<in>set ws. content (run c ws) = read c v \<and> stamp (run c ws) = mtime v \<and> checked (run c ws) = int (now v) \<and>
    int (now (last ws)) - int (now v) < int interval"
  using unread ws readable stamped
proof (induction ws rule: rev_induct)
  case Nil
  then show ?case by blast
next
  case (snoc w ws)
  obtain d where d: "read c w = Some d" using snoc.prems(3) by auto
  show ?case
  proof (cases "ws = []")
    case True
    then show ?thesis using changed [of c w d] unchanged [of c d w] snoc.prems(1) d interval by (auto simp: True)
  next
    case False
    have sub: "set ws \<subseteq> set (ws @ [w])" by auto
    have "\<exists>v\<in>set ws. content (run c ws) = read c v \<and> stamp (run c ws) = mtime v \<and> checked (run c ws) = int (now v) \<and>
        int (now (last ws)) - int (now v) < int interval"
    proof (rule snoc.IH [OF _ False])
      show "content c = None \<or> (int (now (hd ws)) - checked c \<ge> int interval \<and>
          (stamp c = mtime (hd ws) \<longrightarrow> content c = read c (hd ws)))"
        using snoc.prems(1) False by simp
      show "\<forall>w\<in>set ws. read c w \<noteq> None" using snoc.prems(3) sub by blast
      show "\<forall>v\<in>set ws. \<forall>w\<in>set ws. mtime v = mtime w \<longrightarrow> read c v = read c w" using snoc.prems(4) sub by blast
    qed
    then obtain v where v: "v \<in> set ws" "content (run c ws) = read c v"
        "stamp (run c ws) = mtime v" "checked (run c ws) = int (now v)"
      by blast
    obtain e where e: "read c v = Some e" using v(1) snoc.prems(3) by auto
    show ?thesis
    proof (cases "int (now w) - int (now v) < int interval")
      case True
      then have "refresh w (run c ws) = run c ws" using fresh [of "run c ws" e w] v e by simp
      then show ?thesis using v True by (auto simp: run_snoc)
    next
      case old: False
      have "content (refresh w (run c ws)) = read c w \<and> stamp (refresh w (run c ws)) = mtime w
          \<and> checked (refresh w (run c ws)) = int (now w)"
      proof (cases "mtime v = mtime w")
        case True
        then have "read c v = read c w" by (rule snoc.prems(4) [rule_format, rotated -1]) (use v(1) in simp_all)
        with True show ?thesis using unchanged [of "run c ws" e w] v e old by simp
      next
        case False
        then show ?thesis using changed [of "run c ws" w d] v old d by (simp add: read_run)
      qed
      then show ?thesis using interval by (auto simp: run_snoc)
    qed
  qed
qed

end

end
