(* ===== verification/Leases.thy ===== *)
theory Leases
  imports Rust_Text Stat_Cache Context
begin

text \<open>
  Names of the local network: the lease files of dnsmasq (\<^verbatim>\<open>src/src/dnsmasq.rs\<close>,
  \<^verbatim>\<open>src/src/dns_mw_dnsmasq.rs\<close>) and odhcpd (\<^verbatim>\<open>src/src/dns_mw_odhcpd.rs\<close>).

  The file system, the output of \<open>ip -6 neigh\<close> and the clock are arguments. Names are parsed, joined and
  counted by \<open>hickory_proto\<close> and dates made by \<open>chrono\<close>: they are the record \<open>lease_lib\<close>. A hash map keyed by
  names is an association list searched with the package's equality.
\<close>

section \<open>The packages\<close>

record lease_lib =
  ll_names :: name_lib
  ll_from_str :: "string \<Rightarrow> name option"
  ll_append_name :: "name \<Rightarrow> name \<Rightarrow> name option"
  ll_append_domain :: "name \<Rightarrow> name \<Rightarrow> name option"
  ll_num_labels :: "name \<Rightarrow> nat"
  ll_parse_arpa :: "name \<Rightarrow> (ip_addr \<times> u8) option"
  ll_from_timestamp :: "int \<Rightarrow> int option"

definition set_fqdn :: "bool \<Rightarrow> name \<Rightarrow> name" where
  "set_fqdn b n = n\<lparr>nm_fqdn := b\<rparr>"

text \<open>\<open>HashMap::insert\<close> and \<open>get\<close> for keys compared by \<open>eq\<close>; the key that is there stays.\<close>

fun eq_insert :: "('k \<Rightarrow> 'k \<Rightarrow> bool) \<Rightarrow> 'k \<Rightarrow> 'v \<Rightarrow> ('k \<times> 'v) list \<Rightarrow> ('k \<times> 'v) list" where
  "eq_insert eq k v [] = [(k, v)]"
| "eq_insert eq k v ((k', v') # m) = (if eq k' k then (k', v) # m else (k', v') # eq_insert eq k v m)"

definition eq_get :: "('k \<Rightarrow> 'k \<Rightarrow> bool) \<Rightarrow> ('k \<times> 'v) list \<Rightarrow> 'k \<Rightarrow> 'v option" where
  "eq_get eq m k = map_option snd (find (\<lambda>(k', _). eq k' k) m)"

section \<open>Leases of dnsmasq\<close>

record client_info =
  ci_id :: string
  ci_ip :: ip_addr
  ci_host :: name
  ci_mac :: string
  ci_expires_at :: int

text \<open>\<open>next()\<close> on the parts of a line is the case on the list.\<close>

definition client_expires :: "lease_lib \<Rightarrow> int \<Rightarrow> string option \<Rightarrow> int" where
  "client_expires LL now part =
     unwrap_or (Option.bind (Option.bind part i64_from_str) (ll_from_timestamp LL)) now"

definition client_from_str :: "lease_lib \<Rightarrow> int \<Rightarrow> string \<Rightarrow> client_info option" where
  "client_from_str LL now s =
     (let s = trim s
      in if s = [] \<or> hd s = CHR ''#'' then None
         else
           case filter (\<lambda>p. p \<noteq> []) (split_on (\<lambda>c. c = CHR '' '') s) of
             time # mac # ip # host # cid # _ \<Rightarrow>
               (case (ip_from_str ip, ll_from_str LL host) of
                  (Some ip, Some host) \<Rightarrow>
                    (if nl_display (ll_names LL) host = [] then None
                     else Some \<lparr>ci_id = cid, ci_ip = ip, ci_host = host, ci_mac = mac,
                                ci_expires_at = client_expires LL now (Some time)\<rparr>)
                | _ \<Rightarrow> None)
           | _ \<Rightarrow> None)"

record lease_data =
  ld_name :: "(wildcard_name \<times> client_info) list"
  ld_ip :: "(ip_addr, client_info) hmap"
  ld_mac :: "(string, client_info) hmap"

definition qualify :: "lease_lib \<Rightarrow> name option \<Rightarrow> client_info \<Rightarrow> client_info" where
  "qualify LL zone c =
     c\<lparr>ci_host := set_fqdn True
         (case zone of None \<Rightarrow> ci_host c | Some z \<Rightarrow> unwrap_or (ll_append_name LL (ci_host c) z) (ci_host c))\<rparr>"

text \<open>A line of the file; \<open>None\<close> is one that cannot be read.\<close>

definition lease_line :: "lease_lib \<Rightarrow> int \<Rightarrow> name option \<Rightarrow> string option \<Rightarrow> client_info option" where
  "lease_line LL now zone l =
     (case l of
        None \<Rightarrow> None
      | Some l \<Rightarrow>
          (let l = trim_start l
           in if l = [] \<or> hd l = CHR ''#'' then None
              else map_option (qualify LL zone) (client_from_str LL now l)))"

definition lease_add :: "lease_lib \<Rightarrow> client_info \<Rightarrow> lease_data \<Rightarrow> lease_data" where
  "lease_add LL c d =
     d\<lparr>ld_name := eq_insert (wn_eq (ll_names LL)) (wn_of_name (ll_names LL) (ci_host c)) c (ld_name d),
       ld_ip := AList.update (ci_ip c) c (ld_ip d),
       ld_mac := AList.update (to_lowercase (ci_mac c)) c (ld_mac d)\<rparr>"

definition read_lease_file ::
  "lease_lib \<Rightarrow> int \<Rightarrow> name option \<Rightarrow> string option list option \<Rightarrow> lease_data option" where
  "read_lease_file LL now zone file =
     map_option (\<lambda>ls. fold (lease_add LL) (List.map_filter (lease_line LL now zone) ls)
         \<lparr>ld_name = [], ld_ip = [], ld_mac = []\<rparr>) file"

section \<open>Neighbours\<close>

record neighbor_store =
  nb_cache :: "(ip_addr, string) hmap"
  nb_checked_at :: instant

definition neighbor_new :: "instant \<Rightarrow> neighbor_store" where
  "neighbor_new now = \<lparr>nb_cache = [], nb_checked_at = now\<rparr>"

definition is_valid_mac :: "string \<Rightarrow> bool" where
  "is_valid_mac mac =
     (let parts = split_on (\<lambda>c. c = CHR '':'') mac
      in if length parts \<noteq> 6 then False
         else list_all (\<lambda>p. length p = 2 \<and> list_all is_hexdigit p) parts)"

definition position :: "('a \<Rightarrow> bool) \<Rightarrow> 'a list \<Rightarrow> nat option" where
  "position p xs = (if list_ex p xs then Some (length (takeWhile (\<lambda>x. \<not> p x) xs)) else None)"

definition parse_neigh_line :: "string \<Rightarrow> (ip_addr \<times> string) option" where
  "parse_neigh_line l =
     (let parts = split_whitespace l
      in if length parts < 3 then None
         else
           Option.bind (position (\<lambda>p. p = ''lladdr'') parts) (\<lambda>idx.
           Option.bind (if idx + 1 < length parts then Some (parts ! (idx + 1)) else None) (\<lambda>mac.
           if \<not> is_valid_mac mac then None
           else
             Option.bind (ip_from_str (hd (split_on (\<lambda>c. c = CHR ''%'') (parts ! 0)))) (\<lambda>ip.
             case ip of V4 _ \<Rightarrow> None | V6 _ \<Rightarrow> Some (ip, to_lowercase mac)))))"

text \<open>\<open>output\<close> is what \<open>ip -6 neigh\<close> wrote when it ran and succeeded; otherwise the table stays.\<close>

definition neighbor_refresh :: "instant \<Rightarrow> string option \<Rightarrow> neighbor_store \<Rightarrow> neighbor_store" where
  "neighbor_refresh now output st =
     (case output of
        None \<Rightarrow> st
      | Some stdout \<Rightarrow>
          \<lparr>nb_cache = fold (\<lambda>(ip, mac). AList.update ip mac) (List.map_filter parse_neigh_line (lines stdout)) [],
           nb_checked_at = now\<rparr>)"

definition IPV6_NEIGHBOR_CACHE_REFRESH :: duration where
  "IPV6_NEIGHBOR_CACHE_REFRESH = secs 2"

definition neighbor_lookup :: "instant \<Rightarrow> string option \<Rightarrow> ip_addr \<Rightarrow> neighbor_store \<Rightarrow> string option \<times> neighbor_store" where
  "neighbor_lookup now output ip st =
     (case ip of
        V4 _ \<Rightarrow> (None, st)
      | V6 _ \<Rightarrow>
          (let st = (if now - nb_checked_at st > IPV6_NEIGHBOR_CACHE_REFRESH then neighbor_refresh now output st else st)
           in (map_of (nb_cache st) ip, st)))"

section \<open>LanClientStore\<close>

record lease_cache =
  lc_clients :: "client_info domain_map"
  lc_ip_clients :: "(ip_addr, client_info) hmap"
  lc_mac_clients :: "(string, client_info) hmap"
  lc_modified_at :: "nat option"
  lc_checked_at :: instant

record lan_store =
  lan_zone :: "name option"
  lan_cache :: "lease_cache option"
  lan_neighbors :: "neighbor_store option"

definition LEASE_FILE_STAT_INTERVAL :: duration where
  "LEASE_FILE_STAT_INTERVAL = secs 2"

definition lan_new :: "instant \<Rightarrow> name option \<Rightarrow> lan_store" where
  "lan_new now zone = \<lparr>lan_zone = zone, lan_cache = None, lan_neighbors = Some (neighbor_new now)\<rparr>"

text \<open>What a lookup finds outside: the clocks, the lease file with the time it was changed, and the output
  of \<open>ip -6 neigh\<close>.\<close>

record lan_world =
  lw_now :: instant
  lw_local :: int
  lw_modified :: "nat option"
  lw_file :: "string option list option"
  lw_neigh :: "string option"

definition refresh_neighbor_cache :: "lan_world \<Rightarrow> lan_store \<Rightarrow> lan_store" where
  "refresh_neighbor_cache W st =
     st\<lparr>lan_neighbors := map_option (neighbor_refresh (lw_now W) (lw_neigh W)) (lan_neighbors st)\<rparr>"

definition lease_cache_of :: "lease_lib \<Rightarrow> lan_world \<Rightarrow> lease_data \<Rightarrow> lease_cache" where
  "lease_cache_of LL W d =
     \<lparr>lc_clients = dm_from_iter (ll_names LL) (ld_name d), lc_ip_clients = ld_ip d, lc_mac_clients = ld_mac d,
      lc_modified_at = lw_modified W, lc_checked_at = lw_now W\<rparr>"

text \<open>The second look at the cache is under the write lock: another query may have refreshed it meanwhile.\<close>

definition get_cached_clients :: "lease_lib \<Rightarrow> lan_world \<Rightarrow> lan_store \<Rightarrow> client_info domain_map option \<times> lan_store" where
  "get_cached_clients LL W st =
     (case opt_filter (\<lambda>c. lw_now W - lc_checked_at c < LEASE_FILE_STAT_INTERVAL) (lan_cache st) of
        Some c \<Rightarrow> (Some (lc_clients c), st)
      | None \<Rightarrow>
          (case opt_filter (\<lambda>c. lc_modified_at c = lw_modified W) (lan_cache st) of
             Some c \<Rightarrow> (Some (lc_clients c), st\<lparr>lan_cache := Some (c\<lparr>lc_checked_at := lw_now W\<rparr>)\<rparr>)
           | None \<Rightarrow>
               (case read_lease_file LL (lw_local W) (lan_zone st) (lw_file W) of
                  Some d \<Rightarrow>
                    (let c = lease_cache_of LL W d
                     in (Some (lc_clients c), refresh_neighbor_cache W (st\<lparr>lan_cache := Some c\<rparr>)))
                | None \<Rightarrow>
                    (case lan_cache st of
                       Some c \<Rightarrow> (Some (lc_clients c), st\<lparr>lan_cache := Some (c\<lparr>lc_checked_at := lw_now W\<rparr>)\<rparr>)
                     | None \<Rightarrow> (None, st)))))"

definition full_name :: "lease_lib \<Rightarrow> name option \<Rightarrow> name \<Rightarrow> name" where
  "full_name LL zone n =
     (if nm_fqdn n then n
      else set_fqdn True (case zone of None \<Rightarrow> n | Some z \<Rightarrow> unwrap_or (ll_append_name LL n z) n))"

definition find_client ::
  "lease_lib \<Rightarrow> name option \<Rightarrow> client_info domain_map \<Rightarrow> name \<Rightarrow> client_info option" where
  "find_client LL zone store n =
     or_else (dm_find (ll_names LL) store n)
       (case zone of
          Some z \<Rightarrow>
            (if \<not> nl_zone_of (ll_names LL) z n
             then Option.bind (ll_append_domain LL n z) (dm_find (ll_names LL) store) else None)
        | None \<Rightarrow> None)"

definition lan_lookup :: "lease_lib \<Rightarrow> lan_world \<Rightarrow> name \<Rightarrow> record_type \<Rightarrow> lan_store \<Rightarrow> rdata option \<times> lan_store" where
  "lan_lookup LL W n rtype st =
     (case get_cached_clients LL W st of
        (None, st') \<Rightarrow> (None, st')
      | (Some store, st') \<Rightarrow>
          (Option.bind (find_client LL (lan_zone st) store (full_name LL (lan_zone st) n)) (\<lambda>c.
             case ci_ip c of
               V4 v \<Rightarrow> if rtype = RT_A then Some (RD_A v) else None
             | V6 v \<Rightarrow> if rtype = RT_AAAA then Some (RD_AAAA v) else None), st'))"

text \<open>Names printed as \<open>*\<close> stand for a client that has none.\<close>

definition host_ptr :: "lease_lib \<Rightarrow> client_info option \<Rightarrow> rdata option" where
  "host_ptr LL c =
     Option.bind c (\<lambda>c. if nl_display (ll_names LL) (ci_host c) \<noteq> ascii ''*'' then Some (RD_PTR (ci_host c)) else None)"

definition reverse_lookup :: "lease_lib \<Rightarrow> lan_world \<Rightarrow> ip_addr \<Rightarrow> lan_store \<Rightarrow> rdata option \<times> lan_store" where
  "reverse_lookup LL W ip st =
     (case lan_cache st of
        None \<Rightarrow> (None, st)
      | Some lc \<Rightarrow>
          (case host_ptr LL (map_of (lc_ip_clients lc) ip) of
             Some r \<Rightarrow> (Some r, st)
           | None \<Rightarrow>
               (case lan_neighbors st of
                  None \<Rightarrow> (None, st)
                | Some nb \<Rightarrow>
                    (case neighbor_lookup (lw_now W) (lw_neigh W) ip nb of
                       (mac, nb) \<Rightarrow>
                         (Option.bind mac (\<lambda>mac. host_ptr LL (map_of (lc_mac_clients lc) mac)),
                          st\<lparr>lan_neighbors := Some nb\<rparr>)))))"

definition reverse_lookup_by_mac :: "lease_lib \<Rightarrow> string \<Rightarrow> lan_store \<Rightarrow> rdata option" where
  "reverse_lookup_by_mac LL mac st =
     Option.bind (lan_cache st) (\<lambda>lc. host_ptr LL (map_of (lc_mac_clients lc) (to_lowercase mac)))"

definition ptr_to_ip :: "lease_lib \<Rightarrow> name \<Rightarrow> ip_addr option" where
  "ptr_to_ip LL n = map_option fst (ll_parse_arpa LL n)"

section \<open>The dnsmasq middleware\<close>

text \<open>An answer for \<open>local_ttl\<close> seconds.\<close>

definition local_answer :: "instant \<Rightarrow> dns_context \<Rightarrow> dns_request \<Rightarrow> rdata \<Rightarrow> dns_response" where
  "local_answer now ctx req d =
     (let ttl = local_ttl (cx_cfg ctx);
          query = rq_query req
      in new_with_deadline query [from_rdata (q_name query) (ucast ttl) d] (now + secs (unat ttl)))"

definition dnsmasq_ptr ::
  "lease_lib \<Rightarrow> lan_world \<Rightarrow> dns_request \<Rightarrow> lan_store \<Rightarrow> rdata option \<times> lan_store" where
  "dnsmasq_ptr LL W req st =
     (if q_type (rq_query req) = RT_PTR
      then (case ptr_to_ip LL (q_name (rq_query req)) of
              Some ip \<Rightarrow> reverse_lookup LL W ip st
            | None \<Rightarrow> (None, st))
      else (None, st))"

definition dnsmasq_handle :: "lease_lib \<Rightarrow> lan_world \<Rightarrow> (lan_store \<times> 't) middleware" where
  "dnsmasq_handle LL W ctx req nxt st =
     (case dnsmasq_ptr LL W req (fst st) of
        (Some d, lan) \<Rightarrow> (Inr (local_answer (lw_now W) ctx req d), ctx\<lparr>cx_source := FromStatic\<rparr>, (lan, snd st))
      | (None, lan) \<Rightarrow>
          (case lan_lookup LL W (q_name (rq_query req)) (q_type (rq_query req)) lan of
             (Some d, lan) \<Rightarrow> (Inr (local_answer (lw_now W) ctx req d), ctx\<lparr>cx_source := FromStatic\<rparr>, (lan, snd st))
           | (None, lan) \<Rightarrow> nxt ctx req (lan, snd st)))"

section \<open>Leases of odhcpd\<close>

record lease_records =
  lr_forward :: "(name \<times> ip_addr list) list"
  lr_reverse :: "(ip_addr, name) hmap"

definition records_default :: lease_records where
  "records_default = \<lparr>lr_forward = [], lr_reverse = []\<rparr>"

definition push_new :: "'a \<Rightarrow> 'a list \<Rightarrow> 'a list" where
  "push_new x xs = (if x \<in> set xs then xs else xs @ [x])"

definition forward_add :: "name_lib \<Rightarrow> ip_addr \<Rightarrow> name \<Rightarrow> (name \<times> ip_addr list) list \<Rightarrow> (name \<times> ip_addr list) list" where
  "forward_add L ip alias m = eq_insert (nl_eq L) alias (push_new ip (unwrap_or (eq_get (nl_eq L) m alias) [])) m"

definition records_add :: "lease_lib \<Rightarrow> string \<Rightarrow> ip_addr \<Rightarrow> name option \<Rightarrow> lease_records \<Rightarrow> lease_records" where
  "records_add LL host ip zone r =
     (if host = ''*'' \<or> host = ''-'' \<or> host = ''0'' then r
      else
        case ll_from_str LL host of
          None \<Rightarrow> r
        | Some n \<Rightarrow>
            (let n = set_fqdn True n;
                 canonical =
                   (if ll_num_labels LL n = 1
                    then unwrap_or (Option.bind zone (ll_append_domain LL n)) n else n)
             in \<lparr>lr_forward = forward_add (ll_names LL) ip canonical (forward_add (ll_names LL) ip n (lr_forward r)),
                 lr_reverse = (if map_of (lr_reverse r) ip = None then AList.update ip canonical (lr_reverse r)
                               else lr_reverse r)\<rparr>))"

text \<open>A line is a comment, a line of metadata (\<open>True\<close>) or a line of hosts.\<close>

definition odhcpd_kind :: "string \<Rightarrow> (bool \<times> string) option" where
  "odhcpd_kind l =
     (case strip_prefix ''#'' l of
        Some rest \<Rightarrow> (if rest \<noteq> [] \<and> is_whitespace (hd rest) then Some (True, trim_start rest) else None)
      | None \<Rightarrow> Some (False, l))"

definition odhcpd_line :: "lease_lib \<Rightarrow> name option \<Rightarrow> string \<Rightarrow> lease_records \<Rightarrow> lease_records" where
  "odhcpd_line LL zone l r =
     (case odhcpd_kind (trim l) of
        None \<Rightarrow> r
      | Some (metadata, l) \<Rightarrow>
          (let parts = split_whitespace l
           in if parts = [] then r
              else
                case (if metadata then None else ip_from_str (parts ! 0)) of
                  Some ip \<Rightarrow>
                    fold (\<lambda>host. records_add LL host ip zone)
                      (takeWhile (\<lambda>host. host = [] \<or> hd host \<noteq> CHR ''#'') (drop 1 parts)) r
                | None \<Rightarrow>
                    (if length parts \<ge> 8
                     then fold (\<lambda>token r.
                            case ip_from_str (hd (split_on (\<lambda>c. c = CHR ''/'') token)) of
                              Some ip \<Rightarrow> records_add LL (parts ! 3) ip zone r
                            | None \<Rightarrow> r) (drop 7 parts) r
                     else r)))"

definition odhcpd_parse :: "lease_lib \<Rightarrow> string \<Rightarrow> name option \<Rightarrow> lease_records" where
  "odhcpd_parse LL txt zone = fold (odhcpd_line LL zone) (lines txt) records_default"

section \<open>The odhcpd middleware\<close>

record odhcpd =
  od_zone :: "name option"
  od_checked :: int
  od_modified :: "nat option"
  od_records :: lease_records

datatype file_read = FileText string | FileNotFound | FileError

text \<open>\<open>Instant::now() - 3 s\<close> may lie before the origin of the clock.\<close>

definition odhcpd_new :: "instant \<Rightarrow> name option \<Rightarrow> odhcpd" where
  "odhcpd_new now zone =
     \<lparr>od_zone = zone, od_checked = int now - int (secs 3), od_modified = None, od_records = records_default\<rparr>"

definition odhcpd_refresh :: "lease_lib \<Rightarrow> instant \<Rightarrow> nat option \<Rightarrow> file_read \<Rightarrow> odhcpd \<Rightarrow> odhcpd" where
  "odhcpd_refresh LL now modified file o' =
     (if int now - od_checked o' \<ge> int (secs 2)
      then
        let o' = o'\<lparr>od_checked := int now\<rparr>
        in if modified \<noteq> od_modified o'
           then (case file of
                   FileText txt \<Rightarrow> o'\<lparr>od_records := odhcpd_parse LL txt (od_zone o'), od_modified := modified\<rparr>
                 | FileNotFound \<Rightarrow> o'\<lparr>od_records := records_default, od_modified := None\<rparr>
                 | FileError \<Rightarrow> o')
           else o'
      else o')"

definition odhcpd_records :: "lease_lib \<Rightarrow> lease_records \<Rightarrow> name \<Rightarrow> record_type \<Rightarrow> rdata list" where
  "odhcpd_records LL r n qtype =
     (if qtype = RT_PTR
      then (case Option.bind (ptr_to_ip LL n) (map_of (lr_reverse r)) of Some host \<Rightarrow> [RD_PTR host] | None \<Rightarrow> [])
      else
        map rdata_of_ip
          (filter (\<lambda>ip. case ip of V4 _ \<Rightarrow> qtype = RT_A | V6 _ \<Rightarrow> qtype = RT_AAAA)
            (unwrap_or (eq_get (nl_eq (ll_names LL)) (lr_forward r) n) [])))"

definition odhcpd_lookup ::
  "lease_lib \<Rightarrow> instant \<Rightarrow> nat option \<Rightarrow> file_read \<Rightarrow> name \<Rightarrow> record_type \<Rightarrow> odhcpd \<Rightarrow> rdata list \<times> odhcpd" where
  "odhcpd_lookup LL now modified file n qtype o' =
     (let o' = odhcpd_refresh LL now modified file o' in (odhcpd_records LL (od_records o') n qtype, o'))"

definition odhcpd_handle :: "lease_lib \<Rightarrow> instant \<Rightarrow> nat option \<Rightarrow> file_read \<Rightarrow> (odhcpd \<times> 't) middleware" where
  "odhcpd_handle LL now modified file ctx req nxt st =
     (let query = rq_query req;
          (data, o') = odhcpd_lookup LL now modified file (q_name query) (q_type query) (fst st)
      in if data = [] then nxt ctx req (o', snd st)
         else
           (Inr (new_with_max_ttl now query (map (from_rdata (q_name query) (ucast (local_ttl (cx_cfg ctx)))) data)),
            ctx\<lparr>cx_source := FromStatic\<rparr>, (o', snd st)))"

end
