(* ===== verification/Leases_Laws.thy ===== *)
theory Leases_Laws
  imports Leases Domain_Map_Laws
begin

text \<open>
  What the lease stores answer: how old the data are, which lease a name is answered from, and that the
  names odhcpd gives back for an address lead to that address. Two theorems show what becomes of a client
  without a name.
\<close>

section \<open>The age of the data\<close>

definition lease_tables :: "lease_lib \<Rightarrow> lease_data \<Rightarrow> client_info domain_map \<times> (ip_addr, client_info) hmap \<times> (string, client_info) hmap" where
  "lease_tables LL d = (dm_from_iter (ll_names LL) (ld_name d), ld_ip d, ld_mac d)"

definition lan_read :: "lease_lib \<Rightarrow> lan_store \<Rightarrow> lan_world \<Rightarrow>
    (client_info domain_map \<times> (ip_addr, client_info) hmap \<times> (string, client_info) hmap) option" where
  "lan_read LL st W = map_option (lease_tables LL) (read_lease_file LL (lw_local W) (lan_zone st) (lw_file W))"

definition lan_content :: "lan_store \<Rightarrow>
    (client_info domain_map \<times> (ip_addr, client_info) hmap \<times> (string, client_info) hmap) option" where
  "lan_content st = map_option (\<lambda>c. (lc_clients c, lc_ip_clients c, lc_mac_clients c)) (lan_cache st)"

definition lan_stamp :: "lan_store \<Rightarrow> nat option" where
  "lan_stamp st = Option.bind (lan_cache st) lc_modified_at"

definition lan_checked :: "lan_store \<Rightarrow> int" where
  "lan_checked st = (case lan_cache st of Some c \<Rightarrow> int (lc_checked_at c) | None \<Rightarrow> 0)"

lemmas lan_defs = lan_read_def lan_content_def lan_stamp_def lan_checked_def lease_tables_def get_cached_clients_def
  refresh_neighbor_cache_def lease_cache_of_def Let_def

lemma interval_pos: "0 < LEASE_FILE_STAT_INTERVAL"
  by (simp add: LEASE_FILE_STAT_INTERVAL_def secs_def)

lemma nat_interval: "(a :: nat) - b < i \<longleftrightarrow> int a - int b < int i" if "0 < i"
  using that by linarith

interpretation lan: stat_cache "\<lambda>W st. snd (get_cached_clients LL W st)" lw_now lw_modified "lan_read LL" lan_content
  lan_stamp lan_checked LEASE_FILE_STAT_INTERVAL for LL
proof unfold_locales
  show "0 < LEASE_FILE_STAT_INTERVAL" by (rule interval_pos)
next
  fix st :: lan_store and d and W :: lan_world
  assume "lan_content st = Some d" "int (lw_now W) - lan_checked st < int LEASE_FILE_STAT_INTERVAL"
  then show "snd (get_cached_clients LL W st) = st"
    by (cases "lan_cache st") (simp_all add: lan_defs nat_interval [OF interval_pos])
next
  fix st :: lan_store and d and W :: lan_world
  assume "lan_content st = Some d" "int (lw_now W) - lan_checked st \<ge> int LEASE_FILE_STAT_INTERVAL" "lan_stamp st = lw_modified W"
  then show "lan_content (snd (get_cached_clients LL W st)) = Some d \<and> lan_stamp (snd (get_cached_clients LL W st)) = lw_modified W
      \<and> lan_checked (snd (get_cached_clients LL W st)) = int (lw_now W)"
    by (cases "lan_cache st") (simp_all add: lan_defs nat_interval [OF interval_pos])
next
  fix st :: lan_store and W :: lan_world and d
  assume "lan_content st = None \<or> int (lw_now W) - lan_checked st \<ge> int LEASE_FILE_STAT_INTERVAL \<and> lan_stamp st \<noteq> lw_modified W"
    "lan_read LL st W = Some d"
  then show "lan_content (snd (get_cached_clients LL W st)) = Some d \<and> lan_stamp (snd (get_cached_clients LL W st)) = lw_modified W
      \<and> lan_checked (snd (get_cached_clients LL W st)) = int (lw_now W)"
    by (cases "lan_cache st") (auto simp: lan_defs nat_interval [OF interval_pos])
next
  fix W :: lan_world and st :: lan_store
  have "lan_zone (snd (get_cached_clients LL W st)) = lan_zone st"
    by (simp add: get_cached_clients_def refresh_neighbor_cache_def Let_def split: option.split)
  then show "lan_read LL (snd (get_cached_clients LL W st)) = lan_read LL st"
    by (intro ext) (simp add: lan_read_def)
qed

text \<open>The cache of odhcpd is never without records; the file that is not there has none.\<close>

record od_world =
  ow_now :: instant
  ow_modified :: "nat option"
  ow_file :: file_read

definition od_read :: "lease_lib \<Rightarrow> odhcpd \<Rightarrow> od_world \<Rightarrow> lease_records option" where
  "od_read LL st W =
     (case ow_file W of
        FileText txt \<Rightarrow> Some (odhcpd_parse LL txt (od_zone st))
      | FileNotFound \<Rightarrow> if ow_modified W = None then Some records_default else None
      | FileError \<Rightarrow> None)"

interpretation od: stat_cache "\<lambda>W. odhcpd_refresh LL (ow_now W) (ow_modified W) (ow_file W)" ow_now ow_modified "od_read LL"
  "\<lambda>st. Some (od_records st)" od_modified od_checked "secs 2" for LL
proof unfold_locales
  fix st :: odhcpd and W :: od_world
  show "od_read LL (odhcpd_refresh LL (ow_now W) (ow_modified W) (ow_file W) st) = od_read LL st"
    by (intro ext) (simp add: od_read_def odhcpd_refresh_def Let_def split: file_read.split)
qed (auto simp: secs_def odhcpd_refresh_def od_read_def Let_def split: file_read.splits if_splits)

text \<open>The lookups of a store, one after the other, each with what it finds outside.\<close>

definition lan_after :: "lease_lib \<Rightarrow> (lan_world \<times> name \<times> record_type) list \<Rightarrow> lan_store \<Rightarrow> lan_store" where
  "lan_after LL qs st = fold (\<lambda>(W, n, t) st. snd (lan_lookup LL W n t st)) qs st"

lemma lan_lookup_state: "snd (lan_lookup LL W n t st) = snd (get_cached_clients LL W st)"
  by (cases "get_cached_clients LL W st") (auto simp: lan_lookup_def split: option.split)

lemma lan_after_run: "lan_after LL qs st = lan.run LL st (map fst qs)"
  unfolding lan_after_def by (induction qs arbitrary: st) (auto simp: lan_lookup_state)

text \<open>
  C26: The leases are current. After any sequence of lookups in a new store, if the lease file could be read each
  time and its change time tells its contents apart, the store holds the tables of the file as it was at one
  of these lookups, less than two seconds before the last one.
\<close>

theorem lease_data_current:
  assumes "qs \<noteq> []"
    and "\<forall>q\<in>set qs. lan_read LL (lan_new t0 zone) (fst q) \<noteq> None"
    and "\<forall>q\<in>set qs. \<forall>q'\<in>set qs. lw_modified (fst q) = lw_modified (fst q') \<longrightarrow>
      lan_read LL (lan_new t0 zone) (fst q) = lan_read LL (lan_new t0 zone) (fst q')"
  shows "\<exists>q\<in>set qs. lan_content (lan_after LL qs (lan_new t0 zone)) = lan_read LL (lan_new t0 zone) (fst q) \<and>
    int (lw_now (fst (last qs))) - int (lw_now (fst q)) < int (secs 2)"
proof -
  have "lan_content (lan_new t0 zone) = None" by (simp add: lan_content_def lan_new_def)
  moreover have "map fst qs \<noteq> []" using assms(1) by simp
  moreover have "\<forall>W\<in>set (map fst qs). lan_read LL (lan_new t0 zone) W \<noteq> None" using assms(2) by auto
  moreover have "\<forall>V\<in>set (map fst qs). \<forall>W\<in>set (map fst qs). lw_modified V = lw_modified W \<longrightarrow>
      lan_read LL (lan_new t0 zone) V = lan_read LL (lan_new t0 zone) W"
    using assms(3) by (simp only: set_map ball_simps)
  ultimately obtain W where W: "W \<in> set (map fst qs)"
      "lan_content (lan.run LL (lan_new t0 zone) (map fst qs)) = lan_read LL (lan_new t0 zone) W"
      "int (lw_now (last (map fst qs))) - int (lw_now W) < int LEASE_FILE_STAT_INTERVAL"
    using lan.run_current [of "lan_new t0 zone" "map fst qs" LL] by blast
  then show ?thesis
    using assms(1) by (auto simp: lan_after_run LEASE_FILE_STAT_INTERVAL_def last_map)
qed

section \<open>Which lease answers\<close>

text \<open>The lease for a name: it matches, no matching lease has a more specific host, and it is the last line of the
  file for its host.\<close>

definition lease_key :: "lease_lib \<Rightarrow> client_info \<Rightarrow> wildcard_name" where
  "lease_key LL c = wn_of_name (ll_names LL) (ci_host c)"

definition best_lease :: "lease_lib \<Rightarrow> client_info list \<Rightarrow> name \<Rightarrow> client_info \<Rightarrow> bool" where
  "best_lease LL cs n c \<longleftrightarrow>
     wn_is_match (ll_names LL) (lease_key LL c) n \<and>
     (\<forall>c'\<in>set cs. wn_is_match (ll_names LL) (lease_key LL c') n \<longrightarrow> rank (lease_key LL c') \<le> rank (lease_key LL c)) \<and>
     (\<exists>as bs. cs = as @ c # bs \<and> (\<forall>c'\<in>set bs. \<not> wn_eq (ll_names LL) (lease_key LL c') (lease_key LL c)))"

definition names_hold :: "lease_lib \<Rightarrow> client_info list \<Rightarrow> (wildcard_name \<times> client_info) list \<Rightarrow> bool" where
  "names_hold LL cs m \<longleftrightarrow>
     sorted_wrt (\<lambda>p q. \<not> wn_eq (ll_names LL) (fst p) (fst q)) m \<and>
     (\<forall>(w, c)\<in>set m. wn_eq (ll_names LL) w (lease_key LL c) \<and>
        (\<exists>as bs. cs = as @ c # bs \<and> (\<forall>c'\<in>set bs. \<not> wn_eq (ll_names LL) w (lease_key LL c')))) \<and>
     (\<forall>c\<in>set cs. \<exists>(w, v)\<in>set m. wn_eq (ll_names LL) w (lease_key LL c))"

lemma eq_insert_cases:
  obtains (new) "\<forall>p\<in>set m. \<not> eq (fst p) k" "eq_insert eq k v m = m @ [(k, v)]"
  | (old) xs k' v' ys where "m = xs @ (k', v') # ys" "\<forall>p\<in>set xs. \<not> eq (fst p) k" "eq k' k"
      "eq_insert eq k v m = xs @ (k', v) # ys"
proof -
  have "((\<forall>p\<in>set m. \<not> eq (fst p) k) \<and> eq_insert eq k v m = m @ [(k, v)]) \<or>
    (\<exists>xs k' v' ys. m = xs @ (k', v') # ys \<and> (\<forall>p\<in>set xs. \<not> eq (fst p) k) \<and> eq k' k \<and>
       eq_insert eq k v m = xs @ (k', v) # ys)"
  proof (induction m)
    case (Cons p m)
    obtain k0 v0 where p: "p = (k0, v0)" by (cases p)
    show ?case
    proof (cases "eq k0 k")
      case True
      then show ?thesis by (intro disjI2 exI [of _ "[]"]) (simp add: p)
    next
      case False
      from Cons.IH show ?thesis
      proof (elim disjE exE conjE)
        fix xs k' v' ys
        assume "m = xs @ (k', v') # ys" "\<forall>p\<in>set xs. \<not> eq (fst p) k" "eq k' k" "eq_insert eq k v m = xs @ (k', v) # ys"
        then show ?thesis using False
          by (intro disjI2 exI [of _ "p # xs"] exI [of _ k'] exI [of _ v'] exI [of _ ys]) (simp add: p)
      qed (simp add: p False)
    qed
  qed simp
  then show ?thesis using new old by blast
qed

context name_library begin

lemma wn_eq_refl: "wn_eq L w w"
  by (cases w) (simp_all add: eq_refl)

lemma wn_eq_sym: "wn_eq L a b \<Longrightarrow> wn_eq L b a"
  by (cases a; cases b) (auto intro: eq_sym)

lemma wn_eq_trans: "wn_eq L a b \<Longrightarrow> wn_eq L b c \<Longrightarrow> wn_eq L a c"
  by (cases a; cases b; cases c) (auto intro: eq_trans)

lemma wn_eq_match: "wn_eq L a b \<Longrightarrow> wn_is_match L a n = wn_is_match L b n"
proof -
  have "low_labels (wn_name a) = low_labels (wn_name b)" if "wn_eq L a b"
    using that by (cases a; cases b) (auto intro: eq_labels)
  then show "wn_eq L a b \<Longrightarrow> ?thesis"
    by (cases a; cases b) (simp_all add: zone_of eq_ignore_root_case)
qed

lemma wn_eq_rank: "wn_eq L a b \<Longrightarrow> rank a = rank b"
proof -
  have len: "nl_eq L x y \<Longrightarrow> length (nm_labels x) = length (nm_labels y)" for x y
    by (metis eq_labels length_low_labels)
  show "wn_eq L a b \<Longrightarrow> rank a = rank b"
    by (cases a; cases b) (auto simp: rank_def dest: len)
qed

end

text \<open>Adding a lease keeps the table of names one of the leases so far.\<close>

lemma names_hold_add:
  assumes lib: "name_library (ll_names LL)" and m: "names_hold LL cs m"
  shows "names_hold LL (cs @ [c]) (eq_insert (wn_eq (ll_names LL)) (lease_key LL c) c m)"
proof -
  let ?eq = "wn_eq (ll_names LL)"
  note sym = name_library.wn_eq_sym [OF lib] and trans = name_library.wn_eq_trans [OF lib]
  have keep: "\<exists>as bs. cs @ [c] = as @ v # bs \<and> (\<forall>c'\<in>set bs. \<not> ?eq w (lease_key LL c'))"
    if wv: "(w, v) \<in> set m" "\<not> ?eq w (lease_key LL c)" for w v
  proof -
    obtain as bs where "cs = as @ v # bs" "\<forall>c'\<in>set bs. \<not> ?eq w (lease_key LL c')"
      using m wv(1) by (force simp: names_hold_def)
    then show ?thesis using wv(2) by (intro exI [of _ as] exI [of _ "bs @ [c]"]) simp
  qed
  have here: "\<exists>as bs. cs @ [c] = as @ c # bs \<and> (\<forall>c'\<in>set bs. \<not> ?eq w (lease_key LL c'))" for w
    by (intro exI [of _ cs] exI [of _ "[]"]) simp
  show ?thesis
  proof (cases rule: eq_insert_cases [of m ?eq "lease_key LL c" c])
    case new
    have "\<exists>(w, v)\<in>set m. ?eq w (lease_key LL x)" if "x \<in> set cs" for x
      using m that by (auto simp: names_hold_def)
    then show ?thesis
      using m new keep here name_library.wn_eq_refl [OF lib, of "lease_key LL c"]
      unfolding names_hold_def new(2) by (auto simp: sorted_wrt_append)
  next
    case (old xs k' v' ys)
    have s: "sorted_wrt (\<lambda>p q. \<not> ?eq (fst p) (fst q)) (xs @ (k', v') # ys)"
      using m by (simp add: names_hold_def old(1))
    have rest: "\<not> ?eq (fst p) (lease_key LL c)" if "p \<in> set xs \<or> p \<in> set ys" for p
    proof
      assume e: "?eq (fst p) (lease_key LL c)"
      then have "p \<in> set ys" using that old(2) by blast
      moreover have "?eq k' (fst p)" using trans [OF old(3) sym [OF e]] .
      ultimately show False using s by (auto simp: sorted_wrt_append)
    qed
    have all: "(w, v) \<in> set m" if "(w, v) \<in> set xs \<or> (w, v) \<in> set ys" for w v
      using that by (auto simp: old(1))
    have cov: "\<exists>(w, v)\<in>set (xs @ (k', c) # ys). ?eq w (lease_key LL x)" if "x \<in> set cs" for x
      using m that by (fastforce simp: names_hold_def old(1))
    have "sorted_wrt (\<lambda>p q. \<not> ?eq (fst p) (fst q)) (xs @ (k', c) # ys)"
      using s by (auto simp: sorted_wrt_append)
    moreover have "?eq w (lease_key LL v) \<and> (\<exists>as bs. cs @ [c] = as @ v # bs \<and> (\<forall>c'\<in>set bs. \<not> ?eq w (lease_key LL c')))"
      if wv: "(w, v) \<in> set (xs @ (k', c) # ys)" for w v
    proof (cases "(w, v) = (k', c)")
      case True
      then show ?thesis using old(3) here by simp
    next
      case False
      then have o': "(w, v) \<in> set xs \<or> (w, v) \<in> set ys" using wv by auto
      then have "?eq w (lease_key LL v)" using m all by (force simp: names_hold_def)
      then show ?thesis using keep [OF all [OF o']] rest [OF o'] by simp
    qed
    moreover have "\<forall>x\<in>set (cs @ [c]). \<exists>(w, v)\<in>set (xs @ (k', c) # ys). ?eq w (lease_key LL x)"
      using cov old(3) by auto
    ultimately show ?thesis unfolding names_hold_def old(4) by blast
  qed
qed

lemma names_hold_fold:
  assumes "name_library (ll_names LL)" "names_hold LL cs (ld_name d)"
  shows "names_hold LL (cs @ xs) (ld_name (fold (lease_add LL) xs d))"
  using assms(2)
proof (induction xs arbitrary: cs d)
  case (Cons x xs)
  have "names_hold LL (cs @ [x]) (ld_name (lease_add LL x d))"
    using names_hold_add [OF assms(1) Cons.prems] by (simp add: lease_add_def lease_key_def)
  from Cons.IH [OF this] show ?case by simp
qed simp

lemma names_hold_find:
  assumes lib: "name_library (ll_names LL)" and m: "names_hold LL cs m"
    and h: "inj_on (nl_hash (ll_names LL)) (key_string ` fst ` set m \<union> probes (nm_labels n))"
    and n: "fits (nm_labels n)" "nm_labels n \<noteq> []" "\<not> nl_is_wildcard (ll_names LL) n"
  shows "case dm_find (ll_names LL) (dm_from_iter (ll_names LL) m) n of
      None \<Rightarrow> \<forall>c\<in>set cs. \<not> wn_is_match (ll_names LL) (lease_key LL c) n
    | Some c \<Rightarrow> best_lease LL cs n c"
proof -
  note lm = name_library.wn_eq_match [OF lib] and lr = name_library.wn_eq_rank [OF lib]
    and sym = name_library.wn_eq_sym [OF lib] and trans = name_library.wn_eq_trans [OF lib]
  have cov: "\<exists>w v. (w, v) \<in> set m \<and> wn_eq (ll_names LL) w (lease_key LL c)" if "c \<in> set cs" for c
    using m that by (force simp: names_hold_def)
  note find = dm_find_best [OF lib h n]
  show ?thesis
  proof (cases "dm_find (ll_names LL) (dm_from_iter (ll_names LL) m) n")
    case None
    then have no: "\<not> wn_is_match (ll_names LL) w n" if "(w, v) \<in> set m" for w v using find that by auto
    have "\<not> wn_is_match (ll_names LL) (lease_key LL c) n" if c: "c \<in> set cs" for c
      using cov [OF c] no lm by blast
    then show ?thesis using None by simp
  next
    case (Some c)
    then obtain w where w: "(w, c) \<in> set m" "wn_is_match (ll_names LL) w n"
      "\<And>w' v'. (w', v') \<in> set m \<Longrightarrow> wn_is_match (ll_names LL) w' n \<Longrightarrow> rank w' \<le> rank w"
      using find by auto
    obtain as bs where k: "wn_eq (ll_names LL) w (lease_key LL c)" "cs = as @ c # bs"
      "\<forall>c'\<in>set bs. \<not> wn_eq (ll_names LL) w (lease_key LL c')"
      using m w(1) by (force simp: names_hold_def)
    have "rank (lease_key LL c') \<le> rank (lease_key LL c)"
      if c': "c' \<in> set cs" "wn_is_match (ll_names LL) (lease_key LL c') n" for c'
    proof -
      obtain w' v' where "(w', v') \<in> set m" "wn_eq (ll_names LL) w' (lease_key LL c')" using cov [OF c'(1)] by blast
      then show ?thesis using w(3) [of w' v'] lm [of w' "lease_key LL c'"] c'(2) lr [OF k(1)] lr by metis
    qed
    moreover have "\<not> wn_eq (ll_names LL) (lease_key LL c') (lease_key LL c)" if "c' \<in> set bs" for c'
      using k(1,3) that trans sym by blast
    ultimately have "best_lease LL cs n c"
      unfolding best_lease_def using lm [OF k(1)] w(2) k(2) by blast
    then show ?thesis using Some by simp
  qed
qed

definition leases_of :: "lease_lib \<Rightarrow> lan_world \<Rightarrow> name option \<Rightarrow> client_info list" where
  "leases_of LL W zone = List.map_filter (lease_line LL (lw_local W) zone) (unwrap_or (lw_file W) [])"

text \<open>
  A name of the local network is answered from its lease. When the lease file is read for a fully qualified
  name in the zone (or there is no zone), the answer is the address of the lease with the most specific host that is the name or a zone
  above it, on the last line that the file has for this host, if the address is of the queried type; without such a
  lease there is no answer. Hashes are assumed to keep the hosts and the name apart.
\<close>

theorem lan_lookup_answers:
  assumes "name_library (ll_names LL)"
    and "lan_cache st = None" and "read_lease_file LL (lw_local W) (lan_zone st) (lw_file W) = Some d"
    and "inj_on (nl_hash (ll_names LL)) (key_string ` fst ` set (ld_name d) \<union> probes (nm_labels n))"
    and "fits (nm_labels n)" and "nm_labels n \<noteq> []" and "\<not> nl_is_wildcard (ll_names LL) n"
    and "nm_fqdn n" and "\<forall>z. lan_zone st = Some z \<longrightarrow> nl_zone_of (ll_names LL) z n"
  shows "(\<forall>c\<in>set (leases_of LL W (lan_zone st)). \<not> wn_is_match (ll_names LL) (lease_key LL c) n) \<and>
       fst (lan_lookup LL W n t st) = None \<or>
     (\<exists>c. best_lease LL (leases_of LL W (lan_zone st)) n c \<and>
       fst (lan_lookup LL W n t st) =
         (if rdata_type (rdata_of_ip (ci_ip c)) = t then Some (rdata_of_ip (ci_ip c)) else None))"
proof -
  obtain ls where ls: "lw_file W = Some ls"
    "d = fold (lease_add LL) (leases_of LL W (lan_zone st)) \<lparr>ld_name = [], ld_ip = [], ld_mac = []\<rparr>"
    using assms(3) by (auto simp: read_lease_file_def leases_of_def)
  have "names_hold LL [] []" by (simp add: names_hold_def)
  then have "names_hold LL (leases_of LL W (lan_zone st)) (ld_name d)"
    using names_hold_fold [OF assms(1), of "[]" "\<lparr>ld_name = [], ld_ip = [], ld_mac = []\<rparr>"] by (simp add: ls(2))
  note find = names_hold_find [OF assms(1) this assms(4-7)]
  let ?find = "dm_find (ll_names LL) (dm_from_iter (ll_names LL) (ld_name d)) n"
  have "find_client LL (lan_zone st) (dm_from_iter (ll_names LL) (ld_name d)) (full_name LL (lan_zone st) n) = ?find"
    using assms(8,9) by (simp add: full_name_def find_client_def split: option.split)
  then have l: "fst (lan_lookup LL W n t st) = Option.bind ?find (\<lambda>c. case ci_ip c of
      V4 v \<Rightarrow> if t = RT_A then Some (RD_A v) else None | V6 v \<Rightarrow> if t = RT_AAAA then Some (RD_AAAA v) else None)"
    using assms(2,3) by (simp add: lan_lookup_def get_cached_clients_def lease_cache_of_def Let_def)
  show ?thesis
  proof (cases ?find)
    case None
    then show ?thesis using find l by simp
  next
    case (Some c)
    then have "best_lease LL (leases_of LL W (lan_zone st)) n c" using find by simp
    then show ?thesis using l Some by (intro disjI2 exI [of _ c]) (auto simp: rdata_of_ip_def split: ip_addr.split)
  qed
qed

section \<open>An instance of the packages\<close>

text \<open>Labels between dots; addresses in \<open>in-addr.arpa\<close>; dates as they are.\<close>

definition dotted :: "string \<Rightarrow> name option" where
  "dotted s =
     (let ps = split_on (\<lambda>c. c = CHR ''.'') s;
          fqdn = (length ps > 1 \<and> last ps = []);
          ps = (if fqdn then butlast ps else ps)
      in if [] \<in> set ps then None else Some (ascii_name ps fqdn))"

definition arpa_v4 :: "name \<Rightarrow> (ip_addr \<times> u8) option" where
  "arpa_v4 n =
     (case rev (nm_labels n) of
        [_, _, a, b, c, d] \<Rightarrow>
          map_option (\<lambda>ip. (ip, 32)) (ip_from_str (concat (map (\<lambda>l. map (\<lambda>x. char_of (unat x)) l @ ''.'') [a, b, c]) @ map (\<lambda>x. char_of (unat x)) d))
      | _ \<Rightarrow> None)"

definition std_leases :: lease_lib where
  "std_leases =
     \<lparr>ll_names = std_lib\<lparr>nl_display := (\<lambda>n. butlast (concat (map (\<lambda>l. l @ [46]) (nm_labels n))) @ (if nm_fqdn n then [46] else []))\<rparr>,
      ll_from_str = dotted,
      ll_append_name = (\<lambda>a b. Some \<lparr>nm_labels = nm_labels a @ nm_labels b, nm_fqdn = nm_fqdn b\<rparr>),
      ll_append_domain = (\<lambda>a b. Some \<lparr>nm_labels = nm_labels a @ nm_labels b, nm_fqdn = True\<rparr>),
      ll_num_labels = (\<lambda>n. length (nm_labels n)),
      ll_parse_arpa = arpa_v4, ll_from_timestamp = Some\<rparr>"

interpretation leases: name_library "ll_names std_leases"
  by unfold_locales
    (auto simp: std_leases_def std.is_wildcard std.base_name std.zone_of std.eq_ignore_root_case
      intro: std.is_root std.eq_labels std.eq_refl std.eq_sym std.eq_trans)

definition lan_example :: "string list \<Rightarrow> lan_world" where
  "lan_example ls = \<lparr>lw_now = 0, lw_local = 0, lw_modified = Some 1, lw_file = Some (map Some ls), lw_neigh = None\<rparr>"

definition lan_zone_store :: lan_store where
  "lan_zone_store = lan_new 0 (Some (ascii_name [''lan''] True))"

lemma lan_example_read:
  assumes "read_lease_file std_leases 0 (Some (ascii_name [''lan''] True)) (Some (map Some ls)) = Some d"
  shows "fst (lan_lookup std_leases (lan_example ls) n t lan_zone_store) =
      Option.bind (find_client std_leases (Some (ascii_name [''lan''] True)) (dm_from_iter (ll_names std_leases) (ld_name d))
          (full_name std_leases (Some (ascii_name [''lan''] True)) n))
        (\<lambda>c. case ci_ip c of V4 v \<Rightarrow> if t = RT_A then Some (RD_A v) else None
            | V6 v \<Rightarrow> if t = RT_AAAA then Some (RD_AAAA v) else None)"
    and "lan_cache (snd (lan_lookup std_leases (lan_example ls) n t lan_zone_store)) =
      Some (lease_cache_of std_leases (lan_example ls) d)"
  using assms
  by (simp_all add: lan_lookup_def get_cached_clients_def lan_example_def lan_zone_store_def lan_new_def Let_def
      lease_cache_of_def refresh_neighbor_cache_def split: option.split)

definition pc_line :: string where
  "pc_line = ''1702763919 c5:65:92:0b:b5:72 192.168.1.16 pc 01''"

definition pc_lan :: name where
  "pc_lan = ascii_name [''pc'', ''lan''] True"

theorem lan_lookup_answers_witness:
  "(\<forall>c\<in>set (leases_of std_leases (lan_example [pc_line]) (lan_zone lan_zone_store)).
       \<not> wn_is_match (ll_names std_leases) (lease_key std_leases c) pc_lan) \<and>
     fst (lan_lookup std_leases (lan_example [pc_line]) pc_lan RT_A lan_zone_store) = None \<or>
   (\<exists>c. best_lease std_leases (leases_of std_leases (lan_example [pc_line]) (lan_zone lan_zone_store)) pc_lan c \<and>
     fst (lan_lookup std_leases (lan_example [pc_line]) pc_lan RT_A lan_zone_store) =
       (if rdata_type (rdata_of_ip (ci_ip c)) = RT_A then Some (rdata_of_ip (ci_ip c)) else None))"
proof (rule lan_lookup_answers [OF leases.name_library_axioms])
  let ?d = "the (read_lease_file std_leases 0 (Some (ascii_name [''lan''] True)) (Some [Some pc_line]))"
  have "read_lease_file std_leases 0 (Some (ascii_name [''lan''] True)) (Some [Some pc_line]) \<noteq> None"
    by (simp add: read_lease_file_def)
  then show "read_lease_file std_leases (lw_local (lan_example [pc_line])) (lan_zone lan_zone_store)
      (lw_file (lan_example [pc_line])) = Some ?d"
    by (simp add: lan_example_def lan_zone_store_def lan_new_def)
  have "set (map fst (ld_name ?d)) = {WDefault pc_lan}" by code_simp
  then have keys: "fst ` set (ld_name ?d) = fst ` set [(WDefault pc_lan, ())]" by simp
  show "inj_on (nl_hash (ll_names std_leases)) (key_string ` fst ` set (ld_name ?d) \<union> probes (nm_labels pc_lan))"
    unfolding keys by (rule no_collision) code_simp
  show "fits (nm_labels pc_lan)" "nm_labels pc_lan \<noteq> []" "\<not> nl_is_wildcard (ll_names std_leases) pc_lan" "nm_fqdn pc_lan"
    by code_simp+
  have "nl_zone_of (ll_names std_leases) (ascii_name [''lan''] True) pc_lan" by code_simp
  then show "\<forall>z. lan_zone lan_zone_store = Some z \<longrightarrow> nl_zone_of (ll_names std_leases) z pc_lan"
    by (simp add: lan_zone_store_def lan_new_def)
qed (simp add: lan_zone_store_def lan_new_def)

theorem lease_data_current_witness:
  "\<exists>q\<in>set [(lan_example [pc_line], pc_lan, RT_A)].
     lan_content (lan_after std_leases [(lan_example [pc_line], pc_lan, RT_A)] (lan_new 0 None)) =
       lan_read std_leases (lan_new 0 None) (fst q)"
proof -
  have "lan_read std_leases (lan_new 0 None) (lan_example [pc_line]) \<noteq> None"
    by (simp add: lan_read_def lan_example_def read_lease_file_def)
  then show ?thesis
    using lease_data_current [of "[(lan_example [pc_line], pc_lan, RT_A)]" std_leases 0 None] by simp
qed

section \<open>Clients without a name\<close>

text \<open>
  dnsmasq writes \<open>*\<close> for a client that has no name. The host \<open>*\<close> is a wildcard for the index of names, so that such
  a client's address answers every name of the zone that is not leased.
\<close>

definition nameless_line :: string where
  "nameless_line = ''1702763919 c5:65:92:0b:b5:72 192.168.1.16 * 01''"

theorem nameless_client_answers:
  "fst (lan_lookup std_leases (lan_example [nameless_line]) (ascii_name [''printer'', ''lan''] True) RT_A lan_zone_store) =
     Some (RD_A 0xC0A80110)"
proof -
  let ?read = "read_lease_file std_leases 0 (Some (ascii_name [''lan''] True)) (Some (map Some [nameless_line]))"
  obtain d where d: "?read = Some d" by (auto simp: read_lease_file_def)
  have "map_option (\<lambda>d. map_option ci_ip (dm_find (ll_names std_leases) (dm_from_iter (ll_names std_leases) (ld_name d))
      (ascii_name [''printer'', ''lan''] True))) ?read = Some (Some (V4 0xC0A80110))"
    by code_simp
  then have "map_option ci_ip (dm_find (ll_names std_leases) (dm_from_iter (ll_names std_leases) (ld_name d))
      (ascii_name [''printer'', ''lan''] True)) = Some (V4 0xC0A80110)"
    unfolding d by simp
  then obtain c where "dm_find (ll_names std_leases) (dm_from_iter (ll_names std_leases) (ld_name d))
      (ascii_name [''printer'', ''lan''] True) = Some c" "ci_ip c = V4 0xC0A80110"
    by blast
  moreover have "full_name std_leases (Some (ascii_name [''lan''] True)) (ascii_name [''printer'', ''lan''] True) =
      ascii_name [''printer'', ''lan''] True"
    by (simp add: full_name_def ascii_name_def)
  ultimately show ?thesis
    using lan_example_read(1) [OF d] by (simp add: find_client_def)
qed

text \<open>
  The guard against the name \<open>*\<close> never holds back an answer: the hosts of the table are fully qualified and are printed
  with a final dot.
\<close>

theorem placeholder_guard_idle:
  assumes display: "\<forall>n. nm_fqdn n \<longrightarrow> (\<exists>s. nl_display (ll_names LL) n = s @ ascii ''.'')"
    and "lease_line LL now zone l = Some c"
  shows "host_ptr LL (Some c) = Some (RD_PTR (ci_host c))"
proof -
  have "nm_fqdn (ci_host c)"
    using assms(2) by (auto simp: lease_line_def qualify_def set_fqdn_def Let_def split: option.splits if_splits)
  then obtain s where "nl_display (ll_names LL) (ci_host c) = s @ ascii ''.''" using display by blast
  moreover have "s @ ascii ''.'' \<noteq> ascii ''*''"
    by (cases s) (auto simp: ascii_def)
  ultimately show ?thesis by (simp add: host_ptr_def)
qed

section \<open>Names of odhcpd\<close>

text \<open>The names kept for addresses are ones the addresses are found under, and so are the addresses for
  names.\<close>

definition reverse_holds :: "lease_lib \<Rightarrow> lease_records \<Rightarrow> bool" where
  "reverse_holds LL r \<longleftrightarrow>
     (\<forall>ip host. map_of (lr_reverse r) ip = Some host \<longrightarrow>
        ip \<in> set (unwrap_or (eq_get (nl_eq (ll_names LL)) (lr_forward r) host) []))"

lemma eq_get_simps [simp]:
  "eq_get eq [] k = None" "eq_get eq (p # m) k = (if eq (fst p) k then Some (snd p) else eq_get eq m k)"
  by (simp_all add: eq_get_def split_beta)

lemma eq_get_insert_mem:
  assumes "name_library L"
  shows "eq_get (nl_eq L) (eq_insert (nl_eq L) k v m) k' = (if nl_eq L k k' then Some v else eq_get (nl_eq L) m k')"
proof -
  note sym = name_library.eq_sym [OF assms] and trans = name_library.eq_trans [OF assms]
  show ?thesis
  proof (induction m)
    case (Cons p m)
    obtain a b where p: "p = (a, b)" by (cases p)
    show ?case
    proof (cases "nl_eq L a k")
      case True
      then have "nl_eq L a k' = nl_eq L k k'" using sym trans by blast
      then show ?thesis using True by (simp add: p)
    next
      case False
      then have "nl_eq L a k' \<Longrightarrow> \<not> nl_eq L k k'" using sym trans by blast
      then show ?thesis using False Cons.IH by (simp add: p)
    qed
  qed simp
qed

lemma forward_add_mem:
  assumes "name_library L"
  shows "set (unwrap_or (eq_get (nl_eq L) (forward_add L ip n m) n') []) =
    (if nl_eq L n n' then insert ip (set (unwrap_or (eq_get (nl_eq L) m n') [])) else set (unwrap_or (eq_get (nl_eq L) m n') []))"
proof -
  have "eq_get (nl_eq L) m n = eq_get (nl_eq L) m n'" if "nl_eq L n n'"
  proof -
    have "nl_eq L k n = nl_eq L k n'" for k
      using that name_library.eq_sym [OF assms] name_library.eq_trans [OF assms] by blast
    then show ?thesis by (simp add: eq_get_def)
  qed
  then show ?thesis by (auto simp: forward_add_def eq_get_insert_mem [OF assms] push_new_def)
qed

lemma records_add_holds:
  assumes lib: "name_library (ll_names LL)" and r: "reverse_holds LL r"
  shows "reverse_holds LL (records_add LL host ip zone r)"
proof -
  have "reverse_holds LL \<lparr>lr_forward = forward_add (ll_names LL) ip c (forward_add (ll_names LL) ip n (lr_forward r)),
      lr_reverse = (if map_of (lr_reverse r) ip = None then AList.update ip c (lr_reverse r) else lr_reverse r)\<rparr>" for c n
    using r name_library.eq_refl [OF lib] by (simp add: reverse_holds_def forward_add_mem [OF lib])
  then show ?thesis using r by (simp add: records_add_def Let_def split: option.split)
qed

lemma fold_keeps: "(\<And>x s. P s \<Longrightarrow> P (f x s)) \<Longrightarrow> P s \<Longrightarrow> P (fold f xs s)"
  by (induction xs arbitrary: s) simp_all

lemma odhcpd_line_holds:
  assumes lib: "name_library (ll_names LL)" and "reverse_holds LL r"
  shows "reverse_holds LL (odhcpd_line LL zone l r)"
proof -
  have hosts: "reverse_holds LL (fold (\<lambda>host. records_add LL host ip zone) hs r)" for ip hs
    by (rule fold_keeps [where P = "reverse_holds LL"]) (auto intro: records_add_holds [OF lib] assms(2))
  have tokens: "reverse_holds LL (fold (\<lambda>token r. case ip_from_str (hd (split_on (\<lambda>c. c = CHR ''/'') token)) of
      Some ip \<Rightarrow> records_add LL h ip zone r | None \<Rightarrow> r) ts r)" for h ts
    by (rule fold_keeps [where P = "reverse_holds LL"]) (simp_all add: records_add_holds [OF lib] assms(2) split: option.split)
  show ?thesis
    using assms(2) hosts tokens by (simp add: odhcpd_line_def Let_def split: option.split)
qed

text \<open>
  The names that odhcpd's leases give for addresses are sound: for every lease file, when the address of a reverse query
  is answered with a host, then the query for that host and the address's family is answered with this address, among
  others.
\<close>

theorem odhcpd_names_round_trip:
  assumes lib: "name_library (ll_names LL)" and "ptr_to_ip LL n = Some ip"
    and "RD_PTR host \<in> set (odhcpd_records LL (odhcpd_parse LL txt zone) n RT_PTR)"
  shows "rdata_of_ip ip \<in> set (odhcpd_records LL (odhcpd_parse LL txt zone) host
    (case ip of V4 _ \<Rightarrow> RT_A | V6 _ \<Rightarrow> RT_AAAA))"
proof -
  have "reverse_holds LL records_default" by (simp add: reverse_holds_def records_default_def)
  then have "reverse_holds LL (odhcpd_parse LL txt zone)"
    unfolding odhcpd_parse_def by (rule fold_keeps [where P = "reverse_holds LL", rotated]) (rule odhcpd_line_holds [OF lib])
  moreover have "map_of (lr_reverse (odhcpd_parse LL txt zone)) ip = Some host"
    using assms(2,3) by (auto simp: odhcpd_records_def split: option.splits)
  ultimately have "ip \<in> set (unwrap_or (eq_get (nl_eq (ll_names LL)) (lr_forward (odhcpd_parse LL txt zone)) host) [])"
    by (simp add: reverse_holds_def)
  then show ?thesis
    by (auto simp: odhcpd_records_def split: ip_addr.split intro: rev_image_eqI)
qed

definition odhcpd_text :: string where
  "odhcpd_text = ''10.0.0.2 nas nas.home''"

theorem odhcpd_names_round_trip_witness:
  "RD_A 0x0a000002 \<in> set (odhcpd_records std_leases (odhcpd_parse std_leases odhcpd_text None) (ascii_name [''nas''] True) RT_A)"
proof -
  have "rdata_of_ip (V4 0x0a000002) \<in> set (odhcpd_records std_leases (odhcpd_parse std_leases odhcpd_text None) (ascii_name [''nas''] True)
      (case V4 0x0a000002 of V4 _ \<Rightarrow> RT_A | V6 _ \<Rightarrow> RT_AAAA))"
  proof (rule odhcpd_names_round_trip [OF leases.name_library_axioms,
        of "ascii_name [''2'', ''0'', ''0'', ''10'', ''in-addr'', ''arpa''] True"])
    show "ptr_to_ip std_leases (ascii_name [''2'', ''0'', ''0'', ''10'', ''in-addr'', ''arpa''] True) = Some (V4 0x0a000002)"
      by code_simp
    show "RD_PTR (ascii_name [''nas''] True) \<in> set (odhcpd_records std_leases (odhcpd_parse std_leases odhcpd_text None)
        (ascii_name [''2'', ''0'', ''0'', ''10'', ''in-addr'', ''arpa''] True) RT_PTR)"
      by code_simp
  qed
  then show ?thesis by (simp add: rdata_of_ip_def)
qed

end
