(* ===== verification/Hosts.thy ===== *)
theory Hosts
  imports Rust_Text Stat_Cache Context
begin

text \<open>
  The hosts files (\<^verbatim>\<open>src/src/dns_mw_hosts.rs\<close>).

  Reading a hosts file and looking a name up in it is \<open>hickory_resolver\<close>'s (\<open>hosts_lib\<close>), expanding a pattern the
  \<open>glob\<close> package's. The files and the clock are arguments (\<open>hosts_world\<close>). Configuration options that only this middleware reads
  are arguments too: the pattern of \<open>hosts-file\<close> and \<open>expand-ptr-from-address\<close>.
\<close>

section \<open>Files\<close>

record 'h hosts_lib =
  hl_default :: 'h
  hl_read_conf :: "string \<Rightarrow> 'h \<Rightarrow> 'h"
  hl_lookup :: "'h \<Rightarrow> query \<Rightarrow> (rr list \<times> instant) option"

text \<open>\<open>hw_glob\<close> is \<open>None\<close> for a pattern that is not one, and has \<open>None\<close> for an entry that cannot be read.\<close>

record hosts_world =
  hw_now :: instant
  hw_glob :: "string \<Rightarrow> string option list option"
  hw_is_file :: "string \<Rightarrow> bool"
  hw_modified :: "string \<Rightarrow> nat option"
  hw_text :: "string \<Rightarrow> string option"

record hosts_file_meta =
  hm_path :: string
  hm_modified_at :: "nat option"

definition append_hosts_file_meta :: "hosts_world \<Rightarrow> string \<Rightarrow> hosts_file_meta list \<Rightarrow> hosts_file_meta list" where
  "append_hosts_file_meta W path files =
     (if \<not> hw_is_file W path then files
      else files @ [\<lparr>hm_path = path, hm_modified_at = hw_modified W path\<rparr>])"

definition system_hosts_paths :: "string list" where
  "system_hosts_paths = [''/etc/hosts'']"

text \<open>Paths are compared by their components.\<close>

definition path_components :: "string \<Rightarrow> string list" where
  "path_components p = filter (\<lambda>c. c \<noteq> []) (split_on (\<lambda>c. c = CHR ''/'') p)"

fun dedup_by :: "('a \<Rightarrow> 'a \<Rightarrow> bool) \<Rightarrow> 'a list \<Rightarrow> 'a list" where
  "dedup_by eq (x # y # ys) = (if eq y x then dedup_by eq (x # ys) else x # dedup_by eq (y # ys))"
| "dedup_by eq xs = xs"

definition collect_hosts_signature :: "hosts_world \<Rightarrow> string option \<Rightarrow> hosts_file_meta list" where
  "collect_hosts_signature W pat =
     (let files = (case Option.bind pat (hw_glob W) of
             Some paths \<Rightarrow> fold (\<lambda>entry files. case entry of Some p \<Rightarrow> append_hosts_file_meta W p files | None \<Rightarrow> files) paths []
           | None \<Rightarrow> []);
          files = fold (append_hosts_file_meta W) system_hosts_paths files
      in dedup_by (\<lambda>a b. path_components (hm_path a) = path_components (hm_path b))
           (sort_by (\<lambda>a b. cmp_of (path_components (hm_path a)) (path_components (hm_path b))) files))"

definition read_hosts :: "'h hosts_lib \<Rightarrow> hosts_world \<Rightarrow> string \<Rightarrow> 'h" where
  "read_hosts H W pat =
     (case hw_glob W pat of
        Some paths \<Rightarrow>
          fold (\<lambda>entry hosts.
              case Option.bind (opt_filter (hw_is_file W) entry) (hw_text W) of
                Some txt \<Rightarrow> hl_read_conf H txt hosts
              | None \<Rightarrow> hosts) paths (hl_default H)
      | None \<Rightarrow> hl_default H)"

section \<open>The cache\<close>

record 'h hosts_cache =
  hc_hosts :: 'h
  hc_signature :: "hosts_file_meta list"
  hc_checked_at :: instant

definition HOSTS_FILE_STAT_INTERVAL :: duration where
  "HOSTS_FILE_STAT_INTERVAL = secs 2"

definition cached_hosts ::
  "'h hosts_lib \<Rightarrow> hosts_world \<Rightarrow> string option \<Rightarrow> 'h hosts_cache option \<Rightarrow> 'h \<times> 'h hosts_cache option" where
  "cached_hosts H W pat st =
     (case opt_filter (\<lambda>c. hw_now W - hc_checked_at c < HOSTS_FILE_STAT_INTERVAL) st of
        Some c \<Rightarrow> (hc_hosts c, st)
      | None \<Rightarrow>
          (let signature = collect_hosts_signature W pat
           in case opt_filter (\<lambda>c. hc_signature c = signature) st of
                Some c \<Rightarrow> (hc_hosts c, Some (c\<lparr>hc_checked_at := hw_now W\<rparr>))
              | None \<Rightarrow>
                  (let hosts = (case pat of Some p \<Rightarrow> read_hosts H W p | None \<Rightarrow> hl_default H)
                   in (hosts, Some \<lparr>hc_hosts = hosts, hc_signature = signature, hc_checked_at = hw_now W\<rparr>))))"

section \<open>The middleware\<close>

definition hosts_lookup :: "'h hosts_lib \<Rightarrow> 'h \<Rightarrow> query \<Rightarrow> (rr list \<times> instant) option" where
  "hosts_lookup H hosts query =
     or_else (hl_lookup H hosts query)
       (hl_lookup H hosts \<lparr>q_name = (q_name query)\<lparr>nm_fqdn := \<not> nm_fqdn (q_name query)\<rparr>, q_type = q_type query, q_class = 1\<rparr>)"

definition hosts_handle ::
  "'h hosts_lib \<Rightarrow> hosts_world \<Rightarrow> string option \<Rightarrow> bool \<Rightarrow> ('h hosts_cache option \<times> 't) middleware" where
  "hosts_handle H W pat expand_ptr ctx req nxt st =
     (let query = rq_query req
      in if is_ip_addr (q_type query) \<or> (q_type query = RT_PTR \<and> expand_ptr)
         then
           (case cached_hosts H W pat (fst st) of
              (hosts, cache) \<Rightarrow>
                (case hosts_lookup H hosts query of
                   Some (records, valid_until) \<Rightarrow> (Inr (new_with_deadline query records valid_until), ctx, (cache, snd st))
                 | None \<Rightarrow> nxt ctx req (cache, snd st)))
         else nxt ctx req st)"

section \<open>The age of the data\<close>

definition hosts_read :: "'h hosts_lib \<Rightarrow> string option \<Rightarrow> hosts_world \<Rightarrow> 'h" where
  "hosts_read H pat W = (case pat of Some p \<Rightarrow> read_hosts H W p | None \<Rightarrow> hl_default H)"

definition hosts_stamp :: "'h hosts_cache option \<Rightarrow> hosts_file_meta list" where
  "hosts_stamp st = (case st of Some c \<Rightarrow> hc_signature c | None \<Rightarrow> [])"

definition hosts_checked :: "'h hosts_cache option \<Rightarrow> int" where
  "hosts_checked st = (case st of Some c \<Rightarrow> int (hc_checked_at c) | None \<Rightarrow> 0)"

lemmas hosts_defs = hosts_read_def hosts_stamp_def hosts_checked_def cached_hosts_def Let_def

lemma hosts_interval: "0 < HOSTS_FILE_STAT_INTERVAL"
  by (simp add: HOSTS_FILE_STAT_INTERVAL_def secs_def)

lemma hosts_interval_int: "(a :: nat) - b < HOSTS_FILE_STAT_INTERVAL \<longleftrightarrow> int a - int b < int HOSTS_FILE_STAT_INTERVAL"
  using hosts_interval by linarith

interpretation hosts: stat_cache "\<lambda>W st. snd (cached_hosts H W pat st)" hw_now "\<lambda>W. collect_hosts_signature W pat"
  "\<lambda>st W. Some (hosts_read H pat W)" "map_option hc_hosts" hosts_stamp hosts_checked HOSTS_FILE_STAT_INTERVAL for H pat
  by unfold_locales (auto simp: hosts_defs hosts_interval hosts_interval_int split: option.splits if_splits)

text \<open>The hosts a query is answered from, after earlier queries.\<close>

definition hosts_after :: "'h hosts_lib \<Rightarrow> string option \<Rightarrow> hosts_world list \<Rightarrow> 'h hosts_cache option" where
  "hosts_after H pat Ws = fold (\<lambda>W st. snd (cached_hosts H W pat st)) Ws None"

lemma hosts_after_run: "hosts_after H pat Ws = hosts.run H pat None Ws"
proof -
  have "fold (\<lambda>W st. snd (cached_hosts H W pat st)) Ws st = hosts.run H pat st Ws" for st
    by (induction Ws arbitrary: st) simp_all
  then show ?thesis by (simp add: hosts_after_def)
qed

text \<open>What the queries are answered from is what the files held less than two seconds ago, when their change times
  tell their contents apart.\<close>

theorem hosts_data_current:
  assumes "Ws \<noteq> []"
    and "\<forall>V\<in>set Ws. \<forall>W\<in>set Ws. collect_hosts_signature V pat = collect_hosts_signature W pat \<longrightarrow>
      hosts_read H pat V = hosts_read H pat W"
  shows "\<exists>W\<in>set Ws. map_option hc_hosts (hosts_after H pat Ws) = Some (hosts_read H pat W) \<and>
    int (hw_now (last Ws)) - int (hw_now W) < int HOSTS_FILE_STAT_INTERVAL"
proof -
  have "\<forall>V\<in>set Ws. \<forall>W\<in>set Ws. collect_hosts_signature V pat = collect_hosts_signature W pat \<longrightarrow>
      Some (hosts_read H pat V) = Some (hosts_read H pat W)"
    using assms(2) by blast
  from hosts.run_current [OF _ assms(1) _ this, of None] show ?thesis
    unfolding hosts_after_run by fastforce
qed

end
