(* ===== verification/Zone_Mw.thy ===== *)
theory Zone_Mw
  imports Own_Listeners Rust_Text
begin

unbundle bit_operations_syntax

text \<open>
  The zones this server answers itself (\<^verbatim>\<open>src/src/zone\<close>, \<^verbatim>\<open>src/src/dns_mw_zone.rs\<close>): the discovery of designated
  resolvers, reverse names of the local networks, the identity of the server and the client, and the TXT, SRV and HTTPS records of the
  rules.

  \<open>zone_env\<close> holds what the handlers find outside the query: the binds and the name of the server, the networks of its
  interfaces, the neighbour table, the route to a client, and what the packages compute (parsing and printing of names, reverse names, JSON).
  Records have no class here; the CHAOS class is only looked at in the query.
\<close>

section \<open>Environment\<close>

record zone_bind =
  zb_bind :: bind_addr_config
  zb_opts :: server_opts
  zb_ssl_server_name :: "string option"

record zone_env =
  ze_names :: name_lib
  ze_parse_name :: "string \<Rightarrow> name option"
  ze_prepend_label :: "name \<Rightarrow> string \<Rightarrow> name option"
  ze_parse_arpa :: "name \<Rightarrow> ip_net option"
  ze_ip_to_string :: "ip_addr \<Rightarrow> string"
  ze_json :: "(string \<times> string) list \<Rightarrow> string"
  ze_txt :: "string \<Rightarrow> bytes"
  ze_now :: instant
  ze_binds :: "zone_bind list"
  ze_server_name :: name
  ze_server_net :: "ip_net \<Rightarrow> bool"
  ze_mac :: "ip_addr \<Rightarrow> string option"
  ze_route :: "ip_addr \<Rightarrow> ip_addr option"
  ze_version :: string

section \<open>Discovery of designated resolvers\<close>

definition RESERVED :: name where
  "RESERVED = ascii_name [''resolver'', ''arpa''] True"

definition DISCOVERY :: name where
  "DISCOVERY = ascii_name [''_dns'', ''resolver'', ''arpa''] True"

definition local_ip :: "zone_env \<Rightarrow> dns_context \<Rightarrow> dns_request \<Rightarrow> ip_addr option" where
  "local_ip E ctx req =
     (case opt_filter (\<lambda>a. \<not> is_unspecified (fst a)) (so_local_addr (cx_server_opts ctx)) of
        Some a \<Rightarrow> Some (fst a)
      | None \<Rightarrow> if is_unspecified (rq_src req) then None else ze_route E (rq_src req))"

text \<open>The wire format of the parameters: the protocol with its length, the port and the addresses.\<close>

definition alpn_param :: "string \<Rightarrow> u16 \<times> bytes" where
  "alpn_param s = (1, of_nat (length s) # ascii s)"

definition port_param :: "u16 \<Rightarrow> u16 \<times> bytes" where
  "port_param p = (3, [ucast (drop_bit 8 p), ucast p])"

definition ip_bytes :: "ip_addr \<Rightarrow> bytes" where
  "ip_bytes ip =
     (case ip of
        V4 a \<Rightarrow> map (\<lambda>i. ucast (drop_bit (8 * i) a)) (rev [0..<4])
      | V6 a \<Rightarrow> map (\<lambda>i. ucast (drop_bit (8 * i) a)) (rev [0..<16]))"

definition hint_param :: "ip_addr \<Rightarrow> u16 \<times> bytes" where
  "hint_param ip = ((case ip of V4 _ \<Rightarrow> 4 | V6 _ \<Rightarrow> 6), ip_bytes ip)"

definition dohpath_param :: "u16 \<times> bytes" where
  "dohpath_param = (7, ascii ''/dns-query{?dns}'')"

definition ddr_on :: "zone_bind \<Rightarrow> bool" where
  "ddr_on b \<longleftrightarrow> bind_enabled (zb_bind b) \<and> so_ddr (zb_opts b) = Some True"

text \<open>The protocol of an encrypted bind, and whether it is HTTP.\<close>

definition ddr_alpn :: "zone_bind \<Rightarrow> (string \<times> bool) option" where
  "ddr_alpn b =
     (case ba_kind (zb_bind b) of
        BindTls \<Rightarrow> Some (''dot'', False)
      | BindHttps \<Rightarrow> Some (''h2'', True)
      | BindQuic \<Rightarrow> Some (''doq'', False)
      | BindH3 \<Rightarrow> Some (''h3'', True)
      | _ \<Rightarrow> None)"

definition ddr_target :: "zone_env \<Rightarrow> zone_bind \<Rightarrow> name" where
  "ddr_target E b =
     (unwrap_or (Option.bind (zb_ssl_server_name b) (ze_parse_name E)) (ze_server_name E))\<lparr>nm_fqdn := True\<rparr>"

record ddr_state =
  dd_result :: dns_response
  dd_priority :: u16
  dd_match :: bool

definition RT_SVCB :: record_type where
  "RT_SVCB = RT_OTHER 64"

definition ddr_address :: "zone_env \<Rightarrow> dns_context \<Rightarrow> dns_request \<Rightarrow> zone_bind \<Rightarrow> ip_addr option" where
  "ddr_address E ctx req b =
     (let ip = fst (sock_addr (zb_bind b)) in if is_unspecified ip then local_ip E ctx req else Some ip)"

definition ddr_svcb :: "zone_env \<Rightarrow> dns_context \<Rightarrow> dns_request \<Rightarrow> u32 \<Rightarrow> zone_bind \<Rightarrow> string \<Rightarrow> bool \<Rightarrow> ddr_state \<Rightarrow> ddr_state" where
  "ddr_svcb E ctx req ttl b alpn https st =
     (let query = rq_query req;
          target = ddr_target E b;
          address = ddr_address E ctx req b;
          params = [alpn_param alpn, port_param (ba_port (zb_bind b))];
          (params, result) =
            (case address of
               Some ip \<Rightarrow> (params @ [hint_param ip], add_additional (from_rdata target ttl (rdata_of_ip ip)) (dd_result st))
             | None \<Rightarrow> (params, dd_result st));
          params = (if https then params @ [dohpath_param] else params);
          result = add_answer (from_rdata (q_name query) ttl
            (RD_SVCB RT_SVCB \<lparr>sv_priority = dd_priority st, sv_target = target, sv_params = params\<rparr>)) result
      in \<lparr>dd_result = result, dd_priority = dd_priority st + 1, dd_match = True\<rparr>)"

definition ddr_step :: "zone_env \<Rightarrow> dns_context \<Rightarrow> dns_request \<Rightarrow> u32 \<Rightarrow> zone_bind \<Rightarrow> ddr_state \<Rightarrow> ddr_state" where
  "ddr_step E ctx req ttl b st =
     (case ddr_alpn b of
        None \<Rightarrow> st
      | Some (alpn, https) \<Rightarrow>
          (let query = rq_query req;
               target = ddr_target E b
           in if nl_is_root (ze_names E) target \<or> nl_zone_of (ze_names E) RESERVED target then st
              else
                let named_discovery = ze_prepend_label E target ''_dns'';
                    requested_svcb = (q_type query = RT_SVCB \<and>
                      (nl_eq (ze_names E) (q_name query) DISCOVERY \<or>
                       (case named_discovery of Some n \<Rightarrow> nl_eq (ze_names E) n (q_name query) | None \<Rightarrow> False)));
                    requested_address = (nl_eq (ze_names E) (q_name query) target \<and> is_ip_addr (q_type query))
                in if \<not> requested_svcb \<and> \<not> requested_address then st
                   else if requested_address
                   then
                     (let st = st\<lparr>dd_match := True\<rparr>
                      in case ddr_address E ctx req b of
                           Some ip \<Rightarrow>
                             (if rdata_type (rdata_of_ip ip) = q_type query
                              then
                                (let r = from_rdata target ttl (rdata_of_ip ip)
                                 in if list_ex (\<lambda>x. nl_eq (ze_names E) (rr_name x) (rr_name r) \<and> rr_data x = rr_data r) (answers (dd_result st))
                                    then st
                                    else st\<lparr>dd_result := add_answer r (dd_result st)\<rparr>)
                              else st)
                         | None \<Rightarrow> st)
                   else ddr_svcb E ctx req ttl b alpn https st))"

definition ddr_lookup :: "zone_env \<Rightarrow> dns_context \<Rightarrow> dns_request \<Rightarrow> dns_response option" where
  "ddr_lookup E ctx req =
     (let query = rq_query req;
          in_reserved_zone = nl_zone_of (ze_names E) RESERVED (q_name query)
      in if \<not> in_reserved_zone \<and> \<not> list_ex ddr_on (ze_binds E) then None
         else
           let ttl = ucast (local_ttl (cx_cfg ctx));
               st = fold (ddr_step E ctx req ttl) (filter ddr_on (ze_binds E))
                 \<lparr>dd_result = new_with_max_ttl (ze_now E) query [], dd_priority = 1, dd_match = False\<rparr>
           in if \<not> in_reserved_zone \<and> \<not> dd_match st then None
              else if answers (dd_result st) = []
              then Some (add_authority (from_rdata (q_name query) ttl default_soa_rdata) (dd_result st))
              else Some (dd_result st))"

section \<open>Reverse names of the local networks\<close>

text \<open>\<open>Ipv4Addr::is_private\<close> and \<open>is_unique_local\<close>.\<close>

definition is_private :: "ip_addr \<Rightarrow> bool" where
  "is_private ip =
     (case ip of
        V4 a \<Rightarrow> drop_bit 24 a = 10 \<or> drop_bit 20 a = 0xac1 \<or> drop_bit 16 a = 0xc0a8
      | V6 a \<Rightarrow> drop_bit 112 a AND 0xfe00 = 0xfc00)"

definition server_names :: "name list" where
  "server_names = [ascii_name [''smartdns''] True, ascii_name [''whoami''] True]"

type_synonym zone_provider = "dns_context \<Rightarrow> dns_request \<Rightarrow> lookup_error + dns_response option"

definition local_ptr_lookup :: "zone_env \<Rightarrow> zone_provider" where
  "local_ptr_lookup E ctx req =
     (let query = rq_query req
      in if q_type query \<noteq> RT_PTR then Inr None
         else
           let this = Inr (Some (response_from_rdata (ze_now E) query (RD_PTR (ze_server_name E))))
           in if list_ex (\<lambda>n. nl_cmp (ze_names E) n (q_name query) = Equal) server_names then this
              else
                case ze_parse_arpa E (q_name query) of
                  Some net \<Rightarrow>
                    (if ze_server_net E net then this
                     else if is_private (net_addr net)
                     then Inr (Some (set_queries [query] (empty_response (ze_now E))))
                     else Inr None)
                | None \<Rightarrow> Inr None)"

section \<open>Identity\<close>

datatype canonical_identity_query =
  ServerName | ServerVersion | ClientIp | ClientMacQuery | WhoAmIRecords | WhoAmIJson | ServerRecords | ServerJson

definition translate_query_name :: "string \<Rightarrow> canonical_identity_query option" where
  "translate_query_name n =
     (if n \<in> set [''server-name.'', ''hostname.bind.''] then Some ServerName
      else if n \<in> set [''version.'', ''version.bind.''] then Some ServerVersion
      else if n \<in> set [''client_ip.'', ''client-ip.''] then Some ClientIp
      else if n \<in> set [''client_mac.'', ''client-mac.''] then Some ClientMacQuery
      else if n = ''whoami.'' then Some WhoAmIRecords
      else if n = ''whoami.json.'' then Some WhoAmIJson
      else if n \<in> set [''smartdns.'', ''id.server.''] then Some ServerRecords
      else if n = ''smartdns.json.'' then Some ServerJson
      else None)"

definition normalize_query_name :: "zone_env \<Rightarrow> name \<Rightarrow> string" where
  "normalize_query_name E n =
     map (\<lambda>b. char_of (unat b)) (lower (nl_display (ze_names E) (n\<lparr>nm_fqdn := True\<rparr>)))"

definition trim_fqdn_dot :: "string \<Rightarrow> string" where
  "trim_fqdn_dot s = rev (dropWhile (\<lambda>c. c = CHR ''.'') (rev s))"

definition normalize_client_ip :: "ip_addr \<Rightarrow> ip_addr" where
  "normalize_client_ip ip =
     (case ip of V6 a \<Rightarrow> (case to_ipv4_mapped a of Some v \<Rightarrow> V4 v | None \<Rightarrow> V6 a) | V4 a \<Rightarrow> V4 a)"

definition UNKNOWN_CLIENT_MAC :: string where
  "UNKNOWN_CLIENT_MAC = ''N/A''"

definition txt_records_response :: "zone_env \<Rightarrow> query \<Rightarrow> string list \<Rightarrow> dns_response" where
  "txt_records_response E query values =
     new_with_max_ttl (ze_now E) query
       (map (\<lambda>v. from_rdata (q_name query) MAX_TTL (RD_OTHER RT_TXT (ze_txt E v))) values)"

definition txt_response :: "zone_env \<Rightarrow> query \<Rightarrow> string \<Rightarrow> dns_response" where
  "txt_response E query v =
     new_with_max_ttl (ze_now E) query [from_rdata (q_name query) MAX_TTL (RD_OTHER RT_TXT (ze_txt E v))]"

definition build_server_records_text :: "string \<Rightarrow> string \<Rightarrow> string list" where
  "build_server_records_text server_name version =
     [''server_name='' @ server_name, ''server_version='' @ version]"

definition build_info_records_text :: "zone_env \<Rightarrow> string \<Rightarrow> string \<Rightarrow> ip_addr \<Rightarrow> string \<Rightarrow> string list" where
  "build_info_records_text E server_name version client_ip client_mac =
     [''server_name='' @ server_name, ''server_version='' @ version,
      ''client_ip='' @ ze_ip_to_string E client_ip, ''client_mac='' @ client_mac]"

definition build_server_json_text :: "zone_env \<Rightarrow> string \<Rightarrow> string \<Rightarrow> string" where
  "build_server_json_text E server_name version =
     ze_json E [(''server_name'', server_name), (''server_version'', version)]"

definition build_info_json_text :: "zone_env \<Rightarrow> string \<Rightarrow> string \<Rightarrow> ip_addr \<Rightarrow> string \<Rightarrow> string" where
  "build_info_json_text E server_name version client_ip client_mac =
     ze_json E [(''server_name'', server_name), (''server_version'', version),
       (''client_ip'', ze_ip_to_string E client_ip), (''client_mac'', client_mac)]"

definition CLASS_CH :: u16 where
  "CLASS_CH = 3"

definition identity_lookup :: "zone_env \<Rightarrow> zone_provider" where
  "identity_lookup E ctx req =
     (let query = rq_query req
      in if q_type query \<noteq> RT_TXT then Inr None
         else if q_class query \<noteq> CLASS_CH then Inr None
         else
           case translate_query_name (normalize_query_name E (q_name query)) of
             None \<Rightarrow> Inr None
           | Some canonical \<Rightarrow>
               (let client_ip = normalize_client_ip (rq_src req);
                    server_name = trim_fqdn_dot
                      (map (\<lambda>b. char_of (unat b)) (nl_display (ze_names E) (ze_server_name E)));
                    client_mac = unwrap_or (ze_mac E client_ip) UNKNOWN_CLIENT_MAC;
                    version = ze_version E
                in Inr (Some
                     (case canonical of
                        ServerName \<Rightarrow> txt_response E query server_name
                      | ServerVersion \<Rightarrow> txt_response E query version
                      | ClientIp \<Rightarrow> txt_response E query (ze_ip_to_string E client_ip)
                      | ClientMacQuery \<Rightarrow> txt_response E query client_mac
                      | WhoAmIJson \<Rightarrow>
                          txt_response E query (build_info_json_text E server_name version client_ip client_mac)
                      | WhoAmIRecords \<Rightarrow>
                          txt_records_response E query (build_info_records_text E server_name version client_ip client_mac)
                      | ServerRecords \<Rightarrow>
                          txt_records_response E query (build_server_records_text server_name version)
                      | ServerJson \<Rightarrow> txt_response E query (build_server_json_text E server_name version)))))"

section \<open>Records of the rules\<close>

definition keep_param :: "bool \<Rightarrow> bool \<Rightarrow> u16 \<times> bytes \<Rightarrow> bool" where
  "keep_param no4 no6 p =
     (if fst p = 4 then \<not> no4 else if fst p = 6 then \<not> no6 else True)"

definition filter_hints :: "bool \<Rightarrow> bool \<Rightarrow> rr \<Rightarrow> rr" where
  "filter_hints no4 no6 r =
     (case rr_data r of
        RD_SVCB t https \<Rightarrow>
          (if t = RT_HTTPS
           then r\<lparr>rr_data := RD_SVCB t \<lparr>sv_priority = sv_priority https, sv_target = sv_target https,
                  sv_params = filter (keep_param no4 no6) (sv_params https)\<rparr>\<rparr>
           else r)
      | _ \<Rightarrow> r)"

definition ctx_rule :: "(domain_rule \<Rightarrow> 'a option) \<Rightarrow> dns_context \<Rightarrow> 'a option" where
  "ctx_rule f ctx = opt_node_get (\<lambda>n. f (rule_of n)) (cx_domain_rule ctx)"

definition rule_lookup ::
  "zone_env \<Rightarrow> dns_context \<Rightarrow> dns_request \<Rightarrow> 's handler \<Rightarrow> 's \<Rightarrow> (lookup_error + dns_response option) \<times> dns_context \<times> 's" where
  "rule_lookup E ctx req nxt s =
     (let query = rq_query req
      in case q_type query of
           RT_TXT \<Rightarrow>
             (case ctx_rule ru_txt ctx of
                Some records \<Rightarrow>
                  (Inr (Some (new_with_max_ttl (ze_now E) query
                     (map (\<lambda>txt. from_rdata (q_name query) (ucast (local_ttl (cx_cfg ctx))) (RD_OTHER RT_TXT txt)) records))), ctx, s)
              | None \<Rightarrow> (Inr None, ctx, s))
         | RT_SRV \<Rightarrow>
             (case ctx_rule ru_srv ctx of
                Some srv \<Rightarrow> (Inr (Some (response_from_rdata (ze_now E) query (RD_OTHER RT_SRV srv))), ctx, s)
              | None \<Rightarrow> (Inr None, ctx, s))
         | RT_HTTPS \<Rightarrow>
             (case ctx_rule ru_https ctx of
                Some HIgnore \<Rightarrow> (Inr None, ctx, s)
              | Some HSOA \<Rightarrow> (Inr (Some (response_from_rdata (ze_now E) query default_soa_rdata)), ctx, s)
              | Some (HFilter no4 no6) \<Rightarrow>
                  (case nxt ctx req s of
                     (Inr lookup, ctx', s') \<Rightarrow>
                       (Inr (Some (deref_mut (\<lambda>m. m\<lparr>msg_answers := map (filter_hints no4 no6) (msg_answers m)\<rparr>) lookup)), ctx', s')
                   | (Inl e, ctx', s') \<Rightarrow> (Inl e, ctx', s'))
              | Some (HRecordData https) \<Rightarrow>
                  (Inr (Some (response_from_rdata (ze_now E) query (RD_SVCB RT_HTTPS https))), ctx, s)
              | None \<Rightarrow> (Inr None, ctx, s))
         | _ \<Rightarrow> (Inr None, ctx, s))"

section \<open>The manager and the middleware\<close>

definition with_provider :: "zone_provider \<Rightarrow> zone_provider list \<Rightarrow> zone_provider list" where
  "with_provider p ps = ps @ [p]"

fun manager_lookup :: "zone_provider list \<Rightarrow> zone_provider" where
  "manager_lookup [] ctx req = Inr None"
| "manager_lookup (p # ps) ctx req =
     (case p ctx req of
        Inl e \<Rightarrow> Inl e
      | Inr (Some r) \<Rightarrow> Inr (Some r)
      | Inr None \<Rightarrow> manager_lookup ps ctx req)"

definition zone_new :: "zone_env \<Rightarrow> zone_provider list" where
  "zone_new E = with_provider (identity_lookup E) (with_provider (local_ptr_lookup E) [])"

definition zone_handle :: "zone_env \<Rightarrow> 's middleware" where
  "zone_handle E ctx req nxt s =
     (case ddr_lookup E ctx req of
        Some r \<Rightarrow> (Inr r, ctx, s)
      | None \<Rightarrow>
          (case manager_lookup (zone_new E) ctx req of
             Inl e \<Rightarrow> (Inl e, ctx, s)
           | Inr (Some r) \<Rightarrow> (Inr r, ctx, s)
           | Inr None \<Rightarrow>
               (case rule_lookup E ctx req nxt s of
                  (Inl e, ctx', s') \<Rightarrow> (Inl e, ctx', s')
                | (Inr (Some r), ctx', s') \<Rightarrow> (Inr r, ctx', s')
                | (Inr None, ctx', s') \<Rightarrow> nxt ctx' req s')))"

section \<open>Properties\<close>

lemma manager_zone: "manager_lookup (zone_new E) ctx req =
    (case local_ptr_lookup E ctx req of
       Inl e \<Rightarrow> Inl e | Inr (Some r) \<Rightarrow> Inr (Some r) | Inr None \<Rightarrow> identity_lookup E ctx req)"
  by (simp add: zone_new_def with_provider_def split: sum.split option.split)

lemma zone_stays:
  assumes "nl_zone_of (ze_names E) RESERVED (q_name (rq_query req)) \<or>
    (q_type (rq_query req) = RT_PTR \<and>
     (\<exists>net. ze_parse_arpa E (q_name (rq_query req)) = Some net \<and> (ze_server_net E net \<or> is_private (net_addr net))))"
  shows "\<exists>r. \<forall>nxt s. zone_handle E ctx req nxt s = (Inr r, ctx, s)"
proof (cases "ddr_lookup E ctx req")
  case None
  then have "\<not> nl_zone_of (ze_names E) RESERVED (q_name (rq_query req))"
    by (auto simp: ddr_lookup_def Let_def split: if_splits)
  then obtain net where "q_type (rq_query req) = RT_PTR" "ze_parse_arpa E (q_name (rq_query req)) = Some net"
      "ze_server_net E net \<or> is_private (net_addr net)"
    using assms by blast
  then have "\<exists>r. local_ptr_lookup E ctx req = Inr (Some r)"
    by (auto simp: local_ptr_lookup_def Let_def)
  then obtain r where "local_ptr_lookup E ctx req = Inr (Some r)" ..
  then show ?thesis using None by (simp add: zone_handle_def manager_zone)
qed (simp add: zone_handle_def)

text \<open>
  Queries about the local network do not leave it. A query for a name of \<open>resolver.arpa\<close>, and a reverse query for a
  network that is private or has an address of the server, is answered here, without running the rest of the chain and without
  touching its state; the answer is not an error.
\<close>

theorem local_queries_stay:
  assumes "nl_zone_of (ze_names E) RESERVED (q_name (rq_query req)) \<or>
    (q_type (rq_query req) = RT_PTR \<and>
     (\<exists>net. ze_parse_arpa E (q_name (rq_query req)) = Some net \<and> (ze_server_net E net \<or> is_private (net_addr net))))"
  shows "\<exists>r. \<forall>nxt s. zone_handle E ctx req nxt s = (Inr r, ctx, s)"
  using assms by (rule zone_stays)

text \<open>
  The SVCB answers of the discovery: one for each encrypted bind that offers it, in the order of the binds, with the
  priorities \<open>1\<close>, \<open>2\<close>,
\<close>

definition discoverable :: "zone_env \<Rightarrow> zone_bind \<Rightarrow> bool" where
  "discoverable E b \<longleftrightarrow> ddr_on b \<and> ddr_alpn b \<noteq> None \<and>
     \<not> nl_is_root (ze_names E) (ddr_target E b) \<and> \<not> nl_zone_of (ze_names E) RESERVED (ddr_target E b)"

definition svcb_key :: "rr \<Rightarrow> (u16 \<times> name) option" where
  "svcb_key r = (case rr_data r of RD_SVCB _ s \<Rightarrow> Some (sv_priority s, sv_target s) | _ \<Rightarrow> None)"

lemma ddr_step_discovery:
  assumes "q_type (rq_query req) = RT_SVCB" "nl_eq (ze_names E) (q_name (rq_query req)) DISCOVERY" "ddr_on b"
  shows "ddr_step E ctx req ttl b st =
    (if discoverable E b
     then ddr_svcb E ctx req ttl b (fst (the (ddr_alpn b))) (snd (the (ddr_alpn b))) st else st)"
proof -
  have "\<not> is_ip_addr (q_type (rq_query req))" using assms(1) by (simp add: RT_SVCB_def)
  then show ?thesis
    using assms by (cases "ddr_alpn b") (simp_all add: ddr_step_def discoverable_def Let_def split_beta)
qed

lemma ddr_svcb_answers:
  "map svcb_key (answers (dd_result (ddr_svcb E ctx req ttl b alpn https st))) =
     map svcb_key (answers (dd_result st)) @ [Some (dd_priority st, ddr_target E b)]"
  "dd_priority (ddr_svcb E ctx req ttl b alpn https st) = dd_priority st + 1"
  by (simp_all add: ddr_svcb_def Let_def add_answer_def add_additional_def deref_mut_def from_rdata_def svcb_key_def
      split: option.split)

lemma ddr_fold_answers:
  assumes "q_type (rq_query req) = RT_SVCB" "nl_eq (ze_names E) (q_name (rq_query req)) DISCOVERY" "\<forall>b\<in>set bs. ddr_on b"
  shows "map svcb_key (answers (dd_result (fold (ddr_step E ctx req ttl) bs st))) =
    map svcb_key (answers (dd_result st)) @
    map (\<lambda>(i, b). Some (dd_priority st + of_nat i, ddr_target E b)) (enumerate 0 (filter (discoverable E) bs))"
  using assms(3)
proof (induction bs arbitrary: st)
  case (Cons b bs)
  have shift: "map (\<lambda>(i, b). Some (p + 1 + of_nat i, ddr_target E b)) (enumerate 0 xs) =
      map (\<lambda>(i, b). Some (p + of_nat i, ddr_target E b)) (enumerate 1 xs)" for p :: u16 and xs
    by (simp add: enumerate_Suc_eq [of 0] split_beta ac_simps)
  show ?case
    using Cons.IH [of "ddr_step E ctx req ttl b st"] Cons.prems
    by (simp add: ddr_step_discovery [OF assms(1,2)] ddr_svcb_answers shift)
qed simp

text \<open>
  Discovery names every designated resolver. The answer to the SVCB query for \<open>_dns.resolver.arpa\<close> has, in the
  order of the binds, one record for each enabled encrypted bind that offers discovery and has a name outside \<open>resolver.arpa\<close>, with the priorities from
  1 on and the bind's name as target; with none there is a SOA record instead.
\<close>

theorem discovery_complete:
  assumes "q_type (rq_query req) = RT_SVCB" and "nl_eq (ze_names E) (q_name (rq_query req)) DISCOVERY"
    and "nl_zone_of (ze_names E) RESERVED (q_name (rq_query req))"
  shows "\<exists>r. ddr_lookup E ctx req = Some r \<and>
    map svcb_key (answers r) =
      map (\<lambda>(i, b). Some (1 + of_nat i, ddr_target E b)) (enumerate 0 (filter (discoverable E) (ze_binds E))) \<and>
    (filter (discoverable E) (ze_binds E) = [] \<longrightarrow>
       authorities r = [from_rdata (q_name (rq_query req)) (ucast (local_ttl (cx_cfg ctx))) default_soa_rdata])"
proof -
  let ?ttl = "ucast (local_ttl (cx_cfg ctx))"
  let ?st = "\<lparr>dd_result = new_with_max_ttl (ze_now E) (rq_query req) [], dd_priority = 1, dd_match = False\<rparr>"
  let ?r = "dd_result (fold (ddr_step E ctx req ?ttl) (filter ddr_on (ze_binds E)) ?st)"
  have f: "filter (discoverable E) (filter ddr_on bs) = filter (discoverable E) bs" for bs
    by (auto simp: discoverable_def intro: filter_cong)
  have a: "map svcb_key (answers ?r) =
      map (\<lambda>(i, b). Some (1 + of_nat i, ddr_target E b)) (enumerate 0 (filter (discoverable E) (ze_binds E)))"
    using ddr_fold_answers [OF assms(1,2), of "filter ddr_on (ze_binds E)" ctx ?ttl ?st]
    by (simp only: f) (simp add: new_with_max_ttl_def new_with_deadline_def)
  have auth: "authorities (dd_result (fold (ddr_step E ctx req ?ttl) bs st)) = authorities (dd_result st)"
    if "\<forall>b\<in>set bs. ddr_on b" for bs st
    using that
  proof (induction bs arbitrary: st)
    case (Cons b bs)
    then show ?case
      by (simp add: ddr_step_discovery [OF assms(1,2)] ddr_svcb_def Let_def add_answer_def add_additional_def deref_mut_def
          split: option.split)
  qed simp
  have n: "answers ?r = [] \<longleftrightarrow> filter (discoverable E) (ze_binds E) = []"
    using a by (metis (no_types, lifting) enumerate_simps(1) length_0_conv length_enumerate length_map map_is_Nil_conv)
  have "authorities ?r = []" using auth [of "filter ddr_on (ze_binds E)" ?st] by (simp add: new_with_max_ttl_def new_with_deadline_def)
  then show ?thesis
    using assms(3) a n by (simp add: ddr_lookup_def Let_def add_authority_def deref_mut_def)
qed

definition example_zone_bind :: zone_bind where
  "example_zone_bind =
     \<lparr>zb_bind = \<lparr>ba_kind = BindTls, ba_addr = BindV4 0x0a000001, ba_port = 853, ba_enabled = None, ba_device = None\<rparr>,
      zb_opts = server_opts_default\<lparr>so_ddr := Some True\<rparr>, zb_ssl_server_name = None\<rparr>"

definition example_zone :: zone_env where
  "example_zone =
     \<lparr>ze_names = std_lib, ze_parse_name = (\<lambda>_. None), ze_prepend_label = (\<lambda>_ _. None),
      ze_parse_arpa = (\<lambda>_. Some \<lparr>net_addr = V4 0x0a000001, net_prefix = 32\<rparr>), ze_ip_to_string = (\<lambda>_. []), ze_json = (\<lambda>_. []),
      ze_txt = ascii, ze_now = 0, ze_binds = [example_zone_bind], ze_server_name = ascii_name [''dns'', ''lan''] True,
      ze_server_net = (\<lambda>_. False), ze_mac = (\<lambda>_. None), ze_route = (\<lambda>_. None), ze_version = ''1''\<rparr>"

definition zone_ctx :: dns_context where
  "zone_ctx = context_new std_lib DISCOVERY config_default server_opts_default"

definition zone_request :: "name \<Rightarrow> record_type \<Rightarrow> dns_request" where
  "zone_request n t =
     request_new 1 \<lparr>msg_rcode = NoError, msg_truncated = False, msg_queries = [\<lparr>q_name = n, q_type = t, q_class = 1\<rparr>],
       msg_answers = [], msg_authorities = [], msg_additionals = []\<rparr> (V4 1) None"

lemma zone_request_query [simp]: "rq_query (zone_request n t) = \<lparr>q_name = n, q_type = t, q_class = 1\<rparr>"
  by (simp add: zone_request_def request_new_def)

theorem local_queries_stay_witness:
  "\<exists>r. \<forall>nxt (s :: unit). zone_handle example_zone zone_ctx
      (zone_request (ascii_name [''1'', ''0'', ''0'', ''10'', ''in-addr'', ''arpa''] True) RT_PTR) nxt s = (Inr r, zone_ctx, s)"
proof (rule local_queries_stay)
  have "is_private (V4 0x0a000001)" by code_simp
  then show "nl_zone_of (ze_names example_zone) RESERVED
      (q_name (rq_query (zone_request (ascii_name [''1'', ''0'', ''0'', ''10'', ''in-addr'', ''arpa''] True) RT_PTR))) \<or>
    (q_type (rq_query (zone_request (ascii_name [''1'', ''0'', ''0'', ''10'', ''in-addr'', ''arpa''] True) RT_PTR)) = RT_PTR \<and>
     (\<exists>net. ze_parse_arpa example_zone
         (q_name (rq_query (zone_request (ascii_name [''1'', ''0'', ''0'', ''10'', ''in-addr'', ''arpa''] True) RT_PTR))) = Some net \<and>
       (ze_server_net example_zone net \<or> is_private (net_addr net))))"
    by (simp add: example_zone_def)
qed

theorem discovery_complete_witness:
  "\<exists>r. ddr_lookup example_zone zone_ctx (zone_request DISCOVERY RT_SVCB) = Some r \<and>
    map svcb_key (answers r) = [Some (1, ascii_name [''dns'', ''lan''] True)]"
proof -
  have q: "nl_eq (ze_names example_zone) DISCOVERY DISCOVERY" "nl_zone_of (ze_names example_zone) RESERVED DISCOVERY"
    by code_simp+
  have b: "ze_binds example_zone = [example_zone_bind]" by (simp add: example_zone_def)
  have d: "discoverable example_zone example_zone_bind" "ddr_target example_zone example_zone_bind = ascii_name [''dns'', ''lan''] True"
    by code_simp+
  show ?thesis
    using discovery_complete [of "zone_request DISCOVERY RT_SVCB" example_zone zone_ctx] q by (simp add: b d)
qed

end
