(* ===== verification/Netlink.thy ===== *)
theory Netlink
  imports Zone_Mw
begin

unbundle bit_operations_syntax

text \<open>
  The netlink messages that put an address into a kernel set (\<^verbatim>\<open>src/src/infra/kernel_ipset.rs\<close>,
  \<^verbatim>\<open>src/src/infra/kernel_nftset.rs\<close>).

  \<open>le\<close> says whether the machine is little-endian (\<open>to_ne_bytes\<close>). Sending a packet and waiting for the answer is I/O:
  the kernel is an argument of \<open>nft_add\<close> and \<open>ipset_add\<close> that maps a packet to the payloads of its reply or an error code.
\<close>

section \<open>Numbers\<close>

definition to_be_bytes :: "nat \<Rightarrow> 'a :: len word \<Rightarrow> bytes" where
  "to_be_bytes k w = map (\<lambda>i. ucast (drop_bit (8 * i) w)) (rev [0..<k])"

definition to_ne_bytes :: "bool \<Rightarrow> nat \<Rightarrow> 'a :: len word \<Rightarrow> bytes" where
  "to_ne_bytes le k w = (if le then rev (to_be_bytes k w) else to_be_bytes k w)"

definition from_be_bytes :: "bytes \<Rightarrow> 'a :: len word" where
  "from_be_bytes bs = fold (\<lambda>b a. push_bit 8 a + ucast b) bs 0"

definition from_ne_bytes :: "bool \<Rightarrow> bytes \<Rightarrow> 'a :: len word" where
  "from_ne_bytes le bs = from_be_bytes (if le then rev bs else bs)"

definition align4 :: "nat \<Rightarrow> nat" where
  "align4 n = (n + 3) div 4 * 4"

section \<open>Attributes and messages\<close>

datatype netlink_error = InvalidInput string | OtherError string | OsError nat | TimedOut

definition attribute :: "bool \<Rightarrow> u16 \<Rightarrow> bytes \<Rightarrow> bytes" where
  "attribute le knd value =
     (let len = 4 + length value
      in to_ne_bytes le 2 (of_nat len :: u16) @ to_ne_bytes le 2 knd @ value @ replicate (align4 len - len) 0)"

definition nl_message :: "bool \<Rightarrow> u16 \<Rightarrow> u16 \<Rightarrow> u32 \<Rightarrow> u8 \<Rightarrow> bytes \<Rightarrow> bytes" where
  "nl_message le knd flags sequence family attrs =
     to_ne_bytes le 4 (20 + of_nat (length attrs) :: u32) @ to_ne_bytes le 2 knd @ to_ne_bytes le 2 flags @
     to_ne_bytes le 4 sequence @ to_ne_bytes le 4 (0 :: u32) @ [family, 0, 0, 0] @ attrs"

definition family_number :: "string \<Rightarrow> netlink_error + u8" where
  "family_number n =
     (if n = ''inet'' then Inr 1 else if n = ''ip'' then Inr 2 else if n = ''arp'' then Inr 3
      else if n = ''netdev'' then Inr 5 else if n = ''bridge'' then Inr 7 else if n = ''ip6'' then Inr 10
      else if n = ''decnet'' then Inr 12 else Inl (InvalidInput ''unknown nftables family''))"

definition bad_name :: "nat \<Rightarrow> string \<Rightarrow> bool" where
  "bad_name limit n \<longleftrightarrow> n = [] \<or> length n \<ge> limit \<or> CHR 0x00 \<in> set n"

definition set_attributes :: "bool \<Rightarrow> string \<Rightarrow> string \<Rightarrow> netlink_error + bytes" where
  "set_attributes le table set_name =
     (if list_ex (bad_name 256) [table, set_name] then Inl (InvalidInput ''invalid nftables table/set name'')
      else Inr (attribute le 1 (ascii table @ [0]) @ attribute le 2 (ascii set_name @ [0])))"

text \<open>The loop over the attributes of a reply; each turn drops at least four bytes.\<close>

function flags_loop :: "bool \<Rightarrow> bytes \<Rightarrow> netlink_error + u32" where
  "flags_loop le attrs =
     (if length attrs \<ge> 4
      then
        (let len = unat (from_ne_bytes le (take 2 attrs) :: u16);
             knd = (from_ne_bytes le (take 2 (drop 2 attrs)) :: u16) AND 0x3fff
         in if len < 4 \<or> len > length attrs then Inl (OtherError ''nftables response omits set flags'')
            else if knd = 3 \<and> len = 8 then Inr (from_be_bytes (take 4 (drop 4 attrs)))
            else flags_loop le (drop (align4 len) attrs))
      else Inl (OtherError ''nftables response omits set flags''))"
  by pat_completeness auto
termination
proof (relation "measure (length \<circ> snd)", simp)
  fix le attrs len knd
  assume "4 \<le> length attrs" "len = unat (from_ne_bytes le (take 2 attrs) :: u16)" "\<not> (len < 4 \<or> length attrs < len)"
  then have "0 < align4 len" "0 < length attrs" by (auto simp: align4_def)
  then show "((le, drop (align4 len) attrs), le, attrs) \<in> measure (length \<circ> snd)" by simp
qed

declare flags_loop.simps [simp del]

definition set_flags :: "bool \<Rightarrow> bytes \<Rightarrow> netlink_error + u32" where
  "set_flags le reply =
     (if length reply < 4 then Inl (OtherError ''missing nftables set metadata'') else flags_loop le (drop 4 reply))"

text \<open>The loop of \<open>elements\<close> over the bytes of the address from the last to the first: the sum and the carry.\<close>

fun add_one :: "bytes \<Rightarrow> bytes \<times> bool" where
  "add_one [] = ([], True)"
| "add_one (b # bs) = (if b + 1 = 0 then (let (cs, c) = add_one bs in (0 # cs, c)) else ((b + 1) # bs, False))"

definition elements :: "bool \<Rightarrow> ip_addr \<Rightarrow> u32 \<Rightarrow> u32 \<Rightarrow> netlink_error + bytes" where
  "elements le ip flags timeout =
     (let address = ip_bytes ip;
          element = attribute le 0x8001 (attribute le 1 address);
          element = (if flags AND 16 \<noteq> 0 \<and> timeout > 0
                     then element @ attribute le 4 (to_be_bytes 8 (ucast timeout * 1000 :: u64)) else element);
          items = attribute le 0x8001 element
      in if flags AND 4 \<noteq> 0
         then
           (let (last, carried) = add_one (rev address)
            in if carried then Inl (InvalidInput ''nftables interval endpoint overflows'')
               else
                 let element = attribute le 3 (to_be_bytes 4 (1 :: u32)) @ attribute le 0x8001 (attribute le 1 (rev last))
                 in Inr (attribute le 0x8003 (items @ attribute le 0x8001 element)))
         else Inr (attribute le 0x8003 items))"

definition set_bytes :: "nat \<Rightarrow> bytes \<Rightarrow> bytes \<Rightarrow> bytes" where
  "set_bytes i new bs = take i bs @ new @ drop (i + length new) bs"

definition nft_batch :: "bool \<Rightarrow> u16 \<Rightarrow> u8 \<Rightarrow> bytes \<Rightarrow> bytes" where
  "nft_batch le command family attrs =
     set_bytes 18 (to_be_bytes 2 (10 :: u16)) (nl_message le 16 1 1 0 []) @
     nl_message le (push_bit 8 10 OR command) (1 OR 4 OR 0x400) 2 family attrs @
     set_bytes 18 (to_be_bytes 2 (10 :: u16)) (nl_message le 17 1 3 0 [])"

section \<open>Adding to a set\<close>

definition ENOENT :: nat where
  "ENOENT = 2"

type_synonym kernel = "bytes \<Rightarrow> u32 \<Rightarrow> netlink_error + bytes list"

text \<open>The packets sent, in order, and the result.\<close>

definition nft_add ::
  "bool \<Rightarrow> kernel \<Rightarrow> string \<Rightarrow> string \<Rightarrow> string \<Rightarrow> ip_addr \<Rightarrow> u32 \<Rightarrow> bytes list \<times> (netlink_error + unit)" where
  "nft_add le exchange family_name table set_name ip timeout =
     (case family_number family_name of
        Inl e \<Rightarrow> ([], Inl e)
      | Inr family \<Rightarrow>
          (case set_attributes le table set_name of
             Inl e \<Rightarrow> ([], Inl e)
           | Inr attrs \<Rightarrow>
               (let get = nl_message le (push_bit 8 10 OR 10) (1 OR 4) 1 family attrs
                in case exchange get 1 of
                     Inl e \<Rightarrow> ([get], Inl e)
                   | Inr [] \<Rightarrow> ([get], Inl (OtherError ''missing nftables set response''))
                   | Inr (reply # _) \<Rightarrow>
                       (case set_flags le reply of
                          Inl e \<Rightarrow> ([get], Inl e)
                        | Inr flags \<Rightarrow>
                            (case (elements le ip flags timeout, elements le ip flags 0) of
                               (Inr els, Inr els0) \<Rightarrow>
                                 (let del = nft_batch le 14 family (attrs @ els0);
                                      new = nft_batch le 12 family (attrs @ els);
                                      (sent, err) =
                                        (if timeout > 0 \<and> flags AND 16 \<noteq> 0
                                         then ([get, del],
                                               (case exchange del 2 of
                                                  Inl e \<Rightarrow> if e = OsError ENOENT then None else Some e
                                                | Inr _ \<Rightarrow> None))
                                         else ([get], None))
                                  in case err of
                                       Some e \<Rightarrow> (sent, Inl e)
                                     | None \<Rightarrow>
                                         (sent @ [new], (case exchange new 2 of Inl e \<Rightarrow> Inl e | Inr _ \<Rightarrow> Inr ())))
                             | (Inl e, _) \<Rightarrow> ([get], Inl e)
                             | (_, Inl e) \<Rightarrow> ([get], Inl e))))))"

definition ipset_request :: "bool \<Rightarrow> string \<Rightarrow> ip_addr \<Rightarrow> u32 \<Rightarrow> netlink_error + bytes" where
  "ipset_request le n ip timeout =
     (if bad_name 32 n then Inl (InvalidInput ''invalid IPSet name'')
      else
        let header = to_ne_bytes le 2 (push_bit 8 6 OR 9 :: u16) @ to_ne_bytes le 2 (1 OR 4 OR 0x100 :: u16) @
              to_ne_bytes le 4 (1 :: u32) @ [0, 0, 0, 0];
            data = attribute le 0x8001 (attribute le (case ip of V4 _ \<Rightarrow> 0x4001 | V6 _ \<Rightarrow> 0x4002) (ip_bytes ip));
            data = (if timeout > 0 then data @ attribute le 0x4006 (to_be_bytes 4 timeout) else data);
            body = header @ [case ip of V4 _ \<Rightarrow> 2 | V6 _ \<Rightarrow> 10, 0, 0, 6] @ attribute le 1 [6] @
              attribute le 2 (ascii n @ [0]) @ attribute le 0x8007 data
        in Inr (to_ne_bytes le 4 (of_nat (4 + length body) :: u32) @ body))"

definition ipset_add ::
  "bool \<Rightarrow> kernel \<Rightarrow> string \<Rightarrow> ip_addr \<Rightarrow> u32 \<Rightarrow> bytes list \<times> (netlink_error + unit)" where
  "ipset_add le exchange n ip timeout =
     (case ipset_request le n ip timeout of
        Inl e \<Rightarrow> ([], Inl e)
      | Inr packet \<Rightarrow> ([packet], (case exchange packet 1 of Inl e \<Rightarrow> Inl e | Inr _ \<Rightarrow> Inr ())))"

section \<open>Reading back\<close>

lemma ucast_u8: "ucast (ucast x :: u8) = (take_bit 8 x :: 'a :: len word)"
  by (rule bit_word_eqI) (auto simp: bit_simps)

lemma length_to_be_bytes [simp]: "length (to_be_bytes k w) = k"
  by (simp add: to_be_bytes_def)

lemma length_to_ne_bytes [simp]: "length (to_ne_bytes le k w) = k"
  by (simp add: to_ne_bytes_def)

lemma fold_be_bytes:
  "fold (\<lambda>b a. push_bit 8 a + ucast b) (to_be_bytes k w) a = push_bit (8 * k) a + take_bit (8 * k) (w :: 'a :: len word)"
proof (induction k arbitrary: a)
  case (Suc k)
  have s: "to_be_bytes (Suc k) w = ucast (drop_bit (8 * k) w) # to_be_bytes k w"
    by (simp add: to_be_bytes_def)
  have "push_bit (8 * k) (take_bit 8 (drop_bit (8 * k) w)) + take_bit (8 * k) w = take_bit (8 * k + 8) w"
    using bits_ident [of "8 * k" "take_bit (8 * k + 8) w"] by (simp add: drop_bit_take_bit)
  then show ?case
    by (simp add: s Suc.IH ucast_u8 push_bit_add add.assoc add.commute [of 8])
qed (simp add: to_be_bytes_def)

lemma from_to_be_bytes: "LENGTH('a) \<le> 8 * k \<Longrightarrow> from_be_bytes (to_be_bytes k w) = (w :: 'a :: len word)"
  by (simp add: from_be_bytes_def fold_be_bytes take_bit_word_eq_self)

lemma from_to_ne_bytes: "LENGTH('a) \<le> 8 * k \<Longrightarrow> from_ne_bytes le (to_ne_bytes le k w) = (w :: 'a :: len word)"
  by (simp add: from_ne_bytes_def to_ne_bytes_def from_to_be_bytes)

lemma align4_ge: "n \<le> align4 n"
  unfolding align4_def by linarith

lemma length_attribute [simp]: "length (attribute le k v) = align4 (4 + length v)"
  using align4_ge [of "4 + length v"] by (simp add: attribute_def Let_def)

text \<open>A turn of the loop reads one attribute.\<close>

lemma flags_loop_attribute:
  assumes "length v + 4 < 2 ^ 16"
  shows "flags_loop le (attribute le k v @ rest) =
    (if k AND 0x3fff = 3 \<and> length v = 4 then Inr (from_be_bytes v) else flags_loop le rest)"
proof -
  let ?a = "attribute le k v @ rest"
  have len: "unat (of_nat (4 + length v) :: u16) = 4 + length v"
    using assms by (simp add: unat_of_nat del: of_nat_add)
  have a: "?a = to_ne_bytes le 2 (of_nat (4 + length v) :: u16) @ to_ne_bytes le 2 k @ v @
      replicate (align4 (4 + length v) - (4 + length v)) 0 @ rest"
    by (simp add: attribute_def Let_def)
  have t: "take 2 ?a = to_ne_bytes le 2 (of_nat (4 + length v) :: u16)" "take 2 (drop 2 ?a) = to_ne_bytes le 2 k"
    "take 4 (drop 4 ?a) = take 4 (v @ replicate (align4 (4 + length v) - (4 + length v)) 0 @ rest)"
    unfolding a by (simp_all del: of_nat_add)
  have d: "drop (align4 (4 + length v)) ?a = rest" by simp
  have l: "4 + length v \<le> length ?a" using align4_ge [of "4 + length v"] by simp
  have v4: "take 4 (v @ ys) = v" if "length v = 4" for ys using that by simp
  have n: "unat (from_ne_bytes le (take 2 ?a) :: u16) = 4 + length v"
    unfolding t using len by (simp add: from_to_ne_bytes del: of_nat_add)
  have kk: "from_ne_bytes le (take 2 (drop 2 ?a)) = k"
    unfolding t by (simp add: from_to_ne_bytes)
  define b where "b = ?a"
  have "flags_loop le b = (if k AND 0x3fff = 3 \<and> length v = 4 then Inr (from_be_bytes v) else flags_loop le rest)"
    using n kk d t(3) v4 l flags_loop.simps [of le b] unfolding b_def [symmetric] by (auto simp: Let_def)
  then show ?thesis by (simp add: b_def)
qed

text \<open>
  The flags of a set are read from every reply that has them: behind the four bytes of the header and any attributes of
  other kinds, each shorter than 64 KiB and padded to four bytes, \<open>set_flags\<close> finds the first flags attribute and
  returns its number; in a reply of other attributes only it reports the error, after finitely many turns.
\<close>

theorem set_flags_found:
  assumes "length header = 4" and "\<forall>(k, v)\<in>set before. length v + 4 < 2 ^ 16 \<and> \<not> (k AND 0x3fff = 3 \<and> length v = 4)"
    and "k AND 0x3fff = 3"
  shows "set_flags le (header @ concat (map (\<lambda>(k, v). attribute le k v) before) @ attribute le k (to_be_bytes 4 flags) @ rest) =
      Inr flags
    \<and> set_flags le (header @ concat (map (\<lambda>(k, v). attribute le k v) before)) =
      Inl (OtherError ''nftables response omits set flags'')"
proof -
  have skip: "flags_loop le (concat (map (\<lambda>(k, v). attribute le k v) bs) @ r) = flags_loop le r"
    if "\<forall>(k, v)\<in>set bs. length v + 4 < 2 ^ 16 \<and> \<not> (k AND 0x3fff = 3 \<and> length v = 4)" for bs r
    using that by (induction bs) (auto simp: flags_loop_attribute)
  have "flags_loop le [] = Inl (OtherError ''nftables response omits set flags'')"
    by (simp add: flags_loop.simps)
  then show ?thesis
    using assms(1,3) skip [OF assms(2)] skip [OF assms(2), of "[]"]
    by (simp add: set_flags_def flags_loop_attribute from_to_be_bytes)
qed

theorem set_flags_found_witness:
  "set_flags True ([1, 0, 0, 0] @ attribute True 1 (ascii ''fw'') @ attribute True 3 (to_be_bytes 4 (20 :: u32)) @ []) = Inr 20"
  using set_flags_found [of "[1, 0, 0, 0]" "[(1, ascii ''fw'')]" 3 True 20 "[]"] by (simp add: ascii_def)

section \<open>Intervals\<close>

definition le_bytes :: "nat \<Rightarrow> nat \<Rightarrow> bytes" where
  "le_bytes k n = map (\<lambda>i. of_nat (n div 256 ^ i)) [0..<k]"

lemma le_bytes_Suc: "le_bytes (Suc k) n = of_nat n # le_bytes k (n div 256)"
proof -
  have "[0..<Suc k] = 0 # map Suc [0..<k]" by (simp add: map_Suc_upt upt_conv_Cons del: upt_Suc)
  then show ?thesis by (simp add: le_bytes_def div_mult2_eq del: upt_Suc)
qed

lemma add_one_le_bytes: "add_one (le_bytes k n) = (le_bytes k (n + 1), (n + 1) mod 256 ^ k = 0)"
proof (induction k arbitrary: n)
  case 0
  then show ?case by (simp add: le_bytes_def)
next
  case (Suc k)
  have z: "(of_nat n + 1 :: u8) = 0 \<longleftrightarrow> (n + 1) mod 256 = 0"
    using word_of_nat_eq_0_iff [of "n + 1", where 'a = 8] by (simp add: dvd_eq_mod_eq_0 add.commute)
  show ?case
  proof (cases "(n + 1) mod 256 = 0")
    case True
    then obtain m where m: "n + 1 = 256 * m" by (metis mod_0_imp_dvd dvdE)
    moreover have dS: "(n + 1) div 256 = n div 256 + 1" using True by (simp add: div_Suc)
    ultimately have d: "n div 256 + 1 = m" by simp
    have "(of_nat (n + 1) :: u8) = 0" using z True by (simp add: add.commute)
    moreover note dS
    moreover have "(n + 1) mod 256 ^ Suc k = 0 \<longleftrightarrow> (n div 256 + 1) mod 256 ^ k = 0"
      unfolding m d by (simp add: mod_mult_mult1)
    ultimately show ?thesis using True z by (simp add: le_bytes_Suc Suc.IH)
  next
    case False
    then have "(n + 1) div 256 = n div 256" by (simp add: div_Suc)
    moreover have "(n + 1) mod 256 ^ Suc k \<noteq> 0"
      using False by (metis dvd_eq_mod_eq_0 dvd_trans dvd_triv_left power_Suc)
    ultimately show ?thesis using False z by (simp add: le_bytes_Suc)
  qed
qed

lemma le_bytes_word: "map (\<lambda>i. ucast (drop_bit (8 * i) a)) [0..<k] = le_bytes k (unat (a :: 'a :: len word))"
proof -
  have "ucast (drop_bit (8 * i) a) = (of_nat (unat a div 256 ^ i) :: u8)" for i
    by (rule word_unat_eq_iff [THEN iffD2])
      (simp add: unsigned_ucast_eq unsigned_drop_bit_eq unat_of_nat take_bit_eq_mod, simp add: drop_bit_eq_div power_mult)
  then show ?thesis by (simp add: le_bytes_def)
qed

definition next_ip :: "ip_addr \<Rightarrow> ip_addr option" where
  "next_ip ip = (case ip of V4 a \<Rightarrow> if a + 1 = 0 then None else Some (V4 (a + 1)) | V6 a \<Rightarrow> if a + 1 = 0 then None else Some (V6 (a + 1)))"

lemma byte_mod: "i < k \<Longrightarrow> x mod 256 ^ k div 256 ^ i mod 256 = x div 256 ^ i mod (256 :: nat)"
proof -
  assume "i < k"
  then have "8 \<le> 8 * k - 8 * i" by simp
  then have "take_bit 8 (drop_bit (8 * i) (take_bit (8 * k) x)) = take_bit 8 (drop_bit (8 * i) x)"
    by (simp add: drop_bit_take_bit min_def)
  then show ?thesis by (simp add: take_bit_eq_mod drop_bit_eq_div power_mult)
qed

lemma le_bytes_next:
  fixes a :: "'a :: len word"
  assumes k: "256 ^ k = (2 :: nat) ^ LENGTH('a)"
  shows "add_one (le_bytes k (unat a)) = (le_bytes k (unat (a + 1)), a + 1 = 0)"
proof -
  have u: "unat (a + 1) = (unat a + 1) mod 256 ^ k"
    using k by (simp add: unat_word_ariths)
  have "le_bytes k (unat a + 1) = le_bytes k (unat (a + 1))"
    unfolding u le_bytes_def by (intro map_cong refl) (simp add: word_unat_eq_iff unat_of_nat byte_mod del: Suc_eq_plus1)
  moreover have "(unat a + 1) mod 256 ^ k = 0 \<longleftrightarrow> a + 1 = 0"
    using u by (metis unat_eq_zero)
  ultimately show ?thesis by (simp only: add_one_le_bytes)
qed

lemma ip_bytes_le: "rev (ip_bytes (V4 a)) = le_bytes 4 (unat a)" "rev (ip_bytes (V6 b)) = le_bytes 16 (unat b)"
  by (simp_all only: ip_bytes_def ip_addr.case rev_map [symmetric] rev_rev_ident le_bytes_word)

lemma add_one_next_ip:
  "case next_ip ip of
     Some i \<Rightarrow> add_one (rev (ip_bytes ip)) = (rev (ip_bytes i), False)
   | None \<Rightarrow> snd (add_one (rev (ip_bytes ip)))"
proof (cases ip)
  case (V4 a)
  then show ?thesis using le_bytes_next [of 4 a] by (simp only: next_ip_def V4 ip_bytes_le ip_addr.case) (simp add: ip_bytes_le)
next
  case (V6 a)
  then show ?thesis using le_bytes_next [of 16 a] by (simp only: next_ip_def V6 ip_bytes_le ip_addr.case) (simp add: ip_bytes_le)
qed

text \<open>
  An address is put into an interval set as the interval of this one address: the first element is the address, with its timeout
  if the set has timeouts and one is given, and the second the end of the interval, which is the next address; for the last
  address of the family there is none and adding it is an error.
\<close>

theorem interval_covers_one:
  assumes "flags AND 4 \<noteq> 0"
  shows "elements le ip flags timeout =
    (case next_ip ip of
       None \<Rightarrow> Inl (InvalidInput ''nftables interval endpoint overflows'')
     | Some next_address \<Rightarrow>
         Inr (attribute le 0x8003
           (attribute le 0x8001
              (attribute le 0x8001 (attribute le 1 (ip_bytes ip)) @
               (if flags AND 16 \<noteq> 0 \<and> timeout > 0
                then attribute le 4 (to_be_bytes 8 (ucast timeout * 1000 :: u64)) else [])) @
            attribute le 0x8001
              (attribute le 3 (to_be_bytes 4 (1 :: u32)) @
               attribute le 0x8001 (attribute le 1 (ip_bytes next_address))))))"
  using add_one_next_ip [of ip] assms
  by (cases "next_ip ip") (simp_all add: elements_def Let_def split_beta)

theorem interval_covers_one_witness:
  "elements True (V4 0xffffffff) 4 0 = Inl (InvalidInput ''nftables interval endpoint overflows'')"
  using interval_covers_one [of 4 True "V4 0xffffffff" 0] by (simp add: next_ip_def)

end
