(* ===== verification/Sets_Mw.thy ===== *)
theory Sets_Mw
  imports Netlink
begin

text \<open>
  The kernel sets that the addresses of an answer are put into (\<^verbatim>\<open>src/src/dns_mw_nftset.rs\<close>).

  The result of the handler is the answer of the chain; what it does to the kernel is the list of the updates, each of which
  \<open>Netlink\<close> turns into packets. The state of the middleware is the list of the updates made so far.
\<close>

section \<open>Configuration\<close>

definition has_sets :: "server_opts \<Rightarrow> bool" where
  "has_sets opts \<longleftrightarrow> so_ipset opts \<noteq> None \<or> so_nftset opts \<noteq> None"

definition sets_is_configured :: "server_opts list \<Rightarrow> runtime_config \<Rightarrow> bool" where
  "sets_is_configured binds cfg \<longleftrightarrow>
     list_ex has_sets binds \<or> list_ex (\<lambda>r. has_sets (cr_options r)) (cf_client_rules cfg) \<or>
     list_ex (\<lambda>(_, g). rg_nftsets g \<noteq> [] \<or> ns_ipset_no_speed (rg_network_sets g) \<noteq> None \<or>
         ns_nftset_no_speed (rg_network_sets g) \<noteq> None \<or>
         list_ex (\<lambda>rule. ru_ipset (cd_config rule) \<noteq> None \<or> ru_nftset (cd_config rule) \<noteq> None) (rg_domain_rules g))
       (cf_rule_groups cfg)"

section \<open>Choosing sets\<close>

datatype set_update = UpIpSet string ip_addr u32 | UpNftSet nftset_config ip_addr u32

fun applies :: "'a config_for_ip \<Rightarrow> ip_addr \<Rightarrow> bool" where
  "applies (CAll _) ip = True"
| "applies CNone ip = True"
| "applies (CV4 _) ip = is_ipv4 ip"
| "applies CNoneV4 ip = is_ipv4 ip"
| "applies (CV6 _) ip = (\<not> is_ipv4 ip)"
| "applies CNoneV6 ip = (\<not> is_ipv4 ip)"

text \<open>The nearest zone whose sets have a rule for the family.\<close>

fun domain_sets_up ::
  "ip_addr \<Rightarrow> (domain_rule \<Rightarrow> 'a config_for_ip list option) \<Rightarrow> arc tree_node \<Rightarrow> 'a config_for_ip list option" where
  "domain_sets_up ip get (TreeNode a z) =
     (case opt_filter (list_ex (\<lambda>rule. applies rule ip)) (get (arc_rule a)) of
        Some sets \<Rightarrow> Some sets
      | None \<Rightarrow> (case z of None \<Rightarrow> None | Some n \<Rightarrow> domain_sets_up ip get n))"

definition sets_for ::
  "arc tree_node option \<Rightarrow> ip_addr \<Rightarrow> (domain_rule \<Rightarrow> 'a config_for_ip list option) \<Rightarrow> 'a config_for_ip list option" where
  "sets_for node ip get = Option.bind node (domain_sets_up ip get)"

text \<open>A layer: \<open>None\<close> is the early return of an ignore, otherwise the sets for the address.\<close>

fun layer_sets :: "ip_addr \<Rightarrow> 'a config_for_ip list \<Rightarrow> 'a list \<Rightarrow> 'a list option" where
  "layer_sets ip [] sets = Some sets"
| "layer_sets ip (rule # rules) sets =
     (case rule of
        CNone \<Rightarrow> None
      | CNoneV4 \<Rightarrow> if is_ipv4 ip then None else layer_sets ip rules sets
      | CNoneV6 \<Rightarrow> if \<not> is_ipv4 ip then None else layer_sets ip rules sets
      | CAll s \<Rightarrow> layer_sets ip rules (sets @ [s])
      | CV4 s \<Rightarrow> layer_sets ip rules (if is_ipv4 ip then sets @ [s] else sets)
      | CV6 s \<Rightarrow> layer_sets ip rules (if \<not> is_ipv4 ip then sets @ [s] else sets))"

fun select_sets :: "ip_addr \<Rightarrow> 'a config_for_ip list option list \<Rightarrow> 'a list" where
  "select_sets ip [] = []"
| "select_sets ip (None # layers) = select_sets ip layers"
| "select_sets ip (Some layer # layers) =
     (case layer_sets ip layer [] of
        None \<Rightarrow> []
      | Some sets \<Rightarrow> if sets \<noteq> [] then sets else select_sets ip layers)"

section \<open>Updates\<close>

definition network_sets :: "runtime_config \<Rightarrow> string option \<Rightarrow> network_set_options option" where
  "network_sets cfg n = Option.bind n (\<lambda>n. map_option rg_network_sets (map_of (cf_rule_groups cfg) n))"

definition group_option ::
  "dns_context \<Rightarrow> (network_set_options \<Rightarrow> 'a option) \<Rightarrow> 'a option" where
  "group_option ctx f =
     or_else (Option.bind (network_sets (cx_cfg ctx) (so_rule_group (cx_server_opts ctx))) f)
       (Option.bind (network_sets (cx_cfg ctx) (Some ''default'')) f)"

definition set_timeout :: "u32 \<Rightarrow> u32" where
  "set_timeout ttl = max (if unat ttl * 3 < 2 ^ 32 then ttl * 3 else - 1) 1"

definition default_rule :: "name_lib \<Rightarrow> dns_context \<Rightarrow> name \<Rightarrow> dns_response \<Rightarrow> arc tree_node option" where
  "default_rule L ctx query_name response =
     (if (so_rule_group (cx_server_opts ctx) \<in> {None, Some [], Some ''default''}) \<and>
         nl_eq L (q_name (dr_query response)) query_name
      then None
      else find_domain_rule L (cx_cfg ctx) (q_name (dr_query response)) ''default'')"

definition record_updates :: "dns_context \<Rightarrow> arc tree_node option \<Rightarrow> bool \<Rightarrow> rr \<Rightarrow> set_update list" where
  "record_updates ctx defaults failed r =
     (case rr_ip r of
        None \<Rightarrow> []
      | Some ip \<Rightarrow>
          (let rule = cx_domain_rule ctx;
               opts = cx_server_opts ctx;
               domain_ip = or_else (sets_for rule ip ru_ipset) (sets_for defaults ip ru_ipset);
               domain_nft = or_else (sets_for rule ip ru_nftset) (sets_for defaults ip ru_nftset);
               fallback_ip = (if failed then group_option ctx ns_ipset_no_speed else None);
               fallback_nft = (if failed then group_option ctx ns_nftset_no_speed else None);
               timeout = set_timeout (rr_ttl r);
               ipset_timeout = unwrap_or (group_option ctx ns_ipset_timeout) False;
               nftset_timeout = unwrap_or (group_option ctx ns_nftset_timeout) False
           in map (\<lambda>s. UpIpSet s ip (if ipset_timeout then timeout else 0))
                (select_sets ip [domain_ip, so_ipset opts, fallback_ip]) @
              map (\<lambda>s. UpNftSet s ip (if nftset_timeout then timeout else 0))
                (select_sets ip [domain_nft, so_nftset opts, fallback_nft])))"

definition updates :: "name_lib \<Rightarrow> dns_context \<Rightarrow> name \<Rightarrow> dns_response \<Rightarrow> set_update list" where
  "updates L ctx query_name response =
     (if so_is_background (cx_server_opts ctx) \<or> no_rule_ipset (cx_server_opts ctx) then []
      else
        concat (map (record_updates ctx (default_rule L ctx query_name response) (dr_probe response = Failed))
          (answers response)))"

definition sets_handle :: "name_lib \<Rightarrow> (set_update list \<times> 't) middleware" where
  "sets_handle L ctx req nxt st =
     (case nxt ctx req st of
        (Inl e, ctx', st') \<Rightarrow> (Inl e, ctx', st')
      | (Inr response, ctx', st') \<Rightarrow>
          (Inr response, ctx', (fst st' @ updates L ctx' (q_name (rq_query req)) response, snd st')))"

text \<open>What an update sends to the kernel.\<close>

definition apply_update :: "bool \<Rightarrow> kernel \<Rightarrow> set_update \<Rightarrow> bytes list \<times> (netlink_error + unit)" where
  "apply_update le exchange u =
     (case u of
        UpIpSet s ip timeout \<Rightarrow> ipset_add le exchange s ip timeout
      | UpNftSet s ip timeout \<Rightarrow> nft_add le exchange (nft_family s) (nft_table s) (nft_name s) ip timeout)"

section \<open>Which layer decides\<close>

text \<open>The sets that a rule gives an address, and the rules that ignore the address's family.\<close>

fun ignores :: "ip_addr \<Rightarrow> 'a config_for_ip \<Rightarrow> bool" where
  "ignores ip CNone = True"
| "ignores ip CNoneV4 = is_ipv4 ip"
| "ignores ip CNoneV6 = (\<not> is_ipv4 ip)"
| "ignores ip _ = False"

fun set_of :: "ip_addr \<Rightarrow> 'a config_for_ip \<Rightarrow> 'a option" where
  "set_of ip (CAll s) = Some s"
| "set_of ip (CV4 s) = (if is_ipv4 ip then Some s else None)"
| "set_of ip (CV6 s) = (if is_ipv4 ip then None else Some s)"
| "set_of ip _ = None"

text \<open>The first layer that has a rule for the family, an ignore included, decides.\<close>

definition chosen_sets :: "ip_addr \<Rightarrow> 'a config_for_ip list option list \<Rightarrow> 'a list" where
  "chosen_sets ip layers =
     (case find (list_ex (\<lambda>rule. applies rule ip)) (List.map_filter id layers) of
        None \<Rightarrow> []
      | Some layer \<Rightarrow> if list_ex (ignores ip) layer then [] else List.map_filter (set_of ip) layer)"

lemma applies_iff: "applies rule ip \<longleftrightarrow> ignores ip rule \<or> set_of ip rule \<noteq> None"
  by (cases rule) auto

lemma layer_sets_eq:
  "layer_sets ip layer sets = (if list_ex (ignores ip) layer then None else Some (sets @ List.map_filter (set_of ip) layer))"
proof (induction layer arbitrary: sets)
  case (Cons rule layer)
  then show ?case by (cases rule) (auto simp: map_filter_simps)
qed (simp add: map_filter_simps)

lemma layer_applies: "list_ex (\<lambda>rule. applies rule ip) layer \<longleftrightarrow> list_ex (ignores ip) layer \<or> List.map_filter (set_of ip) layer \<noteq> []"
  by (induction layer) (auto simp: applies_iff map_filter_simps split: option.split)

lemma select_sets_chosen: "select_sets ip layers = chosen_sets ip layers"
proof (induction ip layers rule: select_sets.induct)
  case (3 ip layer layers)
  have f: "find (list_ex (\<lambda>rule. applies rule ip)) (List.map_filter id (Some layer # layers)) =
      (if list_ex (\<lambda>rule. applies rule ip) layer then Some layer
       else find (list_ex (\<lambda>rule. applies rule ip)) (List.map_filter id layers))"
    by (simp add: map_filter_simps)
  show ?case
    using 3 unfolding chosen_sets_def f
    by (auto simp: layer_sets_eq layer_applies split: option.splits)
qed (simp_all add: chosen_sets_def map_filter_simps)

lemma set_timeout_value: "unat (set_timeout ttl) = max (min (3 * unat ttl) (2 ^ 32 - 1)) 1"
proof (cases "unat ttl * 3 < 2 ^ 32")
  case True
  then have "unat (ttl * 3) = unat ttl * 3" by (simp add: unat_word_ariths)
  then show ?thesis using True by (simp add: set_timeout_def max_def word_le_nat_alt mult.commute)
next
  case False
  have "unat (- 1 :: u32) = 2 ^ 32 - 1" by (simp add: unsigned_minus_1_eq_mask mask_eq_exp_minus_1)
  then show ?thesis using False by (simp add: set_timeout_def max_def word_le_nat_alt)
qed

text \<open>
  C27: The kernel sets follow the rules. For a query of a client with set rules on, an address goes into an IP set exactly when it is an
  address of the answer and the set is one that the first layer with a rule for its family gives it, of the rules of the nearest zone, the
  listener's or client's options and, after a failed speed check, the group's fallback; a rule that ignores the family
  is such a rule and gives it none. The entry lives three times the record's TTL, at least a second and without wrap-around, or for ever.
\<close>

theorem ip_set_updates_exact:
  assumes "\<not> so_is_background (cx_server_opts ctx)" and "\<not> no_rule_ipset (cx_server_opts ctx)"
  shows "UpIpSet s ip t \<in> set (updates L ctx n response) \<longleftrightarrow>
    (\<exists>r\<in>set (answers response). rr_ip r = Some ip \<and>
       s \<in> set (chosen_sets ip
         [or_else (sets_for (cx_domain_rule ctx) ip ru_ipset) (sets_for (default_rule L ctx n response) ip ru_ipset),
          so_ipset (cx_server_opts ctx),
          if dr_probe response = Failed then group_option ctx ns_ipset_no_speed else None]) \<and>
       unat t = (if group_option ctx ns_ipset_timeout = Some True then max (min (3 * unat (rr_ttl r)) (2 ^ 32 - 1)) 1 else 0))"
proof -
  have t: "t = (if unwrap_or (group_option ctx ns_ipset_timeout) False then set_timeout ttl else 0) \<longleftrightarrow>
      unat t = (if group_option ctx ns_ipset_timeout = Some True then max (min (3 * unat ttl) (2 ^ 32 - 1)) 1 else 0)" for ttl
    by (cases "group_option ctx ns_ipset_timeout") (auto simp: word_unat_eq_iff set_timeout_value)
  have "UpIpSet s ip t \<in> set (record_updates ctx d failed r) \<longleftrightarrow>
      rr_ip r = Some ip \<and>
      s \<in> set (chosen_sets ip [or_else (sets_for (cx_domain_rule ctx) ip ru_ipset) (sets_for d ip ru_ipset),
          so_ipset (cx_server_opts ctx), if failed then group_option ctx ns_ipset_no_speed else None]) \<and>
      t = (if unwrap_or (group_option ctx ns_ipset_timeout) False then set_timeout (rr_ttl r) else 0)" for d failed r
    by (cases "rr_ip r") (auto simp: record_updates_def Let_def select_sets_chosen)
  then show ?thesis
    using assms by (auto simp: updates_def t)
qed

definition sets_ctx :: dns_context where
  "sets_ctx = zone_ctx\<lparr>cx_server_opts := server_opts_default\<lparr>so_ipset := Some [CNoneV6, CAll ''fw'']\<rparr>\<rparr>"

definition sets_response :: dns_response where
  "sets_response = response_from_rdata 0 (rq_query (zone_request DISCOVERY RT_A)) (RD_A 7)"

theorem ip_set_updates_exact_witness:
  "UpIpSet ''fw'' (V4 7) 0 \<in> set (updates std_lib sets_ctx DISCOVERY sets_response)"
proof -
  have o': "\<not> so_is_background (cx_server_opts sets_ctx)" "\<not> no_rule_ipset (cx_server_opts sets_ctx)"
    by (simp_all add: sets_ctx_def server_opts_default_def no_rule_ipset_def)
  have rule: "cx_domain_rule sets_ctx = None" by code_simp
  have "dr_query sets_response = rq_query (zone_request DISCOVERY RT_A)"
    by (simp add: sets_response_def response_from_rdata_def new_with_max_ttl_def new_with_deadline_def dr_query_def)
  then have default: "default_rule std_lib sets_ctx DISCOVERY sets_response = None"
    by (simp add: default_rule_def sets_ctx_def server_opts_default_def std.eq_refl)
  have opts: "so_ipset (cx_server_opts sets_ctx) = Some [CNoneV6, CAll ''fw'']" by (simp add: sets_ctx_def)
  have timeout: "group_option sets_ctx ns_ipset_timeout = None" by code_simp
  have r: "rr_ip (from_rdata DISCOVERY MAX_TTL (RD_A 7)) = Some (V4 7)" by (simp add: from_rdata_def)
  have a: "answers sets_response = [from_rdata DISCOVERY MAX_TTL (RD_A 7)]"
    by (simp add: sets_response_def response_from_rdata_def new_with_max_ttl_def new_with_deadline_def)
  show ?thesis
    unfolding ip_set_updates_exact [OF o'] rule default opts timeout a
    by (simp add: r sets_for_def chosen_sets_def map_filter_simps is_ipv4_def)
qed

end
