(* ===== verification/Audit_Mw.thy ===== *)
theory Audit_Mw
  imports Context
begin

text \<open>
  The audit of queries (\<^verbatim>\<open>src/src/dns_mw_audit.rs\<close>): what is recorded for a query and how the result is printed.

  Records go through a channel to a task that writes them to a file, the console, syslog and plugins; the state of the middleware is the list
  of the records sent. Printing of record data, numbers and types is the packages' and an argument.
\<close>

record audit_record =
  au_id :: u16
  au_client :: ip_addr
  au_query :: query
  au_result :: dns_result
  au_speed :: duration
  au_elapsed :: duration
  au_date :: nat
  au_lookup_source :: lookup_from

definition is_soa_only :: "instant \<Rightarrow> dns_result \<Rightarrow> query \<Rightarrow> bool" where
  "is_soa_only now result query =
     (case (case result of Inr r \<Rightarrow> Some r | Inl e \<Rightarrow> as_no_records_response now e query) of
        None \<Rightarrow> False
      | Some r \<Rightarrow>
          ip_addrs r = [] \<and> list_ex (\<lambda>x. rr_type x = RT_SOA) (answers r @ authorities r))"

definition audit_speed :: "dns_context \<Rightarrow> dns_result \<Rightarrow> duration" where
  "audit_speed ctx res =
     (case map_sum id dr_probe res of Inr (Measured speed) \<Rightarrow> speed | _ \<Rightarrow> cx_fastest_speed ctx)"

text \<open>\<open>now\<close> and \<open>now'\<close> are the instants before and after the chain, \<open>date\<close> the wall clock.\<close>

definition audit_handle :: "bool \<Rightarrow> nat \<Rightarrow> instant \<Rightarrow> instant \<Rightarrow> (audit_record list \<times> 't) middleware" where
  "audit_handle include_soa date now now' ctx req nxt st =
     (case nxt ctx req st of
        (res, ctx', st') \<Rightarrow>
          (if \<not> include_soa \<and> is_soa_only now' res (rq_query req) then (res, ctx', st')
           else
             (res, ctx',
              (fst st' @ [\<lparr>au_id = rq_id req, au_client = rq_src req, au_query = rq_query req, au_result = res,
                 au_speed = audit_speed ctx' res, au_elapsed = now' - now, au_date = date,
                 au_lookup_source = cx_source ctx'\<rparr>], snd st'))))"

definition fmt_record :: "(rr \<Rightarrow> string \<times> string \<times> string) \<Rightarrow> rr \<Rightarrow> string" where
  "fmt_record show r = (case show r of (data, ttl, t) \<Rightarrow> data @ '' '' @ ttl @ '' '' @ t)"

fun join :: "string \<Rightarrow> string list \<Rightarrow> string" where
  "join sep [] = []"
| "join sep [x] = x"
| "join sep (x # xs) = x @ sep @ join sep xs"

definition fmt_result :: "(rr \<Rightarrow> string \<times> string \<times> string) \<Rightarrow> audit_record \<Rightarrow> string" where
  "fmt_result show a =
     (case au_result a of
        Inr lookup \<Rightarrow> join ''|'' (map (fmt_record show) (answers lookup @ authorities lookup))
      | Inl _ \<Rightarrow> ''query failed'')"

text \<open>The audit changes nothing that the client sees, and records the query unless it has been told to leave out answers
  that are a SOA record only.\<close>

lemma audit_transparent:
  assumes "nxt ctx req st = (res, ctx', st')"
  shows "\<exists>records. audit_handle include_soa date now now' ctx req nxt st = (res, ctx', (fst st' @ records, snd st')) \<and>
    length records = (if \<not> include_soa \<and> is_soa_only now' res (rq_query req) then 0 else 1) \<and>
    (\<forall>a\<in>set records. au_result a = res \<and> au_query a = rq_query req)"
  using assms by (auto simp: audit_handle_def)

end
