(* ===== verification/Dualstack.thy ===== *)
theory Dualstack
  imports Select_Laws Addr_Mw
begin

text \<open>
  The choice between IPv4 and IPv6 (\<^verbatim>\<open>src/src/dns_mw_dualstack.rs\<close>).

  The handler runs the rest of the chain twice and concurrently, for the queried family and for the
  other. The environment (\<open>dual_world\<close>) decides which of two tasks completes first, whether the other
  one is in time, and what the probes measure. The runs act on the shared state in the order in which
  they complete; a run that is dropped leaves no trace. \<open>completed\<close> stands for the bookkeeping of a
  finished query (\<open>stats::completed\<close>, \<open>plugins::completed\<close>).
\<close>

section \<open>Configuration\<close>

definition dualstack_is_configured :: "runtime_config \<Rightarrow> bool" where
  "dualstack_is_configured cfg =
     (dualstack_ip_selection cfg \<or> dualstack_ip_prefer_ipv4 cfg \<or>
      list_ex (\<lambda>(_, g). list_ex (\<lambda>rule. ru_dualstack_ip_selection (cd_config rule) = Some True) (rg_domain_rules g))
        (cf_rule_groups cfg))"

record dual_world =
  dw_now :: instant
  dw_that_first :: bool
  dw_in_time :: bool
  dw_that_ping_first :: bool
  dw_ping_fastest :: "ping_addr list \<Rightarrow> (nat \<times> duration) option"

section \<open>Comparing the two families\<close>

text \<open>\<open>Either::Right\<close> is \<open>True\<close>: the other family is faster by more than the threshold.\<close>

definition which_faster ::
  "dual_world \<Rightarrow> dns_response \<Rightarrow> dns_response \<Rightarrow> speed_check_mode list \<Rightarrow> duration \<Rightarrow> bool" where
  "which_faster W this that modes threshold =
     (case (dr_probe this, dr_probe that) of
        (Measured a, Measured b) \<Rightarrow> a - b > threshold
      | (Failed, Measured _) \<Rightarrow> True
      | (Measured _, Failed) \<Rightarrow> False
      | _ \<Rightarrow>
          (let this_ping = multi_mode_ping_fastest (dw_ping_fastest W) (ip_addrs this) modes;
               that_ping = multi_mode_ping_fastest (dw_ping_fastest W) (ip_addrs that) modes
           in if dw_that_ping_first W
              then (case that_ping of
                      Some (_, that_dura) \<Rightarrow>
                        (case this_ping of
                           Some (_, this_dura) \<Rightarrow> this_dura > that_dura \<and> this_dura - that_dura > threshold
                         | None \<Rightarrow> True)
                    | None \<Rightarrow> False)
              else False))"

definition ipv4_usable :: "dual_world \<Rightarrow> dns_response \<Rightarrow> speed_check_mode list option \<Rightarrow> bool" where
  "ipv4_usable W response modes =
     (let addresses = filter (\<lambda>ip. case ip of V4 _ \<Rightarrow> True | V6 _ \<Rightarrow> False) (ip_addrs response)
      in if addresses = [] then False
         else
           case dr_probe response of
             Measured _ \<Rightarrow> True
           | Failed \<Rightarrow> False
           | Unchecked \<Rightarrow>
               (case modes of
                  Some modes \<Rightarrow> multi_mode_ping_fastest (dw_ping_fastest W) addresses modes \<noteq> None
                | None \<Rightarrow> True))"

definition dual_modes :: "dns_context \<Rightarrow> speed_check_mode_list option" where
  "dual_modes ctx =
     opt_filter (\<lambda>modes. modes \<noteq> [] \<and> \<not> list_ex mode_is_none modes)
       (or_else (opt_node_get (\<lambda>n. ru_speed_check_mode (rule_of n)) (cx_domain_rule ctx))
          (cf_speed_check_mode (cx_cfg ctx)))"

definition nodata :: "instant \<Rightarrow> dns_request \<Rightarrow> u32 \<Rightarrow> dns_response" where
  "nodata now req ttl =
     add_authority (from_rdata (q_name (rq_query req)) ttl default_soa_rdata) (new_with_max_ttl now (rq_query req) [])"

section \<open>Preferring IPv4\<close>

definition U32_MAX :: u64 where
  "U32_MAX = 0xffffffff"

definition ttl_limit :: "dns_context \<Rightarrow> u32" where
  "ttl_limit ctx =
     (let a = or_else (opt_node_get (\<lambda>n. or_else (ru_rr_ttl_max (rule_of n)) (ru_rr_ttl (rule_of n))) (cx_domain_rule ctx))
                (rr_ttl_max (cx_cfg ctx));
          b = cf_rr_ttl_reply_max (cx_cfg ctx);
          m = unwrap_or (list_min (List.map_filter id [a, b])) U32_MAX
      in ucast (min m U32_MAX))"

text \<open>The lookup of the A records: how long they may speak for IPv4, if they do.\<close>

definition ipv4_lookup ::
  "dual_world \<Rightarrow> (dns_context \<Rightarrow> dns_request \<Rightarrow> dns_result \<Rightarrow> 's \<Rightarrow> 's) \<Rightarrow> dns_context \<Rightarrow> dns_request \<Rightarrow> 's handler \<Rightarrow> 's \<Rightarrow>
   u32 option \<times> 's" where
  "ipv4_lookup W completed ctx req nxt s =
     (let modes = (if no_speed_check (cx_server_opts ctx) then None else dual_modes ctx);
          ipv4_req = set_query_type RT_A req;
          (response, ipv4_ctx, s) = nxt ((context_clone ctx)\<lparr>cx_is_dualstack := True\<rparr>) ipv4_req s;
          s = completed ipv4_ctx ipv4_req response s
      in ((case response of
             Inr response \<Rightarrow>
               (if ipv4_usable W response modes
                then Some (min (unwrap_or (min_ttl response) 0) (ttl_limit ctx)) else None)
           | Inl _ \<Rightarrow> None), s))"

definition prefer_ipv4 ::
  "dual_world \<Rightarrow> (dns_context \<Rightarrow> dns_request \<Rightarrow> dns_result \<Rightarrow> 's \<Rightarrow> 's) \<Rightarrow> 's middleware" where
  "prefer_ipv4 W completed ctx req nxt s =
     (if dw_that_first W
      then
        (case ipv4_lookup W completed ctx req nxt s of
           (Some ttl, s) \<Rightarrow> (Inr (nodata (dw_now W) req ttl), ctx, s)
         | (None, s) \<Rightarrow> nxt ctx req s)
      else
        (case nxt ctx req s of
           (response, ctx', s) \<Rightarrow>
             (case ipv4_lookup W completed ctx req nxt s of
                (Some ttl, s) \<Rightarrow> (Inr (nodata (dw_now W) req ttl), ctx', s)
              | (None, s) \<Rightarrow> (response, ctx', s))))"

section \<open>The handler\<close>

definition other_type :: "record_type \<Rightarrow> record_type" where
  "other_type t = (if t = RT_A then RT_AAAA else if t = RT_AAAA then RT_A else t)"

definition that_lookup ::
  "(dns_context \<Rightarrow> dns_request \<Rightarrow> dns_result \<Rightarrow> 's \<Rightarrow> 's) \<Rightarrow> dns_context \<Rightarrow> dns_request \<Rightarrow> 's handler \<Rightarrow> 's \<Rightarrow> dns_result \<times> 's" where
  "that_lookup completed ctx req nxt s =
     (let that_req = set_query_type (other_type (q_type (rq_query req))) req;
          (result, that_ctx, s) = nxt ((context_clone ctx)\<lparr>cx_is_dualstack := True\<rparr>) that_req s
      in (result, completed that_ctx that_req result s))"

definition dual_select ::
  "dual_world \<Rightarrow> (dns_context \<Rightarrow> dns_request \<Rightarrow> dns_result \<Rightarrow> 's \<Rightarrow> 's) \<Rightarrow> bool \<Rightarrow> speed_check_mode_list \<Rightarrow> 's middleware" where
  "dual_select W completed prefer_that modes ctx req nxt s =
     (let selection_threshold = millis (unat (dualstack_ip_selection_threshold (cx_cfg ctx)));
          ttl = ucast (local_ttl (cx_cfg ctx));
          query_type = q_type (rq_query req);
          selected = (\<lambda>this that.
            if which_faster W this that modes selection_threshold \<and> (prefer_that \<or> query_type = RT_AAAA)
            then nodata (dw_now W) req ttl else this)
      in if dw_that_first W
         then
           (case that_lookup completed ctx req nxt s of
              (Inr that, s) \<Rightarrow>
                (case nxt ctx req s of
                   (Inr this, ctx', s) \<Rightarrow> (Inr (selected this that), ctx', s)
                 | (Inl err, ctx', s) \<Rightarrow> (Inl err, ctx', s))
            | (Inl _, s) \<Rightarrow> nxt ctx req s)
         else
           (case nxt ctx req s of
              (Inr this, ctx', s) \<Rightarrow>
                (if dw_in_time W
                 then
                   (case that_lookup completed ctx req nxt s of
                      (Inr that, s) \<Rightarrow> (Inr (selected this that), ctx', s)
                    | (Inl _, s) \<Rightarrow> (Inr this, ctx', s))
                 else (Inr this, ctx', s))
            | (Inl err, ctx', s) \<Rightarrow> (Inl err, ctx', s)))"

definition dualstack_handle ::
  "dual_world \<Rightarrow> (dns_context \<Rightarrow> dns_request \<Rightarrow> dns_result \<Rightarrow> 's \<Rightarrow> 's) \<Rightarrow> 's middleware" where
  "dualstack_handle W completed ctx req nxt s =
     (let cfg = cx_cfg ctx;
          query_type = q_type (rq_query req)
      in if no_dualstack_selection (cx_server_opts ctx) then nxt ctx req s
         else if \<not> is_ip_addr query_type then nxt ctx req s
         else if dualstack_ip_prefer_ipv4 cfg
         then (if query_type = RT_A then nxt ctx req s else prefer_ipv4 W completed ctx req nxt s)
         else if no_speed_check (cx_server_opts ctx) then nxt ctx req s
         else if query_type = RT_A \<and> \<not> dualstack_ip_allow_force_aaaa cfg then nxt ctx req s
         else
           let prefer_that = (query_type = RT_A);
               selection =
                 unwrap_or (Option.bind (cx_domain_rule ctx) (\<lambda>n. ru_dualstack_ip_selection (rule_of n)))
                   (dualstack_ip_selection cfg)
           in if \<not> selection then nxt ctx req s
              else
                case dual_modes ctx of
                  None \<Rightarrow> nxt ctx req s
                | Some modes \<Rightarrow> dual_select W completed prefer_that modes ctx req nxt s)"

section \<open>When an answer is withheld\<close>

text \<open>The other family has an answer that speaks for it.\<close>

definition speaks_for ::
  "dual_world \<Rightarrow> dns_context \<Rightarrow> dns_request \<Rightarrow> 's handler \<Rightarrow> u32 \<Rightarrow> dns_response \<Rightarrow> bool" where
  "speaks_for W ctx req nxt ttl that \<longleftrightarrow>
     (if dualstack_ip_prefer_ipv4 (cx_cfg ctx)
      then q_type (rq_query req) = RT_AAAA \<and> (\<exists>a. V4 a \<in> set (ip_addrs that)) \<and> dr_probe that \<noteq> Failed \<and>
        ttl \<le> unwrap_or (min_ttl that) 0
      else (q_type (rq_query req) = RT_AAAA \<or> dualstack_ip_allow_force_aaaa (cx_cfg ctx)) \<and>
        (\<exists>this modes s0. fst (nxt ctx req s0) = Inr this \<and> dual_modes ctx = Some modes \<and>
           which_faster W this that modes (millis (unat (dualstack_ip_selection_threshold (cx_cfg ctx))))))"

lemma ip_addr_types: "is_ip_addr t \<Longrightarrow> t = RT_A \<or> t = RT_AAAA"
  by (cases t) simp_all

lemma ipv4_lookup_speaks:
  assumes "ipv4_lookup W completed ctx req nxt s = (Some ttl, s')" "dualstack_ip_prefer_ipv4 (cx_cfg ctx)"
    "q_type (rq_query req) = RT_AAAA"
  shows "\<exists>c that s0. fst (nxt c (set_query_type (other_type (q_type (rq_query req))) req) s0) = Inr that \<and>
    speaks_for W ctx req nxt ttl that"
proof -
  let ?c = "(context_clone ctx)\<lparr>cx_is_dualstack := True\<rparr>"
  obtain response c1 s1 where n: "nxt ?c (set_query_type RT_A req) s = (response, c1, s1)" by (metis prod_cases3)
  with assms(1) obtain that where that: "response = Inr that"
      "ipv4_usable W that (if no_speed_check (cx_server_opts ctx) then None else dual_modes ctx)"
      "ttl = min (unwrap_or (min_ttl that) 0) (ttl_limit ctx)"
    by (auto simp: ipv4_lookup_def Let_def split: sum.splits if_splits)
  have "filter (\<lambda>ip. case ip of V4 _ \<Rightarrow> True | V6 _ \<Rightarrow> False) (ip_addrs that) \<noteq> []" "dr_probe that \<noteq> Failed"
    using that(2) by (auto simp: ipv4_usable_def Let_def split: if_splits)
  then have "\<exists>a. V4 a \<in> set (ip_addrs that)"
    by (auto simp: filter_empty_conv split: ip_addr.splits) (metis ip_addr.exhaust)
  then have "speaks_for W ctx req nxt ttl that"
    using assms(2,3) \<open>dr_probe that \<noteq> Failed\<close> that(3) by (simp add: speaks_for_def)
  moreover have "fst (nxt ?c (set_query_type (other_type (q_type (rq_query req))) req) s) = Inr that"
    using n that(1) assms(3) by (simp add: other_type_def)
  ultimately show ?thesis by blast
qed

definition chain_or_other ::
  "dual_world \<Rightarrow> dns_context \<Rightarrow> dns_request \<Rightarrow> 's handler \<Rightarrow> dns_result \<Rightarrow> bool" where
  "chain_or_other W ctx req nxt res \<longleftrightarrow>
     (\<exists>s0. fst (nxt ctx req s0) = res) \<or>
     (\<exists>ttl c that s0. res = Inr (nodata (dw_now W) req ttl) \<and>
        fst (nxt c (set_query_type (other_type (q_type (rq_query req))) req) s0) = Inr that \<and>
        speaks_for W ctx req nxt ttl that)"

lemma chain_or_other_chain: "nxt ctx req s = (res, c, s') \<Longrightarrow> chain_or_other W ctx req nxt res"
  unfolding chain_or_other_def by (metis fst_conv)

lemma prefer_ipv4_outcome:
  assumes "prefer_ipv4 W completed ctx req nxt s = (res, ctx', s')" "dualstack_ip_prefer_ipv4 (cx_cfg ctx)"
    "q_type (rq_query req) = RT_AAAA"
  shows "chain_or_other W ctx req nxt res"
proof -
  have ipv4: "chain_or_other W ctx req nxt (Inr (nodata (dw_now W) req ttl))"
    if "ipv4_lookup W completed ctx req nxt s1 = (Some ttl, s2)" for s1 ttl s2
    using ipv4_lookup_speaks [OF that assms(2,3)] unfolding chain_or_other_def by blast
  show ?thesis
  proof (cases "dw_that_first W")
    case True
    obtain x s1 where l: "ipv4_lookup W completed ctx req nxt s = (x, s1)" by fastforce
    then show ?thesis
      using assms(1) True ipv4 [of s _ s1]
      by (cases x) (auto simp: prefer_ipv4_def intro: chain_or_other_chain)
  next
    case False
    obtain r c s1 where n: "nxt ctx req s = (r, c, s1)" by (metis prod_cases3)
    have "chain_or_other W ctx req nxt r" using n by (rule chain_or_other_chain)
    moreover obtain x s2 where "ipv4_lookup W completed ctx req nxt s1 = (x, s2)" by fastforce
    ultimately show ?thesis
      using assms(1) False n ipv4 [of s1 _ s2]
      by (cases x) (auto simp: prefer_ipv4_def)
  qed
qed

lemma that_lookup_chain:
  assumes "that_lookup completed ctx req nxt s = (r, s')"
  shows "\<exists>c. fst (nxt c (set_query_type (other_type (q_type (rq_query req))) req) s) = r"
proof -
  let ?c = "(context_clone ctx)\<lparr>cx_is_dualstack := True\<rparr>"
  obtain r1 c1 s1 where n: "nxt ?c (set_query_type (other_type (q_type (rq_query req))) req) s = (r1, c1, s1)"
    by (metis prod_cases3)
  with assms show ?thesis by (auto simp: that_lookup_def Let_def intro!: exI [of _ ?c])
qed

lemma dual_select_outcome:
  assumes "dual_select W completed (q_type (rq_query req) = RT_A) modes ctx req nxt s = (res, ctx', s')"
    and "\<not> dualstack_ip_prefer_ipv4 (cx_cfg ctx)" "dual_modes ctx = Some modes" "is_ip_addr (q_type (rq_query req))"
    and "q_type (rq_query req) = RT_A \<longrightarrow> dualstack_ip_allow_force_aaaa (cx_cfg ctx)"
  shows "chain_or_other W ctx req nxt res"
proof -
  let ?th = "millis (unat (dualstack_ip_selection_threshold (cx_cfg ctx)))"
  let ?ttl = "ucast (local_ttl (cx_cfg ctx))"
  have chosen: "chain_or_other W ctx req nxt (Inr (nodata (dw_now W) req ?ttl))"
    if "nxt ctx req s1 = (Inr this, c, s2)" "that_lookup completed ctx req nxt s3 = (Inr that, s4)"
      "which_faster W this that modes ?th" for s1 s2 s3 s4 c this that
  proof -
    from that_lookup_chain [OF that(2)] obtain c' where
      "fst (nxt c' (set_query_type (other_type (q_type (rq_query req))) req) s3) = Inr that" by blast
    moreover have "fst (nxt ctx req s1) = Inr this" using that(1) by simp
    then have "speaks_for W ctx req nxt ?ttl that"
      unfolding speaks_for_def using assms(2,3,5) that(3) ip_addr_types [OF assms(4)] by auto
    ultimately show ?thesis unfolding chain_or_other_def by blast
  qed
  show ?thesis
  proof (cases "dw_that_first W")
    case True
    obtain that s1 where t: "that_lookup completed ctx req nxt s = (that, s1)" by fastforce
    obtain this c s2 where n: "nxt ctx req s1 = (this, c, s2)" by (metis prod_cases3)
    then have "chain_or_other W ctx req nxt this" by (rule chain_or_other_chain)
    then show ?thesis
      using assms(1) True t n chosen [of s1 _ c s2 s _ s1]
      by (cases that; cases this) (auto simp: dual_select_def Let_def)
  next
    case False
    obtain this c s1 where n: "nxt ctx req s = (this, c, s1)" by (metis prod_cases3)
    then have "chain_or_other W ctx req nxt this" by (rule chain_or_other_chain)
    moreover obtain that s2 where t: "that_lookup completed ctx req nxt s1 = (that, s2)" by fastforce
    ultimately show ?thesis
      using assms(1) False t n chosen [of s _ c s1 s1 _ s2]
      by (cases that; cases this) (auto simp: dual_select_def Let_def split: if_splits)
  qed
qed

text \<open>
  C25: An answer of the chain is withheld only in favour of the other family. What the middleware
  returns is an answer of the chain to the query itself, or an empty answer; then the chain has
  answered for the other family, and either IPv4 is preferred, the query is for IPv6, and the answer
  has an IPv4 address whose probe has not failed and lives at least as long as the empty answer, or
  the other family was measured to be faster by more than the threshold; and an IPv4 answer is
  withheld only if \<open>dualstack-ip-allow-force-AAAA\<close> says so.
\<close>

theorem dualstack_withholds_for_other:
  assumes "dualstack_handle W completed ctx req nxt s = (res, ctx', s')"
  shows "(\<exists>s0. fst (nxt ctx req s0) = res) \<or>
    (\<exists>ttl c that s0. res = Inr (nodata (dw_now W) req ttl) \<and>
       fst (nxt c (set_query_type (other_type (q_type (rq_query req))) req) s0) = Inr that \<and>
       speaks_for W ctx req nxt ttl that)"
proof -
  have "chain_or_other W ctx req nxt res"
  proof (cases "nxt ctx req s = (res, ctx', s')")
    case True
    then show ?thesis by (rule chain_or_other_chain)
  next
    case False
    let ?t = "q_type (rq_query req)"
    show ?thesis
    proof (cases "dualstack_ip_prefer_ipv4 (cx_cfg ctx)")
      case True
      with assms False have "prefer_ipv4 W completed ctx req nxt s = (res, ctx', s')" "is_ip_addr ?t" "?t \<noteq> RT_A"
        by (auto simp: dualstack_handle_def Let_def split: if_splits)
      then show ?thesis using True ip_addr_types [of ?t] by (intro prefer_ipv4_outcome) auto
    next
      case other: False
      with assms False obtain modes where "dual_select W completed (?t = RT_A) modes ctx req nxt s = (res, ctx', s')"
          "dual_modes ctx = Some modes" "is_ip_addr ?t" "?t = RT_A \<longrightarrow> dualstack_ip_allow_force_aaaa (cx_cfg ctx)"
        by (auto simp: dualstack_handle_def Let_def split: if_splits option.splits)
      then show ?thesis using other by (intro dual_select_outcome)
    qed
  qed
  then show ?thesis by (simp add: chain_or_other_def)
qed


definition dual_ctx :: dns_context where
  "dual_ctx = context_new std_lib www_example_com (config_default\<lparr>cf_dualstack_ip_prefer_ipv4 := Some True\<rparr>) server_opts_default"

definition dual_request :: dns_request where
  "dual_request = set_query_type RT_AAAA (request_new 1 (dr_message example_answer) (V4 1) None)"

definition dual_chain :: "unit handler" where
  "dual_chain ctx req s = (Inr example_answer, ctx, s)"

definition dual_now :: dual_world where
  "dual_now = \<lparr>dw_now = 0, dw_that_first = True, dw_in_time = True, dw_that_ping_first = True, dw_ping_fastest = (\<lambda>_. None)\<rparr>"

lemma dual_run:
  "\<exists>ttl. dualstack_handle dual_now (\<lambda>_ _ _ s. s) dual_ctx dual_request dual_chain () =
     (Inr (nodata 0 dual_request ttl), dual_ctx, ())"
proof -
  have none: "dm_find std_lib (dm_empty :: arc tree_node domain_map) www_example_com = None" by code_simp
  have ctx: "cx_cfg dual_ctx = config_default\<lparr>cf_dualstack_ip_prefer_ipv4 := Some True\<rparr>"
    "cx_server_opts dual_ctx = server_opts_default" "cx_domain_rule dual_ctx = None"
    by (simp_all add: dual_ctx_def context_new_def Let_def find_domain_rule_def domain_rule_group_def config_default_def
        none server_opts_default_def)
  have q: "q_type (rq_query dual_request) = RT_AAAA" by (simp add: dual_request_def set_query_type_def)
  have "ipv4_usable dual_now example_answer (dual_modes dual_ctx)"
    by (simp add: ipv4_usable_def dual_modes_def ctx opt_node_get_def config_default_def example_answer_def ip_addrs_def
        map_filter_simps from_rdata_def new_with_deadline_def)
  then have "\<exists>ttl. ipv4_lookup dual_now (\<lambda>_ _ _ s. s) dual_ctx dual_request dual_chain () = (Some ttl, ())"
    by (simp add: ipv4_lookup_def dual_chain_def Let_def ctx no_speed_check_def server_opts_default_def)
  then show ?thesis
    by (auto simp: dualstack_handle_def Let_def ctx q no_dualstack_selection_def server_opts_default_def
        dualstack_ip_prefer_ipv4_def prefer_ipv4_def dual_now_def)
qed

theorem dualstack_withholds_for_other_witness:
  "\<exists>ttl res. fst (dualstack_handle dual_now (\<lambda>_ _ _ s. s) dual_ctx dual_request dual_chain ()) = res \<and>
     ((\<exists>s0. fst (dual_chain dual_ctx dual_request s0) = res) \<or>
      (\<exists>c that s0. res = Inr (nodata 0 dual_request ttl) \<and>
         fst (dual_chain c (set_query_type RT_A dual_request) s0) = Inr that \<and>
         speaks_for dual_now dual_ctx dual_request dual_chain ttl that))"
proof -
  obtain ttl where h: "dualstack_handle dual_now (\<lambda>_ _ _ s. s) dual_ctx dual_request dual_chain () =
      (Inr (nodata 0 dual_request ttl), dual_ctx, ())"
    using dual_run by blast
  have "other_type (q_type (rq_query dual_request)) = RT_A" "dw_now dual_now = 0"
    by (simp_all add: dual_request_def set_query_type_def other_type_def dual_now_def)
  with dualstack_withholds_for_other [OF h] show ?thesis unfolding h by fastforce
qed

end
