(* ===== verification/App.thy ===== *)
theory App
  imports Leases_Laws Hosts Sets_Mw Audit_Mw Cache_Laws Rewrite_Mw Ns_Laws Dualstack
begin

text \<open>
  The chain of the middlewares (\<open>build_middleware\<close> in \<^verbatim>\<open>src/src/app.rs\<close>): which of them are there for a configuration, in which
  order, and what follows from the order.

  The middlewares share one state, a record with a field for each. A middleware that was modelled on its own field beside
  the rest of the state is put into the chain by \<open>focus\<close>. What they find outside for one query is \<open>app_world\<close>. Where the model
  of a middleware has no result, because the code panics, the chain has the error \<open>panicked\<close>.
\<close>

section \<open>State and environment\<close>

record ('h, 'c) app_state =
  st_sets :: "set_update list"
  st_audit :: "audit_record list"
  st_lan :: lan_store
  st_odhcpd :: odhcpd
  st_hosts :: "'h hosts_cache option"
  st_cache :: "'c cache_state"
  st_permits :: nat

record ('h, 'c) app_world =
  aw_now :: instant
  aw_later :: instant
  aw_wall :: nat
  aw_names :: name_lib
  aw_leases :: lease_lib
  aw_lan :: lan_world
  aw_zone :: zone_env
  aw_odhcpd_modified :: "nat option"
  aw_odhcpd_file :: file_read
  aw_hosts_lib :: "'h hosts_lib"
  aw_hosts :: hosts_world
  aw_cache :: "'c cache_env"
  aw_dual :: dual_world
  aw_upstream :: world

text \<open>The options of the configuration that decide on the chain, and the client the upstream middleware asks.\<close>

record app_options =
  ao_bind_opts :: "server_opts list"
  ao_audit_enable :: bool
  ao_audit_soa :: bool
  ao_dns64_prefix :: "(ipv6 \<times> nat) option"
  ao_dnsmasq_lease_is_file :: bool
  ao_odhcpd_lease_file :: bool
  ao_resolv_hostname :: "bool option"
  ao_hosts_file :: "string option"
  ao_expand_ptr :: bool
  ao_bogus_is_empty :: bool
  ao_client :: dns_client

definition resolv_hostname :: "app_options \<Rightarrow> bool" where
  "resolv_hostname O' = unwrap_or (ao_resolv_hostname O') (ao_hosts_file O' \<noteq> None)"

definition focus :: "('s \<Rightarrow> 'a) \<Rightarrow> ('a \<Rightarrow> 's \<Rightarrow> 's) \<Rightarrow> ('a \<times> 's) middleware \<Rightarrow> 's middleware" where
  "focus get put m ctx req nxt s =
     (let (r, c, a, s') = m ctx req (\<lambda>ctx req (a, s). let (r, c, s') = nxt ctx req (put a s) in (r, c, get s', s')) (get s, s)
      in (r, c, put a s'))"

definition panicked :: lookup_error where
  "panicked = ErrIo ''panic''"

definition ns_middleware :: "world \<Rightarrow> dns_client \<Rightarrow> ('h, 'c) app_state middleware" where
  "ns_middleware W client ctx req nxt s =
     (case ns_handle W client ctx req (st_permits s) of
        Some (r, c, p) \<Rightarrow> (r, c, s\<lparr>st_permits := p\<rparr>)
      | None \<Rightarrow> (Inl panicked, ctx, s))"

definition dns64_middleware :: "ipv6 \<times> nat \<Rightarrow> 's middleware" where
  "dns64_middleware p ctx req nxt s =
     (case dns64_handle (fst p) (snd p) ctx req nxt s of Some out \<Rightarrow> out | None \<Rightarrow> (Inl panicked, ctx, s))"

section \<open>The chain\<close>

definition has_cnames :: "runtime_config \<Rightarrow> bool" where
  "has_cnames cfg \<longleftrightarrow> list_ex (\<lambda>(_, g). rg_cnames g \<noteq> []) (cf_rule_groups cfg)"

definition before_zone ::
  "('h, 'c) app_world \<Rightarrow> app_options \<Rightarrow> runtime_config \<Rightarrow> ('h, 'c) app_state middleware list" where
  "before_zone W O' cfg =
     (if sets_is_configured (ao_bind_opts O') cfg
      then [focus st_sets (\<lambda>a s. s\<lparr>st_sets := a\<rparr>) (sets_handle (aw_names W))] else []) @
     (if ao_audit_enable O'
      then [focus st_audit (\<lambda>a s. s\<lparr>st_audit := a\<rparr>) (audit_handle (ao_audit_soa O') (aw_wall W) (aw_now W) (aw_later W))]
      else []) @
     (if has_cnames cfg then [cname_handle (aw_names W) (aw_now W)] else []) @
     (case ao_dns64_prefix O' of Some p \<Rightarrow> [dns64_middleware p] | None \<Rightarrow> []) @
     [addr_handle (aw_now W)] @
     (if ao_dnsmasq_lease_is_file O'
      then [focus st_lan (\<lambda>a s. s\<lparr>st_lan := a\<rparr>) (dnsmasq_handle (aw_leases W) (aw_lan W))] else [])"

definition after_zone ::
  "('h, 'c) app_world \<Rightarrow> app_options \<Rightarrow> runtime_config \<Rightarrow> ('h, 'c) app_state middleware list" where
  "after_zone W O' cfg =
     (if ao_odhcpd_lease_file O'
      then [focus st_odhcpd (\<lambda>a s. s\<lparr>st_odhcpd := a\<rparr>)
              (odhcpd_handle (aw_leases W) (aw_now W) (aw_odhcpd_modified W) (aw_odhcpd_file W))] else []) @
     (if resolv_hostname O'
      then [focus st_hosts (\<lambda>a s. s\<lparr>st_hosts := a\<rparr>)
              (hosts_handle (aw_hosts_lib W) (aw_hosts W) (ao_hosts_file O') (ao_expand_ptr O'))] else []) @
     (if cache_size cfg > 0
      then [focus st_cache (\<lambda>a s. s\<lparr>st_cache := a\<rparr>)
              (cache_handle (aw_cache W) (w_type_is_dnssec (aw_upstream W)) (aw_wall W) (aw_now W) (aw_later W))] else []) @
     (if dualstack_is_configured cfg then [dualstack_handle (aw_dual W) (\<lambda>_ _ _ s. s)] else []) @
     (if \<not> ao_bogus_is_empty O' then [bogus_handle] else []) @
     [ns_middleware (aw_upstream W) (ao_client O')]"

definition build_middleware ::
  "('h, 'c) app_world \<Rightarrow> app_options \<Rightarrow> runtime_config \<Rightarrow> ('h, 'c) app_state middleware_host" where
  "build_middleware W O' cfg =
     fold builder_with (before_zone W O' cfg @ [zone_handle (aw_zone W)] @ after_zone W O' cfg) (builder_new default_handle)"

lemma execute_build:
  "execute (build_middleware W O' cfg) =
     next_run default_handle (before_zone W O' cfg @ [zone_handle (aw_zone W)] @ after_zone W O' cfg)"
  unfolding build_middleware_def by (rule execute_builder)

section \<open>What the order means\<close>

text \<open>A middleware that runs the rest of the chain for the same request only.\<close>

definition same_request :: "dns_request \<Rightarrow> 's middleware \<Rightarrow> bool" where
  "same_request req m \<longleftrightarrow>
     (\<forall>ctx nxt nxt' s. (\<forall>ctx s. nxt ctx req s = nxt' ctx req s) \<longrightarrow> m ctx req nxt s = m ctx req nxt' s)"

lemma same_requestD:
  assumes "same_request req m" and "\<And>ctx s. nxt ctx req s = nxt' ctx req s"
  shows "m ctx req nxt s = m ctx req nxt' s"
  using assms unfolding same_request_def by blast

lemma same_request_focus:
  fixes m :: "('a \<times> 's) middleware"
  assumes "same_request req m"
  shows "same_request req (focus get put m)"
  unfolding same_request_def focus_def
proof (intro allI impI)
  fix ctx and nxt nxt' :: "'s handler" and s
  assume n: "\<forall>ctx s. nxt ctx req s = nxt' ctx req s"
  let ?lift = "\<lambda>nxt ctx req (a, s). let (r, c, s') = nxt ctx req (put a s) in (r, c, get s', s')"
  have "m ctx req (?lift nxt) (get s, s) = m ctx req (?lift nxt') (get s, s)"
    by (rule same_requestD [OF assms]) (simp add: n split_beta)
  then show "(let (r, c, a, s') = m ctx req (?lift nxt) (get s, s) in (r, c, put a s')) =
      (let (r, c, a, s') = m ctx req (?lift nxt') (get s, s) in (r, c, put a s'))"
    by simp
qed

lemma same_request_chain:
  assumes "\<forall>m\<in>set ms. same_request req m" and "\<And>ctx s. nxt ctx req s = nxt' ctx req s"
  shows "next_run nxt ms ctx req s = next_run nxt' ms ctx req s"
  using assms(1)
proof (induction ms arbitrary: ctx s)
  case (Cons m ms)
  have "m ctx req (next_run nxt ms) s = m ctx req (next_run nxt' ms) s"
    by (rule same_requestD [of req]) (use Cons in simp_all)
  then show ?case by simp
qed (simp add: assms(2))

lemma same_request_observers: "same_request req (sets_handle L)" "same_request req (audit_handle soa date now now')"
  by (simp_all add: same_request_def sets_handle_def audit_handle_def)

lemma same_request_addr: "same_request req (addr_handle now)"
  unfolding same_request_def
proof (intro allI impI)
  fix ctx s and nxt nxt' :: "'a handler"
  assume "\<forall>ctx s. nxt ctx req s = nxt' ctx req s"
  then show "addr_handle now ctx req nxt s = addr_handle now ctx req nxt' s"
    by (cases "handle_rule_addr (q_type (rq_query req)) ctx") (simp_all add: addr_handle_def)
qed

lemma same_request_dnsmasq: "same_request req (dnsmasq_handle LL V)"
  unfolding same_request_def
proof (intro allI impI)
  fix ctx s and nxt nxt' :: "(lan_store \<times> 'a) handler"
  assume "\<forall>ctx s. nxt ctx req s = nxt' ctx req s"
  then show "dnsmasq_handle LL V ctx req nxt s = dnsmasq_handle LL V ctx req nxt' s"
    by (cases "dnsmasq_ptr LL V req (fst s)") (auto simp: dnsmasq_handle_def split: option.split prod.split)
qed

lemmas same_request_mws = same_request_observers same_request_addr same_request_dnsmasq

lemma same_request_dns64: "q_type (rq_query req) \<noteq> RT_AAAA \<Longrightarrow> same_request req (dns64_middleware p)"
  by (simp add: same_request_def dns64_middleware_def dns64_handle_def)

lemma before_zone_same_request:
  assumes "q_type (rq_query req) = RT_PTR" "\<not> has_cnames cfg"
  shows "\<forall>m\<in>set (before_zone W O' cfg). same_request req m"
  using assms same_request_dns64 [of req] by (auto simp: before_zone_def same_request_mws same_request_focus split: option.splits)

text \<open>
  C24: Reverse queries for private addresses do not reach the upstreams. In the chain of every configuration without CNAME rules, the
  answer to a reverse query for a network that is private or has an address of the server is the one of the chain cut off behind the zone
  middleware, whatever would follow: the upstreams, the cache, the hosts files and the leases of odhcpd are not asked.
\<close>

theorem private_reverse_stays:
  assumes "q_type (rq_query req) = RT_PTR" and "\<not> has_cnames cfg"
    and "ze_parse_arpa (aw_zone W) (q_name (rq_query req)) = Some net"
    and "ze_server_net (aw_zone W) net \<or> is_private (net_addr net)"
  shows "execute (build_middleware W O' cfg) ctx req s =
    next_run anything (before_zone W O' cfg @ [zone_handle (aw_zone W)]) ctx req s"
proof -
  have local: "nl_zone_of (ze_names (aw_zone W)) RESERVED (q_name (rq_query req)) \<or>
      (q_type (rq_query req) = RT_PTR \<and> (\<exists>net. ze_parse_arpa (aw_zone W) (q_name (rq_query req)) = Some net \<and>
        (ze_server_net (aw_zone W) net \<or> is_private (net_addr net))))"
    using assms by blast
  have "zone_handle (aw_zone W) ctx req nxt s = zone_handle (aw_zone W) ctx req nxt' s"
    for ctx and nxt nxt' :: "('a, 'b) app_state handler" and s
  proof -
    obtain r where "\<forall>nxt s. zone_handle (aw_zone W) ctx req nxt (s :: ('a, 'b) app_state) = (Inr r, ctx, s)"
      using zone_stays [OF local] by blast
    then show ?thesis by simp
  qed
  then show ?thesis
    unfolding execute_build next_run_append
    by (intro same_request_chain [OF before_zone_same_request [OF assms(1,2)]]) simp
qed

definition reverse_request :: dns_request where
  "reverse_request = zone_request (ascii_name [''1'', ''0'', ''0'', ''10'', ''in-addr'', ''arpa''] True) RT_PTR"

theorem private_reverse_stays_witness:
  "\<forall>W (O' :: app_options) ctx s anything. \<not> has_cnames config_default \<and>
     execute (build_middleware (W\<lparr>aw_zone := example_zone\<rparr>) O' config_default) ctx reverse_request s =
     next_run anything (before_zone (W\<lparr>aw_zone := example_zone\<rparr>) O' config_default @ [zone_handle example_zone]) ctx reverse_request s"
proof (intro allI conjI)
  have req: "q_type (rq_query reverse_request) = RT_PTR" by (simp add: reverse_request_def)
  show cfg: "\<not> has_cnames config_default" by (simp add: has_cnames_def config_default_def)
  have priv: "is_private (V4 0x0a000001)" by code_simp
  fix W :: "('a, 'b) app_world" and O' ctx and s :: "('a, 'b) app_state" and anything
  show "execute (build_middleware (W\<lparr>aw_zone := example_zone\<rparr>) O' config_default) ctx reverse_request s =
     next_run anything (before_zone (W\<lparr>aw_zone := example_zone\<rparr>) O' config_default @ [zone_handle example_zone]) ctx reverse_request s"
    using private_reverse_stays [OF req cfg, of "W\<lparr>aw_zone := example_zone\<rparr>"
      "\<lparr>net_addr = V4 0x0a000001, net_prefix = 32\<rparr>" O' ctx s anything] priv
    by (simp add: example_zone_def)
qed

end
