(* ===== verification/Probe.thy ===== *)
theory Probe
  imports Netlink Select_Laws
begin

unbundle bit_operations_syntax

text \<open>
  Latency probes (\<^verbatim>\<open>src/src/infra/ping.rs\<close> and \<^verbatim>\<open>src/src/infra/ping/tcp_syn.rs\<close>): the target of a probe and
  its textual form, repeated probes and their average, the race of several targets, and the packets of half-open TCP
  probes, which are built and read byte by byte.

  What one attempt gives is an argument: \<open>attempt i\<close> is the result of the \<open>i\<close>-th attempt, or \<open>None\<close> when it has not ended
  within the time-out. A race of several targets is given by the order in which they end.
\<close>

section \<open>Options and results\<close>

datatype probe_error =
  PingTargetParseError | AddrParseError | AddrParseError2 string | ProbeTimeout | ProbeIoError string | SurgeError | NoTarget

datatype duration_agg = AggMin | AggMean | AggMax

record ping_options =
  po_times :: u16
  po_timeout :: duration
  po_all_success :: bool
  po_duration_agg :: duration_agg

definition ping_options_default :: ping_options where
  "ping_options_default = \<lparr>po_times = 1, po_timeout = secs 5, po_all_success = False, po_duration_agg = AggMean\<rparr>"

record ping_output =
  pg_seq :: u16
  pg_duration :: duration
  pg_destination :: ping_addr

fun ping_ip_addr :: "ping_addr \<Rightarrow> ip_addr" where
  "ping_ip_addr (PingIcmp ip) = ip"
| "ping_ip_addr (PingTcp ip _) = ip"
| "ping_ip_addr (PingTcpSyn ip _) = ip"
| "ping_ip_addr (PingHttp ip _) = ip"
| "ping_ip_addr (PingHttps ip _) = ip"

text \<open>\<open>PingError::clone\<close>: the copy of \<open>NoAddress\<close> is another error.\<close>

fun clone_error :: "probe_error \<Rightarrow> probe_error" where
  "clone_error NoTarget = SurgeError"
| "clone_error e = e"

section \<open>Targets\<close>

text \<open>\<open>SocketAddr::from_str\<close>: an IPv4 address and a port, or an IPv6 address in brackets and a port.\<close>

definition read_port :: "string \<Rightarrow> (u16 \<times> string) option" where
  "read_port s =
     (let ds = takeWhile is_digit s
      in if ds = [] \<or> digits_value 10 ds > 65535 then None else Some (of_int (digits_value 10 ds), drop (length ds) s))"

definition read_scope_id :: "string \<Rightarrow> string option" where
  "read_scope_id s =
     (case read_char (CHR ''%'') s of
        None \<Rightarrow> Some s
      | Some r \<Rightarrow>
          (let ds = takeWhile is_digit r
           in if ds = [] \<or> digits_value 10 ds \<ge> 2 ^ 32 then None else Some (drop (length ds) r)))"

definition socket_addr_v4 :: "string \<Rightarrow> (ip_addr \<times> u16) option" where
  "socket_addr_v4 s =
     Option.bind (read_ipv4 s) (\<lambda>(a, r). Option.bind (read_char (CHR '':'') r) (\<lambda>r. Option.bind (read_port r) (\<lambda>(p, r).
       if r = [] then Some (V4 a, p) else None)))"

definition socket_addr_v6 :: "string \<Rightarrow> (ip_addr \<times> u16) option" where
  "socket_addr_v6 s =
     Option.bind (read_char (CHR ''['') s) (\<lambda>r. Option.bind (read_ipv6 r) (\<lambda>(a, r). Option.bind (read_scope_id r) (\<lambda>r.
       Option.bind (read_char (CHR '']'') r) (\<lambda>r. Option.bind (read_char (CHR '':'') r) (\<lambda>r.
       Option.bind (read_port r) (\<lambda>(p, r). if r = [] then Some (V6 a, p) else None))))))"

definition socket_addr_from_str :: "string \<Rightarrow> (ip_addr \<times> u16) option" where
  "socket_addr_from_str s = or_else (socket_addr_v4 s) (socket_addr_v6 s)"

definition target_with_port :: "(ip_addr \<Rightarrow> u16 \<Rightarrow> ping_addr) \<Rightarrow> (ip_addr \<times> u16) option \<Rightarrow> probe_error + ping_addr" where
  "target_with_port mk a = (case a of Some (ip, port) \<Rightarrow> Inr (mk ip port) | None \<Rightarrow> Inl AddrParseError)"

definition ping_addr_try_from :: "string \<Rightarrow> probe_error + ping_addr" where
  "ping_addr_try_from s =
     (let s = trim s in
      case strip_prefix ''tcp-syn://'' s of
        Some addr \<Rightarrow> target_with_port PingTcpSyn (socket_addr_from_str addr)
      | None \<Rightarrow>
      case strip_prefix ''tcp://'' s of
        Some addr \<Rightarrow> target_with_port PingTcp (socket_addr_from_str addr)
      | None \<Rightarrow>
      case strip_prefix ''http://'' s of
        Some addr \<Rightarrow>
          target_with_port PingHttp (or_else (socket_addr_from_str addr) (map_option (\<lambda>ip. (ip, 80)) (ip_from_str addr)))
      | None \<Rightarrow>
      case strip_prefix ''https://'' s of
        Some addr \<Rightarrow>
          target_with_port PingHttps (or_else (socket_addr_from_str addr) (map_option (\<lambda>ip. (ip, 443)) (ip_from_str addr)))
      | None \<Rightarrow>
          (case ip_from_str (unwrap_or (strip_prefix ''icmp://'' s) s) of
             Some ip \<Rightarrow> Inr (PingIcmp ip)
           | None \<Rightarrow> Inl AddrParseError))"

section \<open>Repeated probes\<close>

definition do_agg :: "duration list \<Rightarrow> duration_agg \<Rightarrow> duration option" where
  "do_agg durations agg =
     (case agg of
        AggMin \<Rightarrow> (if durations = [] then None else Some (Min (set durations)))
      | AggMean \<Rightarrow>
          (let count = length durations
           in if count > 0 then Some (sum_list durations div count) else None)
      | AggMax \<Rightarrow> (if durations = [] then None else Some (Max (set durations))))"

text \<open>The loop over the attempts that every kind of probe has: the durations so far and the last error.\<close>

fun ping_loop ::
  "bool \<Rightarrow> (probe_error + duration) list \<Rightarrow> duration list \<Rightarrow> probe_error option \<Rightarrow> probe_error + (duration list \<times> probe_error option)" where
  "ping_loop all_success [] durations last_err = Inr (durations, last_err)"
| "ping_loop all_success (Inr d # rs) durations last_err = ping_loop all_success rs (durations @ [d]) last_err"
| "ping_loop all_success (Inl e # rs) durations last_err =
     (if all_success then Inl e else ping_loop all_success rs durations (Some e))"

definition timed :: "(probe_error + duration) option \<Rightarrow> probe_error + duration" where
  "timed r = unwrap_or r (Inl ProbeTimeout)"

definition ping_repeated ::
  "(nat \<Rightarrow> (probe_error + duration) option) \<Rightarrow> ping_addr \<Rightarrow> ping_options \<Rightarrow> probe_error + ping_output" where
  "ping_repeated attempt dest opts =
     (case ping_loop (po_all_success opts) (map (\<lambda>i. timed (attempt i)) [0..<unat (po_times opts)]) [] None of
        Inl e \<Rightarrow> Inl e
      | Inr (durations, last_err) \<Rightarrow>
          (case do_agg durations (po_duration_agg opts) of
             Some v \<Rightarrow> Inr \<lparr>pg_seq = 0, pg_duration = v, pg_destination = dest\<rparr>
           | None \<Rightarrow> Inl (unwrap_or last_err NoTarget)))"

text \<open>An ICMP probe needs the client of its address family; \<open>clients\<close> gives the error when it could not be opened.\<close>

record probe_env =
  pe_attempt :: "ping_addr \<Rightarrow> nat \<Rightarrow> (probe_error + duration) option"
  pe_icmp_client :: "bool \<Rightarrow> probe_error option"

definition icmp_ping :: "probe_env \<Rightarrow> ip_addr \<Rightarrow> ping_options \<Rightarrow> probe_error + ping_output" where
  "icmp_ping E ip opts =
     (case pe_icmp_client E (case ip of V4 _ \<Rightarrow> True | V6 _ \<Rightarrow> False) of
        Some e \<Rightarrow> Inl (clone_error e)
      | None \<Rightarrow> ping_repeated (pe_attempt E (PingIcmp ip)) (PingIcmp ip) opts)"

definition tcp_ping :: "probe_env \<Rightarrow> ip_addr \<Rightarrow> u16 \<Rightarrow> ping_options \<Rightarrow> probe_error + ping_output" where
  "tcp_ping E ip port opts = ping_repeated (pe_attempt E (PingTcp ip port)) (PingTcp ip port) opts"

definition tcp_syn_ping :: "probe_env \<Rightarrow> ip_addr \<Rightarrow> u16 \<Rightarrow> ping_options \<Rightarrow> probe_error + ping_output" where
  "tcp_syn_ping E ip port opts = ping_repeated (pe_attempt E (PingTcpSyn ip port)) (PingTcpSyn ip port) opts"

definition http_ping :: "probe_env \<Rightarrow> ip_addr \<Rightarrow> u16 \<Rightarrow> ping_options \<Rightarrow> probe_error + ping_output" where
  "http_ping E ip port opts = ping_repeated (pe_attempt E (PingHttp ip port)) (PingHttp ip port) opts"

definition https_ping :: "probe_env \<Rightarrow> ip_addr \<Rightarrow> u16 \<Rightarrow> ping_options \<Rightarrow> probe_error + ping_output" where
  "https_ping E ip port opts = ping_repeated (pe_attempt E (PingHttps ip port)) (PingHttps ip port) opts"

definition ping :: "probe_env \<Rightarrow> ping_addr \<Rightarrow> ping_options \<Rightarrow> probe_error + ping_output" where
  "ping E dest opts =
     (case dest of
        PingIcmp ip \<Rightarrow> icmp_ping E ip opts
      | PingTcp ip port \<Rightarrow> tcp_ping E ip port opts
      | PingTcpSyn ip port \<Rightarrow> tcp_syn_ping E ip port opts
      | PingHttp ip port \<Rightarrow> http_ping E ip port opts
      | PingHttps ip port \<Rightarrow> https_ping E ip port opts)"

definition ping_batch :: "probe_env \<Rightarrow> ping_addr list \<Rightarrow> ping_options \<Rightarrow> (probe_error + ping_output) list" where
  "ping_batch E dests opts = map (\<lambda>d. ping E d opts) dests"

text \<open>\<open>select_ok\<close> of the results in the order in which they come: the first success, else the last failure.\<close>

fun select_ok :: "('e + 'a) list \<Rightarrow> ('e + 'a) option" where
  "select_ok [] = None"
| "select_ok (Inr a # rs) = Some (Inr a)"
| "select_ok (Inl e # rs) = Some (unwrap_or (select_ok rs) (Inl e))"

definition ping_fastest ::
  "(ping_addr list \<Rightarrow> ping_addr list) \<Rightarrow> probe_env \<Rightarrow> ping_addr list \<Rightarrow> ping_options \<Rightarrow> probe_error + ping_output" where
  "ping_fastest arrival E dests opts =
     (if dests = [] then Inl NoTarget
      else unwrap_or (select_ok (map (\<lambda>d. ping E d opts) (arrival dests))) (Inl NoTarget))"

text \<open>\<open>auto_sock_type::detect\<close> on Linux: \<open>None\<close> where the code panics.\<close>

datatype sock_type = SockDgram | SockRaw

definition detect :: "bool \<Rightarrow> bool \<Rightarrow> sock_type option" where
  "detect allow_unprivileged allow_raw =
     (if allow_unprivileged then Some SockDgram else if allow_raw then Some SockRaw else None)"

section \<open>Half-open TCP probes\<close>

text \<open>The sum of the big-endian 16-bit words of \<open>bytes\<close>, the last one padded with a zero byte, at the width of the code.\<close>

fun word_sum :: "bytes \<Rightarrow> u32" where
  "word_sum [] = 0"
| "word_sum [a] = ucast (from_be_bytes [a, 0] :: u16)"
| "word_sum (a # b # bs) = ucast (from_be_bytes [a, b] :: u16) + word_sum bs"

lemma carry_parts:
  fixes s :: u32
  shows "unat ((s AND 0xffff) + drop_bit 16 s) = unat s mod 65536 + unat s div 65536"
proof -
  have "unat s < 2 ^ 32" using unsigned_less [of s] by simp
  then have h: "unat s div 65536 < 65536" by (simp add: less_mult_imp_div_less)
  have m: "(0xffff :: u32) = mask 16" by (simp add: mask_eq_exp_minus_1)
  have low: "unat (s AND 0xffff) = unat s mod 65536"
    unfolding m by (simp add: unat_mod_distrib take_bit_eq_mod flip: take_bit_eq_mask)
  have high: "unat (drop_bit 16 s) = unat s div 65536"
    by (simp add: drop_bit_eq_div unat_div_distrib)
  have "unat s mod 65536 < 65536" by simp
  then show ?thesis using h by (simp add: unat_word_ariths low high)
qed

function fold_carry :: "u32 \<Rightarrow> u32" where
  "fold_carry s = (if drop_bit 16 s \<noteq> 0 then fold_carry ((s AND 0xffff) + drop_bit 16 s) else s)"
  by pat_completeness auto
termination
proof (relation "measure unat", simp)
  fix s :: u32
  assume "drop_bit 16 s \<noteq> 0"
  then have "unat (drop_bit 16 s) \<noteq> 0" by (simp add: unat_eq_zero)
  then have "unat s div 65536 \<noteq> 0" by (simp add: drop_bit_eq_div unat_div_distrib)
  then have "unat s mod 65536 + unat s div 65536 < unat s"
    using mult_div_mod_eq [of 65536 "unat s"] by linarith
  then show "((s AND 0xffff) + drop_bit 16 s, s) \<in> measure unat" by (simp add: carry_parts)
qed

declare fold_carry.simps [simp del]

definition checksum :: "bytes \<Rightarrow> u16" where
  "checksum bs = NOT (ucast (fold_carry (word_sum bs)))"

definition pseudo_header :: "ip_addr \<Rightarrow> ip_addr \<Rightarrow> bytes option" where
  "pseudo_header src dst =
     (case (src, dst) of
        (V4 s, V4 d) \<Rightarrow> Some (to_be_bytes 4 s @ to_be_bytes 4 d @ [0, 6, 0, 20])
      | (V6 s, V6 d) \<Rightarrow> Some (to_be_bytes 16 s @ to_be_bytes 16 d @ [0, 0, 0, 20, 0, 0, 0, 6])
      | _ \<Rightarrow> None)"

definition tcp_packet :: "ip_addr \<times> u16 \<Rightarrow> ip_addr \<times> u16 \<Rightarrow> u32 \<Rightarrow> u32 \<Rightarrow> u8 \<Rightarrow> bytes option" where
  "tcp_packet source dest seq ack flags =
     (let tcp = replicate 20 0;
          tcp = set_bytes 0 (to_be_bytes 2 (snd source)) tcp;
          tcp = set_bytes 2 (to_be_bytes 2 (snd dest)) tcp;
          tcp = set_bytes 4 (to_be_bytes 4 seq) tcp;
          tcp = set_bytes 8 (to_be_bytes 4 ack) tcp;
          tcp = tcp[12 := push_bit 4 5];
          tcp = tcp[13 := flags];
          tcp = set_bytes 14 (to_be_bytes 2 (64240 :: u16)) tcp
      in map_option (\<lambda>pseudo. set_bytes 16 (to_be_bytes 2 (checksum (pseudo @ tcp))) tcp)
           (pseudo_header (fst source) (fst dest)))"

text \<open>Where the TCP header starts: a raw IPv4 socket hands out the IP header too.\<close>

definition tcp_offset :: "bytes \<Rightarrow> bool \<Rightarrow> nat option" where
  "tcp_offset packet ipv4 =
     (if ipv4
      then
        (if length packet < 20 \<or> drop_bit 4 (packet ! 0) \<noteq> 4 \<or> packet ! 9 \<noteq> 6 then None
         else
           (let ihl = unat (packet ! 0 AND 15) * 4
            in if ihl < 20 then None else Some ihl))
      else Some 0)"

definition reply_tcp :: "bytes \<Rightarrow> bool \<Rightarrow> u16 \<Rightarrow> u16 \<Rightarrow> u32 \<Rightarrow> (bool \<times> u32) option" where
  "reply_tcp packet ipv4 local_port remote_port seq =
     (case tcp_offset packet ipv4 of
        None \<Rightarrow> None
      | Some offset \<Rightarrow>
          (if offset > length packet then None
           else
             (let tcp = drop offset packet
              in if length tcp < 20 \<or> drop_bit 4 (tcp ! 12) < 5 \<or> take 2 tcp \<noteq> to_be_bytes 2 remote_port \<or>
                    take 2 (drop 2 tcp) \<noteq> to_be_bytes 2 local_port \<or> tcp ! 13 AND 0x10 = 0 \<or>
                    take 4 (drop 8 tcp) \<noteq> to_be_bytes 4 (seq + 1)
                 then None
                 else if tcp ! 13 AND 0x04 \<noteq> 0 then Some (False, 0)
                 else if tcp ! 13 AND 0x02 = 0 then None
                 else Some (True, from_be_bytes (take 4 (drop 4 tcp))))))"

text \<open>The receiving loop of \<open>probe\<close> over what the socket gives: \<open>None\<close> while it waits, else the error, or the packets sent in answer.\<close>

fun syn_receive ::
  "ip_addr \<times> u16 \<Rightarrow> ip_addr \<times> u16 \<Rightarrow> u32 \<Rightarrow> (probe_error + bytes) list \<Rightarrow> (probe_error + bytes option list) option" where
  "syn_receive source dest seq [] = None"
| "syn_receive source dest seq (Inl e # ps) = Some (Inl e)"
| "syn_receive source dest seq (Inr p # ps) =
     (case reply_tcp p (case fst dest of V4 _ \<Rightarrow> True | V6 _ \<Rightarrow> False) (snd source) (snd dest) seq of
        None \<Rightarrow> syn_receive source dest seq ps
      | Some (open_port, peer_seq) \<Rightarrow>
          Some (Inr (if open_port then [tcp_packet source dest (seq + 1) (peer_seq + 1) 0x14] else [])))"

section \<open>Checksums\<close>

lemma fold_carry_mod:
  "unat (fold_carry s) < 65536 \<and> unat (fold_carry s) mod 65535 = unat s mod 65535 \<and> (unat (fold_carry s) = 0 \<longleftrightarrow> unat s = 0)"
proof (induction s rule: fold_carry.induct)
  case (1 s)
  show ?case
  proof (cases "drop_bit 16 s = 0")
    case True
    have "unat s div 65536 = unat (drop_bit 16 s)" by (simp add: drop_bit_eq_div unat_div_distrib)
    then have "unat s < 65536" using True by (simp add: div_eq_0_iff)
    then show ?thesis using True by (simp add: fold_carry.simps)
  next
    case False
    let ?n = "unat s"
    have e: "?n = 65535 * (?n div 65536) + (?n mod 65536 + ?n div 65536)" by simp
    have "?n mod 65535 = (?n mod 65536 + ?n div 65536) mod 65535" by (subst e) (rule mod_mult_self4)
    moreover have "?n mod 65536 + ?n div 65536 = 0 \<longleftrightarrow> ?n = 0" using div_mult_mod_eq [of ?n 65536] by auto
    moreover have "fold_carry s = fold_carry ((s AND 0xffff) + drop_bit 16 s)"
      using False by (subst fold_carry.simps) simp
    ultimately show ?thesis using 1 [OF False] by (simp add: carry_parts)
  qed
qed

lemma word_sum_append: "even (length as) \<Longrightarrow> word_sum (as @ bs) = word_sum as + word_sum bs"
  by (induction as rule: word_sum.induct) auto

lemma unat_ucast_u16: "unat (ucast (w :: u16) :: u32) = unat w"
proof -
  have "unat w < 2 ^ 32" using unsigned_less [of w] by (rule less_le_trans) simp
  then show ?thesis by (simp add: unsigned_ucast_eq take_bit_nat_eq_self)
qed

lemma unat_not_u16: "unat (NOT w :: u16) = 65535 - unat w"
proof -
  have "NOT w = - 1 - w" by (simp add: not_eq_complement)
  then show ?thesis by (simp add: unat_sub word_order.extremum unsigned_minus_1_eq_mask mask_eq_exp_minus_1)
qed

lemma word_sum_bound: "length bs \<le> 100 \<Longrightarrow> unat (word_sum bs) \<le> (length bs + 1) div 2 * 65535"
proof (induction bs rule: word_sum.induct)
  case (3 a b bs)
  let ?w = "from_be_bytes [a, b] :: u16"
  have "unat ?w < 65536" using unsigned_less [of ?w] by simp
  moreover have "unat (ucast ?w + word_sum bs :: u32) \<le> unat (ucast ?w :: u32) + unat (word_sum bs)"
    by (simp add: unat_word_ariths)
  ultimately show ?case using 3 by (simp add: unat_ucast_u16)
next
  case (2 a)
  let ?w = "from_be_bytes [a, 0] :: u16"
  have "unat ?w < 65536" using unsigned_less [of ?w] by simp
  then show ?case by (simp add: unat_ucast_u16)
qed simp

lemma checksum_verifies:
  assumes "even (length as)" "length as + length bs \<le> 98"
  shows "checksum (as @ to_be_bytes 2 (checksum (as @ [0, 0] @ bs)) @ bs) = 0"
proof -
  define S where "S = word_sum (as @ [0, 0] @ bs)"
  define c where "c = checksum (as @ [0, 0] @ bs)"
  have z: "from_be_bytes [0, 0] = (0 :: u16)" by (simp add: from_be_bytes_def)
  have S: "S = word_sum as + word_sum bs" by (simp add: S_def word_sum_append assms z)
  have len: "length (as @ [0, 0] @ bs) \<le> 100" using assms(2) by simp
  have "(length (as @ [0, 0] @ bs) + 1) div 2 * 65535 \<le> 50 * 65535"
    using assms(2) by (intro mult_le_mono1) simp
  with word_sum_bound [OF len] have SB: "unat S \<le> 50 * 65535" unfolding S_def by linarith
  have f: "unat (fold_carry S) < 65536" "unat (fold_carry S) mod 65535 = unat S mod 65535"
    "unat (fold_carry S) = 0 \<longleftrightarrow> unat S = 0"
    using fold_carry_mod [of S] by auto
  have "unat (ucast (fold_carry S) :: u16) = unat (fold_carry S)"
    using f(1) by (simp add: unsigned_ucast_eq take_bit_nat_eq_self)
  then have c: "unat c = 65535 - unat (fold_carry S)"
    by (simp add: c_def checksum_def S_def unat_not_u16)
  have two: "to_be_bytes 2 c = [ucast (drop_bit 8 c), ucast c]"
    by (simp add: to_be_bytes_def numeral_2_eq_2)
  have "from_be_bytes (to_be_bytes 2 c) = c" by (rule from_to_be_bytes) simp
  then have sum: "word_sum (as @ to_be_bytes 2 c @ bs) = S + ucast c"
    by (simp add: word_sum_append assms S two)
  have "unat (S + ucast c :: u32) = unat S + unat c"
    using SB c by (simp add: unat_word_ariths unat_ucast_u16)
  then have u: "unat (S + ucast c :: u32) = unat S + 65535 - unat (fold_carry S)"
    using c f(1) by simp
  let ?g = "fold_carry (S + ucast c)"
  have g: "unat ?g < 65536" "unat ?g mod 65535 = unat (S + ucast c :: u32) mod 65535" "unat ?g = 0 \<longleftrightarrow> unat (S + ucast c :: u32) = 0"
    using fold_carry_mod [of "S + ucast c"] by auto
  have "(unat S + (65535 - unat (fold_carry S))) mod 65535 = (unat (fold_carry S) + (65535 - unat (fold_carry S))) mod 65535"
    using f(2) by (intro mod_add_cong) simp_all
  then have "(unat S + 65535 - unat (fold_carry S)) mod 65535 = 0" using f(1) by simp
  moreover have "0 < unat S + 65535 - unat (fold_carry S)" using f(1,3) by linarith
  ultimately have dv: "65535 dvd unat ?g" "unat ?g \<noteq> 0" using g u by (simp_all add: dvd_eq_mod_eq_0)
  then obtain k where "unat ?g = 65535 * k" by (elim dvdE)
  then have "unat ?g = 65535" using g(1) dv(2) by (cases k) auto
  then have "?g = 65535" by (simp add: word_unat_eq_iff)
  then show ?thesis unfolding c_def [symmetric] by (simp add: checksum_def sum)
qed
section \<open>Packets that are built and read\<close>

lemma bytes_two: "to_be_bytes 2 w = [ucast (drop_bit 8 w), ucast w]"
  by (simp add: to_be_bytes_def numeral_2_eq_2)

lemma bytes_four: "to_be_bytes 4 w = [ucast (drop_bit 24 w), ucast (drop_bit 16 w), ucast (drop_bit 8 w), ucast w]"
  by (simp add: to_be_bytes_def upt_rec)

text \<open>The first 16 bytes of a segment, before its checksum.\<close>

definition tcp_head :: "u16 \<Rightarrow> u16 \<Rightarrow> u32 \<Rightarrow> u32 \<Rightarrow> u8 \<Rightarrow> bytes" where
  "tcp_head sport dport seq ack flags =
     to_be_bytes 2 sport @ to_be_bytes 2 dport @ to_be_bytes 4 seq @ to_be_bytes 4 ack @ [push_bit 4 5, flags] @
     to_be_bytes 2 (64240 :: u16)"

lemma length_tcp_head [simp]: "length (tcp_head sport dport seq ack flags) = 16"
  by (simp add: tcp_head_def)

lemma zeros_20: "replicate 20 (0 :: u8) = [0, 0, 0, 0, 0, 0, 0, 0, 0, 0, 0, 0, 0, 0, 0, 0, 0, 0, 0, 0]"
  by (simp add: eval_nat_numeral)

lemma update_12: "(x0 # x1 # x2 # x3 # x4 # x5 # x6 # x7 # x8 # x9 # x10 # x11 # x12 # xs)[12 := v] =
    x0 # x1 # x2 # x3 # x4 # x5 # x6 # x7 # x8 # x9 # x10 # x11 # v # xs"
  by (simp add: eval_nat_numeral)

lemma update_13: "(x0 # x1 # x2 # x3 # x4 # x5 # x6 # x7 # x8 # x9 # x10 # x11 # x12 # x13 # xs)[13 := v] =
    x0 # x1 # x2 # x3 # x4 # x5 # x6 # x7 # x8 # x9 # x10 # x11 # x12 # v # xs"
  by (simp add: eval_nat_numeral)

lemma tcp_packet_layout:
  "tcp_packet source dest seq ack flags =
     map_option (\<lambda>pseudo. let h = tcp_head (snd source) (snd dest) seq ack flags
        in h @ to_be_bytes 2 (checksum ((pseudo @ h) @ [0, 0] @ [0, 0])) @ [0, 0])
       (pseudo_header (fst source) (fst dest))"
  by (simp add: tcp_packet_def tcp_head_def set_bytes_def bytes_two bytes_four zeros_20 update_12 update_13 Let_def)

lemma to_be_bytes_inj: "LENGTH('a) \<le> 8 * k \<Longrightarrow> to_be_bytes k v = to_be_bytes k w \<longleftrightarrow> v = (w :: 'a :: len word)"
  by (metis from_to_be_bytes)

lemma pseudo_header_size: "pseudo_header src dst = Some pseudo \<Longrightarrow> even (length pseudo) \<and> length pseudo \<le> 40"
  by (auto simp: pseudo_header_def split: ip_addr.splits)

text \<open>What a raw socket puts before a segment: for IPv4 the IP header, with or without options.\<close>

definition ip_header :: "bool \<Rightarrow> bytes \<Rightarrow> bool" where
  "ip_header ipv4 h \<longleftrightarrow>
     (if ipv4
      then 20 \<le> length h \<and> drop_bit 4 (h ! 0) = 4 \<and> h ! 9 = 6 \<and> length h = unat (h ! 0 AND 15) * 4
      else h = [])"

lemma tcp_offset_header: "ip_header ipv4 h \<Longrightarrow> tcp_offset (h @ r) ipv4 = Some (length h)"
proof (cases ipv4)
  case True
  assume "ip_header ipv4 h"
  with True have h: "20 \<le> length h" "drop_bit 4 (h ! 0) = 4" "h ! 9 = 6" "length h = unat (h ! 0 AND 15) * 4"
    by (simp_all add: ip_header_def)
  then have "(h @ r) ! 0 = h ! 0" "(h @ r) ! 9 = h ! 9" by (simp_all add: nth_append)
  with h True show ?thesis by (simp add: tcp_offset_def Let_def)
qed (simp add: ip_header_def tcp_offset_def)

lemma reply_tcp_segment:
  assumes "ip_header ipv4 h"
  shows "reply_tcp (h @ tcp_head sport dport s ack flags @ c0 # c1 # r0 # r1 # extra) ipv4 local_port remote_port seq =
    (if sport = remote_port \<and> dport = local_port \<and> flags AND 0x10 \<noteq> 0 \<and> ack = seq + 1
     then if flags AND 0x04 \<noteq> 0 then Some (False, 0)
          else if flags AND 0x02 = 0 then None else Some (True, s)
     else None)"
proof -
  have off: "\<not> drop_bit 4 (push_bit 4 5 :: u8) < 5" by simp
  have s: "from_be_bytes (to_be_bytes 4 s) = s" by (rule from_to_be_bytes) simp
  have eqs: "to_be_bytes 2 sport = to_be_bytes 2 remote_port \<longleftrightarrow> sport = remote_port"
    "to_be_bytes 2 dport = to_be_bytes 2 local_port \<longleftrightarrow> dport = local_port"
    "to_be_bytes 4 ack = to_be_bytes 4 (seq + 1) \<longleftrightarrow> ack = seq + 1"
    by (simp_all add: to_be_bytes_inj)
  define tcp where "tcp = tcp_head sport dport s ack flags @ c0 # c1 # r0 # r1 # extra"
  have parts: "take 2 tcp = to_be_bytes 2 sport" "take 2 (drop 2 tcp) = to_be_bytes 2 dport"
    "take 4 (drop 4 tcp) = to_be_bytes 4 s" "take 4 (drop 8 tcp) = to_be_bytes 4 ack"
    "tcp ! 12 = push_bit 4 5" "tcp ! 13 = flags" "20 \<le> length tcp"
    by (simp_all add: tcp_def tcp_head_def bytes_two bytes_four)
  show ?thesis
    unfolding tcp_def [symmetric]
    using off parts by (auto simp: reply_tcp_def tcp_offset_header [OF assms] Let_def eqs s)
qed



section \<open>Results of repeated and racing probes\<close>

text \<open>The durations and the last error of a loop, when no failure ends it.\<close>

lemma ping_loop_all:
  "ping_loop all_success rs ds e =
     (if all_success \<and> (\<exists>e. Inl e \<in> set rs) then Inl (hd [e. Inl e \<leftarrow> rs])
      else Inr (ds @ [d. Inr d \<leftarrow> rs], or_else (if [e. Inl e \<leftarrow> rs] = [] then None else Some (last [e. Inl e \<leftarrow> rs])) e))"
  by (induction all_success rs ds e rule: ping_loop.induct) (auto simp: or_else_def)

lemma do_agg_None: "do_agg ds agg = None \<longleftrightarrow> ds = []"
  by (cases agg) (auto simp: do_agg_def Let_def)

lemma mean_bounds:
  fixes ds :: "nat list"
  assumes "ds \<noteq> []"
  shows "Min (set ds) \<le> sum_list ds div length ds \<and> sum_list ds div length ds \<le> Max (set ds)"
proof
  have "length ds * Min (set ds) \<le> sum_list ds"
    using sum_list_mono [of ds "\<lambda>_. Min (set ds)" id] by (simp add: sum_list_triv)
  then show "Min (set ds) \<le> sum_list ds div length ds"
    using assms by (simp add: less_eq_div_iff_mult_less_eq mult.commute)
  have "sum_list ds \<le> length ds * Max (set ds)"
    using sum_list_mono [of ds id "\<lambda>_. Max (set ds)"] by (simp add: sum_list_triv)
  then show "sum_list ds div length ds \<le> Max (set ds)"
    using assms by (metis div_le_mono length_greater_0_conv nonzero_mult_div_cancel_left not_less_zero)
qed

lemma do_agg_bounds:
  assumes "do_agg ds agg = Some d"
  shows "Min (set ds) \<le> d \<and> d \<le> Max (set ds)"
proof -
  have "ds \<noteq> []" using assms do_agg_None [of ds agg] by auto
  then have "Min (set ds) \<le> Max (set ds)" by simp
  then show ?thesis
    using assms mean_bounds [OF \<open>ds \<noteq> []\<close>] \<open>ds \<noteq> []\<close> by (cases agg) (auto simp: do_agg_def Let_def)
qed

definition outcomes :: "(nat \<Rightarrow> (probe_error + duration) option) \<Rightarrow> ping_options \<Rightarrow> (probe_error + duration) list" where
  "outcomes attempt opts = map (\<lambda>i. timed (attempt i)) [0..<unat (po_times opts)]"

text \<open>
  A repeated probe succeeds exactly when one of its attempts does and, if all have to, none fails; what it reports lies
  between the least and the greatest time of the successful attempts.
\<close>

lemma ping_repeated_success:
  "(\<exists>out. ping_repeated attempt dest opts = Inr out) \<longleftrightarrow>
     [d. Inr d \<leftarrow> outcomes attempt opts] \<noteq> [] \<and> (po_all_success opts \<longrightarrow> (\<nexists>e. Inl e \<in> set (outcomes attempt opts)))"
  using do_agg_None [of "[d. Inr d \<leftarrow> outcomes attempt opts]" "po_duration_agg opts"]
  by (auto simp: ping_repeated_def ping_loop_all outcomes_def [symmetric] split: option.split)

lemma ping_repeated_bounds:
  assumes "ping_repeated attempt dest opts = Inr out"
  shows "pg_destination out = dest \<and>
    Min (set [d. Inr d \<leftarrow> outcomes attempt opts]) \<le> pg_duration out \<and>
    pg_duration out \<le> Max (set [d. Inr d \<leftarrow> outcomes attempt opts])"
  using assms do_agg_bounds
  by (fastforce simp: ping_repeated_def ping_loop_all outcomes_def [symmetric] split: option.splits if_splits)

lemma select_ok_first:
  "select_ok rs = (if rs = [] then None else Some (case find (\<lambda>r. \<exists>a. r = Inr a) rs of Some r \<Rightarrow> r | None \<Rightarrow> last rs))"
  by (induction rs rule: select_ok.induct) (auto split: option.splits)

lemma ping_fastest_success:
  assumes "set (arrival dests) = set dests"
  shows "(\<exists>out. ping_fastest arrival E dests opts = Inr out) \<longleftrightarrow> (\<exists>d\<in>set dests. \<exists>out. ping E d opts = Inr out)"
proof (cases "dests = []")
  case False
  then have ne: "arrival dests \<noteq> []" using assms by auto
  let ?rs = "map (\<lambda>d. ping E d opts) (arrival dests)"
  show ?thesis
  proof (cases "find (\<lambda>r. \<exists>a. r = Inr a) ?rs")
    case None
    then have none: "\<forall>d\<in>set dests. \<nexists>out. ping E d opts = Inr out" by (auto simp: find_None_iff assms)
    have "last ?rs \<in> set ?rs" using ne by (intro last_in_set) simp
    then have "\<nexists>out. last ?rs = Inr out" using none assms by (metis (no_types, lifting) image_iff list.set_map)
    then show ?thesis using False ne none None by (simp add: ping_fastest_def select_ok_first)
  next
    case (Some r)
    then have "r \<in> set ?rs" "\<exists>a. r = Inr a" unfolding find_Some_iff by (blast intro: nth_mem, blast)
    then obtain a where "r = Inr a" "r \<in> set ?rs" by blast
    moreover from this have "\<exists>d\<in>set dests. \<exists>out. ping E d opts = Inr out"
      using assms by (metis (no_types, lifting) image_iff list.set_map)
    ultimately show ?thesis using False ne Some by (simp add: ping_fastest_def select_ok_first)
  qed
qed (simp add: ping_fastest_def)

end
