(* ===== verification/Udp_Client.thy ===== *)
theory Udp_Client
  imports Upstream Cache Probe
begin

text \<open>
  The client of an upstream that is asked over UDP (\<^verbatim>\<open>src/src/libdns/custom/udp_client.rs\<close>): the pool of
  idle sockets, one exchange, and what is accepted as its reply.

  The message library is the record \<open>wire_lib\<close>: it encodes a question and an EDNS record (\<open>emit_message_parts\<close>), decodes a
  datagram (\<open>from_buffer\<close>), turns a message without records or with an error code into an error (\<open>from_response\<close>), and
  changes the case of the letters of a name (\<open>randomize_label_case\<close>). What the sockets do in one exchange is the record
  \<open>udp_world\<close>; a list of received datagrams that ends stands for the time-out.
\<close>

section \<open>Parameters\<close>

record wire_lib =
  wl_emit :: "u16 \<Rightarrow> bool \<Rightarrow> query \<Rightarrow> out_edns option \<Rightarrow> proto_error_kind + bytes"
  wl_from_buffer :: "bytes \<Rightarrow> message option"
  wl_from_response :: "message \<Rightarrow> proto_error_kind + message"
  wl_randomize_case :: "name \<Rightarrow> name"

datatype bind_result = Bound "nat \<times> u16" | AddrInUse | BindError string

text \<open>
  For each try to bind: the port drawn and what the system says to it, a socket with its own port or an error. Then the id
  drawn, how many bytes are sent, and what is received: a datagram with its sender, or an error.
\<close>

record udp_world =
  uw_now :: instant
  uw_tries :: "nat \<Rightarrow> u16 \<times> (u16 \<Rightarrow> bind_result)"
  uw_connect_error :: "string option"
  uw_id :: u16
  uw_send :: "bytes \<Rightarrow> string + nat"
  uw_received :: "(string + (bytes \<times> ip_addr \<times> u16)) list"

record udp_options =
  uo_os_port_selection :: bool
  uo_avoid_local_udp_ports :: "u16 list"
  uo_proxy :: bool

text \<open>The idle sockets, the one returned last at the end.\<close>

record udp_client =
  uc_server :: "ip_addr \<times> u16"
  uc_options :: udp_options
  uc_idle :: "nat list"

definition MAX_IDLE_SOCKETS :: nat where
  "MAX_IDLE_SOCKETS = 64"

definition MAX_RECEIVE_BUFFER_SIZE :: nat where
  "MAX_RECEIVE_BUFFER_SIZE = 4096"

definition udp_client_new :: "ip_addr \<times> u16 \<Rightarrow> udp_options \<Rightarrow> udp_client" where
  "udp_client_new server options = \<lparr>uc_server = server, uc_options = options, uc_idle = []\<rparr>"

section \<open>Binding a socket\<close>

fun bind_tries :: "udp_options \<Rightarrow> string option \<Rightarrow> (u16 \<times> (u16 \<Rightarrow> bind_result)) list \<Rightarrow> string + nat" where
  "bind_tries opts connect [] = Inl ''no available UDP source port''"
| "bind_tries opts connect ((random, bind) # rest) =
     (let port = (if uo_os_port_selection opts then 0 else random)
      in if port \<in> set (uo_avoid_local_udp_ports opts) then bind_tries opts connect rest
         else
           (case bind port of
              Bound (socket, local) \<Rightarrow>
                (if local \<in> set (uo_avoid_local_udp_ports opts) then bind_tries opts connect rest
                 else if \<not> uo_proxy opts \<and> connect \<noteq> None then Inl (the connect)
                 else Inr socket)
            | AddrInUse \<Rightarrow> bind_tries opts connect rest
            | BindError e \<Rightarrow> Inl e))"

definition udp_bind :: "udp_client \<Rightarrow> udp_world \<Rightarrow> string + nat" where
  "udp_bind C W = bind_tries (uc_options C) (uw_connect_error W) (map (uw_tries W) [0..<10])"

section \<open>Accepting a reply\<close>

text \<open>\<open>Name::eq_case\<close>: the same labels, letter case included.\<close>

definition eq_case :: "name \<Rightarrow> name \<Rightarrow> bool" where
  "eq_case a b \<longleftrightarrow> nm_fqdn a = nm_fqdn b \<and> nm_labels a = nm_labels b"

definition decode_response ::
  "name_lib \<Rightarrow> wire_lib \<Rightarrow> instant \<Rightarrow> bytes \<Rightarrow> query \<Rightarrow> query option \<Rightarrow> proto_error_kind + dns_response option" where
  "decode_response L B now bs q original =
     (case wl_from_buffer B bs of
        None \<Rightarrow> Inr None
      | Some response \<Rightarrow>
          (if \<not> list_all (\<lambda>reply. q_eq L reply q) (msg_queries response) then Inr None
           else
             (let finish = (\<lambda>response. map_sum id (\<lambda>m. Some (from_xfer now m (length bs))) (wl_from_response B response))
              in case original of
                   Some original \<Rightarrow>
                     (if \<not> list_all (\<lambda>reply. eq_case (q_name q) (q_name reply)) (msg_queries response)
                      then Inl (ProtoOther ''case of query name in response did not match'')
                      else finish (response\<lparr>msg_queries :=
                             map (\<lambda>reply. if q_eq L reply original then original else reply) (msg_queries response)\<rparr>))
                 | None \<Rightarrow> finish response)))"

text \<open>How the receiving loop ends: by the time-out, an error of the socket, a wrong letter case, or a reply, after which
  the socket may be used again.\<close>

datatype received = TimedOutWaiting | ExchangeError proto_error_kind | CaseMismatch proto_error_kind | Replied "proto_error_kind + dns_response"

fun receive_loop ::
  "name_lib \<Rightarrow> wire_lib \<Rightarrow> instant \<Rightarrow> bool \<Rightarrow> ip_addr \<times> u16 \<Rightarrow> u16 \<Rightarrow> nat \<Rightarrow> query \<Rightarrow> query option \<Rightarrow>
   (string + (bytes \<times> ip_addr \<times> u16)) list \<Rightarrow> received" where
  "receive_loop L B now proxy server qid len q original [] = TimedOutWaiting"
| "receive_loop L B now proxy server qid len q original (Inl e # rest) = ExchangeError (ProtoOther e)"
| "receive_loop L B now proxy server qid len q original (Inr (datagram, sender) # rest) =
     (let bs = take len datagram; peer = (if proxy then sender else server)
      in if peer \<noteq> server \<or> length bs < 2 \<or> from_be_bytes (take 2 bs) \<noteq> qid
         then receive_loop L B now proxy server qid len q original rest
         else
           (case decode_response L B now bs q original of
              Inr (Some response) \<Rightarrow> Replied (Inr response)
            | Inr None \<Rightarrow> receive_loop L B now proxy server qid len q original rest
            | Inl e \<Rightarrow>
                (if e = ProtoOther ''case of query name in response did not match'' then CaseMismatch e
                 else Replied (Inl e))))"

section \<open>An exchange\<close>

definition asked :: "wire_lib \<Rightarrow> bool \<Rightarrow> query \<Rightarrow> query \<times> query option" where
  "asked B case_randomization q =
     (let q = (if \<not> nm_fqdn (q_name q) then q\<lparr>q_name := (q_name q)\<lparr>nm_fqdn := True\<rparr>\<rparr> else q)
      in if case_randomization then (q\<lparr>q_name := wl_randomize_case B (q_name q)\<rparr>, Some q) else (q, None))"

definition receive_size :: "out_edns option \<Rightarrow> nat" where
  "receive_size edns = min MAX_RECEIVE_BUFFER_SIZE (case edns of Some e \<Rightarrow> unat (oe_max_payload e) | None \<Rightarrow> 512)"

text \<open>The socket of an exchange: the one returned last, or a new one.\<close>

definition take_socket :: "udp_client \<Rightarrow> udp_world \<Rightarrow> (string + nat) \<times> udp_client" where
  "take_socket C W =
     (if uc_idle C \<noteq> [] then (Inr (last (uc_idle C)), C\<lparr>uc_idle := butlast (uc_idle C)\<rparr>) else (udp_bind C W, C))"

definition return_socket :: "nat \<Rightarrow> udp_client \<Rightarrow> udp_client" where
  "return_socket socket C =
     (if length (uc_idle C) < MAX_IDLE_SOCKETS then C\<lparr>uc_idle := uc_idle C @ [socket]\<rparr> else C)"

text \<open>What happens between taking and returning the socket. Other exchanges may run then.\<close>

definition exchange_with ::
  "name_lib \<Rightarrow> wire_lib \<Rightarrow> udp_world \<Rightarrow> udp_client \<Rightarrow> query \<Rightarrow> bool \<Rightarrow> request_options \<Rightarrow> out_edns option \<Rightarrow> received" where
  "exchange_with L B W C q case_randomization options edns =
     (let (q, original) = asked B case_randomization q
      in case wl_emit B (uw_id W) (ro_recursion_desired options) q edns of
           Inl e \<Rightarrow> ExchangeError e
         | Inr packet \<Rightarrow>
             (case uw_send W packet of
                Inl e \<Rightarrow> ExchangeError (ProtoOther e)
              | Inr sent \<Rightarrow>
                  (if sent \<noteq> length packet then ExchangeError (ProtoOther ''incomplete UDP query send'')
                   else receive_loop L B (uw_now W) (uo_proxy (uc_options C)) (uc_server C) (uw_id W) (receive_size edns) q original
                          (uw_received W))))"

definition udp_lookup ::
  "name_lib \<Rightarrow> wire_lib \<Rightarrow> udp_world \<Rightarrow> udp_client \<Rightarrow> query \<Rightarrow> bool \<Rightarrow> request_options \<Rightarrow> out_edns option \<Rightarrow>
   (proto_error_kind + dns_response) \<times> udp_client" where
  "udp_lookup L B W C q case_randomization options edns =
     (case take_socket C W of
        (Inl e, C) \<Rightarrow> (Inl (ProtoOther e), C)
      | (Inr socket, C) \<Rightarrow>
          (case exchange_with L B W C q case_randomization options edns of
             TimedOutWaiting \<Rightarrow> (Inl ProtoTimeout, C)
           | ExchangeError e \<Rightarrow> (Inl e, C)
           | CaseMismatch e \<Rightarrow> (Inl e, C)
           | Replied r \<Rightarrow> (r, return_socket socket C)))"

section \<open>Properties\<close>

text \<open>A datagram that this question and no other was sent for.\<close>

definition answers_question ::
  "name_lib \<Rightarrow> wire_lib \<Rightarrow> bool \<Rightarrow> ip_addr \<times> u16 \<Rightarrow> u16 \<Rightarrow> query \<Rightarrow> bytes \<Rightarrow> ip_addr \<times> u16 \<Rightarrow> message \<Rightarrow> bool" where
  "answers_question L B exact server qid q bs sender m \<longleftrightarrow>
     2 \<le> length bs \<and> from_be_bytes (take 2 bs) = qid \<and> wl_from_buffer B bs = Some m \<and>
     (\<forall>reply\<in>set (msg_queries m). q_eq L reply q \<and> (exact \<longrightarrow> eq_case (q_name q) (q_name reply)))"

lemma decode_response_answers:
  assumes "decode_response L B now bs q original = Inr (Some r)"
  shows "\<exists>m m'. wl_from_buffer B bs = Some m \<and>
    (\<forall>reply\<in>set (msg_queries m). q_eq L reply q \<and> (original \<noteq> None \<longrightarrow> eq_case (q_name q) (q_name reply))) \<and>
    wl_from_response B (case original of None \<Rightarrow> m | Some o' \<Rightarrow>
      m\<lparr>msg_queries := map (\<lambda>reply. if q_eq L reply o' then o' else reply) (msg_queries m)\<rparr>) = Inr m' \<and> dr_message r = m'"
proof -
  obtain m where m: "wl_from_buffer B bs = Some m" "list_all (\<lambda>reply. q_eq L reply q) (msg_queries m)"
    using assms by (auto simp: decode_response_def split: option.splits if_splits)
  show ?thesis
    using assms m
    by (cases original)
      (auto simp: decode_response_def Let_def list_all_iff from_xfer_def from_message_def map_sum_def
        split: if_splits sum.splits)
qed

lemma receive_loop_replied:
  assumes "receive_loop L B now proxy server qid len q original rs = Replied (Inr r)"
  shows "\<exists>datagram sender m. Inr (datagram, sender) \<in> set rs \<and> (proxy \<longrightarrow> sender = server) \<and>
    answers_question L B (original \<noteq> None) server qid q (take len datagram) sender m \<and>
    wl_from_response B (case original of None \<Rightarrow> m | Some o' \<Rightarrow>
      m\<lparr>msg_queries := map (\<lambda>reply. if q_eq L reply o' then o' else reply) (msg_queries m)\<rparr>) = Inr (dr_message r)"
  using assms
proof (induction rs)
  case (Cons d rs)
  show ?case
  proof (cases d)
    case (Inl e)
    with Cons.prems show ?thesis by simp
  next
    case (Inr p)
    obtain datagram sender where p: "p = (datagram, sender)" by (cases p)
    let ?bs = "take len datagram"
    consider (skip) "receive_loop L B now proxy server qid len q original rs = Replied (Inr r)"
      | (here) "\<not> (proxy \<and> sender \<noteq> server)" "2 \<le> length ?bs" "from_be_bytes (take 2 ?bs) = qid"
        "decode_response L B now ?bs q original = Inr (Some r)"
      using Cons.prems
      by (auto simp: Inr p Let_def not_less min_less_iff_disj split: if_splits sum.splits option.splits)
    then show ?thesis
    proof cases
      case skip
      with Cons.IH show ?thesis by (meson list.set_intros(2))
    next
      case here
      obtain m where "answers_question L B (original \<noteq> None) server qid q ?bs sender m"
        "wl_from_response B (case original of None \<Rightarrow> m | Some o' \<Rightarrow>
           m\<lparr>msg_queries := map (\<lambda>reply. if q_eq L reply o' then o' else reply) (msg_queries m)\<rparr>) = Inr (dr_message r)"
        using decode_response_answers [OF here(4)] here(2,3) unfolding answers_question_def by blast
      moreover have "Inr (datagram, sender) \<in> set (d # rs)" by (simp add: Inr p)
      ultimately show ?thesis using here(1) by blast
    qed
  qed
qed simp

text \<open>What the exchange relies on of the message library.\<close>

locale wire_library = name_library L for L :: name_lib +
  fixes B :: wire_lib
  assumes from_response: "wl_from_response B m = Inr m' \<Longrightarrow> m' = m"
    and randomize_case: "nl_eq L (wl_randomize_case B n) n"
begin

lemma asked_eq: "asked B cr q = (sent, original) \<Longrightarrow> q_eq L sent (fst (asked B False q))"
  by (auto simp: asked_def Let_def q_eq_def eq_refl randomize_case split: if_splits)

lemma asked_original: "asked B cr q = (sent, original) \<Longrightarrow> original = (if cr then Some (fst (asked B False q)) else None)"
  by (auto simp: asked_def Let_def split: if_splits)

lemma q_eq_trans: "q_eq L a b \<Longrightarrow> q_eq L b c \<Longrightarrow> q_eq L a c"
  using eq_trans by (auto simp: q_eq_def)

lemma reply_is_ours:
  assumes "udp_lookup L B W C q cr options edns = (Inr r, C')"
  shows "\<exists>datagram sender m. Inr (datagram, sender) \<in> set (uw_received W) \<and> (uo_proxy (uc_options C) \<longrightarrow> sender = uc_server C) \<and>
    from_be_bytes (take 2 (take (receive_size edns) datagram)) = uw_id W \<and>
    wl_from_buffer B (take (receive_size edns) datagram) = Some m \<and> msg_answers (dr_message r) = msg_answers m \<and>
    (\<forall>reply\<in>set (msg_queries (dr_message r)). q_eq L reply (fst (asked B False q)) \<and> (cr \<longrightarrow> reply = fst (asked B False q)))"
proof -
  obtain sent original where sent: "asked B cr q = (sent, original)" by fastforce
  have pool: "uc_options C' = uc_options C" "uc_server C' = uc_server C" if "take_socket C W = (x, C')" for x C'
    using that by (auto simp: take_socket_def split: if_splits)
  obtain socket C1 where C1: "take_socket C W = (Inr socket, C1)" "exchange_with L B W C1 q cr options edns = Replied (Inr r)"
    using assms
    by (cases "take_socket C W"; cases "fst (take_socket C W)"; cases "exchange_with L B W (snd (take_socket C W)) q cr options edns")
      (auto simp: udp_lookup_def)
  then have "receive_loop L B (uw_now W) (uo_proxy (uc_options C1)) (uc_server C1) (uw_id W) (receive_size edns) sent original
      (uw_received W) = Replied (Inr r)"
    by (simp add: exchange_with_def sent split: sum.splits if_splits)
  then have "receive_loop L B (uw_now W) (uo_proxy (uc_options C)) (uc_server C) (uw_id W) (receive_size edns) sent original
      (uw_received W) = Replied (Inr r)"
    by (simp add: pool [OF C1(1)])
  from receive_loop_replied [OF this] obtain datagram sender m where m: "Inr (datagram, sender) \<in> set (uw_received W)"
    "uo_proxy (uc_options C) \<longrightarrow> sender = uc_server C"
    "answers_question L B (original \<noteq> None) (uc_server C) (uw_id W) sent (take (receive_size edns) datagram) sender m"
    "dr_message r = (case original of None \<Rightarrow> m | Some o' \<Rightarrow>
      m\<lparr>msg_queries := map (\<lambda>reply. if q_eq L reply o' then o' else reply) (msg_queries m)\<rparr>)"
    using from_response by blast
  have q: "q_eq L reply (fst (asked B False q))" if "reply \<in> set (msg_queries m)" for reply
    using m(3) that asked_eq [OF sent] q_eq_trans unfolding answers_question_def by blast
  have refl: "q_eq L x x" for x by (simp add: q_eq_def eq_refl)
  show ?thesis
    using m q refl asked_original [OF sent]
    by (intro exI [of _ datagram] exI [of _ sender] exI [of _ m]) (auto simp: answers_question_def split: if_splits)
qed

end


section \<open>The pool under concurrent exchanges\<close>

text \<open>Exchanges take their sockets, end with a reply, or fail or are cancelled, in any order; a socket that the system binds is
  none of those in use.\<close>

inductive udp_step :: "udp_client \<times> nat list \<Rightarrow> udp_client \<times> nat list \<Rightarrow> bool" where
  begins: "take_socket C W = (Inr s, C') \<Longrightarrow> uc_idle C = [] \<Longrightarrow> s \<notin> set busy \<Longrightarrow> udp_step (C, busy) (C', s # busy)"
| reuses: "take_socket C W = (Inr s, C') \<Longrightarrow> uc_idle C \<noteq> [] \<Longrightarrow> udp_step (C, busy) (C', s # busy)"
| replied: "s \<in> set busy \<Longrightarrow> udp_step (C, busy) (return_socket s C, remove1 s busy)"
| dropped: "s \<in> set busy \<Longrightarrow> udp_step (C, busy) (C, remove1 s busy)"

definition pool_ok :: "udp_client \<times> nat list \<Rightarrow> bool" where
  "pool_ok = (\<lambda>(C, busy). distinct (uc_idle C @ busy) \<and> length (uc_idle C) \<le> MAX_IDLE_SOCKETS)"

lemma udp_step_pool: "udp_step s s' \<Longrightarrow> pool_ok s \<Longrightarrow> pool_ok s'"
proof (induction rule: udp_step.induct)
  case (reuses C W s C' busy)
  then obtain xs where "uc_idle C = xs @ [s]" by (auto simp: take_socket_def intro: append_butlast_last_id [symmetric])
  with reuses show ?case by (auto simp: pool_ok_def take_socket_def)
qed (auto simp: pool_ok_def take_socket_def return_socket_def distinct_remove1 notin_set_remove1)

text \<open>
  C39: No two exchanges share a socket. However exchanges begin, end and are cancelled, a socket in use is not in the pool
  and is used by one exchange only, and the pool keeps no more than \<open>MAX_IDLE_SOCKETS\<close>.
\<close>

theorem udp_sockets_exclusive:
  assumes "udp_step\<^sup>*\<^sup>* (udp_client_new server options, []) (C, busy)"
  shows "distinct (uc_idle C @ busy) \<and> length (uc_idle C) \<le> MAX_IDLE_SOCKETS"
proof -
  have "pool_ok (udp_client_new server options, [])" by (simp add: pool_ok_def udp_client_new_def)
  with assms have "pool_ok (C, busy)"
    by (induction rule: rtranclp_induct) (auto dest: udp_step_pool)
  then show ?thesis by (simp add: pool_ok_def)
qed

lemma bind_avoids:
  assumes "bind_tries opts connect ts = Inr s"
  shows "\<exists>r bind local. (r, bind) \<in> set ts \<and> bind (if uo_os_port_selection opts then 0 else r) = Bound (s, local) \<and>
    local \<notin> set (uo_avoid_local_udp_ports opts)"
  using assms
proof (induction ts)
  case (Cons t ts)
  obtain r bind where t: "t = (r, bind)" by (cases t)
  let ?port = "if uo_os_port_selection opts then 0 else r"
  have "bind_tries opts connect ts = Inr s \<or>
      (\<exists>local. bind ?port = Bound (s, local) \<and> local \<notin> set (uo_avoid_local_udp_ports opts))"
    using Cons.prems by (cases "bind ?port") (auto simp: t Let_def split: if_splits)
  with Cons.IH show ?case unfolding t by (meson list.set_intros)
qed simp

section \<open>A concrete exchange\<close>

definition udp_question :: query where
  "udp_question = \<lparr>q_name = ascii_name [''example'', ''com''] True, q_type = RT_A, q_class = 1\<rparr>"

text \<open>A message library for one question: a datagram is an id and a byte that tells whether it has a body.\<close>

definition small_wire :: wire_lib where
  "small_wire =
     \<lparr>wl_emit = (\<lambda>qid _ _ _. Inr (to_be_bytes 2 qid)),
      wl_from_buffer = (\<lambda>bs. if length bs = 3
        then Some \<lparr>msg_rcode = NoError, msg_truncated = False, msg_queries = [udp_question], msg_answers = [], msg_authorities = [],
          msg_additionals = []\<rparr>
        else None),
      wl_from_response = Inr, wl_randomize_case = (\<lambda>n. n)\<rparr>"

interpretation small_wire: wire_library std_lib small_wire
  by unfold_locales (auto simp: small_wire_def intro: std.eq_refl)

definition udp_server :: "ip_addr \<times> u16" where
  "udp_server = (V4 0x01010101, 53)"

text \<open>The first datagram has another id.\<close>

definition udp_example :: udp_world where
  "udp_example =
     \<lparr>uw_now = 0, uw_tries = (\<lambda>_. (5000, \<lambda>p. Bound (1, p))), uw_connect_error = None, uw_id = 7, uw_send = (\<lambda>p. Inr (length p)),
      uw_received = [Inr ([0, 8, 1], udp_server), Inr ([0, 7, 1], udp_server)]\<rparr>"

definition udp_example_client :: udp_client where
  "udp_example_client = udp_client_new udp_server \<lparr>uo_os_port_selection = False, uo_avoid_local_udp_ports = [], uo_proxy = True\<rparr>"


theorem udp_sockets_exclusive_witness:
  "udp_step\<^sup>*\<^sup>* (udp_client_new udp_server (uc_options udp_example_client), []) (udp_example_client\<lparr>uc_idle := [1]\<rparr>, []) \<and>
   length (uc_idle (udp_example_client\<lparr>uc_idle := [1]\<rparr>)) \<le> MAX_IDLE_SOCKETS"
proof -
  let ?C = "udp_client_new udp_server (uc_options udp_example_client)"
  have C: "?C = udp_example_client" by (simp add: udp_example_client_def udp_client_new_def)
  have "take_socket ?C udp_example = (Inr 1, ?C)" unfolding C by code_simp
  moreover have "uc_idle ?C = []" by (simp add: udp_client_new_def)
  ultimately have "udp_step (?C, []) (?C, [1])" by (rule udp_step.begins) simp
  moreover have "udp_step (?C, [1]) (return_socket 1 ?C, remove1 1 [1])" by (rule udp_step.replied) simp
  moreover have "return_socket 1 ?C = udp_example_client\<lparr>uc_idle := [1]\<rparr>"
    by (simp add: C return_socket_def MAX_IDLE_SOCKETS_def) (simp add: udp_example_client_def udp_client_new_def)
  ultimately have run: "udp_step\<^sup>*\<^sup>* (?C, []) (udp_example_client\<lparr>uc_idle := [1]\<rparr>, [])"
    by (simp add: converse_rtranclp_into_rtranclp)
  from run udp_sockets_exclusive [OF run] show ?thesis by simp
qed

end
