(* ===== verification/Dhcp.thy ===== *)
theory Dhcp
  imports Probe
begin

unbundle bit_operations_syntax

text \<open>
  Finding the name servers of a network: the DHCPv4 discovery of \<^verbatim>\<open>src/src/infra/dhcp.rs\<close>, with the
  default route of an interface, the request that is sent and the reading of the replies.

  The files of the operating system are arguments, as texts. What the socket of a discovery receives is a list of packets.
\<close>

section \<open>Numbers in texts\<close>

text \<open>\<open>u32::from_str_radix\<close> and \<open>u8::from_str_radix\<close>: a plus sign is allowed, an empty number is not.\<close>

definition is_radix_digit :: "int \<Rightarrow> char \<Rightarrow> bool" where
  "is_radix_digit radix c \<longleftrightarrow> (if radix = 16 then is_hexdigit c else is_digit c)"

definition from_str_radix :: "int \<Rightarrow> int \<Rightarrow> string \<Rightarrow> int option" where
  "from_str_radix limit radix s =
     (let ds = (case s of c # cs \<Rightarrow> if c = CHR ''+'' then cs else s | [] \<Rightarrow> [])
      in if ds = [] \<or> \<not> list_all (is_radix_digit radix) ds \<or> digits_value radix ds \<ge> limit then None
         else Some (digits_value radix ds))"

section \<open>The interface\<close>

record network_interface =
  ni_name :: string
  ni_mac_addr :: "bytes option"
  ni_gateway :: "ipv4 option"

definition route_line :: "bool \<Rightarrow> string \<Rightarrow> (nat \<times> string \<times> ipv4) option" where
  "route_line le l =
     (let fs = split_whitespace l
      in if length fs < 8 \<or> fs ! 1 \<noteq> ''00000000'' \<or> fs ! 7 \<noteq> ''00000000'' then None
         else
           Option.bind (from_str_radix (2 ^ 32) 16 (fs ! 2)) (\<lambda>gateway.
             Option.bind (from_str_radix (2 ^ 32) 10 (fs ! 6)) (\<lambda>metric.
               Some (nat metric, fs ! 0, from_be_bytes (to_ne_bytes le 4 (of_int gateway :: u32))))))"

definition default_routes :: "bool \<Rightarrow> string \<Rightarrow> (string \<times> ipv4) list" where
  "default_routes le table =
     map snd (sort_key fst (List.map_filter (route_line le) (drop 1 (lines table))))"

fun mac_bytes :: "nat \<Rightarrow> string list \<Rightarrow> (bytes \<times> string list) option" where
  "mac_bytes 0 parts = Some ([], parts)"
| "mac_bytes (Suc n) [] = None"
| "mac_bytes (Suc n) (p # parts) =
     Option.bind (from_str_radix 256 16 p) (\<lambda>b. map_option (map_prod ((#) (of_int b)) id) (mac_bytes n parts))"

definition parse_mac :: "string \<Rightarrow> bytes option" where
  "parse_mac t =
     (case mac_bytes 6 (split_on (\<lambda>c. c = CHR '':'') (trim t)) of
        Some (mac, rest) \<Rightarrow> if rest = [] \<and> mac \<noteq> replicate 6 0 then Some mac else None
      | None \<Rightarrow> None)"

text \<open>\<open>route\<close> is the routing table, \<open>address n\<close> the text of the address of interface \<open>n\<close>, if they can be read.\<close>

record iface_env =
  ie_little_endian :: bool
  ie_route :: "string option"
  ie_exists :: "string \<Rightarrow> bool"
  ie_address :: "string \<Rightarrow> string option"

definition find_interface_by_name :: "iface_env \<Rightarrow> string option \<Rightarrow> string + network_interface" where
  "find_interface_by_name E n =
     (let routes = default_routes (ie_little_endian E) (unwrap_or (ie_route E) []);
          chosen = (case n of
              Some n \<Rightarrow> if ie_exists E n then Inr n else Inl (''Interface '' @ n @ '' not found'')
            | None \<Rightarrow> (case routes of (iface, _) # _ \<Rightarrow> Inr iface | [] \<Rightarrow> Inl ''No default interface found''))
      in case chosen of
           Inl e \<Rightarrow> Inl e
         | Inr n \<Rightarrow>
             Inr \<lparr>ni_name = n,
               ni_mac_addr = Option.bind (ie_address E n) parse_mac,
               ni_gateway = map_option snd (find (\<lambda>(iface, gateway). iface = n \<and> gateway \<noteq> 0) routes)\<rparr>)"

section \<open>Messages\<close>

definition MAGIC_COOKIE :: bytes where
  "MAGIC_COOKIE = [99, 130, 83, 99]"

definition PARAMETERS :: bytes where
  "PARAMETERS = [1, 3, 6, 15, 31, 33, 44, 46, 47, 119, 121, 28, 2, 12]"

definition dhcp_v4_discover :: "bytes \<Rightarrow> u32 \<Rightarrow> bool \<Rightarrow> bytes option \<Rightarrow> bytes" where
  "dhcp_v4_discover mac xid broadcast hostname =
     (let msg = replicate 236 0;
          msg = msg[0 := 1];
          msg = msg[1 := 1];
          msg = msg[2 := 6];
          msg = set_bytes 4 (to_be_bytes 4 xid) msg;
          msg = (if broadcast then msg[10 := 0x80] else msg);
          msg = set_bytes 28 mac msg
      in msg @ MAGIC_COOKIE @ [53, 1, 1] @
         (case opt_filter (\<lambda>host. host \<noteq> []) hostname of
            Some host \<Rightarrow> (let host = take (min (length host) 255) host in [12, of_nat (length host)] @ host)
          | None \<Rightarrow> []) @
         [61, 7, 1] @ mac @ [55, of_nat (length PARAMETERS)] @ PARAMETERS @ [255])"

record dhcp_v4_reply =
  dr_domain_name_servers :: "ipv4 list"
  dr_name_servers :: "ipv4 list"

definition addresses :: "bytes \<Rightarrow> ipv4 list" where
  "addresses v = map from_be_bytes (filter (\<lambda>c. length c = 4) (chunks 4 v))"

text \<open>The loop over the options; each turn drops a byte or more.\<close>

function parse_options :: "bytes \<Rightarrow> dhcp_v4_reply \<Rightarrow> string + dhcp_v4_reply" where
  "parse_options options reply =
     (case options of
        [] \<Rightarrow> Inr reply
      | code # rest \<Rightarrow>
          (if code = 0 then parse_options rest reply
           else if code = 255 then Inr reply
           else
             (case rest of
                [] \<Rightarrow> Inl ''truncated DHCPv4 option''
              | len # rest \<Rightarrow>
                  (if length rest < unat len then Inl ''truncated DHCPv4 option''
                   else
                     (let value = take (unat len) rest; rest = drop (unat len) rest;
                          reply =
                            (if code = 6 then reply\<lparr>dr_domain_name_servers := dr_domain_name_servers reply @ addresses value\<rparr>
                             else if code = 5 then reply\<lparr>dr_name_servers := dr_name_servers reply @ addresses value\<rparr>
                             else reply)
                      in parse_options rest reply)))))"
  by pat_completeness auto
termination by (relation "measure (length \<circ> fst)") (auto simp: less_Suc_eq_le)

declare parse_options.simps [simp del]

definition dhcp_parse :: "bytes \<Rightarrow> u32 \<Rightarrow> string + dhcp_v4_reply" where
  "dhcp_parse packet xid =
     (if length packet < 240 \<or> packet ! 0 \<noteq> 2 \<or> take 4 (drop 236 packet) \<noteq> MAGIC_COOKIE then Inl ''not a DHCPv4 reply''
      else if take 4 (drop 4 packet) \<noteq> to_be_bytes 4 xid then Inl ''DHCPv4 reply to another request''
      else parse_options (drop 240 packet) \<lparr>dr_domain_name_servers = [], dr_name_servers = []\<rparr>)"

definition nameservers :: "dhcp_v4_reply \<Rightarrow> ip_addr list" where
  "nameservers r = map V4 (if dr_domain_name_servers r = [] then dr_name_servers r else dr_domain_name_servers r)"

section \<open>The discovery\<close>

text \<open>
  What the world does in one try: the transaction id, the error of the socket if there is one, and the packets that
  come before the time-out.
\<close>

record dhcp_try =
  dt_xid :: u32
  dt_hostname :: "bytes option"
  dt_error :: "string option"
  dt_packets :: "bytes list"

fun exchange :: "u32 \<Rightarrow> bytes list \<Rightarrow> string + dhcp_v4_reply" where
  "exchange xid [] = Inl ''deadline has elapsed''"
| "exchange xid (p # ps) = (case dhcp_parse p xid of Inr reply \<Rightarrow> Inr reply | Inl _ \<Rightarrow> exchange xid ps)"

text \<open>The message sent and its destination, and the result.\<close>

definition send_discover_v4 :: "dhcp_try \<Rightarrow> bytes \<Rightarrow> ipv4 \<Rightarrow> (bytes \<times> ipv4) \<times> (string + dhcp_v4_reply)" where
  "send_discover_v4 T mac dst =
     ((dhcp_v4_discover mac (dt_xid T) False (dt_hostname T), dst),
      case dt_error T of Some e \<Rightarrow> Inl e | None \<Rightarrow> exchange (dt_xid T) (dt_packets T))"

fun discover_tries :: "nat \<Rightarrow> (nat \<Rightarrow> string + dhcp_v4_reply) \<Rightarrow> string + dhcp_v4_reply" where
  "discover_tries 0 try = Inl ''Failed to discover DHCPv4 server after retries''"
| "discover_tries (Suc n) try =
     (case try (Suc n) of
        Inr msg \<Rightarrow> Inr msg
      | Inl e \<Rightarrow> if n = 0 then Inl e else discover_tries n try)"

definition discover_v4 :: "iface_env \<Rightarrow> (nat \<Rightarrow> dhcp_try) \<Rightarrow> string option \<Rightarrow> string + dhcp_v4_reply" where
  "discover_v4 E T eth_name =
     (case find_interface_by_name E eth_name of
        Inl e \<Rightarrow> Inl e
      | Inr iface \<Rightarrow>
          (case ni_mac_addr iface of
             None \<Rightarrow> Inl ''No MAC address found for interface''
           | Some mac \<Rightarrow>
               discover_tries 3 (\<lambda>n. snd (send_discover_v4 (T n) mac (unwrap_or (ni_gateway iface) 0xffffffff)))))"

section \<open>Reading replies\<close>

lemma parse_options_Nil [simp]: "parse_options [] r = Inr r"
  by (subst parse_options.simps) simp

lemma parse_options_pad [simp]: "parse_options (replicate n 0 @ os) r = parse_options os r"
proof (induction n)
  case (Suc n)
  have "parse_options (0 # (replicate n 0 @ os)) r = parse_options (replicate n 0 @ os) r"
    by (subst parse_options.simps) simp
  with Suc show ?case by simp
qed simp

lemma parse_options_end [simp]: "parse_options (255 # junk) r = Inr r"
  by (subst parse_options.simps) simp

definition dhcp_option :: "u8 \<Rightarrow> bytes \<Rightarrow> bytes" where
  "dhcp_option code v = [code, of_nat (length v)] @ v"

definition add_servers :: "u8 \<Rightarrow> bytes \<Rightarrow> dhcp_v4_reply \<Rightarrow> dhcp_v4_reply" where
  "add_servers code v r =
     (if code = 6 then r\<lparr>dr_domain_name_servers := dr_domain_name_servers r @ addresses v\<rparr>
      else if code = 5 then r\<lparr>dr_name_servers := dr_name_servers r @ addresses v\<rparr> else r)"

lemma parse_options_option:
  assumes "code \<noteq> 0" "code \<noteq> 255" "length v < 256"
  shows "parse_options (dhcp_option code v @ os) r = parse_options os (add_servers code v r)"
proof -
  have "unat (of_nat (length v) :: u8) = length v" using assms(3) by (simp add: unat_of_nat)
  then show ?thesis
    using assms by (subst parse_options.simps) (simp add: dhcp_option_def add_servers_def Let_def)
qed

text \<open>The options of a reply as its server writes them: each behind some padding.\<close>

definition dhcp_options :: "(nat \<times> u8 \<times> bytes) list \<Rightarrow> bytes" where
  "dhcp_options os = concat (map (\<lambda>(n, code, v). replicate n 0 @ dhcp_option code v) os)"

definition options_ok :: "(nat \<times> u8 \<times> bytes) list \<Rightarrow> bool" where
  "options_ok os \<longleftrightarrow> (\<forall>(n, code, v)\<in>set os. code \<noteq> 0 \<and> code \<noteq> 255 \<and> length v < 256)"

definition servers_of :: "u8 \<Rightarrow> (nat \<times> u8 \<times> bytes) list \<Rightarrow> ipv4 list" where
  "servers_of k os = concat (map (\<lambda>(_, code, v). if code = k then addresses v else []) os)"

lemma servers_of_Cons [simp]:
  "servers_of k [] = []" "servers_of k ((n, code, v) # os) = (if code = k then addresses v else []) @ servers_of k os"
  by (simp_all add: servers_of_def)

lemma parse_options_all:
  "options_ok os \<Longrightarrow> parse_options (dhcp_options os @ end) r =
     parse_options end (r\<lparr>dr_domain_name_servers := dr_domain_name_servers r @ servers_of 6 os,
       dr_name_servers := dr_name_servers r @ servers_of 5 os\<rparr>)"
proof (induction os arbitrary: r)
  case (Cons o' os)
  obtain n code v where o': "o' = (n, code, v)" by (cases o')
  have ok: "code \<noteq> 0" "code \<noteq> 255" "length v < 256" "options_ok os"
    using Cons.prems by (auto simp: options_ok_def o')
  have "parse_options (dhcp_options (o' # os) @ end) r = parse_options (dhcp_options os @ end) (add_servers code v r)"
    by (simp add: dhcp_options_def o' parse_options_option [OF ok(1-3)])
  then show ?case
    by (simp add: Cons.IH [OF ok(4)] o' add_servers_def)
qed (simp add: dhcp_options_def)

lemma addresses_bytes: "addresses (concat (map (to_be_bytes 4) as)) = as"
proof -
  have "chunks 4 (concat (map (to_be_bytes 4) as)) = map (to_be_bytes 4) as" for as :: "ipv4 list"
  proof (induction as)
    case (Cons a as)
    have "chunks 4 (to_be_bytes 4 a @ r) = to_be_bytes 4 a # chunks 4 r" for r :: bytes
      by (simp add: bytes_four)
    with Cons show ?case by simp
  qed simp
  moreover have "filter (\<lambda>c. length c = 4) (map (to_be_bytes 4) as) = map (to_be_bytes 4) as"
    by (simp add: filter_True)
  moreover have "from_be_bytes (to_be_bytes 4 a) = a" for a :: ipv4
    by (rule from_to_be_bytes) simp
  ultimately show ?thesis by (simp add: addresses_def comp_def)
qed

text \<open>
  The name servers of a network are read from every DHCP reply that has them. Of a reply to this request, with any options, padding
  and rest behind the end, exactly the addresses of the DNS-server options are taken, of all of them and in their order, and the older name-server
  option counts only when there are none; the reply to another request is never taken.
\<close>

theorem dhcp_servers_read:
  assumes "length header = 236" and "header ! 0 = 2" and "take 4 (drop 4 header) = to_be_bytes 4 xid"
    and "options_ok os" and "end = [] \<or> hd end = 255"
  shows "map_sum id nameservers (dhcp_parse (header @ MAGIC_COOKIE @ dhcp_options os @ end) xid) =
      Inr (map V4 (if servers_of 6 os = [] then servers_of 5 os else servers_of 6 os))
    \<and> (xid' \<noteq> xid \<longrightarrow> dhcp_parse (header @ MAGIC_COOKIE @ dhcp_options os @ end) xid' = Inl ''DHCPv4 reply to another request'')"
proof -
  have "parse_options end r = Inr r" for r using assms(5) by (cases "end") auto
  moreover have "to_be_bytes 4 xid = to_be_bytes 4 xid' \<longleftrightarrow> xid = xid'" by (simp add: to_be_bytes_inj)
  moreover have "(header @ MAGIC_COOKIE @ dhcp_options os @ end) ! 0 = 2" using assms(1,2) by (simp add: nth_append)
  ultimately show ?thesis
    using assms(1,3) by (auto simp: dhcp_parse_def nameservers_def parse_options_all [OF assms(4)] MAGIC_COOKIE_def)
qed

definition offer_header :: bytes where
  "offer_header = 2 # replicate 3 0 @ to_be_bytes 4 (7 :: u32) @ replicate 228 0"

theorem dhcp_servers_read_witness:
  "map_sum id nameservers (dhcp_parse (offer_header @ MAGIC_COOKIE @
     dhcp_options [(1, 53, [2]), (0, 6, concat (map (to_be_bytes 4) [0x01010101, 0x08080808 :: u32]))] @ [255]) 7) =
   Inr [V4 0x01010101, V4 0x08080808]"
proof -
  let ?os = "[(1, 53, [2]), (0, 6, concat (map (to_be_bytes 4) [0x01010101, 0x08080808 :: u32]))]"
  have "length offer_header = 236" "offer_header ! 0 = 2" "take 4 (drop 4 offer_header) = to_be_bytes 4 (7 :: u32)"
    by (simp_all add: offer_header_def drop_Cons')
  moreover have "options_ok ?os" by (simp add: options_ok_def)
  moreover have "servers_of 6 ?os = [0x01010101, 0x08080808]"
    unfolding servers_of_Cons addresses_bytes by simp
  ultimately show ?thesis
    using dhcp_servers_read [of offer_header 7 ?os "[255]"] by simp
qed

section \<open>Retries\<close>

lemma discover_tries_success:
  "(\<exists>r. discover_tries n try = Inr r) \<longleftrightarrow> (\<exists>i r. 1 \<le> i \<and> i \<le> n \<and> try i = Inr r)"
proof (induction n)
  case (Suc n)
  show ?case
  proof (cases "try (Suc n)")
    case (Inl e)
    then have "(\<exists>i r. 1 \<le> i \<and> i \<le> Suc n \<and> try i = Inr r) \<longleftrightarrow> (\<exists>i r. 1 \<le> i \<and> i \<le> n \<and> try i = Inr r)"
      by (metis Inl_Inr_False le_Suc_eq)
    with Suc Inl show ?thesis by (cases n) auto
  next
    case (Inr r)
    then show ?thesis by force
  qed
qed simp

end
