(* ===== verification/Connection.thy ===== *)
theory Connection
  imports Udp_Client Dhcp
begin

text \<open>
  Connecting to an upstream (\<^verbatim>\<open>src/src/libdns/custom/connection_provider.rs\<close>): which addresses a server stands for,
  when one connection is opened and when several race, and which of them is used.

  The environment of one connection is the record \<open>conn_env\<close>: the resolvers of the system and of DHCP, the lookup of the
  server's name, and for every candidate when it has an outcome and which: an error, or a connection, with whether its
  first query was answered. Opening sockets, TLS, HTTP/2 and QUIC is what the candidates do and not modelled.
\<close>

section \<open>The kind of client\<close>

definition is_multicast :: "ip_addr \<Rightarrow> bool" where
  "is_multicast ip = (case ip of V4 a \<Rightarrow> drop_bit 28 a = 0xe | V6 a \<Rightarrow> drop_bit 120 a = 0xff)"

datatype connection = ConnUdp udp_client | ConnOther dns_url

definition connection_new :: "url_lib \<Rightarrow> dns_url \<Rightarrow> udp_options \<Rightarrow> connection" where
  "connection_new U server options =
     (case (du_proto server, url_ip U server) of
        (PcUdp, Some ip) \<Rightarrow>
          (if \<not> is_multicast ip then ConnUdp (udp_client_new (ip, url_port server) options) else ConnOther server)
      | _ \<Rightarrow> ConnOther server)"

section \<open>Addresses\<close>

record conn_env =
  cn_url :: url_lib
  cn_local_ips :: "ip_addr list"
  cn_listeners :: "listener list"
  cn_system :: "string + dns_url list"
  cn_dhcp :: "string option \<Rightarrow> string + dhcp_v4_reply"
  cn_lookup_ip :: "(string \<Rightarrow> lookup_error + ip_addr list) option"
  cn_outcome :: "dns_url \<Rightarrow> ip_addr \<times> u16 \<Rightarrow> duration \<times> (proto_error_kind + bool)"

text \<open>\<open>None\<close>: \<open>DnsUrl::from\<close> panics.\<close>

fun urls_of_ips :: "url_lib \<Rightarrow> ip_addr list \<Rightarrow> dns_url list option" where
  "urls_of_ips U [] = Some []"
| "urls_of_ips U (ip # ips) =
     (case url_of_ip U ip of Inr u \<Rightarrow> map_option ((#) u) (urls_of_ips U ips) | Inl _ \<Rightarrow> None)"

definition outside :: "conn_env \<Rightarrow> dns_url list \<Rightarrow> dns_url list" where
  "outside E urls = fst (without_own (cn_url E) (cn_local_ips E) (cn_listeners E) urls)"

definition system_targets :: "conn_env \<Rightarrow> dns_url \<Rightarrow> proto_error_kind + (dns_url \<times> ip_addr list) list" where
  "system_targets E server =
     (case cn_system E of
        Inl e \<Rightarrow> Inl (ProtoOther e)
      | Inr resolvers \<Rightarrow>
          (let urls = outside E resolvers
           in if urls = [] then Inl NoConnections
              else Inr (List.map_filter (\<lambda>url.
                     map_option (\<lambda>ip. (url\<lparr>du_params := du_params server\<rparr>, [ip])) (url_ip (cn_url E) url)) urls)))"

definition dhcp_targets :: "conn_env \<Rightarrow> string option \<Rightarrow> (proto_error_kind + (dns_url \<times> ip_addr list) list) option" where
  "dhcp_targets E interface =
     (case cn_dhcp E interface of
        Inl _ \<Rightarrow> Some (Inl (ProtoOther ''dhcp discover failed''))
      | Inr msg \<Rightarrow>
          (case urls_of_ips (cn_url E) (nameservers msg) of
             None \<Rightarrow> None
           | Some all \<Rightarrow>
               (let urls = outside E all
                in Some (if urls = [] then Inl NoConnections
                         else Inr (List.map_filter (\<lambda>url. map_option (\<lambda>ip. (url, [ip])) (url_ip (cn_url E) url)) urls)))))"

definition domain_targets :: "conn_env \<Rightarrow> dns_url \<Rightarrow> string \<Rightarrow> proto_error_kind + (dns_url \<times> ip_addr list) list" where
  "domain_targets E server domain =
     (case get_param (ul_ip_from_str (cn_url E)) ''ip'' (du_params server) of
        Some ip \<Rightarrow> Inr [(server, [ip])]
      | None \<Rightarrow>
          (case cn_lookup_ip E of
             None \<Rightarrow> Inl NoConnections
           | Some lookup_ip \<Rightarrow>
               (let ips = (case lookup_ip domain of Inr ips \<Rightarrow> ips | Inl _ \<Rightarrow> [])
                in if ips = [] then Inl NoConnections else Inr [(server, ips)])))"

definition ip_targets :: "conn_env \<Rightarrow> dns_url \<Rightarrow> (proto_error_kind + (dns_url \<times> ip_addr list) list) option" where
  "ip_targets E server =
     (case du_proto server of
        PcSystem \<Rightarrow> Some (system_targets E server)
      | PcDhcp interface \<Rightarrow> dhcp_targets E interface
      | _ \<Rightarrow>
          Some (case du_host server of
             HDomain domain \<Rightarrow> domain_targets E server domain
           | HIpv4 a \<Rightarrow> Inr [(server, [V4 a])]
           | HIpv6 a \<Rightarrow> Inr [(server, [V6 a])]))"

definition server_addrs :: "(dns_url \<times> ip_addr list) list \<Rightarrow> (dns_url \<times> (ip_addr \<times> u16) list) list" where
  "server_addrs targets = map (\<lambda>(server, ips). (server, map (\<lambda>ip. (ip, url_port server)) ips)) targets"

section \<open>Candidates\<close>

definition races_h3 :: "protocol_config \<Rightarrow> bool" where
  "races_h3 p = (case p of PcHttps _ prefer \<Rightarrow> prefer \<noteq> PreferH2 | _ \<Rightarrow> False)"

definition candidates :: "(dns_url \<times> (ip_addr \<times> u16) list) list \<Rightarrow> (dns_url \<times> (ip_addr \<times> u16) \<times> bool) list" where
  "candidates servers =
     concat (map (\<lambda>(server, addrs).
       (case du_proto server of
          PcHttps path prefer \<Rightarrow>
            (if prefer \<noteq> PreferH2
             then
               (let h3_proto = PcH3 path (is_set ''disable_grease'' (du_params server)); delay_h2 = (prefer = PreferH3)
                in concat (map (\<lambda>addr. [(server\<lparr>du_proto := h3_proto\<rparr>, addr, False), (server, addr, delay_h2)]) addrs))
             else map (\<lambda>addr. (server, addr, False)) addrs)
        | _ \<Rightarrow> map (\<lambda>addr. (server, addr, False)) addrs)) servers)"

text \<open>When a candidate has its outcome: one whose first query failed, or that is to wait, sleeps for 50 milliseconds.\<close>

definition finished :: "conn_env \<Rightarrow> dns_url \<times> (ip_addr \<times> u16) \<times> bool \<Rightarrow> duration" where
  "finished E = (\<lambda>(server, addr, delay).
     (case cn_outcome E server addr of
        (t, Inr ok) \<Rightarrow> if \<not> ok \<or> delay then t + millis 50 else t
      | (t, Inl _) \<Rightarrow> t))"

definition outcome :: "conn_env \<Rightarrow> dns_url \<times> (ip_addr \<times> u16) \<times> bool \<Rightarrow> proto_error_kind + dns_url \<times> (ip_addr \<times> u16)" where
  "outcome E = (\<lambda>(server, addr, _). map_sum id (\<lambda>_. (server, addr)) (snd (cn_outcome E server addr)))"

text \<open>\<open>None\<close>: a panic, here of \<open>select_ok\<close> without candidates.\<close>

definition race :: "conn_env \<Rightarrow> (dns_url \<times> (ip_addr \<times> u16) \<times> bool) list \<Rightarrow> (proto_error_kind + dns_url \<times> (ip_addr \<times> u16)) option" where
  "race E cs = select_ok (map (outcome E) (sort_key (finished E) cs))"

definition new_connection :: "conn_env \<Rightarrow> dns_url \<Rightarrow> (proto_error_kind + dns_url \<times> (ip_addr \<times> u16)) option" where
  "new_connection E server =
     (case ip_targets E server of
        None \<Rightarrow> None
      | Some (Inl e) \<Rightarrow> Some (Inl e)
      | Some (Inr targets) \<Rightarrow>
          (let servers = server_addrs targets
           in case servers of
                [(s, [addr])] \<Rightarrow> (if \<not> races_h3 (du_proto s) then Some (outcome E (s, addr, False)) else race E (candidates servers))
              | _ \<Rightarrow> race E (candidates servers)))"

section \<open>The race\<close>

lemma select_ok_split:
  assumes "select_ok rs = Some (Inr a)"
  shows "\<exists>as bs. rs = as @ Inr a # bs \<and> (\<forall>r\<in>set as. \<exists>e. r = Inl e)"
  using assms
proof (induction rs rule: select_ok.induct)
  case (3 e rs)
  then have "select_ok rs = Some (Inr a)" by (cases "select_ok rs") auto
  with 3 obtain as bs where "rs = as @ Inr a # bs" "\<forall>r\<in>set as. \<exists>e. r = Inl e" by blast
  then show ?case by (intro exI [of _ "Inl e # as"] exI [of _ bs]) auto
next
  case (2 a' rs)
  then show ?case by (intro exI [of _ "[]"] exI [of _ rs]) simp
qed simp

lemma race_winner:
  assumes "race E cs = Some (Inr r)"
  shows "\<exists>c\<in>set cs. outcome E c = Inr r \<and> (\<forall>c'\<in>set cs. (\<exists>r'. outcome E c' = Inr r') \<longrightarrow> finished E c \<le> finished E c')"
proof -
  let ?s = "sort_key (finished E) cs"
  obtain as bs where "map (outcome E) ?s = as @ Inr r # bs" and failed: "\<forall>r\<in>set as. \<exists>e. r = Inl e"
    using select_ok_split [OF assms [unfolded race_def]] by blast
  then obtain us c vs where s: "?s = us @ c # vs" and us: "map (outcome E) us = as" and c: "outcome E c = Inr r"
    by (auto simp: map_eq_append_conv map_eq_Cons_conv)
  have set: "set cs = insert c (set us \<union> set vs)" using arg_cong [OF s, of set] by auto
  have "sorted (map (finished E) (us @ c # vs))" using sorted_sort_key [of "finished E" cs] unfolding s .
  then have "\<forall>v\<in>set vs. finished E c \<le> finished E v" by (auto simp: sorted_append)
  moreover have "\<forall>u\<in>set us. \<nexists>r'. outcome E u = Inr r'" using failed us by force
  ultimately show ?thesis using c set by (intro bexI [of _ c]) auto
qed

lemma candidate_of:
  assumes "(u, addr, delay) \<in> set (candidates servers)"
  shows "\<exists>s addrs. (s, addrs) \<in> set servers \<and> addr \<in> set addrs \<and>
    (u = s \<and> (\<not> races_h3 (du_proto s) \<longrightarrow> \<not> delay) \<and> (\<forall>path. du_proto s = PcHttps path PreferH3 \<longrightarrow> delay) \<or>
     (\<exists>path prefer. du_proto s = PcHttps path prefer \<and> u = s\<lparr>du_proto := PcH3 path (is_set ''disable_grease'' (du_params s))\<rparr>))"
proof -
  obtain s addrs where "(s, addrs) \<in> set servers" "(u, addr, delay) \<in> set (candidates [(s, addrs)])"
    using assms by (force simp: candidates_def)
  then show ?thesis
    by (intro exI [of _ s] exI [of _ addrs])
      (cases "du_proto s"; auto simp: candidates_def races_h3_def Let_def split: if_splits)
qed

lemma new_connection_from:
  assumes "new_connection E server = Some (Inr (u, addr))"
  shows "\<exists>targets. ip_targets E server = Some (Inr targets) \<and>
    ((\<exists>s. (s, [addr]) \<in> set (server_addrs targets) \<and> u = s \<and> \<not> races_h3 (du_proto s)) \<or>
     race E (candidates (server_addrs targets)) = Some (Inr (u, addr)))"
  using assms
  by (auto simp: new_connection_def outcome_def Let_def map_sum_def split: option.splits sum.splits list.splits prod.splits if_splits)

lemma connection_target:
  assumes "new_connection E server = Some (Inr (u, addr))"
  shows "\<exists>targets s ips. ip_targets E server = Some (Inr targets) \<and> (s, ips) \<in> set targets \<and>
    fst addr \<in> set ips \<and> snd addr = url_port s"
proof -
  obtain targets where t: "ip_targets E server = Some (Inr targets)"
    and c: "(\<exists>s. (s, [addr]) \<in> set (server_addrs targets) \<and> u = s \<and> \<not> races_h3 (du_proto s)) \<or>
      race E (candidates (server_addrs targets)) = Some (Inr (u, addr))"
    using new_connection_from [OF assms] by blast
  have "\<exists>s addrs. (s, addrs) \<in> set (server_addrs targets) \<and> addr \<in> set addrs"
  proof -
    have "\<exists>s addrs. (s, addrs) \<in> set (server_addrs targets) \<and> addr \<in> set addrs"
      if won: "race E (candidates (server_addrs targets)) = Some (Inr (u, addr))"
    proof -
      obtain u' a delay where "(u', a, delay) \<in> set (candidates (server_addrs targets))" "outcome E (u', a, delay) = Inr (u, addr)"
        using race_winner [OF won] by auto
      then show ?thesis using candidate_of [of u' a delay] by (fastforce simp: outcome_def map_sum_def split: sum.splits)
    qed
    with c show ?thesis by force
  qed
  with t show ?thesis by (force simp: server_addrs_def)
qed

section \<open>Properties\<close>

text \<open>The resolvers that a server of the system's or the network's configuration stands for.\<close>

definition resolvers :: "conn_env \<Rightarrow> dns_url \<Rightarrow> dns_url list" where
  "resolvers E server =
     (case du_proto server of
        PcSystem \<Rightarrow> (case cn_system E of Inr us \<Rightarrow> us | Inl _ \<Rightarrow> [])
      | PcDhcp interface \<Rightarrow>
          (case cn_dhcp E interface of Inr msg \<Rightarrow> unwrap_or (urls_of_ips (cn_url E) (nameservers msg)) [] | Inl _ \<Rightarrow> [])
      | _ \<Rightarrow> [])"

lemma outside_not_own: "u \<in> set (outside E urls) \<Longrightarrow> u \<in> set urls \<and>
    \<not> is_own (cn_url E) (cn_listeners E) u (if cn_listeners E = [] then [] else cn_local_ips E)"
  by (auto simp: outside_def without_own_def Let_def)

lemma url_port_params [simp]: "url_port (u\<lparr>du_params := ps\<rparr>) = url_port u"
  by (cases "du_port_opt u") (simp_all add: url_port_def)

lemma resolver_targets:
  assumes "to_protocol (du_proto server) = None" and "ip_targets E server = Some (Inr targets)" and "(s, ips) \<in> set targets"
  shows "\<exists>u\<in>set (outside E (resolvers E server)). \<exists>ip. url_ip (cn_url E) u = Some ip \<and> ips = [ip] \<and> url_port s = url_port u"
proof (cases "du_proto server")
  case PcSystem
  with assms(2,3) show ?thesis
    by (fastforce simp: ip_targets_def system_targets_def resolvers_def Let_def in_map_filter split: sum.splits if_splits)
next
  case (PcDhcp interface)
  with assms(2,3) show ?thesis
    by (fastforce simp: ip_targets_def dhcp_targets_def resolvers_def Let_def in_map_filter split: sum.splits if_splits option.splits)
qed (use assms(1) in \<open>simp_all add: to_protocol_def\<close>)

text \<open>
  Asking the resolvers of the system or of DHCP does not come back to this server. A connection for such a server goes to the address and port of
  one of these resolvers, and none that is a listener of this server.
\<close>

theorem resolvers_not_own:
  assumes "to_protocol (du_proto server) = None" and "new_connection E server = Some (Inr (u, addr))"
  shows "\<exists>r\<in>set (resolvers E server). url_ip (cn_url E) r = Some (fst addr) \<and> url_port r = snd addr \<and>
    \<not> is_own (cn_url E) (cn_listeners E) r (if cn_listeners E = [] then [] else cn_local_ips E)"
proof -
  obtain targets s ips where t: "ip_targets E server = Some (Inr targets)" "(s, ips) \<in> set targets"
    "fst addr \<in> set ips" "snd addr = url_port s"
    using connection_target [OF assms(2)] by blast
  obtain r where r: "r \<in> set (outside E (resolvers E server))" "url_ip (cn_url E) r = Some (fst addr)" "url_port s = url_port r"
    using resolver_targets [OF assms(1) t(1,2)] t(3) by auto
  with outside_not_own [OF r(1)] t(4) show ?thesis by auto
qed

text \<open>
  HTTP/3 is preferred when it is asked for. When a server with \<open>h3\<close> is reached over HTTP/2, then HTTP/3 to the same address failed
  or took at least 50 milliseconds longer, its wait after an unanswered first query included.
\<close>

theorem h3_preferred:
  assumes "new_connection E server = Some (Inr (u, addr))" and "du_proto u = PcHttps path PreferH3"
    and "cn_outcome E (u\<lparr>du_proto := PcH3 path (is_set ''disable_grease'' (du_params u))\<rparr>) addr = (t, Inr answered)"
  shows "fst (cn_outcome E u addr) + millis 50 \<le> t + (if answered then 0 else millis 50)"
proof -
  obtain targets where "race E (candidates (server_addrs targets)) = Some (Inr (u, addr))"
    using new_connection_from [OF assms(1)] assms(2) by (auto simp: races_h3_def)
  from race_winner [OF this] obtain delay where c: "(u, addr, delay) \<in> set (candidates (server_addrs targets))"
    and ok: "outcome E (u, addr, delay) = Inr (u, addr)"
    and best: "\<forall>c'\<in>set (candidates (server_addrs targets)). (\<exists>r'. outcome E c' = Inr r') \<longrightarrow> finished E (u, addr, delay) \<le> finished E c'"
    by (auto simp: outcome_def map_sum_def split: sum.splits)
  obtain addrs where a: "(u, addrs) \<in> set (server_addrs targets)" "addr \<in> set addrs" and delay
    using candidate_of [OF c] assms(2) by fastforce
  let ?h3 = "(u\<lparr>du_proto := PcH3 path (is_set ''disable_grease'' (du_params u))\<rparr>, addr, False)"
  have "?h3 \<in> set (candidates (server_addrs targets))"
    using a assms(2) by (force simp: candidates_def Let_def)
  moreover have "\<exists>r'. outcome E ?h3 = Inr r'" by (simp add: outcome_def assms(3))
  ultimately have "finished E (u, addr, delay) \<le> finished E ?h3" using best by blast
  moreover have "finished E (u, addr, delay) = fst (cn_outcome E u addr) + millis 50"
    using ok \<open>delay\<close> by (auto simp: finished_def outcome_def map_sum_def split: prod.splits sum.splits)
  moreover have "finished E ?h3 = t + (if answered then 0 else millis 50)" by (simp add: finished_def assms(3))
  ultimately show ?thesis by simp
qed

definition conn_example :: conn_env where
  "conn_example =
     \<lparr>cn_url = small_lib, cn_local_ips = [], cn_listeners = example_listeners, cn_system = Inr [url_at 0x7f000001, url_at 9],
      cn_dhcp = (\<lambda>_. Inl ''none''), cn_lookup_ip = None,
      cn_outcome = (\<lambda>u _. case du_proto u of PcH3 _ _ \<Rightarrow> (millis 80, Inr True) | _ \<Rightarrow> (millis 20, Inr True))\<rparr>"

theorem resolvers_not_own_witness:
  "\<exists>u. new_connection conn_example (url_default\<lparr>du_proto := PcSystem\<rparr>) = Some (Inr (u, (V4 9, 53))) \<and>
     (\<exists>r\<in>{url_at 0x7f000001, url_at 9}. \<not> is_own small_lib example_listeners r [])"
proof -
  have own: "outside conn_example [url_at 0x7f000001, url_at 9] = [url_at 9]"
    using example_own by (simp add: outside_def conn_example_def without_own_def Let_def example_listeners_def)
  let ?u = "(url_at 9)\<lparr>du_params := []\<rparr>"
  have "ip_targets conn_example (url_default\<lparr>du_proto := PcSystem\<rparr>) = Some (Inr [(?u, [V4 9])])"
    using own by (simp add: ip_targets_def system_targets_def conn_example_def Let_def map_filter_simps url_at_def url_default_def url_ip_def)
  then have c: "new_connection conn_example (url_default\<lparr>du_proto := PcSystem\<rparr>) = Some (Inr (?u, (V4 9, 53)))"
    by (simp add: new_connection_def server_addrs_def races_h3_def outcome_def conn_example_def url_at_def url_default_def
        url_port_def default_port_def to_protocol_def protocol_default_port_def)
  moreover have "to_protocol (du_proto (url_default\<lparr>du_proto := PcSystem\<rparr>)) = None" by (simp add: to_protocol_def)
  ultimately show ?thesis
    using resolvers_not_own [of "url_default\<lparr>du_proto := PcSystem\<rparr>" conn_example ?u "(V4 9, 53)"]
    by (auto simp: resolvers_def conn_example_def example_listeners_def)
qed

definition h3_server :: dns_url where
  "h3_server = url_default\<lparr>du_proto := PcHttps ''/dns-query'' PreferH3, du_host := HIpv4 9\<rparr>"

theorem h3_preferred_witness:
  "new_connection conn_example h3_server = Some (Inr (h3_server, (V4 9, 443))) \<and> (20 :: nat) + 50 \<le> 80"
proof -
  have "ip_targets conn_example h3_server = Some (Inr [(h3_server, [V4 9])])"
    by (simp add: ip_targets_def h3_server_def)
  then have c: "new_connection conn_example h3_server = Some (Inr (h3_server, (V4 9, 443)))"
    by (simp add: new_connection_def server_addrs_def races_h3_def race_def candidates_def outcome_def finished_def conn_example_def
        h3_server_def url_default_def url_port_def default_port_def to_protocol_def protocol_default_port_def millis_def)
  have p: "du_proto h3_server = PcHttps ''/dns-query'' PreferH3" by (simp add: h3_server_def)
  have "cn_outcome conn_example (h3_server\<lparr>du_proto := PcH3 ''/dns-query'' (is_set ''disable_grease'' (du_params h3_server))\<rparr>) (V4 9, 443) =
      (millis 80, Inr True)"
    by (simp add: conn_example_def)
  from h3_preferred [OF c p this] have "millis 20 + millis 50 \<le> millis 80"
    by (simp add: conn_example_def p)
  then show ?thesis using c by (simp add: millis_def)
qed

end
