(* ===== verification/Client_Mac.thy ===== *)
theory Client_Mac
  imports Dhcp
begin

text \<open>
  The hardware address of a client (\<^verbatim>\<open>src/src/infra/arp.rs\<close>, \<^verbatim>\<open>src/src/infra/client_mac.rs\<close>), which
  client rules and the identity zone ask for: the readers of the tables of neighbours and the cache in front of them.

  The package \<open>mac_addr\<close> is the record \<open>mac_lib\<close>. The tables are those of Linux: the text of \<^verbatim>\<open>/proc/net/arp\<close> and the output
  of \<^verbatim>\<open>ip -6 neigh show\<close>, as they are when a lookup reads them.
\<close>

record 'm mac_lib =
  ml_parse :: "string \<Rightarrow> 'm option"
  ml_zero :: 'm
  ml_display :: "'m \<Rightarrow> string"

section \<open>The ARP table\<close>

record 'm arp_entry =
  ae_ip :: ipv4
  ae_mac :: 'm

definition client_ipv4_for_arp :: "ip_addr \<Rightarrow> ipv4 option" where
  "client_ipv4_for_arp ip = (case ip of V4 a \<Rightarrow> if \<not> is_loopback ip then Some a else None | V6 _ \<Rightarrow> None)"

definition trim_matches :: "(char \<Rightarrow> bool) \<Rightarrow> string \<Rightarrow> string" where
  "trim_matches p s = rev (dropWhile p (rev (dropWhile p s)))"

definition trim_arp_token :: "string \<Rightarrow> string" where
  "trim_arp_token t = trim_matches (\<lambda>c. c \<in> set ''()[],;:'') t"

definition ipv4_from_str :: "string \<Rightarrow> ipv4 option" where
  "ipv4_from_str s = Option.bind (read_ipv4 s) (\<lambda>(a, r). if r = [] then Some a else None)"

definition normalize_ip_token :: "string \<Rightarrow> ipv4 option" where
  "normalize_ip_token t = ipv4_from_str (trim_arp_token t)"

definition dashes_to_colons :: "string \<Rightarrow> string" where
  "dashes_to_colons s = map (\<lambda>c. if c = CHR ''-'' then CHR '':'' else c) s"

definition mac_token :: "'m mac_lib \<Rightarrow> string \<Rightarrow> 'm option" where
  "mac_token M t =
     opt_filter (\<lambda>m. m \<noteq> ml_zero M)
       (or_else (ml_parse M t) (if CHR ''-'' \<in> set t then ml_parse M (dashes_to_colons t) else None))"

fun arp_tokens :: "'m mac_lib \<Rightarrow> string list \<Rightarrow> ipv4 option \<Rightarrow> 'm option \<Rightarrow> ipv4 option \<times> 'm option" where
  "arp_tokens M [] ip mac = (ip, mac)"
| "arp_tokens M (token # tokens) ip mac =
     (let token = trim_arp_token token;
          ip = (if ip = None then normalize_ip_token token else ip);
          mac = (if mac = None then mac_token M token else mac)
      in if ip \<noteq> None \<and> mac \<noteq> None then (ip, mac) else arp_tokens M tokens ip mac)"

definition parse_arp_line_entry :: "'m mac_lib \<Rightarrow> string \<Rightarrow> 'm arp_entry option" where
  "parse_arp_line_entry M l =
     (case arp_tokens M (split_whitespace l) None None of
        (Some ip, Some mac) \<Rightarrow> Some \<lparr>ae_ip = ip, ae_mac = mac\<rparr>
      | _ \<Rightarrow> None)"

definition parse_arp_entries :: "'m mac_lib \<Rightarrow> string \<Rightarrow> 'm arp_entry list" where
  "parse_arp_entries M output = List.map_filter (parse_arp_line_entry M) (lines output)"

definition parse_arp_table_mac :: "'m mac_lib \<Rightarrow> string \<Rightarrow> ipv4 \<Rightarrow> string option" where
  "parse_arp_table_mac M table target =
     map_option (\<lambda>e. ml_display M (ae_mac e)) (find (\<lambda>e. ae_ip e = target) (parse_arp_entries M table))"

definition lookup_client_mac_from_arp :: "'m mac_lib \<Rightarrow> string option \<Rightarrow> ip_addr \<Rightarrow> string option" where
  "lookup_client_mac_from_arp M arp_table client_ip =
     Option.bind (client_ipv4_for_arp client_ip) (\<lambda>ip.
       Option.bind arp_table (\<lambda>table. parse_arp_table_mac M table ip))"

section \<open>The IPv6 neighbours\<close>

definition neighbor_line :: "'m mac_lib \<Rightarrow> ip_addr \<Rightarrow> string \<Rightarrow> string option" where
  "neighbor_line M ip l =
     (let parts = split_whitespace l
      in if \<not> list_ex (\<lambda>token. ip_from_str (hd (split_on (\<lambda>c. c = CHR ''%'') token)) = Some ip) parts then None
         else
           first_some (map (\<lambda>token.
             map_option (ml_display M) (opt_filter (\<lambda>m. m \<noteq> ml_zero M) (ml_parse M (dashes_to_colons token)))) parts))"

definition parse_neighbor :: "'m mac_lib \<Rightarrow> string \<Rightarrow> ip_addr \<Rightarrow> string option" where
  "parse_neighbor M t ip = first_some (map (neighbor_line M ip) (lines t))"

definition lookup_neighbor :: "'m mac_lib \<Rightarrow> string option \<Rightarrow> ip_addr \<Rightarrow> string option" where
  "lookup_neighbor M output ip = Option.bind output (\<lambda>t. parse_neighbor M t ip)"

section \<open>The cache\<close>

definition REFRESH :: duration where
  "REFRESH = secs 2"

text \<open>\<open>IpAddr::to_canonical\<close>.\<close>

definition to_canonical :: "ip_addr \<Rightarrow> ip_addr" where
  "to_canonical ip = (case ip of V6 a \<Rightarrow> (case to_ipv4_mapped a of Some v4 \<Rightarrow> V4 v4 | None \<Rightarrow> ip) | V4 _ \<Rightarrow> ip)"

type_synonym mac_entries = "(ip_addr \<times> (instant \<times> string option)) list"

text \<open>
  One lookup: the clock when the cache is first asked, when it is asked again in the blocking task, and when the entry is
  stored; and the tables that the task reads.
\<close>

record mac_query =
  mq_ip :: ip_addr
  mq_first :: instant
  mq_second :: instant
  mq_stored :: instant
  mq_arp :: "string option"
  mq_neighbors :: "ip_addr \<Rightarrow> string option"

definition fresh_entry :: "mac_entries \<Rightarrow> ip_addr \<Rightarrow> instant \<Rightarrow> string option option" where
  "fresh_entry cache ip now =
     (case map_of cache ip of
        Some (at, value) \<Rightarrow> if now - at < REFRESH then Some value else None
      | None \<Rightarrow> None)"

definition read_tables :: "'m mac_lib \<Rightarrow> mac_query \<Rightarrow> ip_addr \<Rightarrow> string option" where
  "read_tables M q ip =
     (case ip of V4 _ \<Rightarrow> lookup_client_mac_from_arp M (mq_arp q) ip | V6 _ \<Rightarrow> lookup_neighbor M (mq_neighbors q ip) ip)"

definition mac_lookup :: "'m mac_lib \<Rightarrow> mac_query \<Rightarrow> mac_entries \<Rightarrow> string option \<times> mac_entries" where
  "mac_lookup M q cache =
     (let ip = to_canonical (mq_ip q) in
      if is_loopback ip \<or> is_unspecified ip then (None, cache)
      else
        case fresh_entry cache ip (mq_first q) of
          Some value \<Rightarrow> (value, cache)
        | None \<Rightarrow>
            (case fresh_entry cache ip (mq_second q) of
               Some value \<Rightarrow> (value, cache)
             | None \<Rightarrow>
                 (let value = read_tables M q ip in (value, AList.update ip (mq_stored q, value) cache))))"

definition mac_after :: "'m mac_lib \<Rightarrow> mac_query list \<Rightarrow> mac_entries" where
  "mac_after M qs = fold (\<lambda>q cache. snd (mac_lookup M q cache)) qs []"

section \<open>Properties\<close>

text \<open>Every entry is what one of the lookups read from the tables.\<close>

definition entries_read :: "'m mac_lib \<Rightarrow> mac_query list \<Rightarrow> mac_entries \<Rightarrow> bool" where
  "entries_read M qs cache \<longleftrightarrow>
     (\<forall>ip at v. map_of cache ip = Some (at, v) \<longrightarrow>
        (\<exists>q\<in>set qs. to_canonical (mq_ip q) = ip \<and> at = mq_stored q \<and> v = read_tables M q ip))"

lemma mac_lookup_entries:
  assumes "entries_read M qs cache"
  shows "entries_read M (qs @ [q]) (snd (mac_lookup M q cache))"
  using assms
  by (fastforce simp: entries_read_def mac_lookup_def Let_def update_conv' split: option.splits if_splits)

lemma mac_after_entries: "entries_read M qs (mac_after M qs)"
proof (induction qs rule: rev_induct)
  case (snoc q qs)
  then show ?case using mac_lookup_entries [of M qs "mac_after M qs" q] by (simp add: mac_after_def)
qed (simp add: entries_read_def mac_after_def)

text \<open>
  The hardware address of a client is never old. Whatever lookups came before, the answer is what the tables of the system gave for the
  client's address at one of these lookups, this one or one whose entry was stored less than two seconds before, and nothing
  for a client on the machine itself.
\<close>

theorem client_mac_current:
  "if is_loopback (to_canonical (mq_ip q)) \<or> is_unspecified (to_canonical (mq_ip q))
   then fst (mac_lookup M q (mac_after M qs)) = None
   else \<exists>p\<in>set (qs @ [q]). to_canonical (mq_ip p) = to_canonical (mq_ip q) \<and>
      fst (mac_lookup M q (mac_after M qs)) = read_tables M p (to_canonical (mq_ip q)) \<and>
      (p = q \<or> mq_first q - mq_stored p < secs 2 \<or> mq_second q - mq_stored p < secs 2)"
  using mac_after_entries [of M qs]
  by (fastforce simp: mac_lookup_def Let_def fresh_entry_def entries_read_def REFRESH_def split: option.splits if_splits)

end
