(* ===== verification/Dispatch.thy ===== *)
theory Dispatch
  imports Context Own_Listeners
begin

unbundle bit_operations_syntax

text \<open>
  From the bytes of a request to the bytes of its reply: the messages that the servers hand over (\<open>SerialMessage\<close> in
  \<^verbatim>\<open>src/src/dns.rs\<close>), \<open>process\<close> and the \<open>QueryDispatcher\<close> of \<^verbatim>\<open>src/src/app.rs\<close>, the handle and the
  address check of \<^verbatim>\<open>src/src/server/mod.rs\<close>, and the listeners of a running server across reloads.

  A message of the package has its header and the rest, the record \<open>message\<close> of the query path; the response code and the truncation flag
  are in both, as the package's accessors read the one header. What the package computes is the record \<open>header_lib\<close>.
\<close>

section \<open>Headers\<close>

datatype op_code = OpQuery | OpOther u8

record header =
  hd_id :: u16
  hd_is_response :: bool
  hd_op_code :: op_code
  hd_authoritative :: bool
  hd_truncated :: bool
  hd_recursion_desired :: bool
  hd_recursion_available :: bool
  hd_authentic_data :: bool
  hd_checking_disabled :: bool
  hd_response_code :: response_code

definition FormErr :: response_code where
  "FormErr = RC_OTHER 1"

definition NotImp :: response_code where
  "NotImp = RC_OTHER 4"

text \<open>A message as the package has it; \<open>fm_edns\<close> is its EDNS part.\<close>

record full_message =
  fm_header :: header
  fm_message :: message
  fm_edns :: "edns option"

datatype read_result = ReadMessage full_message | ReadFormError header | ReadError

text \<open>\<open>hl_to_vec\<close> encodes a message with a header of its own, whose counts are those of its sections.\<close>

record header_lib =
  hl_response_from_request :: "header \<Rightarrow> header"
  hl_to_response :: "full_message \<Rightarrow> full_message"
  hl_query :: full_message
  hl_read :: "bytes \<Rightarrow> read_result"
  hl_encode :: "full_message \<Rightarrow> bytes option"
  hl_to_vec :: "message \<Rightarrow> bytes option"
  hl_emit_header :: "header \<Rightarrow> bytes"

definition set_code :: "response_code \<Rightarrow> full_message \<Rightarrow> full_message" where
  "set_code c m =
     m\<lparr>fm_header := (fm_header m)\<lparr>hd_response_code := c\<rparr>, fm_message := (fm_message m)\<lparr>msg_rcode := c\<rparr>\<rparr>"

definition set_header :: "header \<Rightarrow> full_message \<Rightarrow> full_message" where
  "set_header h m =
     m\<lparr>fm_header := h,
       fm_message := (fm_message m)\<lparr>msg_rcode := hd_response_code h, msg_truncated := hd_truncated h\<rparr>\<rparr>"

section \<open>Serial messages\<close>

text \<open>The address and port at the other end, and the protocol.\<close>

datatype serial_protocol = ProtoUdp | ProtoTcp | ProtoTls | ProtoHttps | ProtoQuic | ProtoH3

type_synonym peer = "(ip_addr \<times> u16) \<times> serial_protocol"

datatype serial_message = SmRaw full_message peer | SmBytes bytes peer | SmReply message header "bytes option" peer

fun sm_peer :: "serial_message \<Rightarrow> peer" where
  "sm_peer (SmRaw _ p) = p"
| "sm_peer (SmBytes _ p) = p"
| "sm_peer (SmReply _ _ _ p) = p"

definition sm_reply :: "dns_response \<Rightarrow> header \<Rightarrow> peer \<Rightarrow> serial_message" where
  "sm_reply r h p =
     (let h = h\<lparr>hd_truncated := hd_truncated h \<or> msg_truncated (dr_message r)\<rparr>;
          (r, h) =
            (if hd_response_code h = NoError then (r, h\<lparr>hd_response_code := rcode r\<rparr>)
             else if hd_response_code h \<noteq> rcode r then (set_response_code (hd_response_code h) r, h)
             else (r, h));
          (m, wire) = into_reply_parts r
      in SmReply m h wire p)"

text \<open>The bytes that are sent; an encoding of less than 12 bytes makes the code panic.\<close>

datatype encoded = Encoded bytes | EncodeError | EncodePanic

definition sm_to_bytes :: "header_lib \<Rightarrow> serial_message \<Rightarrow> encoded" where
  "sm_to_bytes H sm =
     (case sm of
        SmBytes bs _ \<Rightarrow> Encoded bs
      | SmRaw m _ \<Rightarrow> (case hl_encode H m of Some bs \<Rightarrow> Encoded bs | None \<Rightarrow> EncodeError)
      | SmReply m h wire _ \<Rightarrow>
          (case (case wire of Some w \<Rightarrow> Some w | None \<Rightarrow> hl_to_vec H m) of
             None \<Rightarrow> EncodeError
           | Some bs \<Rightarrow>
               (if length bs < 12 then EncodePanic
                else
                  (let counts = take 8 (drop 4 bs);
                       h = h\<lparr>hd_truncated := hd_truncated h \<or> bs ! 2 AND 2 \<noteq> 0\<rparr>
                   in Encoded (take 4 (hl_emit_header H h) @ counts @ drop 12 bs)))))"

text \<open>The response messages of the query path have no EDNS part.\<close>

definition reply_message :: "message \<Rightarrow> header \<Rightarrow> full_message" where
  "reply_message m h = set_header h \<lparr>fm_header = h, fm_message = m, fm_edns = None\<rparr>"

definition sm_to_message :: "header_lib \<Rightarrow> serial_message \<Rightarrow> full_message option" where
  "sm_to_message H sm =
     (case sm of
        SmRaw m _ \<Rightarrow> Some m
      | SmBytes bs _ \<Rightarrow> (case hl_read H bs of ReadMessage m \<Rightarrow> Some m | _ \<Rightarrow> None)
      | SmReply m h _ _ \<Rightarrow> Some (reply_message m h))"

definition sm_read :: "header_lib \<Rightarrow> serial_message \<Rightarrow> read_result" where
  "sm_read H sm =
     (case sm of
        SmReply m h _ _ \<Rightarrow> ReadMessage (reply_message m h)
      | SmRaw m _ \<Rightarrow> ReadMessage m
      | SmBytes bs _ \<Rightarrow> hl_read H bs)"

definition request_of :: "full_message \<Rightarrow> peer \<Rightarrow> dns_request" where
  "request_of m p = request_new (hd_id (fm_header m)) (fm_message m) (fst (fst p)) (fm_edns m)"

section \<open>Processing a request\<close>

text \<open>The answer to a query that the chain failed.\<close>

definition error_response :: "instant \<Rightarrow> lookup_error \<Rightarrow> query \<Rightarrow> header \<Rightarrow> dns_response \<times> header" where
  "error_response now e original h =
     (let h = (if is_nx_domain e then h\<lparr>hd_response_code := NXDomain\<rparr> else h)
      in case as_no_records_response now e original of
           Some response \<Rightarrow> (response, h)
         | None \<Rightarrow>
             (deref_mut (\<lambda>m. m\<lparr>msg_queries := msg_queries m @ [original]\<rparr>) (empty_response now),
              h\<lparr>hd_response_code := (if is_nx_domain e then NXDomain else ServFail)\<rparr>))"

text \<open>\<open>srch\<close> is \<open>DnsMiddlewareHandler::search\<close>; \<open>None\<close> is a panic in it.\<close>

definition process ::
  "header_lib \<Rightarrow> instant \<Rightarrow> (dns_request \<Rightarrow> server_opts \<Rightarrow> 's \<Rightarrow> (dns_result \<times> 's) option) \<Rightarrow>
   serial_message \<Rightarrow> server_opts \<Rightarrow> 's \<Rightarrow> (serial_message \<times> 's) option" where
  "process H now srch sm opts s =
     (let p = sm_peer sm in
      case sm_read H sm of
        ReadMessage m \<Rightarrow>
          (if \<not> hd_is_response (fm_header m)
           then
             (case hd_op_code (fm_header m) of
                OpQuery \<Rightarrow>
                  (let req = request_of m p;
                       h = (hl_response_from_request H (fm_header m))\<lparr>hd_recursion_available := True, hd_authoritative := False\<rparr>
                   in case srch req opts s of
                        None \<Rightarrow> None
                      | Some (Inr lookup, s) \<Rightarrow> Some (sm_reply lookup h p, s)
                      | Some (Inl err, s) \<Rightarrow>
                          (let (response, h) = error_response now err (rq_query req) h in Some (sm_reply response h p, s)))
              | OpOther _ \<Rightarrow> Some (SmRaw (set_code NotImp (hl_to_response H m)) p, s))
           else Some (SmRaw (set_code FormErr (hl_to_response H m)) p, s))
      | ReadFormError request_header \<Rightarrow>
          (let h = (hl_response_from_request H request_header)\<lparr>hd_response_code := FormErr\<rparr>
           in Some (SmRaw (set_header h (hl_to_response H (hl_query H))) p, s))
      | ReadError \<Rightarrow> Some (SmRaw (hl_query H) p, s))"

definition refused_response :: "header_lib \<Rightarrow> serial_message \<Rightarrow> serial_message" where
  "refused_response H sm =
     SmRaw (set_code Refused
       (hl_to_response H (case sm_read H sm of ReadMessage m \<Rightarrow> m | _ \<Rightarrow> hl_query H))) (sm_peer sm)"

section \<open>The dispatcher\<close>

text \<open>\<open>qd_permits\<close> of the 16 places for background queries are free; \<open>qd_started\<close> is when the server started.\<close>

record dispatcher =
  qd_active_queries :: nat
  qd_started :: instant
  qd_idle_deadline_ms :: u64
  qd_permits :: nat

definition MAX_IDLE_MS :: u64 where
  "MAX_IDLE_MS = 30 * 60 * 1000"

definition dispatcher_new :: "instant \<Rightarrow> dispatcher" where
  "dispatcher_new now = \<lparr>qd_active_queries = 0, qd_started = now, qd_idle_deadline_ms = MAX_IDLE_MS, qd_permits = 16\<rparr>"

datatype admission = RefuseQuery | AcquirePermit | RunQuery

text \<open>What \<open>send\<close> does when a query comes, up to the wait for a place: the query is refused, waits, or runs.\<close>

definition elapsed_ms :: "instant \<Rightarrow> dispatcher \<Rightarrow> u64" where
  "elapsed_ms now d = of_nat ((now - qd_started d) div 1000000)"

definition send_begin :: "instant \<Rightarrow> server_opts \<Rightarrow> dispatcher \<Rightarrow> admission \<times> dispatcher" where
  "send_begin now opts d =
     (if so_is_background opts
      then (if elapsed_ms now d \<ge> qd_idle_deadline_ms d then RefuseQuery else AcquirePermit, d)
      else (RunQuery, d\<lparr>qd_idle_deadline_ms := max (qd_idle_deadline_ms d) (elapsed_ms now d + MAX_IDLE_MS)\<rparr>))"

text \<open>A place for a background query; \<open>None\<close> while there is none. The place is given back when the query has ended or is dropped.\<close>

definition acquire_permit :: "dispatcher \<Rightarrow> dispatcher option" where
  "acquire_permit d = (if qd_permits d = 0 then None else Some (d\<lparr>qd_permits := qd_permits d - 1\<rparr>))"

definition release_permit :: "server_opts \<Rightarrow> dispatcher \<Rightarrow> dispatcher" where
  "release_permit opts d = (if so_is_background opts then d\<lparr>qd_permits := qd_permits d + 1\<rparr> else d)"

definition active_new :: "dispatcher \<Rightarrow> dispatcher" where
  "active_new d = d\<lparr>qd_active_queries := qd_active_queries d + 1\<rparr>"

definition active_drop :: "dispatcher \<Rightarrow> dispatcher" where
  "active_drop d = d\<lparr>qd_active_queries := qd_active_queries d - 1\<rparr>"

text \<open>A query on its own, that no other overtakes; \<open>None\<close> for a panic and for one that waits for ever.\<close>

definition dispatch_send ::
  "header_lib \<Rightarrow> instant \<Rightarrow> (dns_request \<Rightarrow> server_opts \<Rightarrow> 's \<Rightarrow> (dns_result \<times> 's) option) \<Rightarrow>
   serial_message \<Rightarrow> server_opts \<Rightarrow> dispatcher \<times> 's \<Rightarrow> (serial_message \<times> dispatcher \<times> 's) option" where
  "dispatch_send H now srch sm opts = (\<lambda>(d, s).
     (case send_begin now opts d of
        (RefuseQuery, d) \<Rightarrow> Some (refused_response H sm, d, s)
      | (adm, d) \<Rightarrow>
          (case (if adm = AcquirePermit then acquire_permit d else Some d) of
             None \<Rightarrow> None
           | Some d \<Rightarrow>
               (case process H now srch sm opts s of
                  None \<Rightarrow> None
                | Some (reply, s) \<Rightarrow> Some (reply, release_permit opts (active_drop (active_new d)), s)))))"

text \<open>\<open>DnsHandle::send\<close>: the dispatcher is gone when the server has been dropped.\<close>

definition handle_send ::
  "header_lib \<Rightarrow> instant \<Rightarrow> (dns_request \<Rightarrow> server_opts \<Rightarrow> 's \<Rightarrow> (dns_result \<times> 's) option) \<Rightarrow>
   bool \<Rightarrow> serial_message \<Rightarrow> server_opts \<Rightarrow> dispatcher \<times> 's \<Rightarrow> (serial_message \<times> dispatcher \<times> 's) option" where
  "handle_send H now srch alive sm opts ds =
     (if alive then dispatch_send H now srch sm opts ds else Some (refused_response H sm, ds))"

section \<open>Who is answered\<close>

definition sanitize_src_address :: "ip_addr \<times> u16 \<Rightarrow> string + unit" where
  "sanitize_src_address src =
     (if snd src = 0 then Inl ''cannot respond to src on port 0''
      else
        (case fst src of
           V4 a \<Rightarrow>
             (if a = 0 then Inl ''cannot respond to unspecified v4 addr''
              else if a = 0xffffffff then Inl ''cannot respond to broadcast v4 addr'' else Inr ())
         | V6 a \<Rightarrow> if a = 0 then Inl ''cannot respond to unspecified v6 addr'' else Inr ()))"

text \<open>One datagram that the UDP server receives: the datagram sent back and its destination, or nothing. \<open>send\<close> is the handle's;
  \<open>None\<close> is a panic in the task of the query, after which nothing is sent either. The buffer of the server has 4096 bytes.\<close>

definition MAX_RECEIVE_BUFFER_SIZE :: nat where
  "MAX_RECEIVE_BUFFER_SIZE = 4096"

definition udp_serve ::
  "header_lib \<Rightarrow> (serial_message \<Rightarrow> 's \<Rightarrow> (serial_message \<times> 's) option) \<Rightarrow> bytes \<Rightarrow> ip_addr \<times> u16 \<Rightarrow> 's \<Rightarrow>
   (bytes \<times> (ip_addr \<times> u16)) option" where
  "udp_serve H send datagram src s =
     (case sanitize_src_address src of
        Inl _ \<Rightarrow> None
      | Inr _ \<Rightarrow>
          (case send (SmBytes (take MAX_RECEIVE_BUFFER_SIZE datagram) (src, ProtoUdp)) s of
             None \<Rightarrow> None
           | Some (reply, _) \<Rightarrow> (case sm_to_bytes H reply of Encoded bs \<Rightarrow> Some (bs, src) | _ \<Rightarrow> None)))"

end
