(* ===== verification/Dispatch_Laws.thy ===== *)
theory Dispatch_Laws
  imports Dispatch
begin

unbundle bit_operations_syntax

text \<open>
  What a client can rely on: every request is answered with a well-formed response to it, whatever the chain does, and background queries
  leave room for the ones of clients.
\<close>

section \<open>What the package promises\<close>

definition id_bytes :: "u16 \<Rightarrow> bytes" where
  "id_bytes i = [ucast (drop_bit 8 i), ucast i]"

text \<open>The bytes start with the header \<open>h\<close>: identifier, response flag and truncation flag.\<close>

definition starts_with_header :: "header \<Rightarrow> bytes \<Rightarrow> bool" where
  "starts_with_header h bs \<longleftrightarrow>
     12 \<le> length bs \<and> take 2 bs = id_bytes (hd_id h) \<and> (bs ! 2 AND 0x80 \<noteq> 0 \<longleftrightarrow> hd_is_response h) \<and>
     (bs ! 2 AND 2 \<noteq> 0 \<longleftrightarrow> hd_truncated h)"

definition header_laws :: "header_lib \<Rightarrow> bool" where
  "header_laws H \<longleftrightarrow>
     (\<forall>h. let h' = hl_response_from_request H h
           in hd_id h' = hd_id h \<and> hd_op_code h' = hd_op_code h \<and> hd_is_response h' \<and> \<not> hd_truncated h' \<and>
              hd_recursion_desired h' = hd_recursion_desired h \<and> hd_response_code h' = NoError) \<and>
     (\<forall>m. let m' = hl_to_response H m
           in hd_id (fm_header m') = hd_id (fm_header m) \<and> hd_op_code (fm_header m') = hd_op_code (fm_header m) \<and>
              hd_is_response (fm_header m') \<and> msg_queries (fm_message m') = msg_queries (fm_message m)) \<and>
     (\<forall>h. starts_with_header h (hl_emit_header H h)) \<and>
     (\<forall>m bs. hl_encode H m = Some bs \<longrightarrow> starts_with_header (fm_header m) bs) \<and>
     (\<forall>m bs. hl_to_vec H m = Some bs \<longrightarrow> 12 \<le> length bs) \<and>
     (\<forall>bs m. hl_read H bs = ReadMessage m \<longrightarrow> starts_with_header (fm_header m) bs) \<and>
     (\<forall>bs h. hl_read H bs = ReadFormError h \<longrightarrow> starts_with_header h bs)"

lemma header_lawsD:
  assumes "header_laws H"
  shows "hd_id (hl_response_from_request H h) = hd_id h"
    and "hd_op_code (hl_response_from_request H h) = hd_op_code h"
    and "hd_is_response (hl_response_from_request H h)"
    and "\<not> hd_truncated (hl_response_from_request H h)"
    and "hd_recursion_desired (hl_response_from_request H h) = hd_recursion_desired h"
    and "hd_response_code (hl_response_from_request H h) = NoError"
    and "hd_id (fm_header (hl_to_response H m)) = hd_id (fm_header m)"
    and "hd_op_code (fm_header (hl_to_response H m)) = hd_op_code (fm_header m)"
    and "hd_is_response (fm_header (hl_to_response H m))"
    and "msg_queries (fm_message (hl_to_response H m)) = msg_queries (fm_message m)"
  using assms by (simp_all add: header_laws_def Let_def)

lemma header_laws_bytes:
  assumes "header_laws H"
  shows "starts_with_header h (hl_emit_header H h)"
    and "hl_encode H m = Some bs \<Longrightarrow> starts_with_header (fm_header m) bs"
    and "hl_to_vec H m' = Some bs \<Longrightarrow> 12 \<le> length bs"
    and "hl_read H bs = ReadMessage m \<Longrightarrow> starts_with_header (fm_header m) bs"
    and "hl_read H bs = ReadFormError h \<Longrightarrow> starts_with_header h bs"
  using assms unfolding header_laws_def by blast+

section \<open>Replies\<close>

lemma sm_reply_shape:
  "\<exists>m h' w. sm_reply r h p = SmReply m h' w p \<and>
     h' = h\<lparr>hd_truncated := hd_truncated h \<or> msg_truncated (dr_message r),
            hd_response_code := (if hd_response_code h = NoError then rcode r else hd_response_code h)\<rparr> \<and>
     m = (dr_message r)\<lparr>msg_rcode := hd_response_code h'\<rparr>"
  by (auto simp: sm_reply_def into_reply_parts_def set_response_code_def Let_def)

lemma sm_reply_message:
  "\<exists>h'. sm_to_message H (sm_reply r h p) = Some (reply_message (dr_message r) h') \<and> sm_peer (sm_reply r h p) = p \<and>
     h' = h\<lparr>hd_truncated := hd_truncated h \<or> msg_truncated (dr_message r),
            hd_response_code := (if hd_response_code h = NoError then rcode r else hd_response_code h)\<rparr>"
proof -
  obtain m h' w where r: "sm_reply r h p = SmReply m h' w p"
    and h': "h' = h\<lparr>hd_truncated := hd_truncated h \<or> msg_truncated (dr_message r),
            hd_response_code := (if hd_response_code h = NoError then rcode r else hd_response_code h)\<rparr>"
    and m: "m = (dr_message r)\<lparr>msg_rcode := hd_response_code h'\<rparr>"
    using sm_reply_shape [of r h p] by blast
  have "reply_message m h' = reply_message (dr_message r) h'"
    unfolding m by (simp add: reply_message_def set_header_def)
  with r h' show ?thesis by (simp add: sm_to_message_def)
qed

lemma sm_peer_reply: "sm_peer (sm_reply r h p) = p"
  using sm_reply_message by blast

lemma reply_message_simps [simp]:
  "fm_header (reply_message m h) = h"
  "msg_rcode (fm_message (reply_message m h)) = hd_response_code h"
  "msg_truncated (fm_message (reply_message m h)) = hd_truncated h"
  "msg_queries (fm_message (reply_message m h)) = msg_queries m"
  "msg_answers (fm_message (reply_message m h)) = msg_answers m"
  by (simp_all add: reply_message_def set_header_def)

text \<open>The code that an error of the chain becomes.\<close>

definition error_code :: "lookup_error \<Rightarrow> response_code" where
  "error_code e =
     (case e of
        ErrResponseCode c \<Rightarrow> c
      | ErrProto (NoRecordsFound nr) \<Rightarrow> nr_response_code nr
      | _ \<Rightarrow> ServFail)"

lemma no_records_reply:
  assumes "as_no_records_response now e q = Some r"
  shows "rcode r = error_code e" and "msg_queries (dr_message r) = [q]" and "\<not> msg_truncated (dr_message r)" and "answers r = []"
proof -
  obtain c rest where r: "r = set_response_code c (new_with_max_ttl now q []) \<or>
      r = add_authority rest (set_response_code c (new_with_max_ttl now q []))" "c = error_code e"
    using assms by (auto simp: as_no_records_response_def error_code_def Let_def
        split: lookup_error.splits proto_error_kind.splits option.splits)
  then show "rcode r = error_code e" "msg_queries (dr_message r) = [q]" "\<not> msg_truncated (dr_message r)" "answers r = []"
    by (auto simp: set_response_code_def add_authority_def new_with_max_ttl_def new_with_deadline_def)
qed

text \<open>A failed query becomes a reply with the code of the error, the question and no answer.\<close>

lemma error_reply:
  fixes now e q
  assumes "hd_response_code h = NoError" "\<not> hd_truncated h"
  defines "rh \<equiv> error_response now e q h"
  shows "\<exists>m. sm_to_message H (sm_reply (fst rh) (snd rh) p) = Some m \<and>
           fm_header m = h\<lparr>hd_response_code := error_code e\<rparr> \<and> msg_rcode (fm_message m) = error_code e \<and>
           msg_queries (fm_message m) = [q] \<and> msg_answers (fm_message m) = []"
proof (cases "as_no_records_response now e q")
  case None
  then have code: "error_code e = ServFail" "\<not> is_nx_domain e"
    by (auto simp: as_no_records_response_def error_code_def is_nx_domain_def Let_def
        split: lookup_error.splits proto_error_kind.splits)
  have "\<not> hd_truncated h" by (rule assms)
  with sm_reply_message [of H "fst rh" "snd rh" p] code None show ?thesis
    by (auto simp: rh_def error_response_def empty_response_def)
next
  case (Some r)
  have nx: "is_nx_domain e \<longleftrightarrow> error_code e = NXDomain"
    using Some by (auto simp: as_no_records_response_def error_code_def is_nx_domain_def Let_def
        split: lookup_error.splits proto_error_kind.splits)
  with sm_reply_message [of H "fst rh" "snd rh" p] Some no_records_reply [OF Some] assms(1,2) show ?thesis
    by (auto simp: rh_def error_response_def)
qed

text \<open>What \<open>process\<close> makes of a message it has read.\<close>

fun request_header :: "read_result \<Rightarrow> header option" where
  "request_header (ReadMessage m) = Some (fm_header m)"
| "request_header (ReadFormError h) = Some h"
| "request_header ReadError = None"

definition reply_code :: "(dns_request \<Rightarrow> server_opts \<Rightarrow> 's \<Rightarrow> (dns_result \<times> 's) option) \<Rightarrow> server_opts \<Rightarrow> 's \<Rightarrow> peer \<Rightarrow>
    read_result \<Rightarrow> response_code" where
  "reply_code srch opts s p r =
     (case r of
        ReadMessage m \<Rightarrow>
          (if hd_is_response (fm_header m) then FormErr
           else if hd_op_code (fm_header m) \<noteq> OpQuery then NotImp
           else
             (case srch (request_of m p) opts s of
                Some (Inr lookup, _) \<Rightarrow> rcode lookup
              | Some (Inl e, _) \<Rightarrow> error_code e
              | None \<Rightarrow> NoError))
      | _ \<Rightarrow> FormErr)"

definition replies_to :: "header \<Rightarrow> response_code \<Rightarrow> full_message \<Rightarrow> bool" where
  "replies_to h c m \<longleftrightarrow>
     hd_is_response (fm_header m) \<and> hd_id (fm_header m) = hd_id h \<and> hd_op_code (fm_header m) = hd_op_code h \<and>
     hd_response_code (fm_header m) = c \<and> msg_rcode (fm_message m) = c"

lemma query_reply:
  assumes H: "header_laws H" and m: "\<not> hd_is_response (fm_header m)" "hd_op_code (fm_header m) = OpQuery"
    and sm: "sm_read H sm = ReadMessage m" and ok: "process H now srch sm opts s = Some (reply, s')"
  shows "\<exists>r. sm_to_message H reply = Some r \<and> sm_peer reply = sm_peer sm \<and>
           replies_to (fm_header m) (reply_code srch opts s (sm_peer sm) (ReadMessage m)) r"
proof -
  let ?h = "(hl_response_from_request H (fm_header m))\<lparr>hd_recursion_available := True, hd_authoritative := False\<rparr>"
  let ?req = "request_of m (sm_peer sm)"
  have h: "hd_response_code ?h = NoError" "\<not> hd_truncated ?h"
    using header_lawsD [OF H] by simp_all
  show ?thesis
  proof (cases "srch ?req opts s")
    case None
    with ok m sm show ?thesis by (simp add: process_def)
  next
    case (Some res)
    show ?thesis
    proof (cases "fst res")
      case (Inr lookup)
      with Some ok m sm have "reply = sm_reply lookup ?h (sm_peer sm)"
        by (cases res) (simp add: process_def)
      with sm_reply_message [of H lookup ?h "sm_peer sm"] show ?thesis
        using Some Inr m header_lawsD [OF H] h by (cases res) (auto simp: replies_to_def reply_code_def)
    next
      case (Inl e)
      let ?rh = "error_response now e (rq_query ?req) ?h"
      from Some Inl ok m sm have "reply = sm_reply (fst ?rh) (snd ?rh) (sm_peer sm)"
        by (cases res) (simp add: process_def Let_def split: prod.splits)
      moreover obtain r where "sm_to_message H (sm_reply (fst ?rh) (snd ?rh) (sm_peer sm)) = Some r"
        and "fm_header r = ?h\<lparr>hd_response_code := error_code e\<rparr>" "msg_rcode (fm_message r) = error_code e"
        using error_reply [OF h, of H now e "rq_query ?req" "sm_peer sm"] by blast
      moreover have "reply_code srch opts s (sm_peer sm) (ReadMessage m) = error_code e"
        using Some Inl m by (cases res) (simp add: reply_code_def)
      ultimately show ?thesis
        using header_lawsD [OF H] by (simp add: replies_to_def sm_peer_reply)
    qed
  qed
qed

lemma reply_is_wellformed:
  assumes "header_laws H" and "process H now srch sm opts s = Some (reply, s')" and "request_header (sm_read H sm) = Some h"
  shows "\<exists>r. sm_to_message H reply = Some r \<and> sm_peer reply = sm_peer sm \<and>
           replies_to h (reply_code srch opts s (sm_peer sm) (sm_read H sm)) r"
proof (cases "sm_read H sm")
  case (ReadMessage m)
  show ?thesis
  proof (cases "\<not> hd_is_response (fm_header m) \<and> hd_op_code (fm_header m) = OpQuery")
    case True
    with query_reply [OF assms(1) _ _ ReadMessage assms(2)] ReadMessage assms(3) show ?thesis by simp
  next
    case False
    with assms ReadMessage header_lawsD [OF assms(1)] show ?thesis
      by (cases "hd_op_code (fm_header m)")
        (auto simp: process_def replies_to_def reply_code_def set_code_def sm_to_message_def split: if_splits)
  qed
next
  case (ReadFormError h')
  with assms header_lawsD [OF assms(1)] show ?thesis
    by (auto simp: process_def replies_to_def reply_code_def set_header_def sm_to_message_def Let_def)
qed (use assms in simp)

text \<open>
  C30: Every reply is well formed. A request whose header can be read is answered, to where it came from, with a response of the same
  identifier and operation, whose code is in the header and in the message alike: the code of the answer for an answered query, the one of
  the error for a failed one (\<open>ServFail\<close> where the error has none), \<open>NotImp\<close> for operations other than queries, and
  \<open>FormErr\<close> for responses sent to the server and for messages that cannot be read behind the header.
\<close>

theorem reply_wellformed:
  assumes "header_laws H" and "process H now srch sm opts s = Some (reply, s')" and "request_header (sm_read H sm) = Some h"
  shows "\<exists>r. sm_to_message H reply = Some r \<and> sm_peer reply = sm_peer sm \<and>
           replies_to h (reply_code srch opts s (sm_peer sm) (sm_read H sm)) r"
  using assms by (rule reply_is_wellformed)

section \<open>The bytes on the wire\<close>

lemma reply_bytes:
  assumes H: "header_laws H" and r: "sm_to_message H reply = Some r" and nb: "\<And>bs p. reply \<noteq> SmBytes bs p"
    and e: "sm_to_bytes H reply = Encoded bs"
  shows "12 \<le> length bs \<and> take 2 bs = id_bytes (hd_id (fm_header r)) \<and> (bs ! 2 AND 0x80 \<noteq> 0 \<longleftrightarrow> hd_is_response (fm_header r))"
proof (cases reply)
  case (SmRaw m p)
  with r e header_laws_bytes(2) [OF H] show ?thesis
    by (auto simp: sm_to_message_def sm_to_bytes_def starts_with_header_def split: option.splits)
next
  case (SmReply m h wire p)
  obtain bs0 where bs0: "(case wire of Some w \<Rightarrow> Some w | None \<Rightarrow> hl_to_vec H m) = Some bs0"
    using e SmReply by (auto simp: sm_to_bytes_def split: option.splits)
  define h' where "h' = h\<lparr>hd_truncated := hd_truncated h \<or> bs0 ! 2 AND 2 \<noteq> 0\<rparr>"
  have b: "12 \<le> length bs0" "bs = take 4 (hl_emit_header H h') @ take 8 (drop 4 bs0) @ drop 12 bs0"
    using e SmReply bs0 by (simp_all add: sm_to_bytes_def Let_def h'_def split: if_splits)
  have h': "hd_id h' = hd_id h" "hd_is_response h' = hd_is_response h" by (simp_all add: h'_def)
  let ?e = "hl_emit_header H h'"
  have s: "starts_with_header h' ?e" by (rule header_laws_bytes(1) [OF H])
  then have l: "12 \<le> length ?e" by (simp add: starts_with_header_def)
  with b have "take 2 bs = take 2 ?e" "bs ! 2 = ?e ! 2" "12 \<le> length bs"
    by (auto simp: nth_append min_def)
  moreover have "fm_header r = h" using SmReply r by (auto simp: sm_to_message_def)
  ultimately show ?thesis using s h' unfolding starts_with_header_def by simp
qed (use nb in simp)

lemma sm_reply_not_bytes: "sm_reply r h p \<noteq> SmBytes bs q"
  using sm_reply_shape [of r h p] by auto

lemma process_not_bytes: "process H now srch sm opts s = Some (reply, s') \<Longrightarrow> reply \<noteq> SmBytes bs p"
  using sm_reply_not_bytes [of _ _ "sm_peer sm" bs p]
  by (auto simp: process_def Let_def split: read_result.splits if_splits op_code.splits option.splits sum.splits prod.splits)


section \<open>The dispatcher under load\<close>

text \<open>A running server: its dispatcher, the background queries that wait for a place, the queries that run, and when the last one of a
  client came, in milliseconds since the start.\<close>

record load =
  ld_dispatcher :: dispatcher
  ld_waiting :: nat
  ld_running :: "server_opts list"
  ld_last :: nat

definition ms_since :: "instant \<Rightarrow> dispatcher \<Rightarrow> nat" where
  "ms_since now d = (now - qd_started d) div 1000000"

inductive load_step :: "load \<Rightarrow> load \<Rightarrow> bool" where
  client: "send_begin now opts (ld_dispatcher l) = (RunQuery, d) \<Longrightarrow> ld_last l \<le> ms_since now (ld_dispatcher l) \<Longrightarrow>
    ms_since now (ld_dispatcher l) < 2 ^ 63 \<Longrightarrow>
    load_step l (l\<lparr>ld_dispatcher := active_new d, ld_running := opts # ld_running l, ld_last := ms_since now (ld_dispatcher l)\<rparr>)"
| refused: "send_begin now opts (ld_dispatcher l) = (RefuseQuery, d) \<Longrightarrow> load_step l (l\<lparr>ld_dispatcher := d\<rparr>)"
| wait: "send_begin now opts (ld_dispatcher l) = (AcquirePermit, d) \<Longrightarrow>
    load_step l (l\<lparr>ld_dispatcher := d, ld_waiting := ld_waiting l + 1\<rparr>)"
| background: "acquire_permit (ld_dispatcher l) = Some d \<Longrightarrow> 0 < ld_waiting l \<Longrightarrow> so_is_background opts \<Longrightarrow>
    load_step l (l\<lparr>ld_dispatcher := active_new d, ld_waiting := ld_waiting l - 1, ld_running := opts # ld_running l\<rparr>)"
| give_up: "0 < ld_waiting l \<Longrightarrow> load_step l (l\<lparr>ld_waiting := ld_waiting l - 1\<rparr>)"
| ended: "opts \<in> set (ld_running l) \<Longrightarrow>
    load_step l (l\<lparr>ld_dispatcher := release_permit opts (active_drop (ld_dispatcher l)), ld_running := remove1 opts (ld_running l)\<rparr>)"

inductive_cases load_stepE: "load_step l l'"

definition load_init :: "instant \<Rightarrow> load" where
  "load_init now = \<lparr>ld_dispatcher = dispatcher_new now, ld_waiting = 0, ld_running = [], ld_last = 0\<rparr>"

definition background_count :: "server_opts list \<Rightarrow> nat" where
  "background_count = length \<circ> filter so_is_background"

definition load_inv :: "load \<Rightarrow> bool" where
  "load_inv l \<longleftrightarrow>
     qd_active_queries (ld_dispatcher l) = length (ld_running l) \<and>
     qd_permits (ld_dispatcher l) + background_count (ld_running l) = 16 \<and>
     ld_last l < 2 ^ 63 \<and>
     qd_idle_deadline_ms (ld_dispatcher l) = of_nat (ld_last l) + MAX_IDLE_MS"

lemma background_count_simps [simp]:
  "background_count [] = 0"
  "background_count (x # xs) = (if so_is_background x then 1 else 0) + background_count xs"
  by (simp_all add: background_count_def)

lemma background_count_remove1:
  "x \<in> set xs \<Longrightarrow> background_count xs = (if so_is_background x then 1 else 0) + background_count (remove1 x xs)"
  by (induction xs) auto

lemma elapsed_ms_ms_since: "elapsed_ms now d = of_nat (ms_since now d)"
  by (simp add: elapsed_ms_def ms_since_def)

text \<open>Deadlines do not wrap around before the server has run for \<open>2 ^ 63\<close> milliseconds, so they are ordered as the times are.\<close>

lemma deadline_mono:
  assumes "a \<le> b" "b < 2 ^ 63"
  shows "max (of_nat a + MAX_IDLE_MS) (of_nat b + MAX_IDLE_MS) = (of_nat b + MAX_IDLE_MS :: u64)"
proof -
  have u: "unat (of_nat n + MAX_IDLE_MS :: u64) = n + 1800000" if "n < 2 ^ 63" for n
    using that by (simp add: MAX_IDLE_MS_def unat_word_ariths unat_of_nat)
  from assms have "(of_nat a + MAX_IDLE_MS :: u64) \<le> of_nat b + MAX_IDLE_MS"
    by (simp add: word_le_nat_alt u)
  then show ?thesis by simp
qed

lemma load_inv_init: "load_inv (load_init now)"
  by (simp add: load_inv_def load_init_def dispatcher_new_def)

lemma load_inv_step: "load_step l l' \<Longrightarrow> load_inv l \<Longrightarrow> load_inv l'"
proof (induction rule: load_step.induct)
  case (client now opts l d)
  then have "\<not> so_is_background opts"
    and d: "d = (ld_dispatcher l)\<lparr>qd_idle_deadline_ms := max (qd_idle_deadline_ms (ld_dispatcher l))
                 (of_nat (ms_since now (ld_dispatcher l)) + MAX_IDLE_MS)\<rparr>"
    by (auto simp: send_begin_def elapsed_ms_ms_since split: if_splits)
  with client show ?case
    by (simp add: load_inv_def active_new_def deadline_mono)
next
  case (background l d opts)
  then show ?case by (auto simp: load_inv_def acquire_permit_def active_new_def split: if_splits)
next
  case (ended opts l)
  have "length (ld_running l) = Suc (length (remove1 opts (ld_running l)))"
    using ended by (simp add: length_remove1) (cases "ld_running l"; simp)
  with ended background_count_remove1 [of opts "ld_running l"] show ?case
    by (auto simp: load_inv_def release_permit_def active_drop_def)
qed (auto simp: load_inv_def send_begin_def split: if_splits)

lemma load_reachable: "load_step\<^sup>*\<^sup>* (load_init now) l \<Longrightarrow> load_inv l"
  by (induction rule: rtranclp_induct) (auto intro: load_inv_init load_inv_step)

text \<open>
  C32: Background queries leave room. However queries come, wait, are given up and end: at most 16 background queries run at a time and no
  place is lost, the counter of active queries is the number of those that run, a query of a client is never refused nor made to wait, and a
  background query is refused exactly when no client has asked for 30 minutes.
\<close>

theorem background_queries_bounded:
  assumes "load_step\<^sup>*\<^sup>* (load_init start) l"
  shows "length (filter so_is_background (ld_running l)) + qd_permits (ld_dispatcher l) = 16 \<and>
    qd_active_queries (ld_dispatcher l) = length (ld_running l) \<and>
    (\<not> so_is_background opts \<longrightarrow> fst (send_begin now opts (ld_dispatcher l)) = RunQuery) \<and>
    (so_is_background opts \<longrightarrow> ms_since now (ld_dispatcher l) < 2 ^ 63 \<longrightarrow>
       (fst (send_begin now opts (ld_dispatcher l)) = RefuseQuery \<longleftrightarrow>
        ld_last l + 30 * 60 * 1000 \<le> ms_since now (ld_dispatcher l)))"
proof -
  have inv: "load_inv l" by (rule load_reachable [OF assms])
  have u: "unat (of_nat (ld_last l) + MAX_IDLE_MS :: u64) = ld_last l + 1800000"
    using inv by (simp add: load_inv_def MAX_IDLE_MS_def unat_word_ariths unat_of_nat)
  show ?thesis
    using inv u by (auto simp: load_inv_def background_count_def send_begin_def elapsed_ms_ms_since word_le_nat_alt unat_of_nat)
qed

section \<open>Witnesses\<close>

text \<open>A library of messages that are only a header: identifier, response and truncation flag.\<close>

definition plain_header :: "u16 \<Rightarrow> bool \<Rightarrow> bool \<Rightarrow> header" where
  "plain_header i qr tc =
     \<lparr>hd_id = i, hd_is_response = qr, hd_op_code = OpQuery, hd_authoritative = False, hd_truncated = tc,
      hd_recursion_desired = True, hd_recursion_available = False, hd_authentic_data = False, hd_checking_disabled = False,
      hd_response_code = NoError\<rparr>"

definition plain_message :: "header \<Rightarrow> full_message" where
  "plain_message h =
     \<lparr>fm_header = h, fm_message = \<lparr>msg_rcode = hd_response_code h, msg_truncated = hd_truncated h, msg_queries = [],
        msg_answers = [], msg_authorities = [], msg_additionals = []\<rparr>, fm_edns = None\<rparr>"

definition plain_emit :: "header \<Rightarrow> bytes" where
  "plain_emit h =
     id_bytes (hd_id h) @ [(if hd_is_response h then 0x80 else 0) OR (if hd_truncated h then 2 else 0)] @ replicate 9 0"

definition plain_respond :: "header \<Rightarrow> header" where
  "plain_respond h = h\<lparr>hd_is_response := True, hd_truncated := False, hd_response_code := NoError\<rparr>"

definition plain_lib :: header_lib where
  "plain_lib =
     \<lparr>hl_response_from_request = plain_respond, hl_to_response = (\<lambda>m. m\<lparr>fm_header := plain_respond (fm_header m)\<rparr>),
      hl_query = plain_message (plain_header 1 False False),
      hl_read = (\<lambda>bs. if length bs < 12 then ReadError
                      else ReadMessage (plain_message (plain_header (push_bit 8 (ucast (bs ! 0)) OR ucast (bs ! 1))
                             (bs ! 2 AND 0x80 \<noteq> 0) (bs ! 2 AND 2 \<noteq> 0)))),
      hl_encode = (\<lambda>m. Some (plain_emit (fm_header m))), hl_to_vec = (\<lambda>m. Some (replicate 12 0)),
      hl_emit_header = plain_emit\<rparr>"

lemma plain_emit_header: "starts_with_header h (plain_emit h)"
  by (simp add: starts_with_header_def plain_emit_def id_bytes_def)

lemma id_bytes_of: "id_bytes (push_bit 8 (ucast a) OR ucast b) = [a, b]"
  for a b :: u8
  unfolding id_bytes_def
  by (simp, intro conjI; rule bit_word_eqI)
    (auto simp: bit_ucast_iff bit_drop_bit_eq bit_or_iff bit_push_bit_iff dest: bit_imp_le_length)

lemma plain_lib_laws: "header_laws plain_lib"
proof -
  have "starts_with_header (plain_header (push_bit 8 (ucast (bs ! 0)) OR ucast (bs ! 1)) (bs ! 2 AND 0x80 \<noteq> 0) (bs ! 2 AND 2 \<noteq> 0)) bs"
    if "12 \<le> length bs" for bs :: bytes
    using that by (cases bs; cases "tl bs") (simp_all add: starts_with_header_def plain_header_def id_bytes_of)
  then show ?thesis
    by (auto simp: header_laws_def plain_lib_def plain_respond_def plain_emit_header plain_message_def Let_def split: if_splits)
qed

text \<open>Every query fails with \<open>NXDomain\<close>.\<close>

definition no_name :: "dns_request \<Rightarrow> server_opts \<Rightarrow> unit \<Rightarrow> (dns_result \<times> unit) option" where
  "no_name req opts s = Some (Inl (ErrResponseCode NXDomain), s)"

definition ask :: bytes where
  "ask = [0x12, 0x34, 1, 0, 0, 0, 0, 0, 0, 0, 0, 0]"

lemma read_ask: "hl_read plain_lib ask = ReadMessage (plain_message (plain_header 0x1234 False False))"
  by (simp add: plain_lib_def ask_def)

definition ask_sm :: serial_message where
  "ask_sm = SmBytes ask ((V4 0x0a000001, 5353), ProtoUdp)"

lemma process_ask:
  "process plain_lib now no_name ask_sm server_opts_default () =
     Some (SmReply (dr_message (set_response_code NXDomain (new_with_max_ttl now default_query [])))
       ((plain_header 0x1234 True False)\<lparr>hd_recursion_available := True, hd_response_code := NXDomain\<rparr>) None ((V4 0x0a000001, 5353), ProtoUdp), ())"
  by (simp add: process_def sm_read_def ask_sm_def read_ask plain_message_def plain_header_def no_name_def plain_respond_def
      plain_lib_def [THEN arg_cong [of _ _ hl_response_from_request]] error_response_def as_no_records_response_def is_nx_domain_def
      request_of_def request_new_def sm_reply_def into_reply_parts_def set_response_code_def new_with_max_ttl_def new_with_deadline_def Let_def)

theorem reply_wellformed_witness:
  "\<exists>r. sm_to_message plain_lib (fst (the (process plain_lib 0 no_name ask_sm server_opts_default ()))) = Some r \<and>
     replies_to (plain_header 0x1234 False False) NXDomain r"
proof -
  have "sm_read plain_lib ask_sm = ReadMessage (plain_message (plain_header 0x1234 False False))"
    by (simp add: sm_read_def ask_sm_def read_ask)
  moreover from this have "reply_code no_name server_opts_default () (sm_peer ask_sm) (sm_read plain_lib ask_sm) = NXDomain"
    by (simp add: reply_code_def no_name_def error_code_def plain_message_def plain_header_def)
  ultimately show ?thesis
    using reply_wellformed [OF plain_lib_laws process_ask [of 0], of "plain_header 0x1234 False False"]
    by (auto simp: process_ask plain_message_def)
qed

lemma replicate_numeral: "replicate (numeral n) x = x # replicate (pred_numeral n) x"
  by (simp add: numeral_eq_Suc)

lemma serve_ask:
  "udp_serve plain_lib (\<lambda>sm. process plain_lib 0 no_name sm server_opts_default) ask (V4 0x0a000001, 5353) () =
     Some ([0x12, 0x34, 0x80, 0, 0, 0, 0, 0, 0, 0, 0, 0], V4 0x0a000001, 5353)"
  using process_ask [of 0]
  by (simp add: udp_serve_def sanitize_src_address_def MAX_RECEIVE_BUFFER_SIZE_def ask_sm_def [symmetric])
    (simp add: ask_sm_def ask_def sm_to_bytes_def plain_lib_def plain_emit_def plain_header_def id_bytes_def replicate_numeral)


text \<open>A background query that waits and then runs.\<close>

theorem background_queries_bounded_witness:
  "\<exists>l. load_step\<^sup>*\<^sup>* (load_init 0) l \<and> length (ld_running l) = 1 \<and> qd_permits (ld_dispatcher l) = 15"
proof -
  let ?o = "server_opts_default\<lparr>so_is_background := True\<rparr>"
  let ?l1 = "(load_init 0)\<lparr>ld_waiting := 1\<rparr>"
  let ?l2 = "?l1\<lparr>ld_dispatcher := active_new ((dispatcher_new 0)\<lparr>qd_permits := 15\<rparr>), ld_waiting := 0, ld_running := [?o]\<rparr>"
  have "load_step (load_init 0) ?l1"
    using load_step.wait [of 0 ?o "load_init 0" "dispatcher_new 0"]
    by (simp add: send_begin_def load_init_def dispatcher_new_def elapsed_ms_def MAX_IDLE_MS_def)
  moreover have "load_step ?l1 ?l2"
    using load_step.background [of ?l1 "(dispatcher_new 0)\<lparr>qd_permits := 15\<rparr>" ?o]
    by (simp add: acquire_permit_def load_init_def dispatcher_new_def)
  ultimately have r: "load_step\<^sup>*\<^sup>* (load_init 0) ?l2" by (meson r_into_rtranclp rtranclp.rtrancl_into_rtrancl)
  from background_queries_bounded [OF r] r show ?thesis by auto
qed

end
