(* ===== verification/Lifecycle.thy ===== *)
theory Lifecycle
  imports Dispatch
begin

text \<open>
  The server across reloads of its configuration: \<open>App::{new, init, reload, update_middleware_handler, update_listeners}\<close>
  of \<^verbatim>\<open>src/src/app.rs\<close>.

  A listener is known by its configuration, of type \<open>'b\<close>; a server that was started is known by its number, the cancellation
  token it has. Starting one, \<open>server::serve\<close>, gives a server, an error, or, where the address cannot be bound, a panic.
\<close>

section \<open>Listeners\<close>

datatype serve_outcome = Serving | ServeError | BindPanic

text \<open>
  \<open>server::serve\<close> for a listener of this program: \<open>cert\<close> says whether its certificate can be prepared, \<open>bound\<close> whether its
  socket can be bound and \<open>started\<close> whether the protocol on top of it starts. The options of its queries have its address.
\<close>

definition needs_cert :: "bind_addr_config \<Rightarrow> bool" where
  "needs_cert b \<longleftrightarrow> ba_kind b \<in> {BindTls, BindHttps, BindH3, BindQuic}"

definition server_serve ::
  "(bind_addr_config \<Rightarrow> bool) \<Rightarrow> (bind_addr_config \<Rightarrow> bool) \<Rightarrow> (bind_addr_config \<Rightarrow> bool) \<Rightarrow> bind_addr_config \<Rightarrow> serve_outcome" where
  "server_serve cert bound started b =
     (if needs_cert b \<and> \<not> cert b then ServeError
      else if \<not> bound b then BindPanic
      else if ba_kind b \<notin> {BindUdp, BindTcp} \<and> \<not> started b then ServeError
      else Serving)"

definition serve_opts :: "bind_addr_config \<Rightarrow> server_opts \<Rightarrow> server_opts" where
  "serve_opts b opts = opts\<lparr>so_local_addr := Some (sock_addr b)\<rparr>"

definition h3_port :: "bind_addr_config list \<Rightarrow> u16 option" where
  "h3_port binds = (case filter (\<lambda>b. ba_kind b = BindH3) binds of [] \<Rightarrow> None | b # _ \<Rightarrow> Some (ba_port b))"

text \<open>\<open>ls_servers\<close> is the map of the listeners, \<open>ls_started\<close> the number of servers ever started, \<open>ls_cancelled\<close> those shut down.\<close>

record 'b listeners =
  ls_servers :: "('b \<times> nat) list"
  ls_started :: nat
  ls_cancelled :: "nat list"

definition listeners_new :: "'b listeners" where
  "listeners_new = \<lparr>ls_servers = [], ls_started = 0, ls_cancelled = []\<rparr>"

text \<open>The listeners that are no longer configured are taken out and shut down.\<close>

definition stop_listeners :: "'b list \<Rightarrow> 'b listeners \<Rightarrow> 'b listeners" where
  "stop_listeners binds L =
     (let shutdowns = filter (\<lambda>k. k \<notin> set binds) (map fst (ls_servers L))
      in L\<lparr>ls_servers := filter (\<lambda>(k, _). k \<notin> set shutdowns) (ls_servers L),
           ls_cancelled := map snd (filter (\<lambda>(k, _). k \<in> set shutdowns) (ls_servers L)) @ ls_cancelled L\<rparr>)"

text \<open>A server that was started takes the place of the one there was, which is shut down.\<close>

definition insert_listener :: "'b \<Rightarrow> 'b listeners \<Rightarrow> 'b listeners" where
  "insert_listener b L =
     (let n = ls_started L
      in L\<lparr>ls_servers := (b, n) # filter (\<lambda>(k, _). k \<noteq> b) (ls_servers L), ls_started := n + 1,
           ls_cancelled := (case map_of (ls_servers L) b of Some prev \<Rightarrow> [prev] | None \<Rightarrow> []) @ ls_cancelled L\<rparr>)"

text \<open>The new listeners are started in turn; the first component is \<open>False\<close> for a panic, which leaves the rest undone.\<close>

fun start_listeners :: "('b \<Rightarrow> serve_outcome) \<Rightarrow> 'b list \<Rightarrow> 'b listeners \<Rightarrow> bool \<times> 'b listeners" where
  "start_listeners serve [] L = (True, L)"
| "start_listeners serve (b # bs) L =
     (case serve b of
        Serving \<Rightarrow> start_listeners serve bs (insert_listener b L)
      | ServeError \<Rightarrow> start_listeners serve bs L
      | BindPanic \<Rightarrow> (False, L))"

definition update_listeners :: "('b \<Rightarrow> serve_outcome) \<Rightarrow> 'b list \<Rightarrow> 'b listeners \<Rightarrow> bool \<times> 'b listeners" where
  "update_listeners serve binds L =
     start_listeners serve (filter (\<lambda>l. map_of (ls_servers L) l = None) binds) (stop_listeners binds L)"

section \<open>The state of the server\<close>

text \<open>What \<open>reload\<close> looks at in a configuration; the rest, of type \<open>'r\<close>, is what the middlewares are built from.\<close>

record ('b, 'r) served_config =
  sc_binds :: "'b list"
  sc_webui_enable :: "bool option"
  sc_webui_bind :: "(ip_addr \<times> u16) option"
  sc_rest :: 'r

definition webui_enabled :: "('b, 'r) served_config \<Rightarrow> bool" where
  "webui_enabled cfg = (case sc_webui_enable cfg of Some b \<Rightarrow> b | None \<Rightarrow> True)"

definition webui_address :: "('b, 'r) served_config \<Rightarrow> ip_addr \<times> u16" where
  "webui_address cfg = (case sc_webui_bind cfg of Some a \<Rightarrow> a | None \<Rightarrow> (V4 0x7f000001, 6080))"

text \<open>\<open>'h\<close> are the handlers of the chain. \<open>as_cache\<close> is the number of the cache in use: a chain with a cache has a new one.\<close>

record ('b, 'r, 'h) app =
  as_cfg :: "('b, 'r) served_config"
  as_handler :: 'h
  as_own :: "listener list"
  as_cache :: "nat option"
  as_caches :: nat
  as_listeners :: "'b listeners"
  as_loaded_at :: instant

text \<open>
  What the server calls: the chain for a configuration and a cache, whether it has one, the own listeners for the binds, and how starting
  a listener ends.
\<close>

record ('b, 'r, 'h) app_env =
  ae_build :: "('b, 'r) served_config \<Rightarrow> nat \<Rightarrow> 'h"
  ae_has_cache :: "('b, 'r) served_config \<Rightarrow> bool"
  ae_own :: "'b list \<Rightarrow> listener list"
  ae_serve :: "('b, 'r) served_config \<Rightarrow> 'b \<Rightarrow> serve_outcome"

definition app_new :: "instant \<Rightarrow> 'h \<Rightarrow> ('b, 'r) served_config \<Rightarrow> ('b, 'r, 'h) app" where
  "app_new now no_middleware cfg =
     \<lparr>as_cfg = cfg, as_handler = no_middleware, as_own = [], as_cache = None, as_caches = 0, as_listeners = listeners_new,
      as_loaded_at = now\<rparr>"

definition update_middleware_handler :: "('b, 'r, 'h) app_env \<Rightarrow> ('b, 'r, 'h) app \<Rightarrow> ('b, 'r, 'h) app" where
  "update_middleware_handler E s =
     (let cfg = as_cfg s
      in s\<lparr>as_own := ae_own E (sc_binds cfg), as_handler := ae_build E cfg (as_caches s),
           as_cache := (if ae_has_cache E cfg then Some (as_caches s) else as_cache s),
           as_caches := (if ae_has_cache E cfg then as_caches s + 1 else as_caches s)\<rparr>)"

definition app_update_listeners :: "('b, 'r, 'h) app_env \<Rightarrow> ('b, 'r, 'h) app \<Rightarrow> bool \<times> ('b, 'r, 'h) app" where
  "app_update_listeners E s =
     (let (ok, L) = update_listeners (ae_serve E (as_cfg s)) (sc_binds (as_cfg s)) (as_listeners s)
      in (ok, s\<lparr>as_listeners := L\<rparr>))"

datatype reload_result = Reloaded | ReloadError string | ReloadPanic

text \<open>\<open>replacement\<close> is the result of reading the configuration again.\<close>

definition reload :: "('b, 'r, 'h) app_env \<Rightarrow> instant \<Rightarrow> (string + ('b, 'r) served_config) \<Rightarrow> ('b, 'r, 'h) app \<Rightarrow>
    reload_result \<times> ('b, 'r, 'h) app" where
  "reload E now replacement s =
     (case replacement of
        Inl e \<Rightarrow> (ReloadError e, s)
      | Inr cfg \<Rightarrow>
          (if \<not> (webui_enabled (as_cfg s) = webui_enabled cfg \<and> webui_address (as_cfg s) = webui_address cfg)
           then (ReloadError ''changing the WebUI listener requires a service restart'', s)
           else
             (case app_update_listeners E (update_middleware_handler E (s\<lparr>as_cfg := cfg\<rparr>)) of
                (True, s) \<Rightarrow> (Reloaded, s\<lparr>as_loaded_at := now\<rparr>)
              | (False, s) \<Rightarrow> (ReloadPanic, s))))"

text \<open>\<open>init\<close>, in a build with the web interface; \<open>plugins\<close> and \<open>webui\<close> say whether these could be started.\<close>

definition app_init :: "('b, 'r, 'h) app_env \<Rightarrow> (string + unit) \<Rightarrow> (string + unit) \<Rightarrow> ('b, 'r, 'h) app \<Rightarrow>
    reload_result \<times> ('b, 'r, 'h) app" where
  "app_init E plugins webui s =
     (let s = update_middleware_handler E s
      in case plugins of
           Inl e \<Rightarrow> (ReloadError e, s)
         | Inr _ \<Rightarrow>
             (case (if webui_enabled (as_cfg s) then webui else Inr ()) of
                Inl e \<Rightarrow> (ReloadError e, s)
              | Inr _ \<Rightarrow> (case app_update_listeners E s of (ok, s) \<Rightarrow> (if ok then Reloaded else ReloadPanic, s))))"

text \<open>The shutdown of \<open>app::serve\<close>: all listeners are taken out and shut down.\<close>

definition app_shutdown :: "('b, 'r, 'h) app \<Rightarrow> ('b, 'r, 'h) app" where
  "app_shutdown s =
     (let L = as_listeners s
      in s\<lparr>as_listeners := L\<lparr>ls_servers := [], ls_cancelled := map snd (ls_servers L) @ ls_cancelled L\<rparr>\<rparr>)"

section \<open>Every server is accounted for\<close>

text \<open>The servers that run, started and not shut down, are those of the map.\<close>

definition listeners_ok :: "'b listeners \<Rightarrow> bool" where
  "listeners_ok L \<longleftrightarrow>
     distinct (map fst (ls_servers L)) \<and> distinct (map snd (ls_servers L)) \<and>
     set (map snd (ls_servers L)) \<union> set (ls_cancelled L) = {..<ls_started L} \<and>
     set (map snd (ls_servers L)) \<inter> set (ls_cancelled L) = {}"

lemma listeners_ok_new: "listeners_ok listeners_new"
  by (simp add: listeners_ok_def listeners_new_def)

lemma split_accounts:
  assumes "A \<inter> B = {}" "A \<union> B = S" "S \<union> C = N" "S \<inter> C = {}"
  shows "A \<union> (B \<union> C) = N" "A \<inter> (B \<union> C) = {}"
  using assms by blast+

lemma listeners_ok_move:
  assumes "listeners_ok L"
  shows "listeners_ok (L\<lparr>ls_servers := filter P (ls_servers L), ls_cancelled := map snd (filter (\<lambda>x. \<not> P x) (ls_servers L)) @ ls_cancelled L\<rparr>)"
proof -
  have d: "distinct (map snd (ls_servers L))" using assms by (simp add: listeners_ok_def)
  then have disj: "snd ` set (filter P (ls_servers L)) \<inter> snd ` set (filter (\<lambda>x. \<not> P x) (ls_servers L)) = {}"
    by (auto simp: distinct_map dest: inj_onD)
  have un: "snd ` set (filter P (ls_servers L)) \<union> snd ` set (filter (\<lambda>x. \<not> P x) (ls_servers L)) = snd ` set (ls_servers L)"
    by auto
  have "distinct (map fst (filter P (ls_servers L)))" "distinct (map snd (filter P (ls_servers L)))"
    using assms by (auto simp: listeners_ok_def distinct_map_filter)
  with assms split_accounts [OF disj un, of "set (ls_cancelled L)" "{..<ls_started L}"] show ?thesis
    unfolding listeners_ok_def by simp
qed

lemma listeners_ok_stop: "listeners_ok L \<Longrightarrow> listeners_ok (stop_listeners binds L)"
proof -
  assume "listeners_ok L"
  have "stop_listeners binds L = L\<lparr>ls_servers := filter (\<lambda>(k, _). k \<in> set binds) (ls_servers L),
      ls_cancelled := map snd (filter (\<lambda>x. \<not> (case x of (k, _) \<Rightarrow> k \<in> set binds)) (ls_servers L)) @ ls_cancelled L\<rparr>"
  proof -
    have a: "filter (\<lambda>(k, _). k \<notin> set (filter (\<lambda>k. k \<notin> set binds) (map fst (ls_servers L)))) (ls_servers L) =
        filter (\<lambda>(k, _). k \<in> set binds) (ls_servers L)"
      by (rule filter_cong) (auto intro: rev_image_eqI)
    have b: "filter (\<lambda>(k, _). k \<in> set (filter (\<lambda>k. k \<notin> set binds) (map fst (ls_servers L)))) (ls_servers L) =
        filter (\<lambda>x. \<not> (case x of (k, _) \<Rightarrow> k \<in> set binds)) (ls_servers L)"
      by (rule filter_cong) (auto intro: rev_image_eqI)
    show ?thesis unfolding stop_listeners_def Let_def a b ..
  qed
  with listeners_ok_move [OF \<open>listeners_ok L\<close>] show ?thesis by simp
qed

lemma filter_key_None: "map_of xs b = None \<Longrightarrow> filter (\<lambda>(k, _). k \<noteq> b) xs = xs"
  by (rule filter_True) (auto simp: map_of_eq_None_iff intro: rev_image_eqI)

lemma insert_listener_eq:
  fixes b
  assumes "distinct (map fst (ls_servers L))"
  defines "L' \<equiv> L\<lparr>ls_servers := filter (\<lambda>(k, _). k \<noteq> b) (ls_servers L),
      ls_cancelled := map snd (filter (\<lambda>x. \<not> (case x of (k, _) \<Rightarrow> k \<noteq> b)) (ls_servers L)) @ ls_cancelled L\<rparr>"
  shows "insert_listener b L = L'\<lparr>ls_servers := (b, ls_started L') # ls_servers L', ls_started := ls_started L' + 1\<rparr>"
proof -
  have "map snd (filter (\<lambda>x. \<not> (case x of (k, _) \<Rightarrow> k \<noteq> b)) xs) = (case map_of xs b of Some prev \<Rightarrow> [prev] | None \<Rightarrow> [])"
    if "distinct (map fst xs)" for xs :: "('a \<times> nat) list"
    using that by (induction xs) (auto simp: map_of_eq_None_iff filter_empty_conv split: option.split intro: rev_image_eqI)
  from this [OF assms(1)] show ?thesis by (simp add: insert_listener_def L'_def Let_def)
qed

lemma listeners_ok_insert:
  assumes "listeners_ok L"
  shows "listeners_ok (insert_listener b L)"
proof -
  let ?L = "L\<lparr>ls_servers := filter (\<lambda>(k, _). k \<noteq> b) (ls_servers L),
      ls_cancelled := map snd (filter (\<lambda>x. \<not> (case x of (k, _) \<Rightarrow> k \<noteq> b)) (ls_servers L)) @ ls_cancelled L\<rparr>"
  have ok: "listeners_ok ?L" by (rule listeners_ok_move [OF assms])
  have "listeners_ok (M\<lparr>ls_servers := (b, ls_started M) # ls_servers M, ls_started := ls_started M + 1\<rparr>)"
    if M: "listeners_ok M" "b \<notin> fst ` set (ls_servers M)" for M :: "'a listeners"
  proof -
    have "snd ` set (ls_servers M) \<union> set (ls_cancelled M) = {..<ls_started M}" using M by (simp add: listeners_ok_def)
    then have "ls_started M \<notin> snd ` set (ls_servers M)" "ls_started M \<notin> set (ls_cancelled M)" by blast+
    with M show ?thesis by (simp add: listeners_ok_def lessThan_Suc)
  qed
  moreover have "b \<notin> fst ` set (ls_servers ?L)" by auto
  ultimately have "listeners_ok (?L\<lparr>ls_servers := (b, ls_started ?L) # ls_servers ?L, ls_started := ls_started ?L + 1\<rparr>)"
    using ok by blast
  moreover have "distinct (map fst (ls_servers L))" using assms by (simp add: listeners_ok_def)
  ultimately show ?thesis by (simp only: insert_listener_eq)
qed

lemma listeners_ok_start: "listeners_ok L \<Longrightarrow> listeners_ok (snd (start_listeners serve bs L))"
  by (induction serve bs L rule: start_listeners.induct) (auto simp: listeners_ok_insert split: serve_outcome.split)

lemma listeners_ok_update: "listeners_ok L \<Longrightarrow> listeners_ok (snd (update_listeners serve binds L))"
  unfolding update_listeners_def by (intro listeners_ok_start listeners_ok_stop)

section \<open>Reloading\<close>

lemma map_of_filter_key: "map_of (filter (\<lambda>(k, _). P k) xs) b = (if P b then map_of xs b else None)"
  by (induction xs) auto

lemma stop_listeners_map: "map_of (ls_servers (stop_listeners binds L)) b = (if b \<in> set binds then map_of (ls_servers L) b else None)"
proof -
  have "b \<notin> set binds \<Longrightarrow> b \<notin> fst ` set (ls_servers L) \<Longrightarrow> map_of (ls_servers L) b = None"
    by (simp add: map_of_eq_None_iff)
  then show ?thesis by (auto simp: stop_listeners_def Let_def map_of_filter_key)
qed

lemma insert_listener_map: "map_of (ls_servers (insert_listener b L)) = (map_of (ls_servers L))(b \<mapsto> ls_started L)"
  by (rule ext) (auto simp: insert_listener_def Let_def map_of_filter_key)

lemma start_listeners_map:
  assumes "start_listeners serve bs L = (True, L')"
  shows "map_of (ls_servers L') b = (if b \<in> set bs \<and> serve b = Serving then map_of (ls_servers L') b else map_of (ls_servers L) b) \<and>
    (map_of (ls_servers L') b \<noteq> None \<longleftrightarrow> map_of (ls_servers L) b \<noteq> None \<or> b \<in> set bs \<and> serve b = Serving)"
  using assms
  by (induction serve bs L rule: start_listeners.induct)
    (auto simp: insert_listener_map split: serve_outcome.splits if_splits)

lemma update_listeners_map:
  assumes "update_listeners serve binds L = (True, L')"
  shows "map_of (ls_servers L') b \<noteq> None \<longleftrightarrow> b \<in> set binds \<and> (map_of (ls_servers L) b \<noteq> None \<or> serve b = Serving)"
    and "b \<in> set binds \<Longrightarrow> map_of (ls_servers L) b = Some n \<Longrightarrow> map_of (ls_servers L') b = Some n"
proof -
  have "start_listeners serve (filter (\<lambda>l. map_of (ls_servers L) l = None) binds) (stop_listeners binds L) = (True, L')"
    using assms by (simp add: update_listeners_def)
  note m = start_listeners_map [OF this, of b]
  show "map_of (ls_servers L') b \<noteq> None \<longleftrightarrow> b \<in> set binds \<and> (map_of (ls_servers L) b \<noteq> None \<or> serve b = Serving)"
    using m by (auto simp: stop_listeners_map split: if_splits)
  show "map_of (ls_servers L') b = Some n" if "b \<in> set binds" "map_of (ls_servers L) b = Some n"
    using m that by (simp add: stop_listeners_map)
qed

text \<open>The states of a server: from its start through any reloads, failed ones and such that panic included.\<close>

inductive app_step :: "('b, 'r, 'h) app \<Rightarrow> ('b, 'r, 'h) app \<Rightarrow> bool" where
  init: "app_init E plugins webui s = (r, s') \<Longrightarrow> app_step s s'"
| reloaded: "reload E now replacement s = (r, s') \<Longrightarrow> app_step s s'"
| shutdown: "app_step s (app_shutdown s)"

lemma listeners_ok_app_update:
  "listeners_ok (as_listeners s) \<Longrightarrow> listeners_ok (as_listeners (snd (app_update_listeners E s)))"
  using listeners_ok_update [of "as_listeners s" "ae_serve E (as_cfg s)" "sc_binds (as_cfg s)"]
  by (simp add: app_update_listeners_def split_beta)

lemma update_middleware_listeners [simp]:
  "as_listeners (update_middleware_handler E s) = as_listeners s" "as_cfg (update_middleware_handler E s) = as_cfg s"
  by (simp_all add: update_middleware_handler_def Let_def)

lemma listeners_ok_step: "app_step s s' \<Longrightarrow> listeners_ok (as_listeners s) \<Longrightarrow> listeners_ok (as_listeners s')"
proof (induction rule: app_step.induct)
  case (init E plugins webui s r s')
  then show ?case
    using listeners_ok_app_update [of "update_middleware_handler E s" E]
    by (auto simp: app_init_def Let_def split: sum.splits if_splits prod.splits)
next
  case (reloaded E now replacement s r s')
  show ?case
  proof (cases replacement)
    case (Inr cfg)
    then show ?thesis
      using reloaded listeners_ok_app_update [of "update_middleware_handler E (s\<lparr>as_cfg := cfg\<rparr>)" E]
      by (auto simp: reload_def split: if_splits prod.splits bool.splits)
  qed (use reloaded in \<open>simp add: reload_def\<close>)
next
  case (shutdown s)
  then show ?case
    using listeners_ok_move [of "as_listeners s" "\<lambda>_. False"] by (simp add: app_shutdown_def Let_def)
qed

lemma listeners_ok_reachable:
  "app_step\<^sup>*\<^sup>* (app_new now h cfg) s \<Longrightarrow> listeners_ok (as_listeners s)"
  by (induction rule: rtranclp_induct) (auto simp: app_new_def listeners_ok_new intro: listeners_ok_step)


text \<open>A server on two addresses is reloaded with one of them and two others, of which one has no certificate.\<close>

definition example_config :: "nat list \<Rightarrow> (nat, unit) served_config" where
  "example_config bs = \<lparr>sc_binds = bs, sc_webui_enable = None, sc_webui_bind = None, sc_rest = ()\<rparr>"

definition example_env :: "(nat, unit, nat list) app_env" where
  "example_env =
     \<lparr>ae_build = (\<lambda>cfg _. sc_binds cfg), ae_has_cache = (\<lambda>_. True), ae_own = (\<lambda>_. []),
      ae_serve = (\<lambda>_ b. if b = 4 then ServeError else Serving)\<rparr>"

definition example_running :: "(nat, unit, nat list) app" where
  "example_running = snd (app_init example_env (Inr ()) (Inr ()) (app_new 0 [] (example_config [1, 2])))"

lemma example_reloads:
  "reload example_env 9 (Inr (example_config [2, 3, 4])) example_running =
     (Reloaded, \<lparr>as_cfg = example_config [2, 3, 4], as_handler = [2, 3, 4], as_own = [], as_cache = Some 1, as_caches = 2,
        as_listeners = \<lparr>ls_servers = [(3, 2), (2, 1)], ls_started = 3, ls_cancelled = [0]\<rparr>, as_loaded_at = 9\<rparr>)"
  by code_simp


text \<open>
  An address that cannot be bound stops the reload half way: the new chain and configuration are in use and the removed listeners are shut
  down, but the listeners behind the failing one are not started.
\<close>

lemma bind_panic_stops_reload:
  "reload (example_env\<lparr>ae_serve := \<lambda>_ b. if b = 3 then BindPanic else Serving\<rparr>) 9 (Inr (example_config [3, 5])) example_running =
     (ReloadPanic, \<lparr>as_cfg = example_config [3, 5], as_handler = [3, 5], as_own = [], as_cache = Some 1, as_caches = 2,
        as_listeners = \<lparr>ls_servers = [], ls_started = 2, ls_cancelled = [1, 0]\<rparr>, as_loaded_at = 0\<rparr>)"
  by code_simp

end
