(* ===== verification/Loader.thy ===== *)
theory Loader
  imports Own_Listeners Ip_Set Hosts
begin

text \<open>
  Reading a configuration: \<open>RuntimeConfigBuilder\<close> of \<^verbatim>\<open>src/src/dns_conf.rs\<close>, from the lines of the configuration files and of those
  they include to the configuration that the rest of the program runs on.

  A line means the item \<open>le_parse\<close> gives for it, the program's parser, which is written with the combinators of a package; a line that
  means nothing is skipped. The file system is the record \<open>load_env\<close>. Items are those of \<open>ConfigItem\<close>, in groups; the options that no modelled
  part reads (logs, audit files, certificates, worker threads and the like) are one item, \<open>OtherOption\<close>, with their name and text.
\<close>

section \<open>Paths\<close>

datatype path = Path (is_absolute: bool) (components: "string list")

definition path_join :: "path \<Rightarrow> path \<Rightarrow> path" where
  "path_join d p = (if is_absolute p then p else Path (is_absolute d) (components d @ components p))"

definition path_parent :: "path \<Rightarrow> path option" where
  "path_parent p = (if components p = [] then None else Some (Path (is_absolute p) (butlast (components p))))"

definition path_file_name :: "path \<Rightarrow> string option" where
  "path_file_name p = (if components p = [] \<or> last (components p) = ''..'' then None else Some (last (components p)))"

section \<open>Items\<close>

datatype ip_or_set = IosNet ip_net | IosSet string

record ip_alias =
  ia_ip :: ip_or_set
  ia_to :: "nat \<times> ip_addr list"

datatype domain_set_provider = SetFile string path | SetHttp string string

definition provider_name :: "domain_set_provider \<Rightarrow> string" where
  "provider_name p = (case p of SetFile n _ \<Rightarrow> n | SetHttp n _ \<Rightarrow> n)"

text \<open>The items in three groups: rules, which go into the group that is open, options, and the rest.\<close>

datatype rule_item =
  Address "address_rule_value config_for_domain" | ForwardRule "string config_for_domain"
| DomainRule "domain_rule config_for_domain" | CNAME "cname_rule config_for_domain"
| SrvRecord "bytes config_for_domain" | HttpsRecord "https_record_rule config_for_domain" | TxtRecord "bytes config_for_domain"
| NftSet "nftset_config config_for_ip list config_for_domain" | KernelIpSet "string config_for_ip list config_for_domain"
| IpSetTimeout bool | NftSetTimeout bool
| IpSetNoSpeed "string config_for_ip list" | NftSetNoSpeed "nftset_config config_for_ip list"

datatype cache_item =
  CacheSize int | CacheMemorySize nat | ServeExpiredPrefetchTime u64 | CachePersist bool | PrefetchDomain bool
| ServeExpired bool | ServeExpiredTtl u64 | ServeExpiredReplyTtl u64 | CacheCheckpointTime u64

datatype option_item =
  MaxQueryLimit nat | TcpIdleTime u64 | MdnsLookup bool | SpeedMode "speed_check_mode_list option"
| ForceAAAASOA bool | ForceHTTPSSOA bool | ForceQtypeSoa record_type
| DualstackIpSelection bool | DualstackIpPreferIpv4 bool | DualstackIpSelectionThreshold u64 | DualstackIpAllowForceAAAA bool
| RrTtl u64 | RrTtlMin u64 | RrTtlMax u64 | RrTtlReplyMax u64 | LocalTtl u64 | MaxReplyIpNum u8 | ResponseMode response_mode
| Server name_server_info

datatype config_item =
  RuleItem rule_item | CacheItem cache_item | OptionItem option_item | OtherOption string string
| GroupBegin string | GroupEnd | ClientRule client_rule | ConfFile path | Listener bind_addr_config
| BlacklistIp ip_or_set | BogusNxDomain ip_or_set | WhitelistIp ip_or_set | IgnoreIp ip_or_set | IpAlias ip_alias
| IpSetProvider string path | DomainSetProvider domain_set_provider

section \<open>The builder\<close>

text \<open>\<open>cb_inner\<close> holds the options, servers and client rules; its other fields are filled in by \<open>build\<close>.\<close>

record config_builder =
  cb_conf_file :: "path option"
  cb_inner :: runtime_config
  cb_binds :: "bind_addr_config list"
  cb_bogus_nxdomain :: "ip_or_set list"
  cb_blacklist_ip :: "ip_or_set list"
  cb_whitelist_ip :: "ip_or_set list"
  cb_ignore_ip :: "ip_or_set list"
  cb_ip_alias :: "ip_alias list"
  cb_ip_sets :: "(string, ip_net list) hmap"
  cb_domain_set_providers :: "(string, domain_set_provider list) hmap"
  cb_other :: "(string, string) hmap"
  cb_rule_groups :: "(string, rule_group) hmap"
  cb_rule_group_stack :: "(string \<times> rule_group) list"
  cb_loaded_files :: "path list"
  cb_dirs :: "path list"

definition builder_default :: "path option \<Rightarrow> config_builder" where
  "builder_default conf_file =
     \<lparr>cb_conf_file = conf_file, cb_inner = config_default, cb_binds = [], cb_bogus_nxdomain = [], cb_blacklist_ip = [],
      cb_whitelist_ip = [], cb_ignore_ip = [], cb_ip_alias = [], cb_ip_sets = [], cb_domain_set_providers = [], cb_other = [],
      cb_rule_groups = [], cb_rule_group_stack = [], cb_loaded_files = [], cb_dirs = []\<rparr>"

text \<open>
  The file system: \<open>le_read\<close> the text of a file, \<open>le_lines\<close> its lines up to the first that is not text, \<open>le_glob\<close> the files that a
  pattern stands for, \<open>None\<close> in the list for one that cannot be looked at; the order of \<open>le_dirs\<close> is that of the hash set.
\<close>

record load_env =
  le_parse :: "string \<Rightarrow> config_item option"
  le_parse_net :: "string \<Rightarrow> ip_net option"
  le_parse_wildcard :: "string \<Rightarrow> wildcard_name option"
  le_parse_name :: "string \<Rightarrow> name option"
  le_http_get :: "string \<Rightarrow> string option"
  le_exists :: "path \<Rightarrow> bool"
  le_is_file :: "path \<Rightarrow> bool"
  le_canonical :: "path \<Rightarrow> path option"
  le_lines :: "path \<Rightarrow> string list option"
  le_read :: "path \<Rightarrow> string option"
  le_current_dir :: "path option"
  le_exe_dir :: "path option"
  le_glob :: "path \<Rightarrow> path option list option"
  le_dirs :: "path list \<Rightarrow> path list"

section \<open>Finding files\<close>

text \<open>The places at which a file that is not there is looked for, in their order.\<close>

definition candidates :: "load_env \<Rightarrow> path option \<Rightarrow> path \<Rightarrow> path list" where
  "candidates E base filepath =
     filepath #
     (case (if is_absolute filepath then None else Option.bind base path_parent) of
        None \<Rightarrow> []
      | Some dir \<Rightarrow>
          [path_join dir filepath] @
          (if Option.bind base path_file_name = Some ''smartdns.conf''
           then [path_join (path_join dir (Path False [''smartdns.d''])) filepath] else []) @
          (case le_current_dir E of Some d \<Rightarrow> [path_join d filepath] | None \<Rightarrow> []) @
          (case le_exe_dir E of Some d \<Rightarrow> [path_join d filepath] | None \<Rightarrow> []))"

function resolve_filepath :: "load_env \<Rightarrow> path option \<Rightarrow> path \<Rightarrow> path" where
  "resolve_filepath E base filepath =
     (case List.find (le_is_file E) (candidates E base filepath) of
        Some p \<Rightarrow> p
      | None \<Rightarrow>
          (case path_file_name filepath of
             Some name \<Rightarrow>
               (if Path False [name] \<noteq> filepath
                then (let p = resolve_filepath E base (Path False [name]) in if le_is_file E p then p else filepath)
                else filepath)
           | None \<Rightarrow> filepath))"
  by pat_completeness auto
termination
  by (relation "measure (\<lambda>(E, base, p). if \<exists>name. p = Path False [name] then 0 else 1)") (auto simp: path_file_name_def split: if_splits)

definition builder_resolve :: "load_env \<Rightarrow> config_builder \<Rightarrow> path \<Rightarrow> path" where
  "builder_resolve E b filepath =
     (let path = resolve_filepath E (cb_conf_file b) filepath
      in if le_exists E path then path
         else
           (case path_file_name path of
              None \<Rightarrow> path
            | Some name \<Rightarrow>
                (case List.find (le_is_file E) (map (\<lambda>dir. path_join dir (Path False [name])) (le_dirs E (cb_dirs b))) of
                   Some p \<Rightarrow> p
                 | None \<Rightarrow> path)))"

section \<open>What an item does\<close>

text \<open>The rules of the group that is open; \<open>KernelIpSet\<close> and \<open>TxtRecord\<close> are domain rules with one entry.\<close>

fun apply_rule :: "rule_item \<Rightarrow> rule_group \<Rightarrow> rule_group" where
  "apply_rule (Address v) g = g\<lparr>rg_address_rules := rg_address_rules g @ [v]\<rparr>"
| "apply_rule (ForwardRule v) g = g\<lparr>rg_forward_rules := rg_forward_rules g @ [v]\<rparr>"
| "apply_rule (DomainRule v) g = g\<lparr>rg_domain_rules := rg_domain_rules g @ [v]\<rparr>"
| "apply_rule (CNAME v) g = g\<lparr>rg_cnames := rg_cnames g @ [v]\<rparr>"
| "apply_rule (SrvRecord v) g = g\<lparr>rg_srv_records := rg_srv_records g @ [v]\<rparr>"
| "apply_rule (HttpsRecord v) g = g\<lparr>rg_https_records := rg_https_records g @ [v]\<rparr>"
| "apply_rule (NftSet v) g = g\<lparr>rg_nftsets := rg_nftsets g @ [v]\<rparr>"
| "apply_rule (TxtRecord v) g =
     g\<lparr>rg_domain_rules := rg_domain_rules g @
         [\<lparr>cd_domain = cd_domain v, cd_config = rule_default\<lparr>ru_txt := Some [cd_config v]\<rparr>\<rparr>]\<rparr>"
| "apply_rule (KernelIpSet v) g =
     g\<lparr>rg_domain_rules := rg_domain_rules g @
         [\<lparr>cd_domain = cd_domain v, cd_config = rule_default\<lparr>ru_ipset := Some (cd_config v)\<rparr>\<rparr>]\<rparr>"
| "apply_rule (IpSetTimeout v) g = g\<lparr>rg_network_sets := (rg_network_sets g)\<lparr>ns_ipset_timeout := Some v\<rparr>\<rparr>"
| "apply_rule (NftSetTimeout v) g = g\<lparr>rg_network_sets := (rg_network_sets g)\<lparr>ns_nftset_timeout := Some v\<rparr>\<rparr>"
| "apply_rule (IpSetNoSpeed v) g = g\<lparr>rg_network_sets := (rg_network_sets g)\<lparr>ns_ipset_no_speed := Some v\<rparr>\<rparr>"
| "apply_rule (NftSetNoSpeed v) g = g\<lparr>rg_network_sets := (rg_network_sets g)\<lparr>ns_nftset_no_speed := Some v\<rparr>\<rparr>"

fun apply_cache :: "cache_item \<Rightarrow> cache_config \<Rightarrow> cache_config" where
  "apply_cache (CacheSize v) c = c\<lparr>cc_size := Some v\<rparr>"
| "apply_cache (CacheMemorySize v) c = c\<lparr>cc_memory_size := Some v\<rparr>"
| "apply_cache (ServeExpiredPrefetchTime v) c = c\<lparr>cc_expired_prefetch_time := Some v\<rparr>"
| "apply_cache (CachePersist v) c = c\<lparr>cc_persist := Some v\<rparr>"
| "apply_cache (PrefetchDomain v) c = c\<lparr>cc_prefetch_domain := Some v\<rparr>"
| "apply_cache (ServeExpired v) c = c\<lparr>cc_serve_expired := Some v\<rparr>"
| "apply_cache (ServeExpiredTtl v) c = c\<lparr>cc_serve_expired_ttl := Some v\<rparr>"
| "apply_cache (ServeExpiredReplyTtl v) c = c\<lparr>cc_serve_expired_reply_ttl := Some v\<rparr>"
| "apply_cache (CacheCheckpointTime v) c = c\<lparr>cc_checkpoint_time := Some v\<rparr>"

fun apply_option :: "option_item \<Rightarrow> runtime_config \<Rightarrow> runtime_config" where
  "apply_option (MaxQueryLimit v) c = c\<lparr>cf_max_query_limit := Some v\<rparr>"
| "apply_option (TcpIdleTime v) c = c\<lparr>cf_tcp_idle_time := Some v\<rparr>"
| "apply_option (MdnsLookup v) c = c\<lparr>cf_mdns_lookup := Some v\<rparr>"
| "apply_option (SpeedMode v) c = c\<lparr>cf_speed_check_mode := v\<rparr>"
| "apply_option (ForceAAAASOA v) c = c\<lparr>cf_force_aaaa_soa := Some v\<rparr>"
| "apply_option (ForceHTTPSSOA v) c = c\<lparr>cf_force_https_soa := Some v\<rparr>"
| "apply_option (ForceQtypeSoa v) c = c\<lparr>cf_force_qtype_soa := List.insert v (cf_force_qtype_soa c)\<rparr>"
| "apply_option (DualstackIpSelection v) c = c\<lparr>cf_dualstack_ip_selection := Some v\<rparr>"
| "apply_option (DualstackIpPreferIpv4 v) c = c\<lparr>cf_dualstack_ip_prefer_ipv4 := Some v\<rparr>"
| "apply_option (DualstackIpSelectionThreshold v) c = c\<lparr>cf_dualstack_ip_selection_threshold := Some v\<rparr>"
| "apply_option (DualstackIpAllowForceAAAA v) c = c\<lparr>cf_dualstack_ip_allow_force_aaaa := Some v\<rparr>"
| "apply_option (RrTtl v) c = c\<lparr>cf_rr_ttl := Some v\<rparr>"
| "apply_option (RrTtlMin v) c = c\<lparr>cf_rr_ttl_min := Some v\<rparr>"
| "apply_option (RrTtlMax v) c = c\<lparr>cf_rr_ttl_max := Some v\<rparr>"
| "apply_option (RrTtlReplyMax v) c = c\<lparr>cf_rr_ttl_reply_max := Some v\<rparr>"
| "apply_option (LocalTtl v) c = c\<lparr>cf_local_ttl := Some v\<rparr>"
| "apply_option (MaxReplyIpNum v) c = c\<lparr>cf_max_reply_ip_num := Some v\<rparr>"
| "apply_option (ResponseMode v) c = c\<lparr>cf_response_mode := Some v\<rparr>"
| "apply_option (Server v) c = c\<lparr>cf_nameservers := cf_nameservers c @ [v]\<rparr>"

text \<open>A group must be open.\<close>

definition open_group :: "config_builder \<Rightarrow> config_builder" where
  "open_group b =
     (if cb_rule_group_stack b = [] then b\<lparr>cb_rule_group_stack := [(DEFAULT_GROUP, rule_group_default)]\<rparr> else b)"

definition close_group :: "config_builder \<Rightarrow> config_builder" where
  "close_group b =
     (case cb_rule_group_stack b of
        [] \<Rightarrow> b
      | (name, g) # st \<Rightarrow>
          b\<lparr>cb_rule_group_stack := st,
            cb_rule_groups := AList.update name
              (rule_group_merge (case map_of (cb_rule_groups b) name of Some g' \<Rightarrow> g' | None \<Rightarrow> rule_group_default) g)
              (cb_rule_groups b)\<rparr>)"

definition parse_ip_set_file :: "load_env \<Rightarrow> string \<Rightarrow> ip_net list" where
  "parse_ip_set_file E text' = List.map_filter (\<lambda>l. le_parse_net E (trim_start l)) (lines text')"

definition push_entry :: "'k \<Rightarrow> 'v list \<Rightarrow> ('k, 'v list) hmap \<Rightarrow> ('k, 'v list) hmap" where
  "push_entry k vs m = AList.update k ((case map_of m k of Some xs \<Rightarrow> xs | None \<Rightarrow> []) @ vs) m"

text \<open>Every item but \<open>ConfFile\<close>, in a builder with a group open; the stack has the innermost group first.\<close>

definition plain_item :: "load_env \<Rightarrow> config_item \<Rightarrow> config_builder \<Rightarrow> config_builder" where
  "plain_item E i b =
     (case i of
        GroupBegin name \<Rightarrow> b\<lparr>cb_rule_group_stack := (name, rule_group_default) # cb_rule_group_stack b\<rparr>
      | GroupEnd \<Rightarrow> close_group b
      | ClientRule r \<Rightarrow>
          (let r = (if cr_group r = []
                    then r\<lparr>cr_group := (case cb_rule_group_stack b of (name, _) # _ \<Rightarrow> name | [] \<Rightarrow> DEFAULT_GROUP)\<rparr> else r)
           in b\<lparr>cb_inner := (cb_inner b)\<lparr>cf_client_rules := cf_client_rules (cb_inner b) @ [r]\<rparr>\<rparr>)
      | Listener l \<Rightarrow> b\<lparr>cb_binds := cb_binds b @ [l]\<rparr>
      | BlacklistIp v \<Rightarrow> b\<lparr>cb_blacklist_ip := cb_blacklist_ip b @ [v]\<rparr>
      | BogusNxDomain v \<Rightarrow> b\<lparr>cb_bogus_nxdomain := cb_bogus_nxdomain b @ [v]\<rparr>
      | WhitelistIp v \<Rightarrow> b\<lparr>cb_whitelist_ip := cb_whitelist_ip b @ [v]\<rparr>
      | IgnoreIp v \<Rightarrow> b\<lparr>cb_ignore_ip := cb_ignore_ip b @ [v]\<rparr>
      | IpAlias v \<Rightarrow> b\<lparr>cb_ip_alias := cb_ip_alias b @ [v]\<rparr>
      | IpSetProvider name file \<Rightarrow>
          (case le_read E (resolve_filepath E (cb_conf_file b) file) of
             Some text' \<Rightarrow> b\<lparr>cb_ip_sets := push_entry name (parse_ip_set_file E text') (cb_ip_sets b)\<rparr>
           | None \<Rightarrow> b)
      | DomainSetProvider p \<Rightarrow>
          (let p = (case p of SetFile n file \<Rightarrow> SetFile n (builder_resolve E b file) | SetHttp n url \<Rightarrow> p)
           in b\<lparr>cb_domain_set_providers := push_entry (provider_name p) [p] (cb_domain_set_providers b)\<rparr>)
      | OtherOption k v \<Rightarrow> b\<lparr>cb_other := AList.update k v (cb_other b)\<rparr>
      | RuleItem r \<Rightarrow>
          b\<lparr>cb_rule_group_stack := (case cb_rule_group_stack b of (name, g) # st \<Rightarrow> (name, apply_rule r g) # st | [] \<Rightarrow> [])\<rparr>
      | CacheItem c \<Rightarrow> b\<lparr>cb_inner := (cb_inner b)\<lparr>cf_cache := apply_cache c (cf_cache (cb_inner b))\<rparr>\<rparr>
      | OptionItem c \<Rightarrow> b\<lparr>cb_inner := apply_option c (cb_inner b)\<rparr>
      | ConfFile _ \<Rightarrow> b)"

section \<open>Lines and files\<close>

datatype load_error = LoadError string | LoadPanic string

type_synonym load_result = "(load_error + config_builder) option"

text \<open>
  \<open>load\<close> is \<open>load_file\<close>, \<open>None\<close> in a result that it needs more turns. An error below a \<open>conf-file\<close> line is a panic.
\<close>

definition bind_load :: "load_result \<Rightarrow> (config_builder \<Rightarrow> load_result) \<Rightarrow> load_result" where
  "bind_load r k = (case r of Some (Inr b) \<Rightarrow> k b | _ \<Rightarrow> r)"

definition has_pattern :: "path \<Rightarrow> bool" where
  "has_pattern p = list_ex (list_ex (\<lambda>c. c \<in> {CHR ''*'', CHR ''?'', CHR ''[''})) (components p)"

fun load_matches :: "load_env \<Rightarrow> (path \<Rightarrow> config_builder \<Rightarrow> load_result) \<Rightarrow> path option list \<Rightarrow> config_builder \<Rightarrow> load_result" where
  "load_matches E load [] b = Some (Inr b)"
| "load_matches E load (None # ps) b = Some (Inl (LoadError ''glob''))"
| "load_matches E load (Some p # ps) b =
     (if le_is_file E p then bind_load (load p b) (load_matches E load ps) else load_matches E load ps b)"

definition load_include :: "load_env \<Rightarrow> (path \<Rightarrow> config_builder \<Rightarrow> load_result) \<Rightarrow> path \<Rightarrow> config_builder \<Rightarrow> load_result" where
  "load_include E load path b =
     (if \<not> has_pattern path \<or> le_is_file E (builder_resolve E b path) then load path b
      else
        (let pat = (if is_absolute path then path
                    else (case Option.bind (cb_conf_file b) path_parent of Some dir \<Rightarrow> path_join dir path | None \<Rightarrow> path))
         in case le_glob E pat of
              None \<Rightarrow> Some (Inl (LoadError ''pattern''))
            | Some entries \<Rightarrow> load_matches E load entries b))"

definition config_line :: "load_env \<Rightarrow> (path \<Rightarrow> config_builder \<Rightarrow> load_result) \<Rightarrow> string \<Rightarrow> config_builder \<Rightarrow> load_result" where
  "config_line E load l b =
     (let b = open_group b
      in case le_parse E l of
           None \<Rightarrow> Some (Inr b)
         | Some (ConfFile v) \<Rightarrow>
             (case load_include E load v b of
                Some (Inl _) \<Rightarrow> Some (Inl (LoadPanic ''load conf-file failed''))
              | r \<Rightarrow> r)
         | Some i \<Rightarrow> Some (Inr (plain_item E i b)))"

fun config_lines :: "load_env \<Rightarrow> (path \<Rightarrow> config_builder \<Rightarrow> load_result) \<Rightarrow> string list \<Rightarrow> config_builder \<Rightarrow> load_result" where
  "config_lines E load [] b = Some (Inr b)"
| "config_lines E load (l # ls) b = bind_load (config_line E load l b) (config_lines E load ls)"

text \<open>What is noted of a file before its lines are read, and afterwards.\<close>

definition enter_file :: "path \<Rightarrow> config_builder \<Rightarrow> config_builder" where
  "enter_file path b =
     b\<lparr>cb_loaded_files := path # cb_loaded_files b,
       cb_dirs := (case path_parent path of Some dir \<Rightarrow> List.insert dir (cb_dirs b) | None \<Rightarrow> cb_dirs b),
       cb_conf_file := Some path\<rparr>"

definition leave_file :: "path option \<Rightarrow> config_builder \<Rightarrow> config_builder" where
  "leave_file previous b = (case previous of Some _ \<Rightarrow> b\<lparr>cb_conf_file := previous\<rparr> | None \<Rightarrow> b)"

text \<open>\<open>fuel\<close> bounds the depth of includes.\<close>

fun load_file :: "load_env \<Rightarrow> nat \<Rightarrow> path \<Rightarrow> config_builder \<Rightarrow> load_result" where
  "load_file E 0 path b = None"
| "load_file E (Suc fuel) path b =
     (let path = builder_resolve E b path
      in if \<not> le_exists E path then Some (Inr b)
         else
           (case le_canonical E path of
              None \<Rightarrow> Some (Inl (LoadError ''canonicalize''))
            | Some path \<Rightarrow>
                (if path \<in> set (cb_loaded_files b) then Some (Inr b)
                 else
                   (case le_lines E path of
                      None \<Rightarrow> Some (Inl (LoadError ''open''))
                    | Some ls \<Rightarrow>
                        bind_load (config_lines E (load_file E fuel) ls (enter_file path b))
                          (\<lambda>b'. Some (Inr (leave_file (cb_conf_file b) b')))))))"

section \<open>Building the configuration\<close>

text \<open>The size of the cache: \<open>-1\<close> stands for one percent of the memory at 1 KiB an entry. \<open>meminfo\<close> is the text of \<open>/proc/meminfo\<close>.\<close>

definition u64_from_str :: "string \<Rightarrow> nat option" where
  "u64_from_str s =
     (let ds = (case s of c # cs \<Rightarrow> if c = CHR ''+'' then cs else s | [] \<Rightarrow> s)
      in if ds \<noteq> [] \<and> list_all is_digit ds \<and> digits_value 10 ds < 2 ^ 64 then Some (nat (digits_value 10 ds)) else None)"

definition strip_suffix :: "'a list \<Rightarrow> 'a list \<Rightarrow> 'a list option" where
  "strip_suffix suf s = map_option rev (strip_prefix (rev suf) (rev s))"

fun find_map :: "('a \<Rightarrow> 'b option) \<Rightarrow> 'a list \<Rightarrow> 'b option" where
  "find_map f [] = None"
| "find_map f (x # xs) = (case f x of Some y \<Rightarrow> Some y | None \<Rightarrow> find_map f xs)"

definition total_memory :: "string option \<Rightarrow> nat" where
  "total_memory meminfo =
     (case Option.bind meminfo (\<lambda>info.
        Option.bind (find_map (strip_prefix ''MemTotal:'') (lines info)) (\<lambda>kib.
          Option.bind (strip_suffix ''kB'' (trim kib)) (\<lambda>kib. u64_from_str (trim kib)))) of
        Some kib \<Rightarrow> kib * 1024
      | None \<Rightarrow> 0)"

definition auto_cache_size :: "string option \<Rightarrow> int" where
  "auto_cache_size meminfo = int (min (max (total_memory meminfo div 100 div 1024) 512) 1048576)"

definition build_cache_size :: "string option \<Rightarrow> cache_config \<Rightarrow> (string + cache_config)" where
  "build_cache_size meminfo c =
     (if \<not> (case cc_size c of Some n \<Rightarrow> n | None \<Rightarrow> 0) \<ge> -1 then Inl ''cache-size must be -1 or non-negative''
      else if cc_size c = Some (-1) then Inr (c\<lparr>cc_size := Some (auto_cache_size meminfo)\<rparr>)
      else Inr c)"

text \<open>The groups that are still open are closed, the innermost first.\<close>

fun close_groups :: "nat \<Rightarrow> config_builder \<Rightarrow> config_builder" where
  "close_groups 0 b = b"
| "close_groups (Suc n) b = close_groups n (close_group b)"

definition close_all :: "config_builder \<Rightarrow> config_builder" where
  "close_all b = close_groups (length (cb_rule_group_stack b)) b"

definition get_ip_set :: "config_builder \<Rightarrow> ip_or_set \<Rightarrow> ip_net list" where
  "get_ip_set b i =
     (case i of IosNet net \<Rightarrow> [net] | IosSet name \<Rightarrow> (case map_of (cb_ip_sets b) name of Some nets \<Rightarrow> nets | None \<Rightarrow> []))"

text \<open>\<open>R\<close>, \<open>R'\<close> and \<open>N\<close> are the packages of theory \<open>Ip_Set\<close>.\<close>

definition make_ip_set :: "('m4, 'm6, unit) ip_lib \<Rightarrow> net_ends \<Rightarrow> config_builder \<Rightarrow> ip_or_set list \<Rightarrow> ('m4, 'm6) ip_map" where
  "make_ip_set R N b is = ip_set_new R N (concat (map (get_ip_set b) is))"

definition recheck_names :: "(string, rule_group) hmap \<Rightarrow> string list" where
  "recheck_names groups = remdups (List.map_filter (\<lambda>r. ru_recheck_ip_set (cd_config r)) (concat (map (rg_domain_rules \<circ> snd) groups)))"

definition make_ip_alias ::
  "('a4, 'a6, nat \<times> ip_addr list) ip_lib \<Rightarrow> net_ends \<Rightarrow> config_builder \<Rightarrow> ('a4, 'a6) ip_map" where
  "make_ip_alias R N b =
     im_from_iter R N (concat (map (\<lambda>al. map (\<lambda>net. (net, ia_to al)) (get_ip_set b (ia_ip al))) (cb_ip_alias b)))"

text \<open>Domain sets: a text has a name at the start of each line that is not a comment.\<close>

definition set_insert :: "name_lib \<Rightarrow> wildcard_name \<Rightarrow> wildcard_name list \<Rightarrow> wildcard_name list" where
  "set_insert L n ns = (if list_ex (\<lambda>m. wn_eq L m n) ns then ns else ns @ [n])"

definition read_to_domain_set :: "load_env \<Rightarrow> name_lib \<Rightarrow> string \<Rightarrow> wildcard_name list" where
  "read_to_domain_set E L s =
     fold (\<lambda>l domain_set.
         let l = trim_start l
         in if take 1 l = ''#'' then domain_set
            else
              (case le_parse_wildcard E (hd (split_on (\<lambda>c. c = CHR '' '') l)) of
                 Some n \<Rightarrow> set_insert L n domain_set
               | None \<Rightarrow> domain_set))
       (lines s) []"

definition get_domain_set :: "load_env \<Rightarrow> name_lib \<Rightarrow> domain_set_provider \<Rightarrow> wildcard_name list option" where
  "get_domain_set E L p =
     map_option (read_to_domain_set E L) (case p of SetFile _ file \<Rightarrow> le_read E file | SetHttp _ url \<Rightarrow> le_http_get E url)"

definition make_domain_sets :: "load_env \<Rightarrow> name_lib \<Rightarrow> config_builder \<Rightarrow> domain_sets" where
  "make_domain_sets E L b =
     map (\<lambda>(name, ps). (name, fold (\<lambda>p set'. case get_domain_set E L p of Some ns \<Rightarrow> fold (set_insert L) ns set' | None \<Rightarrow> set') ps []))
       (cb_domain_set_providers b)"

text \<open>Names are compared as the library compares them; of names that repeat next to each other the first stays.\<close>

definition domain_eq :: "name_lib \<Rightarrow> domain \<Rightarrow> domain \<Rightarrow> bool" where
  "domain_eq L a b =
     (case (a, b) of (DName v, DName w) \<Rightarrow> wn_eq L v w | (DSet s, DSet t) \<Rightarrow> s = t | _ \<Rightarrow> False)"

definition dedup_cnames :: "name_lib \<Rightarrow> (string, rule_group) hmap \<Rightarrow> (string, rule_group) hmap" where
  "dedup_cnames L =
     map (\<lambda>(name, g). (name, g\<lparr>rg_cnames := dedup_by (\<lambda>a b. domain_eq L (cd_domain a) (cd_domain b)) (rg_cnames g)\<rparr>))"

text \<open>The group that a server's own name is resolved with.\<close>

definition bootstrap_group :: "load_env \<Rightarrow> url_lib \<Rightarrow> name_lib \<Rightarrow> arc tree_node domain_map \<Rightarrow> name_server_info \<Rightarrow> name_server_info" where
  "bootstrap_group E U L rules server =
     (case (url_ip U (ni_server server), du_host (ni_server server)) of
        (None, HDomain host) \<Rightarrow>
          (case Option.bind (le_parse_name E host) (dm_find L rules) of
             Some n \<Rightarrow> server\<lparr>ni_resolve_group := node_get (\<lambda>n. ru_nameserver (rule_of n)) n\<rparr>
           | None \<Rightarrow> server)
      | _ \<Rightarrow> server)"

section \<open>Listeners at the same address\<close>

definition bind_is_udp :: "bind_addr_config \<Rightarrow> bool" where
  "bind_is_udp b \<longleftrightarrow> ba_kind b \<in> {BindUdp, BindQuic, BindH3}"

text \<open>From the last listener on, with the addresses seen so far for UDP and for TCP: the indices of those to remove.\<close>

fun duplicate_binds :: "(nat \<times> bind_addr_config) list \<Rightarrow> (ip_addr \<times> u16) set \<Rightarrow> (ip_addr \<times> u16) set \<Rightarrow> nat list" where
  "duplicate_binds [] udp tcp = []"
| "duplicate_binds ((i, l) # ls) udp tcp =
     (let addr = sock_addr l
      in if bind_is_udp l
         then (if addr \<in> udp then i # duplicate_binds ls udp tcp else duplicate_binds ls (insert addr udp) tcp)
         else (if addr \<in> tcp then i # duplicate_binds ls udp tcp else duplicate_binds ls udp (insert addr tcp)))"

definition remove_at :: "nat \<Rightarrow> 'a list \<Rightarrow> 'a list" where
  "remove_at i xs = take i xs @ drop (Suc i) xs"

definition dedup_binds :: "bind_addr_config list \<Rightarrow> bind_addr_config list" where
  "dedup_binds binds = fold remove_at (duplicate_binds (rev (enumerate 0 binds)) {} {}) binds"

section \<open>\<open>build\<close>\<close>

definition udp_bind_default :: bind_addr_config where
  "udp_bind_default = \<lparr>ba_kind = BindUdp, ba_addr = BindV6 0, ba_port = 53, ba_enabled = None, ba_device = None\<rparr>"

record ('m4, 'm6, 'a4, 'a6) build_lib =
  bl_names :: name_lib
  bl_urls :: url_lib
  bl_hash :: "domain_rule \<Rightarrow> u64"
  bl_order :: "wildcard_name list \<Rightarrow> nat list"
  bl_sets :: "('m4, 'm6, unit) ip_lib"
  bl_maps :: "('a4, 'a6, nat \<times> ip_addr list) ip_lib"
  bl_nets :: net_ends
  bl_meminfo :: "string option"

text \<open>What \<open>build\<close> makes of the builder once the files are read: the configuration and the binds.\<close>

definition finish_build :: "load_env \<Rightarrow> ('m4, 'm6, 'a4, 'a6) build_lib \<Rightarrow> config_builder \<Rightarrow>
    string + runtime_config \<times> bind_addr_config list" where
  "finish_build E K b =
     (case build_cache_size (bl_meminfo K) (cf_cache (cb_inner b)) of
        Inl e \<Rightarrow> Inl e
      | Inr cache \<Rightarrow>
          (let b = close_all b;
               binds = (if cb_binds b = [] then [udp_bind_default] else cb_binds b);
               ip_set = (\<lambda>is. make_ip_set (bl_sets K) (bl_nets K) b is);
               contains = im_contains (bl_sets K);
               alias = make_ip_alias (bl_maps K) (bl_nets K) b;
               groups = dedup_cnames (bl_names K) (cb_rule_groups b);
               trees = fst (build_rule_trees (bl_names K) (bl_hash K) (bl_order K) (make_domain_sets E (bl_names K) b) groups);
               rules = (case map_of trees DEFAULT_GROUP of Some m \<Rightarrow> m | None \<Rightarrow> dm_empty);
               cfg = cb_inner b
           in Inr (cfg\<lparr>cf_cache := cache, cf_rule_groups := groups, cf_domain_rule_groups := trees,
                  cf_nameservers := map (bootstrap_group E (bl_urls K) (bl_names K) rules) (cf_nameservers cfg),
                  cf_bogus_nxdomain := contains (ip_set (cb_bogus_nxdomain b)),
                  cf_blacklist_ip := contains (ip_set (cb_blacklist_ip b)),
                  cf_whitelist_ip := contains (ip_set (cb_whitelist_ip b)),
                  cf_ignore_ip := contains (ip_set (cb_ignore_ip b)),
                  cf_ignore_ip_is_empty := im_is_empty (bl_sets K) (ip_set (cb_ignore_ip b)),
                  cf_recheck_ip_sets := map (\<lambda>name. (name, contains (ip_set [IosSet name]))) (recheck_names (cb_rule_groups b)),
                  cf_ip_alias := im_get (bl_maps K) alias, cf_ip_alias_is_empty := im_is_empty (bl_maps K) alias\<rparr>,
                dedup_binds binds)))"

definition build_config :: "load_env \<Rightarrow> ('m4, 'm6, 'a4, 'a6) build_lib \<Rightarrow> nat \<Rightarrow> config_builder \<Rightarrow>
    ((load_error + runtime_config \<times> bind_addr_config list)) option" where
  "build_config E K fuel b =
     (case (case cb_conf_file b of Some file \<Rightarrow> load_file E fuel file b | None \<Rightarrow> Some (Inr b)) of
        None \<Rightarrow> None
      | Some (Inl e) \<Rightarrow> Some (Inl e)
      | Some (Inr b) \<Rightarrow> Some (case finish_build E K b of Inl e \<Rightarrow> Inl (LoadError e) | Inr c \<Rightarrow> Inr c))"

end
