(* ===== verification/Loader_Laws.thy ===== *)
theory Loader_Laws
  imports Loader
begin

text \<open>
  Reading a configuration ends whatever the files include, every rule line reaches the group that is open at it, and of listeners at one
  address the last stays.
\<close>

section \<open>Reading ends\<close>

text \<open>A result that is there, with a builder that has the property \<open>I\<close> unless it is an error.\<close>

definition loads :: "(config_builder \<Rightarrow> bool) \<Rightarrow> load_result \<Rightarrow> bool" where
  "loads I r \<longleftrightarrow> r \<noteq> None \<and> (\<forall>b. r = Some (Inr b) \<longrightarrow> I b)"

lemma loads_simps [simp]:
  "loads I (Some (Inr b)) \<longleftrightarrow> I b" "loads I (Some (Inl e))" "\<not> loads I None"
  by (simp_all add: loads_def)

lemma loads_mono: "loads I r \<Longrightarrow> (\<And>b. I b \<Longrightarrow> J b) \<Longrightarrow> loads J r"
  by (auto simp: loads_def)

lemma loadsD: "loads I r \<Longrightarrow> \<exists>x. r = Some x \<and> (\<forall>b. x = Inr b \<longrightarrow> I b)"
  by (auto simp: loads_def)

lemma loads_bind:
  assumes "loads I r" "\<And>b. I b \<Longrightarrow> loads J (k b)"
  shows "loads J (bind_load r k)"
  using assms by (auto simp: loads_def bind_load_def split: option.splits sum.splits)

text \<open>What a line, an include and a list of lines keep, when reading a file keeps it.\<close>

definition kept_by :: "load_env \<Rightarrow> (path \<Rightarrow> config_builder \<Rightarrow> load_result) \<Rightarrow> (config_builder \<Rightarrow> bool) \<Rightarrow> bool" where
  "kept_by E load I \<longleftrightarrow>
     (\<forall>b. I b \<longrightarrow> I (open_group b) \<and> (\<forall>i. I (plain_item E i b)) \<and> (\<forall>p. loads I (load p b)))"

lemma kept_matches: "kept_by E load I \<Longrightarrow> I b \<Longrightarrow> loads I (load_matches E load ps b)"
proof (induction ps arbitrary: b)
  case (Cons p ps)
  then show ?case by (cases p) (auto simp: kept_by_def intro!: loads_bind [of I])
qed simp

lemma kept_include: "kept_by E load I \<Longrightarrow> I b \<Longrightarrow> loads I (load_include E load p b)"
  by (auto simp: load_include_def Let_def kept_by_def kept_matches split: option.split)

lemma kept_line:
  assumes "kept_by E load I" "I b"
  shows "loads I (config_line E load l b)"
proof -
  from assms have b: "I (open_group b)" by (simp add: kept_by_def)
  show ?thesis
  proof (cases "le_parse E l")
    case (Some i)
    show ?thesis
    proof (cases "\<exists>v. i = ConfFile v")
      case True
      then obtain v where v: "i = ConfFile v" ..
      have "loads I (load_include E load v (open_group b))" by (rule kept_include [OF assms(1) b])
      then show ?thesis
        using Some v by (cases "load_include E load v (open_group b)") (auto simp: config_line_def split: sum.splits)
    next
      case False
      moreover have "I (plain_item E i (open_group b))" using assms(1) b by (simp add: kept_by_def)
      ultimately show ?thesis using Some by (cases i) (simp_all add: config_line_def Let_def)
    qed
  qed (simp add: config_line_def b)
qed

lemma kept_lines: "kept_by E load I \<Longrightarrow> I b \<Longrightarrow> loads I (config_lines E load ls b)"
proof (induction ls arbitrary: b)
  case (Cons l ls)
  from loads_bind [OF kept_line [OF Cons.prems], of I "config_lines E load ls"] Cons show ?case by simp
qed simp

lemma open_group_simps [simp]:
  "cb_loaded_files (open_group b) = cb_loaded_files b" "cb_conf_file (open_group b) = cb_conf_file b"
  by (simp_all add: open_group_def)

lemma close_group_simps [simp]:
  "cb_loaded_files (close_group b) = cb_loaded_files b" "cb_conf_file (close_group b) = cb_conf_file b"
  by (simp_all add: close_group_def split: list.split)

lemma plain_item_simps [simp]:
  "cb_loaded_files (plain_item E i b) = cb_loaded_files b" "cb_conf_file (plain_item E i b) = cb_conf_file b"
  by (cases i; simp add: plain_item_def Let_def split: option.split)+

text \<open>The state in which reading a file leaves the builder: it is back at the file it came from, has no file twice and forgets none.\<close>

definition loaded_inv :: "path set \<Rightarrow> path set \<Rightarrow> path option \<Rightarrow> config_builder \<Rightarrow> bool" where
  "loaded_inv F S c b \<longleftrightarrow>
     S \<subseteq> set (cb_loaded_files b) \<and> set (cb_loaded_files b) \<subseteq> F \<and> distinct (cb_loaded_files b) \<and> cb_conf_file b = c"

lemma load_file_loads:
  assumes F: "finite F" "\<And>p q. le_canonical E p = Some q \<Longrightarrow> q \<in> F"
    and "card (F - set (cb_loaded_files b)) < fuel" "distinct (cb_loaded_files b)" "set (cb_loaded_files b) \<subseteq> F"
  shows "loads (\<lambda>b'. \<exists>c. loaded_inv F (set (cb_loaded_files b)) c b' \<and> (cb_conf_file b \<noteq> None \<longrightarrow> c = cb_conf_file b)) (load_file E fuel p b)"
  using assms(3-)
proof (induction fuel arbitrary: p b)
  case (Suc fuel)
  let ?S = "set (cb_loaded_files b)" and ?p = "builder_resolve E b p"
  show ?case
  proof (cases "le_exists E ?p \<and> (\<exists>q. le_canonical E ?p = Some q \<and> q \<notin> ?S \<and> le_lines E q \<noteq> None)")
    case True
    then obtain q ls where q: "le_exists E ?p" "le_canonical E ?p = Some q" "q \<notin> ?S" "le_lines E q = Some ls" by auto
    let ?I = "loaded_inv F (insert q ?S) (Some q)"
    have less: "card (F - set (cb_loaded_files b')) < fuel" if "?I b'" for b'
    proof -
      have "F - set (cb_loaded_files b') \<subset> F - ?S"
        using that q(3) F(2) [OF q(2)] unfolding loaded_inv_def by blast
      then have "card (F - set (cb_loaded_files b')) < card (F - ?S)" by (rule psubset_card_mono [OF finite_Diff [OF F(1)]])
      with Suc.prems(1) show ?thesis by simp
    qed
    have load: "loads ?I (load_file E fuel r b')" if "?I b'" for r b'
    proof -
      have "loads (\<lambda>b''. \<exists>c. loaded_inv F (set (cb_loaded_files b')) c b'' \<and> (cb_conf_file b' \<noteq> None \<longrightarrow> c = cb_conf_file b'))
          (load_file E fuel r b')"
        by (rule Suc.IH [OF less [OF that]]) (use that in \<open>simp_all add: loaded_inv_def\<close>)
      then show ?thesis by (rule loads_mono) (use that in \<open>auto simp: loaded_inv_def\<close>)
    qed
    have kept: "kept_by E (load_file E fuel) ?I"
      unfolding kept_by_def using load by (auto simp: loaded_inv_def)
    have "?I (enter_file q b)"
      using Suc.prems q(3) F(2) [OF q(2)] by (auto simp: loaded_inv_def enter_file_def)
    from kept_lines [OF kept this, of ls]
    have "loads (\<lambda>b'. \<exists>c. loaded_inv F ?S c b' \<and> (cb_conf_file b \<noteq> None \<longrightarrow> c = cb_conf_file b))
        (bind_load (config_lines E (load_file E fuel) ls (enter_file q b)) (\<lambda>b'. Some (Inr (leave_file (cb_conf_file b) b'))))"
      by (rule loads_bind) (auto simp: loaded_inv_def leave_file_def split: option.split)
    with q show ?thesis by (simp add: Let_def)
  next
    case False
    with Suc.prems show ?thesis
      by (auto simp: Let_def loaded_inv_def split: option.split)
  qed
qed simp

text \<open>
  C34: Reading a configuration ends, and reads no file twice. Where the file system has finitely many files, and however they include each
  other, circles and overlapping patterns included: reading a file ends within one level of includes more than there are files; unless it
  ends with an error, the files read are pairwise different and among those of the file system, none noted before is forgotten, and
  relative names refer to the including file again.
\<close>

theorem loading_ends:
  assumes "finite F" and "\<And>p q. le_canonical E p = Some q \<Longrightarrow> q \<in> F"
    and "distinct (cb_loaded_files b)" and "set (cb_loaded_files b) \<subseteq> F"
  shows "\<exists>r. load_file E (Suc (card F)) root b = Some r \<and>
    (\<forall>b'. r = Inr b' \<longrightarrow> distinct (cb_loaded_files b') \<and> set (cb_loaded_files b) \<subseteq> set (cb_loaded_files b') \<and>
       set (cb_loaded_files b') \<subseteq> F \<and> (cb_conf_file b \<noteq> None \<longrightarrow> cb_conf_file b' = cb_conf_file b))"
proof -
  have "card (F - set (cb_loaded_files b)) < Suc (card F)"
    by (simp add: card_mono [OF assms(1) Diff_subset] le_imp_less_Suc)
  then have "loads (\<lambda>b'. \<exists>c. loaded_inv F (set (cb_loaded_files b)) c b' \<and> (cb_conf_file b \<noteq> None \<longrightarrow> c = cb_conf_file b))
      (load_file E (Suc (card F)) root b)"
    by (intro load_file_loads assms)
  from loadsD [OF this] obtain r where r: "load_file E (Suc (card F)) root b = Some r"
    and inv: "\<And>b'. r = Inr b' \<Longrightarrow> \<exists>c. loaded_inv F (set (cb_loaded_files b)) c b' \<and> (cb_conf_file b \<noteq> None \<longrightarrow> c = cb_conf_file b)"
    by blast
  show ?thesis
  proof (intro exI [of _ r] conjI allI impI)
    fix b'
    assume b': "r = Inr b'"
    show "distinct (cb_loaded_files b')" "set (cb_loaded_files b) \<subseteq> set (cb_loaded_files b')" "set (cb_loaded_files b') \<subseteq> F"
      using inv [OF b'] by (auto simp: loaded_inv_def)
    show "cb_conf_file b' = cb_conf_file b" if "cb_conf_file b \<noteq> None"
      using inv [OF b'] that by (auto simp: loaded_inv_def)
  qed (rule r)
qed

section \<open>Rules reach their group\<close>

text \<open>
  What the lines say, \<open>None\<close> for one that means nothing: the rules, each with the name of the group that is open at it. The argument is
  the stack of the groups that are open; where there is none, a line opens the default group.
\<close>

definition groups_open :: "string list \<Rightarrow> string list" where
  "groups_open st = (if st = [] then [DEFAULT_GROUP] else st)"

fun tagged :: "string list \<Rightarrow> config_item option list \<Rightarrow> (string \<times> rule_item) list" where
  "tagged st [] = []"
| "tagged st (Some (GroupBegin name) # is) = tagged (name # groups_open st) is"
| "tagged st (Some GroupEnd # is) = tagged (tl (groups_open st)) is"
| "tagged st (Some (RuleItem r) # is) = (hd (groups_open st), r) # tagged (groups_open st) is"
| "tagged st (_ # is) = tagged (groups_open st) is"

definition rules_for :: "string \<Rightarrow> (string \<times> rule_item) list \<Rightarrow> rule_item list" where
  "rules_for g xs = map snd (filter (\<lambda>x. fst x = g) xs)"

definition group_of :: "string \<Rightarrow> config_builder \<Rightarrow> rule_group" where
  "group_of g b = (case map_of (cb_rule_groups b) g of Some x \<Rightarrow> x | None \<Rightarrow> rule_group_default)"

text \<open>A list in a rule group that merging appends to and that rule items add to.\<close>

locale rule_list =
  fixes proj :: "rule_group \<Rightarrow> 'a list" and contrib :: "rule_item \<Rightarrow> 'a list"
  assumes proj_default: "proj rule_group_default = []"
    and proj_merge: "proj (rule_group_merge g h) = proj g @ proj h"
    and proj_apply: "proj (apply_rule r g) = proj g @ contrib r"
begin

text \<open>What a group has already and what the open groups of its name will bring.\<close>

definition held :: "string \<Rightarrow> config_builder \<Rightarrow> 'a multiset" where
  "held g b = mset (proj (group_of g b)) + mset (concat (map (proj \<circ> snd) (filter (\<lambda>x. fst x = g) (cb_rule_group_stack b))))"

lemma held_open: "held g (open_group b) = held g b"
  by (simp add: held_def open_group_def group_of_def proj_default)

lemma held_close: "held g (close_group b) = held g b"
proof (cases "cb_rule_group_stack b")
  case (Cons x st)
  obtain n h where x: "x = (n, h)" by (cases x)
  have "group_of g (close_group b) = (if n = g then rule_group_merge (group_of g b) h else group_of g b)"
    by (auto simp: close_group_def Cons x group_of_def update_conv)
  with Cons x show ?thesis by (simp add: held_def close_group_def proj_merge)
qed (simp add: close_group_def)

lemma held_cong:
  "cb_rule_groups b' = cb_rule_groups b \<Longrightarrow> cb_rule_group_stack b' = cb_rule_group_stack b \<Longrightarrow> held g b' = held g b"
  by (simp add: held_def group_of_def)

lemma held_item:
  assumes "cb_rule_group_stack b \<noteq> []"
  shows "held g (plain_item E i b) =
    held g b + (case i of RuleItem r \<Rightarrow> if fst (hd (cb_rule_group_stack b)) = g then mset (contrib r) else {#} | _ \<Rightarrow> {#})"
proof (cases i)
  case (RuleItem r)
  obtain n h st where st: "cb_rule_group_stack b = (n, h) # st" using assms by (cases "cb_rule_group_stack b") auto
  show ?thesis by (simp add: RuleItem plain_item_def held_def group_of_def st proj_apply)
next
  case GroupEnd
  then show ?thesis by (simp add: plain_item_def held_close)
next
  case (GroupBegin n)
  then show ?thesis by (simp add: plain_item_def held_def group_of_def proj_default)
qed (simp_all, (rule held_cong; simp add: plain_item_def Let_def split: option.split)+)

lemma stack_item:
  assumes "cb_rule_group_stack b \<noteq> []"
  shows "map fst (cb_rule_group_stack (plain_item E i b)) =
    (case i of GroupBegin n \<Rightarrow> n # map fst (cb_rule_group_stack b) | GroupEnd \<Rightarrow> tl (map fst (cb_rule_group_stack b))
     | _ \<Rightarrow> map fst (cb_rule_group_stack b))"
  using assms
  by (cases i; cases "cb_rule_group_stack b")
    (auto simp: plain_item_def close_group_def Let_def split: option.split)

lemma stack_open: "map fst (cb_rule_group_stack (open_group b)) = groups_open (map fst (cb_rule_group_stack b))"
  by (simp add: open_group_def groups_open_def)

lemma held_lines:
  assumes "\<forall>l\<in>set ls. \<forall>v. le_parse E l \<noteq> Some (ConfFile v)"
  shows "\<exists>b'. config_lines E load ls b = Some (Inr b') \<and>
    held g b' = held g b + mset (concat (map contrib (rules_for g (tagged (map fst (cb_rule_group_stack b)) (map (le_parse E) ls)))))"
  using assms
proof (induction ls arbitrary: b)
  case (Cons l ls)
  let ?b = "open_group b" and ?st = "map fst (cb_rule_group_stack b)"
  have ne: "cb_rule_group_stack ?b \<noteq> []" by (simp add: open_group_def)
  show ?case
  proof (cases "le_parse E l")
    case None
    with Cons.IH [of ?b] Cons.prems show ?thesis
      by (simp add: config_line_def bind_load_def stack_open held_open)
  next
    case (Some i)
    let ?b' = "plain_item E i ?b"
    have l: "config_line E load l b = Some (Inr ?b')"
      using Some Cons.prems by (cases i) (auto simp: config_line_def Let_def)
    obtain b' where b': "config_lines E load ls ?b' = Some (Inr b')"
      "held g b' = held g ?b' + mset (concat (map contrib (rules_for g (tagged (map fst (cb_rule_group_stack ?b')) (map (le_parse E) ls)))))"
      using Cons.IH [of ?b'] Cons.prems by auto
    have hd: "fst (hd (cb_rule_group_stack ?b)) = hd (groups_open ?st)"
      using ne by (simp add: stack_open [symmetric] hd_map)
    have "held g ?b' + mset (concat (map contrib (rules_for g (tagged (map fst (cb_rule_group_stack ?b')) (map (le_parse E) ls))))) =
        held g b + mset (concat (map contrib (rules_for g (tagged ?st (map (le_parse E) (l # ls))))))"
      using Some by (cases i) (simp_all add: held_item [OF ne] stack_item [OF ne] stack_open held_open rules_for_def hd)
    with l b' show ?thesis by (auto simp: bind_load_def)
  qed
qed (simp add: rules_for_def)

lemma held_close_groups: "held g (close_groups n b) = held g b"
  by (induction n arbitrary: b) (simp_all add: held_close)

lemma stack_close_groups: "length (cb_rule_group_stack (close_groups n b)) = length (cb_rule_group_stack b) - n"
proof (induction n arbitrary: b)
  case (Suc n)
  have "length (cb_rule_group_stack (close_group b)) = length (cb_rule_group_stack b) - 1"
    by (cases "cb_rule_group_stack b") (auto simp: close_group_def)
  with Suc show ?case by simp
qed simp

lemma held_close_all: "mset (proj (group_of g (close_all b))) = held g b"
proof -
  have "cb_rule_group_stack (close_all b) = []"
    using stack_close_groups [of "length (cb_rule_group_stack b)" b] by (simp add: close_all_def)
  moreover have "held g (close_all b) = held g b" by (simp add: close_all_def held_close_groups)
  ultimately show ?thesis by (simp add: held_def)
qed

lemma rules_collected:
  assumes "\<forall>l\<in>set ls. \<forall>v. le_parse E l \<noteq> Some (ConfFile v)"
    and "config_lines E load ls (builder_default f) = Some (Inr b)"
  shows "mset (proj (group_of g (close_all b))) = mset (concat (map contrib (rules_for g (tagged [] (map (le_parse E) ls)))))"
  using held_lines [OF assms(1), of load "builder_default f" g] assms(2)
  by (simp add: held_close_all) (simp add: held_def builder_default_def group_of_def proj_default)

end

text \<open>The lists of a rule group, with what each item brings them.\<close>

definition address_rules_of :: "rule_item \<Rightarrow> address_rule_value config_for_domain list" where
  "address_rules_of r = (case r of Address v \<Rightarrow> [v] | _ \<Rightarrow> [])"

definition forward_rules_of :: "rule_item \<Rightarrow> string config_for_domain list" where
  "forward_rules_of r = (case r of ForwardRule v \<Rightarrow> [v] | _ \<Rightarrow> [])"

definition domain_rules_of :: "rule_item \<Rightarrow> domain_rule config_for_domain list" where
  "domain_rules_of r =
     (case r of
        DomainRule v \<Rightarrow> [v]
      | TxtRecord v \<Rightarrow> [\<lparr>cd_domain = cd_domain v, cd_config = rule_default\<lparr>ru_txt := Some [cd_config v]\<rparr>\<rparr>]
      | KernelIpSet v \<Rightarrow> [\<lparr>cd_domain = cd_domain v, cd_config = rule_default\<lparr>ru_ipset := Some (cd_config v)\<rparr>\<rparr>]
      | _ \<Rightarrow> [])"

definition cnames_of :: "rule_item \<Rightarrow> cname_rule config_for_domain list" where
  "cnames_of r = (case r of CNAME v \<Rightarrow> [v] | _ \<Rightarrow> [])"

definition srv_records_of :: "rule_item \<Rightarrow> bytes config_for_domain list" where
  "srv_records_of r = (case r of SrvRecord v \<Rightarrow> [v] | _ \<Rightarrow> [])"

definition https_records_of :: "rule_item \<Rightarrow> https_record_rule config_for_domain list" where
  "https_records_of r = (case r of HttpsRecord v \<Rightarrow> [v] | _ \<Rightarrow> [])"

definition nftsets_of :: "rule_item \<Rightarrow> nftset_config config_for_ip list config_for_domain list" where
  "nftsets_of r = (case r of NftSet v \<Rightarrow> [v] | _ \<Rightarrow> [])"

lemmas group_lists = rule_group_default_def rule_group_merge_def Let_def

interpretation address_rules: rule_list rg_address_rules address_rules_of
  by unfold_locales (simp_all add: group_lists address_rules_of_def split: rule_item.split)

interpretation forward_rules: rule_list rg_forward_rules forward_rules_of
  by unfold_locales (simp_all add: group_lists forward_rules_of_def split: rule_item.split)

interpretation domain_rules: rule_list rg_domain_rules domain_rules_of
  by unfold_locales (simp_all add: group_lists domain_rules_of_def split: rule_item.split)

interpretation cnames: rule_list rg_cnames cnames_of
  by unfold_locales (simp_all add: group_lists cnames_of_def split: rule_item.split)

interpretation srv_records: rule_list rg_srv_records srv_records_of
  by unfold_locales (simp_all add: group_lists srv_records_of_def split: rule_item.split)

interpretation https_records: rule_list rg_https_records https_records_of
  by unfold_locales (simp_all add: group_lists https_records_of_def split: rule_item.split)

interpretation nftsets: rule_list rg_nftsets nftsets_of
  by unfold_locales (simp_all add: group_lists nftsets_of_def split: rule_item.split)

text \<open>
  C35: Every rule line reaches the group that is open at it, once. For lines without includes, with groups that nest, are opened several
  times, are closed too often or not at all: what a group has when the configuration is built is, for each kind of rule, exactly what the
  lines say while the group is the innermost one that is open, the default group where none is.
\<close>

theorem rules_reach_their_group:
  assumes "\<forall>l\<in>set ls. \<forall>v. le_parse E l \<noteq> Some (ConfFile v)" and "config_lines E load ls (builder_default f) = Some (Inr b)"
  shows "let rs = rules_for g (tagged [] (map (le_parse E) ls)); grp = group_of g (close_all b) in
    mset (rg_address_rules grp) = mset (concat (map address_rules_of rs)) \<and>
    mset (rg_forward_rules grp) = mset (concat (map forward_rules_of rs)) \<and>
    mset (rg_domain_rules grp) = mset (concat (map domain_rules_of rs)) \<and>
    mset (rg_cnames grp) = mset (concat (map cnames_of rs)) \<and>
    mset (rg_srv_records grp) = mset (concat (map srv_records_of rs)) \<and>
    mset (rg_https_records grp) = mset (concat (map https_records_of rs)) \<and>
    mset (rg_nftsets grp) = mset (concat (map nftsets_of rs))"
  unfolding Let_def
  by (intro conjI address_rules.rules_collected [OF assms(1,2)] forward_rules.rules_collected [OF assms(1,2)]
      domain_rules.rules_collected [OF assms(1,2)] cnames.rules_collected [OF assms(1,2)]
      srv_records.rules_collected [OF assms(1,2)] https_records.rules_collected [OF assms(1,2)]
      nftsets.rules_collected [OF assms(1,2)])

section \<open>Listeners at the same address\<close>

text \<open>The reference: a listener stays unless a later one has its transport and address.\<close>

definition same_slot :: "bind_addr_config \<Rightarrow> bind_addr_config \<Rightarrow> bool" where
  "same_slot a b \<longleftrightarrow> bind_is_udp a = bind_is_udp b \<and> sock_addr a = sock_addr b"

fun last_binds :: "bind_addr_config list \<Rightarrow> bind_addr_config list" where
  "last_binds [] = []"
| "last_binds (l # ls) = (if list_ex (same_slot l) ls then last_binds ls else l # last_binds ls)"

definition slots :: "bool \<Rightarrow> (nat \<times> bind_addr_config) list \<Rightarrow> (ip_addr \<times> u16) set" where
  "slots u xs = sock_addr ` {l \<in> snd ` set xs. bind_is_udp l = u}"

lemma slots_Cons: "slots u (x # xs) = (if bind_is_udp (snd x) = u then insert (sock_addr (snd x)) (slots u xs) else slots u xs)"
  by (auto simp: slots_def)

lemma duplicate_binds_append:
  "duplicate_binds (xs @ ys) udp tcp = duplicate_binds xs udp tcp @ duplicate_binds ys (udp \<union> slots True xs) (tcp \<union> slots False xs)"
proof (induction xs arbitrary: udp tcp)
  case (Cons x xs)
  then show ?case by (cases x) (auto simp: slots_Cons Let_def insert_absorb)
qed (simp add: slots_def)

lemma duplicate_binds_shift: "duplicate_binds (map (apfst Suc) xs) udp tcp = map Suc (duplicate_binds xs udp tcp)"
  by (induction xs udp tcp rule: duplicate_binds.induct) (simp_all add: Let_def)

lemma remove_at_shift: "fold remove_at (map Suc is) (l # ls) = l # fold remove_at is ls"
  by (induction "is" arbitrary: ls) (simp_all add: remove_at_def)

lemma in_slots: "sock_addr l \<in> slots (bind_is_udp l) (rev (enumerate n ls)) \<longleftrightarrow> list_ex (same_slot l) ls"
proof -
  have "snd ` set (enumerate n ls) = set ls"
    by (metis map_snd_enumerate set_map)
  then show ?thesis by (auto simp: slots_def same_slot_def list_ex_iff)
qed

lemma dedup_binds_last: "dedup_binds ls = last_binds ls"
proof (induction ls)
  case (Cons l ls)
  let ?d = "duplicate_binds (rev (enumerate 0 ls)) {} {}"
  have "rev (enumerate 0 (l # ls)) = map (apfst Suc) (rev (enumerate 0 ls)) @ [(0, l)]"
    by (simp add: enumerate_Suc_eq rev_map)
  then have "duplicate_binds (rev (enumerate 0 (l # ls))) {} {} =
      map Suc ?d @ (if sock_addr l \<in> slots (bind_is_udp l) (map (apfst Suc) (rev (enumerate 0 ls))) then [0] else [])"
    by (simp add: duplicate_binds_append duplicate_binds_shift Let_def)
  moreover have "slots (bind_is_udp l) (map (apfst Suc) (rev (enumerate 0 ls))) = slots (bind_is_udp l) (rev (enumerate 0 ls))"
    by (auto simp: slots_def image_iff)
  ultimately show ?case
    using Cons.IH by (simp add: dedup_binds_def in_slots remove_at_shift) (simp add: remove_at_def)
qed (simp add: dedup_binds_def)

lemma last_binds_slots: "sorted_wrt (\<lambda>a b. \<not> same_slot a b) (last_binds ls) \<and> set (last_binds ls) \<subseteq> set ls"
  by (induction ls) (auto simp: list_ex_iff)

lemma last_binds_served: "list_ex (same_slot l) (last_binds ls) \<longleftrightarrow> list_ex (same_slot l) ls"
proof (induction ls)
  case (Cons x ls)
  have "list_ex (same_slot l) ls" if "same_slot l x" "list_ex (same_slot x) ls"
    using that by (auto simp: list_ex_iff same_slot_def)
  with Cons show ?case by auto
qed simp

text \<open>
  C36: Of the listeners at one address the last stays. Removing duplicates by index from the end gives the listeners without those that
  have a later one of the same transport and address, in their order: no two listeners that stay are at the same address, and every
  address that was configured is served.
\<close>

theorem dedup_binds_keeps_last:
  "dedup_binds binds = last_binds binds \<and>
   sorted_wrt (\<lambda>a b. \<not> same_slot a b) (dedup_binds binds) \<and>
   (\<forall>l. list_ex (same_slot l) binds \<longleftrightarrow> list_ex (same_slot l) (dedup_binds binds))"
  using last_binds_slots by (simp add: dedup_binds_last last_binds_served)

text \<open>Listeners for different devices count as duplicates, though each has a socket of its own.\<close>

definition device_bind :: "string \<Rightarrow> bind_addr_config" where
  "device_bind dev = udp_bind_default\<lparr>ba_device := Some dev\<rparr>"

lemma dedup_ignores_device: "dedup_binds [device_bind ''lan'', device_bind ''guest''] = [device_bind ''guest'']"
  by (simp add: dedup_binds_last device_bind_def same_slot_def bind_is_udp_def sock_addr_def udp_bind_default_def)

section \<open>Cache size\<close>

text \<open>A configuration that is accepted has a cache size that is not negative, at least 512 where it is chosen from the memory.\<close>

lemma build_cache_size_ok:
  "build_cache_size meminfo c = Inr c' \<Longrightarrow> (\<forall>n. cc_size c' = Some n \<longrightarrow> 0 \<le> n) \<and> (cc_size c = Some (-1) \<longrightarrow> 512 \<le> the (cc_size c'))"
  by (auto simp: build_cache_size_def auto_cache_size_def split: if_splits option.splits)

section \<open>The sets of a configuration\<close>

lemma close_group_sets: "cb_ip_sets (close_group b) = cb_ip_sets b" "cb_ip_alias (close_group b) = cb_ip_alias b"
  "cb_ignore_ip (close_group b) = cb_ignore_ip b" "cb_whitelist_ip (close_group b) = cb_whitelist_ip b" "cb_inner (close_group b) = cb_inner b"
  by (simp_all add: close_group_def split: list.split)

lemma close_all_sets: "cb_ip_sets (close_all b) = cb_ip_sets b" "cb_ip_alias (close_all b) = cb_ip_alias b"
  "cb_ignore_ip (close_all b) = cb_ignore_ip b" "cb_whitelist_ip (close_all b) = cb_whitelist_ip b" "cb_inner (close_all b) = cb_inner b"
proof -
  have "cb_ip_sets (close_groups n b) = cb_ip_sets b \<and> cb_ip_alias (close_groups n b) = cb_ip_alias b \<and>
      cb_ignore_ip (close_groups n b) = cb_ignore_ip b \<and> cb_whitelist_ip (close_groups n b) = cb_whitelist_ip b \<and>
      cb_inner (close_groups n b) = cb_inner b" for n
    by (induction n arbitrary: b) (simp_all add: close_group_sets)
  then show "cb_ip_sets (close_all b) = cb_ip_sets b" "cb_ip_alias (close_all b) = cb_ip_alias b"
    "cb_ignore_ip (close_all b) = cb_ignore_ip b" "cb_whitelist_ip (close_all b) = cb_whitelist_ip b" "cb_inner (close_all b) = cb_inner b"
    by (simp_all add: close_all_def)
qed

definition listed :: "net_ends \<Rightarrow> config_builder \<Rightarrow> ip_or_set list \<Rightarrow> ip_addr \<Rightarrow> bool" where
  "listed N b is ip \<longleftrightarrow> (\<exists>i\<in>set is. \<exists>net\<in>set (get_ip_set b i). in_net N net ip)"

text \<open>What a finished configuration ignores and whitelists is what its lines list, directly or by the name of an IP set.\<close>

lemma finish_build_sets:
  assumes "ip_maps (fst (bl_sets K)) (snd (bl_sets K)) (bl_nets K)" and "finish_build E K b = Inr (cfg, binds)"
  shows "cf_ignore_ip cfg ip = listed (bl_nets K) b (cb_ignore_ip b) ip"
    and "cf_whitelist_ip cfg ip = listed (bl_nets K) b (cb_whitelist_ip b) ip"
    and "cf_ignore_ip_is_empty cfg \<longleftrightarrow> (\<forall>ip. \<not> listed (bl_nets K) b (cb_ignore_ip b) ip)"
proof -
  obtain cache where c: "build_cache_size (bl_meminfo K) (cf_cache (cb_inner b)) = Inr cache"
    using assms(2) by (auto simp: finish_build_def split: sum.splits)
  have g: "get_ip_set (close_all b) = get_ip_set b"
    by (rule ext) (simp add: get_ip_set_def close_all_sets split: ip_or_set.split)
  have m: "im_contains (bl_sets K) (make_ip_set (bl_sets K) (bl_nets K) (close_all b) is) ip = listed (bl_nets K) b is ip" for "is" ip
    using im_contains_nets [OF assms(1), of "map (\<lambda>n. (n, ())) (concat (map (get_ip_set b) is))" ip]
    by (auto simp: make_ip_set_def ip_set_new_def listed_def g)
  have cfg: "cf_ignore_ip cfg = im_contains (bl_sets K) (make_ip_set (bl_sets K) (bl_nets K) (close_all b) (cb_ignore_ip b))"
    "cf_whitelist_ip cfg = im_contains (bl_sets K) (make_ip_set (bl_sets K) (bl_nets K) (close_all b) (cb_whitelist_ip b))"
    "cf_ignore_ip_is_empty cfg = im_is_empty (bl_sets K) (make_ip_set (bl_sets K) (bl_nets K) (close_all b) (cb_ignore_ip b))"
    using assms(2) c by (auto simp: finish_build_def Let_def close_all_sets)
  show "cf_ignore_ip cfg ip = listed (bl_nets K) b (cb_ignore_ip b) ip" "cf_whitelist_ip cfg ip = listed (bl_nets K) b (cb_whitelist_ip b) ip"
    by (simp_all add: cfg m)
  show "cf_ignore_ip_is_empty cfg \<longleftrightarrow> (\<forall>ip. \<not> listed (bl_nets K) b (cb_ignore_ip b) ip)"
    using ip_maps.empty [OF assms(1)] by (simp add: cfg m)
qed

lemma finish_build_no_alias:
  assumes "ip_maps (fst (bl_maps K)) (snd (bl_maps K)) (bl_nets K)" and "finish_build E K b = Inr (cfg, binds)" and "cb_ip_alias b = []"
  shows "cf_ip_alias cfg ip = None"
proof -
  have "cf_ip_alias cfg = im_get (bl_maps K) (make_ip_alias (bl_maps K) (bl_nets K) (close_all b))"
    using assms(2) by (auto simp: finish_build_def Let_def close_all_sets split: sum.splits)
  then show ?thesis
    using ip_maps.get_default [OF assms(1)] by (simp add: make_ip_alias_def close_all_sets assms(3) im_from_iter_def im_extend_def)
qed

section \<open>Witnesses\<close>

text \<open>Two files that include each other; the second has a rule between a group of its own.\<close>

definition conf_a :: path where "conf_a = Path True [''etc'', ''a.conf'']"

definition conf_b :: path where "conf_b = Path True [''etc'', ''b.conf'']"

definition circle_env :: load_env where
  "circle_env =
     \<lparr>le_parse = (\<lambda>l. if l = ''conf-file /etc/b.conf'' then Some (ConfFile conf_b)
                     else if l = ''conf-file /etc/a.conf'' then Some (ConfFile conf_a)
                     else if l = ''group-begin lan'' then Some (GroupBegin ''lan'')
                     else if l = ''group-end'' then Some GroupEnd
                     else if l = ''nameserver /a/lan'' then Some (RuleItem (ForwardRule \<lparr>cd_domain = DSet ''a'', cd_config = ''lan''\<rparr>))
                     else None),
      le_parse_net = (\<lambda>_. None), le_parse_wildcard = (\<lambda>_. None), le_parse_name = (\<lambda>_. None), le_http_get = (\<lambda>_. None),
      le_exists = (\<lambda>p. p = conf_a \<or> p = conf_b), le_is_file = (\<lambda>p. p = conf_a \<or> p = conf_b),
      le_canonical = (\<lambda>p. if p = conf_a \<or> p = conf_b then Some p else None),
      le_lines = (\<lambda>p. if p = conf_a then Some [''conf-file /etc/b.conf''] else Some [''conf-file /etc/a.conf'']),
      le_read = (\<lambda>_. None), le_current_dir = None, le_exe_dir = None, le_glob = (\<lambda>_. None), le_dirs = (\<lambda>ds. ds)\<rparr>"

theorem loading_ends_witness:
  "\<exists>r. load_file circle_env (Suc (card {conf_a, conf_b})) conf_a (builder_default None) = Some r"
proof -
  have "q \<in> {conf_a, conf_b}" if "le_canonical circle_env p = Some q" for p q
    using that by (simp add: circle_env_def split: if_splits)
  then have "\<exists>r. load_file circle_env (Suc (card {conf_a, conf_b})) conf_a (builder_default None) = Some r \<and>
      (\<forall>b'. r = Inr b' \<longrightarrow> distinct (cb_loaded_files b') \<and> set (cb_loaded_files (builder_default None)) \<subseteq> set (cb_loaded_files b') \<and>
         set (cb_loaded_files b') \<subseteq> {conf_a, conf_b} \<and>
         (cb_conf_file (builder_default None) \<noteq> None \<longrightarrow> cb_conf_file b' = cb_conf_file (builder_default None)))"
    by (intro loading_ends) (simp_all add: builder_default_def)
  then show ?thesis by blast
qed

lemma circle_read:
  "map_option (map_sum id cb_loaded_files) (load_file circle_env 3 conf_a (builder_default None)) = Some (Inr [conf_b, conf_a])"
  by code_simp

definition group_lines :: "string list" where
  "group_lines = [''group-begin lan'', ''nameserver /a/lan'', ''group-end'', ''group-end'', ''nameserver /a/lan'']"

theorem rules_reach_their_group_witness:
  "\<exists>b. config_lines circle_env (\<lambda>_ b. Some (Inr b)) group_lines (builder_default None) = Some (Inr b) \<and>
     length (rg_forward_rules (group_of ''lan'' (close_all b))) = 1"
proof -
  have ok: "\<forall>l\<in>set group_lines. \<forall>v. le_parse circle_env l \<noteq> Some (ConfFile v)"
    by (simp add: group_lines_def circle_env_def)
  obtain b where b: "config_lines circle_env (\<lambda>_ b. Some (Inr b)) group_lines (builder_default None) = Some (Inr b)"
    using forward_rules.held_lines [OF ok] by blast
  have t: "rules_for ''lan'' (tagged [] (map (le_parse circle_env) group_lines)) =
      [ForwardRule \<lparr>cd_domain = DSet ''a'', cd_config = ''lan''\<rparr>]"
    by code_simp
  from rules_reach_their_group [OF ok b, of "''lan''"] b show ?thesis
    by (auto simp: Let_def t forward_rules_of_def dest: mset_eq_length)
qed

end
