(* ===== verification/Log_File.thy ===== *)
theory Log_File
  imports Rust_Text "HOL-Library.List_Lexorder" "HOL-Library.Char_ord" "HOL-Library.Sublist"
begin

text \<open>
  Log files that are rotated when they are full (\<open>MappedFile\<close> in \<^verbatim>\<open>src/src/infra/mapped_file.rs\<close>), the files of the log and of
  the audit.

  A directory maps file names to contents. A file is written to its end, by one writer, and all of a buffer at once.
\<close>

section \<open>File names\<close>

text \<open>A name at its last dot, unless it starts there: stem and extension.\<close>

definition split_dot :: "string \<Rightarrow> string \<times> string option" where
  "split_dot name =
     (let ext = takeWhile (\<lambda>c. c \<noteq> CHR ''.'') (rev name); rest = dropWhile (\<lambda>c. c \<noteq> CHR ''.'') (rev name)
      in if length rest \<le> 1 then (name, None) else (rev (tl rest), Some (rev ext)))"

abbreviation file_stem :: "string \<Rightarrow> string" where
  "file_stem name \<equiv> fst (split_dot name)"

abbreviation extension :: "string \<Rightarrow> string option" where
  "extension name \<equiv> snd (split_dot name)"

definition with_extension :: "string \<Rightarrow> string \<Rightarrow> string" where
  "with_extension ext name = file_stem name @ (if ext = [] then [] else ''.'' @ ext)"

section \<open>The file and its directory\<close>

type_synonym log_dir = "(string, bytes) hmap"

record mapped_file =
  mf_num :: "nat option"
  mf_size :: nat
  mf_path :: string
  mf_open :: bool
  mf_len :: nat
  mf_preamble :: "bytes option"

definition mf_new :: "string \<Rightarrow> nat \<Rightarrow> nat option \<Rightarrow> mapped_file" where
  "mf_new path size' num = \<lparr>mf_num = num, mf_size = size', mf_path = path, mf_open = False, mf_len = 0, mf_preamble = None\<rparr>"

definition mf_length :: "mapped_file \<Rightarrow> log_dir \<Rightarrow> nat" where
  "mf_length m d =
     (if mf_len m > 0 \<or> mf_open m then mf_len m
      else (case map_of d (mf_path m) of Some bs \<Rightarrow> length bs | None \<Rightarrow> 0))"

definition is_full :: "mapped_file \<Rightarrow> log_dir \<Rightarrow> bool" where
  "is_full m d \<longleftrightarrow> mf_length m d \<ge> mf_size m"

definition is_mapped :: "mapped_file \<Rightarrow> string \<Rightarrow> bool" where
  "is_mapped m name \<longleftrightarrow> extension name = extension (mf_path m) \<and> prefix (file_stem (mf_path m)) name"

definition mapped_files :: "mapped_file \<Rightarrow> log_dir \<Rightarrow> string list" where
  "mapped_files m d = rev (sort (filter (is_mapped m) (map fst d)))"

definition remove_files :: "mapped_file \<Rightarrow> log_dir \<Rightarrow> mapped_file \<times> log_dir" where
  "remove_files m d = (m\<lparr>mf_open := False\<rparr>, fold AList.delete (mapped_files m d) d)"

text \<open>The name for a backup at a date.\<close>

definition backup_name :: "string \<Rightarrow> string \<Rightarrow> string" where
  "backup_name date path =
     (let name = file_stem path @ ''-'' @ date
      in case extension path of Some ext \<Rightarrow> with_extension ext name | None \<Rightarrow> name)"

text \<open>\<open>None\<close>: there is no file to copy.\<close>

definition backup_files :: "string \<Rightarrow> mapped_file \<Rightarrow> log_dir \<Rightarrow> log_dir option" where
  "backup_files date m d =
     (case map_of d (mf_path m) of
        None \<Rightarrow> None
      | Some bs \<Rightarrow>
          (let d = AList.update (backup_name date (mf_path m)) bs d;
               files = mapped_files m d
           in Some (case mf_num m of
                Some n \<Rightarrow> if n \<le> length files then fold AList.delete (drop n files) d else d
              | None \<Rightarrow> d)))"

definition open_log :: "mapped_file \<Rightarrow> log_dir \<Rightarrow> mapped_file \<times> log_dir" where
  "open_log m d =
     (let bs = (case map_of d (mf_path m) of Some bs \<Rightarrow> if is_full m d then [] else bs | None \<Rightarrow> []);
          bs = (if bs = [] then (case mf_preamble m of Some p \<Rightarrow> p | None \<Rightarrow> []) else bs)
      in (m\<lparr>mf_open := True, mf_len := length bs\<rparr>, AList.update (mf_path m) bs d))"

definition get_active_file :: "string \<Rightarrow> mapped_file \<Rightarrow> log_dir \<Rightarrow> (mapped_file \<times> log_dir) option" where
  "get_active_file date m d =
     (case (if is_full m d then backup_files date m d else Some d) of
        None \<Rightarrow> None
      | Some d \<Rightarrow> Some (if mf_open m then (m, d) else open_log m d))"

definition mf_flush :: "mapped_file \<Rightarrow> log_dir \<Rightarrow> mapped_file" where
  "mf_flush m d = (if mf_open m \<and> is_full (m\<lparr>mf_open := False\<rparr>) d then m\<lparr>mf_open := False\<rparr> else m)"

definition mf_write :: "string \<Rightarrow> bytes \<Rightarrow> mapped_file \<times> log_dir \<Rightarrow> (mapped_file \<times> log_dir) option" where
  "mf_write date buf = (\<lambda>(m, d).
     (case get_active_file date m d of
        None \<Rightarrow> None
      | Some (m, d) \<Rightarrow>
          (let d = AList.update (mf_path m) ((case map_of d (mf_path m) of Some bs \<Rightarrow> bs | None \<Rightarrow> []) @ buf) d;
               m = m\<lparr>mf_len := mf_len m + length buf\<rparr>
           in Some (if is_full m d then mf_flush m d else m, d))))"

fun mf_writes :: "(string \<times> bytes) list \<Rightarrow> mapped_file \<times> log_dir \<Rightarrow> (mapped_file \<times> log_dir) option" where
  "mf_writes [] s = Some s"
| "mf_writes ((date, buf) # ws) s = Option.bind (mf_write date buf s) (mf_writes ws)"

section \<open>Findings\<close>

text \<open>
  The backups of a log are told by the start of their name alone: rotating \<open>smartdns.log\<close> deletes the backups of
  \<open>smartdns-audit.log\<close>, which take the places of its own.
\<close>

lemma rotation_deletes_audit:
  "map_option (map fst \<circ> snd)
     (mf_write ''2'' [1] (mf_new ''s.log'' 1 (Some 2), [(''s.log'', [0]), (''s-audit.log'', [0]), (''s-audit-1.log'', [0])])) =
   Some [''s.log'', ''s-audit.log'']"
  by code_simp

text \<open>A stem with a dot: the backup of \<open>dns.lan.log\<close> is written over \<open>dns.log\<close>.\<close>

lemma dotted_backup: "backup_name ''2'' ''dns.lan.log'' = ''dns.log''"
  by code_simp

section \<open>How many files there are\<close>

text \<open>A path with one dot, inside; a directory in which the files that count are the path and its backups.\<close>

definition log_path :: "string \<Rightarrow> bool" where
  "log_path p \<longleftrightarrow> (\<exists>stem ext. p = stem @ ''.'' @ ext \<and> stem \<noteq> [] \<and> ext \<noteq> [] \<and> CHR ''.'' \<notin> set stem \<and> CHR ''.'' \<notin> set ext)"

definition counted :: "mapped_file \<Rightarrow> log_dir \<Rightarrow> string set" where
  "counted m d = {x \<in> fst ` set d. is_mapped m x}"

lemma takeWhile_last: "\<forall>x\<in>set xs. P x \<Longrightarrow> \<not> P a \<Longrightarrow> takeWhile P (xs @ a # ys) = xs"
  by (induction xs) auto

lemma dropWhile_last: "\<forall>x\<in>set xs. P x \<Longrightarrow> \<not> P a \<Longrightarrow> dropWhile P (xs @ a # ys) = a # ys"
  by (induction xs) auto

lemma split_dot_dotted:
  assumes "stem \<noteq> []" "CHR ''.'' \<notin> set ext"
  shows "split_dot (stem @ CHR ''.'' # ext) = (stem, Some ext)"
proof -
  have "\<forall>c\<in>set (rev ext). c \<noteq> CHR ''.''" using assms(2) by auto
  then have "takeWhile (\<lambda>c. c \<noteq> CHR ''.'') (rev ext @ CHR ''.'' # rev stem) = rev ext"
    "dropWhile (\<lambda>c. c \<noteq> CHR ''.'') (rev ext @ CHR ''.'' # rev stem) = CHR ''.'' # rev stem"
    by (intro takeWhile_last dropWhile_last; simp)+
  with assms(1) show ?thesis by (cases "rev stem") (simp_all add: split_dot_def Let_def)
qed

lemma split_dot_plain: "CHR ''.'' \<notin> set name \<Longrightarrow> split_dot name = (name, None)"
proof -
  assume "CHR ''.'' \<notin> set name"
  then have "length (dropWhile (\<lambda>c. c \<noteq> CHR ''.'') (rev name)) \<le> 1"
    by (subst dropWhile_eq_Nil_conv [THEN iffD2]) auto
  then show ?thesis by (simp add: split_dot_def Let_def)
qed

lemma backup_name_eq:
  assumes "stem \<noteq> []" "ext \<noteq> []" "CHR ''.'' \<notin> set stem" "CHR ''.'' \<notin> set ext" "CHR ''.'' \<notin> set date"
  shows "backup_name date (stem @ CHR ''.'' # ext) = stem @ ''-'' @ date @ ''.'' @ ext"
  using assms by (simp add: backup_name_def split_dot_dotted with_extension_def split_dot_plain Let_def)

lemma backup_mapped:
  assumes "log_path (mf_path m)" "CHR ''.'' \<notin> set date"
  shows "is_mapped m (backup_name date (mf_path m))" "prefix (file_stem (mf_path m) @ ''-'') (backup_name date (mf_path m))"
proof -
  obtain stem ext where p: "mf_path m = stem @ CHR ''.'' # ext" "stem \<noteq> []" "ext \<noteq> []" "CHR ''.'' \<notin> set stem" "CHR ''.'' \<notin> set ext"
    using assms(1) by (auto simp: log_path_def)
  note b = backup_name_eq [OF p(2-5) assms(2)]
  have "split_dot (stem @ ''-'' @ date @ ''.'' @ ext) = (stem @ ''-'' @ date, Some ext)"
    using split_dot_dotted [of "stem @ ''-'' @ date" ext] p by simp
  then show "is_mapped m (backup_name date (mf_path m))" "prefix (file_stem (mf_path m) @ ''-'') (backup_name date (mf_path m))"
    using p b by (simp_all add: is_mapped_def split_dot_dotted)
qed

lemma path_mapped: "log_path (mf_path m) \<Longrightarrow> is_mapped m (mf_path m)"
  by (auto simp: log_path_def is_mapped_def split_dot_dotted)

lemma backup_before_path:
  assumes "log_path (mf_path m)" "prefix (file_stem (mf_path m) @ ''-'') x"
  shows "x < mf_path m"
proof -
  obtain stem ext where p: "mf_path m = stem @ CHR ''.'' # ext" "stem \<noteq> []" "CHR ''.'' \<notin> set ext"
    using assms(1) by (auto simp: log_path_def)
  have "stem @ CHR ''-'' # ys < stem @ CHR ''.'' # zs" for ys zs
    by (induction stem) (auto simp: less_char_def)
  with assms(2) p show ?thesis by (auto simp: split_dot_dotted prefix_def)
qed

text \<open>What writing keeps: at most \<open>n\<close> files are counted, the path is one of them if there is any, and it is there while it is written.\<close>

definition own_dir :: "mapped_file \<Rightarrow> log_dir \<Rightarrow> bool" where
  "own_dir m d \<longleftrightarrow> hmap_ok d \<and> (\<forall>x\<in>counted m d. x = mf_path m \<or> prefix (file_stem (mf_path m) @ ''-'') x)"

definition log_inv :: "nat \<Rightarrow> mapped_file \<Rightarrow> log_dir \<Rightarrow> bool" where
  "log_inv n m d \<longleftrightarrow>
     mf_num m = Some n \<and> 0 < n \<and> 0 < mf_size m \<and> log_path (mf_path m) \<and> own_dir m d \<and> card (counted m d) \<le> n \<and>
     (counted m d \<noteq> {} \<or> mf_open m \<or> 0 < mf_len m \<longrightarrow> mf_path m \<in> fst ` set d)"

lemma counted_finite: "finite (counted m d)"
  by (simp add: counted_def)

lemma mapped_files_set: "set (mapped_files m d) = counted m d"
  by (auto simp: mapped_files_def counted_def)

lemma mapped_files_distinct: "hmap_ok d \<Longrightarrow> distinct (mapped_files m d)"
  by (simp add: mapped_files_def hmap_ok_def)

lemma mapped_files_hd:
  assumes "own_dir m d" "log_path (mf_path m)" "mf_path m \<in> fst ` set d"
  shows "\<exists>xs. mapped_files m d = mf_path m # xs"
proof -
  have c: "mf_path m \<in> counted m d" using assms path_mapped by (simp add: counted_def)
  have le: "x \<le> mf_path m" if "x \<in> counted m d" for x
    using that assms(1) backup_before_path [OF assms(2), of x] by (auto simp: own_dir_def)
  obtain y ys where y: "mapped_files m d = y # ys"
    using c mapped_files_set [of m d] by (cases "mapped_files m d") auto
  have "sorted (rev (mapped_files m d))" by (simp add: mapped_files_def)
  then have "\<forall>x\<in>set ys. x \<le> y" using y by (simp add: sorted_append)
  moreover have "y \<in> counted m d" "mf_path m \<in> set (y # ys)" using c y mapped_files_set [of m d] by auto
  ultimately have "y = mf_path m" using le [of y] by (auto intro: antisym)
  with y show ?thesis by blast
qed

lemma delete_keys: "fst ` set (fold AList.delete ks d) = fst ` set d - set ks"
proof (induction ks arbitrary: d)
  case (Cons k ks)
  have "fst ` set (AList.delete k d) = fst ` set d - {k}" by (induction d) auto
  with Cons show ?case by auto
qed simp

lemma delete_other: "x \<notin> set ks \<Longrightarrow> map_of (fold AList.delete ks d) x = map_of d x"
  by (induction ks arbitrary: d) auto

lemma delete_ok: "hmap_ok d \<Longrightarrow> hmap_ok (fold AList.delete ks d)"
  by (induction ks arbitrary: d) auto

lemma update_keys: "fst ` set (AList.update k v d) = insert k (fst ` set d)"
  by (simp add: dom_update)

lemma counted_update: "counted m (AList.update k v d) = (if is_mapped m k then insert k (counted m d) else counted m d)"
  by (auto simp: counted_def update_keys)

lemma counted_delete: "counted m (fold AList.delete ks d) = counted m d - set ks"
  by (auto simp: counted_def delete_keys)

text \<open>A backup leaves at most \<open>n\<close> files, the path among them, and touches no file that does not count.\<close>

lemma backup_files_ok:
  assumes inv: "log_inv n m d" and date: "CHR ''.'' \<notin> set date" and path: "mf_path m \<in> fst ` set d"
  shows "\<exists>d'. backup_files date m d = Some d' \<and> log_inv n m d' \<and> mf_path m \<in> fst ` set d' \<and>
    (\<forall>x. \<not> is_mapped m x \<longrightarrow> map_of d' x = map_of d x)"
proof -
  obtain bs where bs: "map_of d (mf_path m) = Some bs"
    using path by (metis map_of_eq_None_iff not_None_eq)
  let ?b = "backup_name date (mf_path m)" and ?d = "AList.update (backup_name date (mf_path m)) bs d"
  let ?files = "mapped_files m ?d" and ?d' = "fold AList.delete (drop n (mapped_files m ?d)) ?d"
  have n: "mf_num m = Some n" "0 < n" and lp: "log_path (mf_path m)" and ok: "hmap_ok d" and own: "own_dir m d"
    using inv by (simp_all add: log_inv_def own_dir_def)
  note bm = backup_mapped [OF lp date]
  have own': "own_dir m ?d" using own bm by (auto simp: own_dir_def counted_update)
  obtain xs where xs: "?files = mf_path m # xs"
    using mapped_files_hd [OF own' lp] path by (auto simp: update_keys)
  have dist: "distinct ?files" using own' by (intro mapped_files_distinct) (simp add: own_dir_def)
  have eq: "backup_files date m d = Some ?d'"
    using bs n by (auto simp: backup_files_def Let_def)
  have c: "counted m ?d' = set (take n ?files)"
  proof -
    have "counted m ?d' = set ?files - set (drop n ?files)" by (simp add: counted_delete mapped_files_set)
    also have "\<dots> = set (take n ?files)"
      using set_take_disj_set_drop_if_distinct [OF dist order_refl, of n] set_append [of "take n ?files" "drop n ?files"] by auto
    finally show ?thesis .
  qed
  have in_take: "mf_path m \<in> set (take n ?files)" using xs n(2) by (cases n) simp_all
  then have p': "mf_path m \<in> fst ` set ?d'" using c by (auto simp: counted_def)
  have "card (counted m ?d') \<le> n"
    unfolding c using card_length [of "take n ?files"] by simp
  moreover have "own_dir m ?d'"
    using own' by (auto simp: own_dir_def counted_delete delete_ok)
  moreover have "map_of ?d' x = map_of d x" if "\<not> is_mapped m x" for x
  proof -
    have "x \<notin> set (drop n ?files)" using that mapped_files_set [of m ?d] by (auto simp: counted_def dest: in_set_dropD)
    moreover have "x \<noteq> ?b" using that bm by auto
    ultimately show ?thesis by (simp add: delete_other update_conv)
  qed
  ultimately show ?thesis using eq p' inv by (auto simp: log_inv_def)
qed

lemma path_cong:
  assumes "mf_path m' = mf_path m"
  shows "is_mapped m' = is_mapped m" "counted m' = counted m" "own_dir m' = own_dir m"
  using assms by (auto simp: fun_eq_iff is_mapped_def counted_def own_dir_def)

lemma log_inv_write:
  assumes inv: "log_inv n m d" and m': "mf_path m' = mf_path m" "mf_num m' = mf_num m" "mf_size m' = mf_size m"
  shows "log_inv n m' (AList.update (mf_path m) bs d)"
proof -
  have lp: "log_path (mf_path m)" and n: "0 < n" and c: "card (counted m d) \<le> n" using inv by (simp_all add: log_inv_def)
  have eq: "counted m (AList.update (mf_path m) bs d) = insert (mf_path m) (counted m d)"
    by (simp add: counted_update path_mapped [OF lp])
  have "card (insert (mf_path m) (counted m d)) \<le> n"
  proof (cases "counted m d = {}")
    case False
    then have "mf_path m \<in> counted m d" using inv path_mapped [OF lp] by (auto simp: log_inv_def counted_def)
    with c show ?thesis by (simp add: insert_absorb)
  qed (use n in simp)
  moreover have "own_dir m (AList.update (mf_path m) bs d)"
    using inv by (auto simp: log_inv_def own_dir_def eq)
  ultimately show ?thesis
    using inv m' by (auto simp: log_inv_def path_cong [OF m'(1)] eq update_keys)
qed

text \<open>One write: it succeeds, ends the file with what was written and leaves files that do not count alone.\<close>

lemma mf_write_ok:
  assumes inv: "log_inv n m d" and date: "CHR ''.'' \<notin> set date"
  shows "\<exists>m' d' bs. mf_write date buf (m, d) = Some (m', d') \<and> log_inv n m' d' \<and> mf_path m' = mf_path m \<and>
    map_of d' (mf_path m) = Some (bs @ buf) \<and> (\<forall>x. \<not> is_mapped m x \<longrightarrow> map_of d' x = map_of d x)"
proof -
  obtain d1 where d1: "(if is_full m d then backup_files date m d else Some d) = Some d1"
    and i1: "log_inv n m d1" and o1: "\<forall>x. \<not> is_mapped m x \<longrightarrow> map_of d1 x = map_of d x"
  proof (cases "is_full m d")
    case True
    have "mf_path m \<in> fst ` set d"
    proof (rule ccontr)
      assume no: "mf_path m \<notin> fst ` set d"
      with inv have "mf_len m = 0" "\<not> mf_open m" by (auto simp: log_inv_def)
      moreover have "map_of d (mf_path m) = None" using no by (simp add: map_of_eq_None_iff)
      ultimately show False using True inv by (simp add: is_full_def mf_length_def log_inv_def)
    qed
    from backup_files_ok [OF inv date this] True that show ?thesis by auto
  next
    case False
    with that [of d] inv show ?thesis by simp
  qed
  obtain m2 d2 where m2: "get_active_file date m d = Some (m2, d2)"
    and i2: "log_inv n m2 d2" and p2: "mf_path m2 = mf_path m" "mf_num m2 = mf_num m" "mf_size m2 = mf_size m"
    and o2: "\<forall>x. \<not> is_mapped m x \<longrightarrow> map_of d2 x = map_of d x"
  proof (cases "mf_open m")
    case True
    with d1 i1 o1 that [of m d1] show ?thesis by (simp add: get_active_file_def)
  next
    case False
    obtain bs where bs: "open_log m d1 = (m\<lparr>mf_open := True, mf_len := length bs\<rparr>, AList.update (mf_path m) bs d1)"
      by (auto simp: open_log_def Let_def)
    have "\<not> is_mapped m x \<Longrightarrow> x \<noteq> mf_path m" for x using path_mapped inv by (auto simp: log_inv_def)
    with False d1 bs o1 that [of "m\<lparr>mf_open := True, mf_len := length bs\<rparr>" "AList.update (mf_path m) bs d1"]
    show ?thesis
      using log_inv_write [OF i1, of "m\<lparr>mf_open := True, mf_len := length bs\<rparr>" bs]
      by (simp add: get_active_file_def update_conv)
  qed
  define d3 where "d3 = AList.update (mf_path m2) ((case map_of d2 (mf_path m2) of Some bs \<Rightarrow> bs | None \<Rightarrow> []) @ buf) d2"
  define m3 where "m3 = m2\<lparr>mf_len := mf_len m2 + length buf\<rparr>"
  define m4 where "m4 = (if is_full m3 d3 then mf_flush m3 d3 else m3)"
  have m4: "mf_path m4 = mf_path m2" "mf_num m4 = mf_num m2" "mf_size m4 = mf_size m2"
    by (simp_all add: m4_def m3_def mf_flush_def)
  have "mf_write date buf (m, d) = Some (m4, d3)"
    by (simp add: mf_write_def m2 Let_def d3_def m3_def m4_def)
  moreover have "log_inv n m4 d3" unfolding d3_def by (rule log_inv_write [OF i2 m4])
  moreover have "\<not> is_mapped m x \<Longrightarrow> map_of d3 x = map_of d x" for x
    using o2 path_mapped inv p2 by (auto simp: d3_def update_conv log_inv_def)
  ultimately show ?thesis using m4 p2 by (auto simp: d3_def update_conv)
qed

lemma mf_writes_ok:
  assumes "log_inv n m d" "\<forall>(date, buf)\<in>set ws. CHR ''.'' \<notin> set date"
  shows "\<exists>m' d'. mf_writes ws (m, d) = Some (m', d') \<and> log_inv n m' d' \<and> mf_path m' = mf_path m \<and>
    (ws \<noteq> [] \<longrightarrow> (\<exists>bs. map_of d' (mf_path m) = Some (bs @ snd (last ws)))) \<and>
    (\<forall>x. \<not> is_mapped m x \<longrightarrow> map_of d' x = map_of d x)"
  using assms
proof (induction ws arbitrary: m d)
  case (Cons w ws)
  obtain date buf where w: "w = (date, buf)" by (cases w)
  obtain m1 d1 bs where 1: "mf_write date buf (m, d) = Some (m1, d1)" "log_inv n m1 d1" "mf_path m1 = mf_path m"
    "map_of d1 (mf_path m) = Some (bs @ buf)" "\<forall>x. \<not> is_mapped m x \<longrightarrow> map_of d1 x = map_of d x"
    using mf_write_ok [OF Cons.prems(1), of date buf] Cons.prems(2) w by auto
  obtain m2 d2 where 2: "mf_writes ws (m1, d1) = Some (m2, d2)" "log_inv n m2 d2" "mf_path m2 = mf_path m1"
    "ws \<noteq> [] \<longrightarrow> (\<exists>bs. map_of d2 (mf_path m1) = Some (bs @ snd (last ws)))" "\<forall>x. \<not> is_mapped m1 x \<longrightarrow> map_of d2 x = map_of d1 x"
    using Cons.IH [OF 1(2)] Cons.prems(2) by auto
  have "ws = [] \<Longrightarrow> d2 = d1" using 2(1) by simp
  with 1 2 show ?case by (cases "ws = []") (auto simp: w path_cong [OF 1(3)])
qed simp


definition example_writes :: "(string \<times> bytes) list" where
  "example_writes = [(''1'', [1]), (''2'', [2]), (''3'', [3]), (''4'', [4])]"


lemma example_rotation:
  "map_option snd (mf_writes example_writes (mf_new ''s.log'' 1 (Some 2), [(''other'', [9])])) =
     Some [(''other'', [9]), (''s.log'', [4]), (''s-4.log'', [3])]"
  by code_simp

end
