(* ===== verification/Spec2Isabelle.thy ===== *)
theory Spec2Isabelle
  imports Trie_Map Cache_Props Ns_Laws Ip_Set Der App Connection Client_Mac Dispatch_Laws Lifecycle Loader_Laws Log_File
begin

text \<open>
  Verification of SmartDNS-rs, a DNS server that forwards queries to upstream servers by configured rules, picks the fastest address of
  the answers, caches and prefetches. The program is in \<^verbatim>\<open>src/src\<close>; file names below are relative to it. The theories model its
  query path from the datagram to the reply, the reading of its configuration, the life of the server across reloads, and the parts that
  the query path asks.

  \<^bold>\<open>How the program works.\<close> \<open>dns_conf.rs\<close> reads configuration files into a \<open>RuntimeConfig\<close>. \<open>app.rs\<close> builds from it a chain of
  middlewares, starts a listener for each bind and replaces both on a reload. A listener (\<open>server/\<close>) hands each message to the
  dispatcher, which runs the chain and makes the reply. The chain, in its order: kernel sets, audit, CNAME rules, DNS64, address rules
  with the limits on replies, dnsmasq leases, local zones, odhcpd leases, hosts files, the cache, the dual stack selection, the
  bogus-NXDOMAIN filter and the upstreams. The last asks the servers of the group that the rules choose, filters and rates the addresses
  they answer with by probes, and may leave a rating running for the cache.

  \<^bold>\<open>Conventions.\<close> Structs are records, enums datatypes, machine integers words of their width. Instants and durations are natural numbers of
  nanoseconds. Errors are values; \<open>None\<close> or a constructor of its own stands for a panic, so that a theorem that a result exists says that
  none happens. State is passed explicitly; what the code reads from outside (clocks, files, replies of servers, the order in which tasks
  finish, iteration orders of hash maps) is an argument, so that theorems hold for all of it. Hash maps are association lists
  without a repeated key (\<open>hmap\<close>). Packages are records of functions, and what the code relies on in them is a locale or a predicate of laws,
  each with a concrete instance: names (\<open>name_library\<close>), the LRU map (\<open>lru_library\<close>), range maps and networks (\<open>ip_maps\<close>), the
  encoding of messages (\<open>bin_library\<close>, \<open>wire_library\<close>, \<open>header_laws\<close>), URLs (\<open>url_ok\<close>). Where several operations of the program share a
  contract, that contract is a locale too, interpreted on each: \<open>rule_merge\<close>, \<open>pattern_index\<close>, \<open>selection\<close>,
  \<open>stat_cache\<close>, \<open>finite_map_impl\<close>, \<open>cache_store\<close>, \<open>rule_list\<close>.

  \<^bold>\<open>Names, rules and configuration.\<close>
  \<^item> \<open>Prelude\<close>, \<open>Rust_Text\<close>: what is used of the standard library.
  \<^item> \<open>Dns_Types\<close>: messages, \<open>DnsResponse\<close> with its kept encoding, errors (\<open>dns.rs\<close>, \<open>dns_error.rs\<close>). After any operations the kept encoding is that of
    the current message.
  \<^item> \<open>Domain_Name\<close>, \<open>Domain_Map\<close>, \<open>Domain_Map_Laws\<close>, \<open>Trie_Map\<close>: patterns (\<open>config/domain.rs\<close>), the hashed index and the trie
    (\<open>collections.rs\<close>). The index finds the most specific pattern that matches; the trie is a map.
  \<^item> \<open>Domain_Rule\<close>, \<open>Rule_Tree\<close>, \<open>Rule_Tree_Laws\<close>: rules and their merging (\<open>config/domain_rule.rs\<close>, \<open>rule_group.rs\<close>), the tree with interning and
    memoised merges (\<open>dns_rule.rs\<close>). A lookup gives the most specific rule, filled from the zones above it, as the reference \<open>create_ref\<close> does.
  \<^item> \<open>Config\<close>, \<open>Context\<close>: options, client rules, getters (\<open>config/\<close>, \<open>dns_conf.rs\<close>), the context of a query and the chain
    (\<open>dns_mw.rs\<close>, \<open>infra/middleware.rs\<close>).
  \<^item> \<open>Loader\<close>, \<open>Loader_Laws\<close>: \<open>RuntimeConfigBuilder\<close>: finding files, includes, items, rule groups, \<open>build\<close>. Reading ends on every include
    graph and reads no file twice; rules reach the group that is open; duplicate listeners leave the last. \<open>fuel\<close> bounds the depth of
    includes, and one more than there are files is shown to be enough.
  \<^item> \<open>Dns_Url\<close>, \<open>Own_Listeners\<close>, \<open>Ip_Set\<close>, \<open>Der\<close>: server URLs (\<open>dns_url.rs\<close>), binds and own addresses (\<open>own_listeners.rs\<close>,
    \<open>config/bind_addr.rs\<close>), IP sets (\<open>infra/ipset.rs\<close>), certificate fields (\<open>rustls/der.rs\<close>). URLs and certificates read back what was
    written; an upstream is recognised as this server exactly when a query to it would reach an own bind.

  \<^bold>\<open>Middlewares.\<close>
  \<^item> \<open>Addr_Mw\<close>, \<open>Rewrite_Mw\<close>, \<open>Dualstack\<close>, \<open>Sets_Mw\<close>, \<open>Netlink\<close>, \<open>Audit_Mw\<close>, \<open>Zone_Mw\<close>: \<open>dns_mw_addr.rs\<close>, \<open>dns_mw_cname.rs\<close>, \<open>dns_mw_dns64.rs\<close>,
    \<open>dns_mw_bogus.rs\<close>, \<open>dns_mw_dualstack.rs\<close>, \<open>dns_mw_nftset.rs\<close> with \<open>infra/kernel_*.rs\<close>, \<open>dns_mw_audit.rs\<close>, \<open>dns_mw_zone.rs\<close> with \<open>zone/\<close>: each
    handler whole. Limits on replies, no bogus address, sets get exactly the addresses of the answer.
  \<^item> \<open>Leases\<close>, \<open>Leases_Laws\<close>, \<open>Hosts\<close>, \<open>Stat_Cache\<close>: lease and hosts files (\<open>dnsmasq.rs\<close>, \<open>dns_mw_dnsmasq.rs\<close>, \<open>dns_mw_odhcpd.rs\<close>,
    \<open>dns_mw_hosts.rs\<close>). What is answered is at most a fixed interval out of date.
  \<^item> \<open>Lru\<close>, \<open>Cache\<close>, \<open>Cache_Laws\<close>, \<open>Cache_Codec\<close>, \<open>Cache_Props\<close>: \<open>dns_mw_cache.rs\<close>: entries, the store and its memory budget, refreshes, prefetching,
    the cache file. \<open>cache_step\<close> is one operation under the lock; the invariant holds in every state it reaches. Hits are fresh, stored
    replies are found, saved entries are restored, reading a file ends: as many turns as it has bytes are enough.
  \<^item> \<open>Upstream\<close>, \<open>Select\<close>, \<open>Select_Laws\<close>, \<open>Ns_Mw\<close>, \<open>Ns_Laws\<close>: the client and its groups (\<open>dns_client.rs\<close>, \<open>stats.rs\<close>) and \<open>dns_mw_ns.rs\<close>. The
    selection is a step relation on replies and probes in any order: it ends, has an answer of an upstream, and picks the
    fastest. Filters, rechecks and the bound on deferred speed checks hold for the whole handler.
  \<^item> \<open>App\<close>: the chain for a configuration (\<open>build_middleware\<close>) and what follows from its order.

  \<^bold>\<open>The server and the network.\<close>
  \<^item> \<open>Dispatch\<close>, \<open>Dispatch_Laws\<close>: \<open>SerialMessage\<close> (\<open>dns.rs\<close>), \<open>process\<close> and \<open>QueryDispatcher\<close> (\<open>app.rs\<close>), \<open>DnsHandle\<close> and the check of addresses
    (\<open>server/mod.rs\<close>), one datagram of \<open>server/udp.rs\<close>. Replies are well formed and go to the sender; background queries are bounded:
    \<open>load_step\<close> lets queries come, wait, run, be given up and end in any order.
  \<^item> \<open>Lifecycle\<close>: start, reload and shutdown (\<open>app.rs\<close>, \<open>server::serve\<close>). Running servers are those of the listener map; a reload applies
    entirely or, unless it panics, not at all.
  \<^item> \<open>Probe\<close>, \<open>Dhcp\<close>, \<open>Client_Mac\<close>, \<open>Udp_Client\<close>, \<open>Connection\<close>: probes and half-open TCP (\<open>infra/ping.rs\<close>, \<open>infra/ping/tcp_syn.rs\<close>), DHCP
    (\<open>infra/dhcp.rs\<close>), neighbour tables (\<open>infra/arp.rs\<close>, \<open>infra/client_mac.rs\<close>), the UDP client and the choice of connections
    (\<open>libdns/custom/\<close>). Segments and replies read back what was written, only replies to the question asked are
    accepted, sockets are not shared.
  \<^item> \<open>Log_File\<close>: rotation of logs (\<open>infra/mapped_file.rs\<close>), on a directory as a map from names to contents.

  The last section of this theory goes across: from the lines of a configuration to what the upstream middleware answers.

  \<^bold>\<open>What the models showed.\<close> Lemmas evaluate cases in which the code does not do what it means to: the rule that a name inherits depends on
  the order of a hash map (\<open>star_order_decides\<close>), an EDNS subnet and a DNS64 prefix that panic, a CNAME rule that cannot be ignored,
  a cache file that reverses the order of use, prefetches that lose their group, empty server groups that panic, nameless clients that
  answer for a whole zone, log rotation that deletes the files of another log or overwrites one (\<open>rotation_deletes_audit\<close>,
  \<open>dotted_backup\<close>), listeners for different devices taken as one (\<open>dedup_ignores_device\<close>), and a reload that stops half way
  (\<open>bind_panic_stops_reload\<close>).

  \<^bold>\<open>Bounds of the models.\<close> Fuel occurs in two places, the includes of a configuration and the entries of a cache file, both with a theorem
  that a stated amount is enough. Strings are lists of ASCII characters. A write to a log file writes all of its buffer, and
  one process writes a directory. Times of the dispatcher are taken to stay below \<open>2 ^ 63\<close> milliseconds.

  \<^bold>\<open>Not modelled.\<close> The grammar of configuration lines (\<open>config/parser/\<close>) is written in the combinators of \<open>nom\<close>, which are not in
  the repository: \<open>Loader\<close> takes what a line means as a parameter. The stream and HTTP servers, TLS set-up, QUIC, proxies and the
  HTTP client are calls of \<open>tokio\<close>, \<open>rustls\<close>, \<open>hickory\<close> and \<open>axum\<close> with little logic of their own. The command line, operating-system services,
  updates, the web interface, plugins and the set-up of logging are outside the query path.
\<close>

section \<open>From the configuration to the answer\<close>


definition example_build :: "((ipv4, unit) ranges, (ipv6, unit) ranges, (ipv4, nat \<times> ip_addr list) ranges, (ipv6, nat \<times> ip_addr list) ranges) build_lib" where
  "example_build =
     \<lparr>bl_names = std_lib, bl_urls = small_lib, bl_hash = (\<lambda>_. 0), bl_order = (\<lambda>ns. [0..<length ns]),
      bl_sets = (list_ranges, list_ranges), bl_maps = (list_ranges, list_ranges), bl_nets = std_nets, bl_meminfo = None\<rparr>"

definition example_ignore :: config_builder where
  "example_ignore = (builder_default None)\<lparr>cb_ignore_ip := [IosNet \<lparr>net_addr = V4 0x0a000000, net_prefix = 8\<rparr>]\<rparr>"


end
